(* ===== verification/Prelude.thy ===== *)
theory Prelude
  imports Main "HOL-Library.Word" "HOL-Library.Multiset"
begin

text \<open>
  Shared vocabulary of the development: the outcome of a Rust function, its sequencing
  and loops, machine integers, vectors that panic when indexed out of range, and the
  generic lemmas on them that the component theories use.

  A Rust function that returns \<^verbatim>\<open>Result<T, E>\<close> has three outcomes: \<open>Ok\<close>, \<open>Err\<close>, and a
  panic (an index out of range, a failed \<^verbatim>\<open>assert!\<close>, an \<^verbatim>\<open>unwrap\<close> of \<^verbatim>\<open>None\<close>), which is the
  value \<open>Panic\<close> here. The operator \<^verbatim>\<open>?\<close> is \<open>rbind\<close>, a \<^verbatim>\<open>for\<close> loop whose body may return
  early is \<open>for_each\<close>, and \<^verbatim>\<open>iter().map(f).collect::<Result<Vec<_>, _>>()\<close> is \<open>rmap\<close>.
  \<^verbatim>\<open>debug_assert!\<close> is compiled away in a release build and is not an outcome.
\<close>

section \<open>Machine integers\<close>

type_synonym u8 = "8 word"
type_synonym u16 = "16 word"
type_synonym u32 = "32 word"
type_synonym u64 = "64 word"
type_synonym u128 = "128 word"

text \<open>
  The cast \<^verbatim>\<open>n as u16\<close> of a \<^verbatim>\<open>usize\<close>, and the addition of two \<^verbatim>\<open>u16\<close> values, which wraps in a
  release build; both on the numbers that the words denote.
\<close>

definition as_u16 :: "nat \<Rightarrow> nat" where
  "as_u16 n = n mod 65536"

abbreviation u16_max :: nat where
  "u16_max \<equiv> 65535"

section \<open>Outcomes\<close>

datatype ('a, 'e) result = Ok 'a | Err 'e | Panic

definition rbind :: "('a, 'e) result \<Rightarrow> ('a \<Rightarrow> ('b, 'e) result) \<Rightarrow> ('b, 'e) result" where
  "rbind r f = (case r of Ok x \<Rightarrow> f x | Err e \<Rightarrow> Err e | Panic \<Rightarrow> Panic)"

definition map_err :: "('e \<Rightarrow> 'f) \<Rightarrow> ('a, 'e) result \<Rightarrow> ('a, 'f) result" where
  "map_err f r = (case r of Ok x \<Rightarrow> Ok x | Err e \<Rightarrow> Err (f e) | Panic \<Rightarrow> Panic)"

definition ensure :: "bool \<Rightarrow> 'e \<Rightarrow> (unit, 'e) result" where
  "ensure b e = (if b then Ok () else Err e)"

definition assert :: "bool \<Rightarrow> (unit, 'e) result" where
  "assert b = (if b then Ok () else Panic)"

definition unwrap :: "'a option \<Rightarrow> ('a, 'e) result" where
  "unwrap opt = (case opt of Some x \<Rightarrow> Ok x | None \<Rightarrow> Panic)"

definition ok_or :: "'e \<Rightarrow> 'a option \<Rightarrow> ('a, 'e) result" where
  "ok_or e opt = (case opt of Some x \<Rightarrow> Ok x | None \<Rightarrow> Err e)"

definition vec_get :: "'a list \<Rightarrow> nat \<Rightarrow> 'a option" where
  "vec_get xs i = (if i < length xs then Some (xs ! i) else None)"

definition vec_index :: "'a list \<Rightarrow> nat \<Rightarrow> ('a, 'e) result" where
  "vec_index xs i = (if i < length xs then Ok (xs ! i) else Panic)"

primrec for_each :: "('a \<Rightarrow> 's \<Rightarrow> ('s, 'e) result) \<Rightarrow> 'a list \<Rightarrow> 's \<Rightarrow> ('s, 'e) result" where
  "for_each f [] s = Ok s"
| "for_each f (x # xs) s = rbind (f x s) (for_each f xs)"

definition for_all :: "('a \<Rightarrow> (unit, 'e) result) \<Rightarrow> 'a list \<Rightarrow> (unit, 'e) result" where
  "for_all f xs = for_each (\<lambda>x _. f x) xs ()"

primrec rmap :: "('a \<Rightarrow> ('b, 'e) result) \<Rightarrow> 'a list \<Rightarrow> ('b list, 'e) result" where
  "rmap f [] = Ok []"
| "rmap f (x # xs) = rbind (f x) (\<lambda>y. rbind (rmap f xs) (\<lambda>ys. Ok (y # ys)))"

text \<open>\<^verbatim>\<open>Iterator::position\<close> with a test that may panic.\<close>

fun position_from :: "nat \<Rightarrow> ('a \<Rightarrow> (bool, 'e) result) \<Rightarrow> 'a list \<Rightarrow> (nat option, 'e) result" where
  "position_from i test [] = Ok None"
| "position_from i test (x # xs) =
     rbind (test x) (\<lambda>found. if found then Ok (Some i) else position_from (Suc i) test xs)"

definition position :: "('a \<Rightarrow> (bool, 'e) result) \<Rightarrow> 'a list \<Rightarrow> (nat option, 'e) result" where
  "position test xs = position_from 0 test xs"

definition enumerate_from_zero :: "'a list \<Rightarrow> (nat \<times> 'a) list" where
  "enumerate_from_zero xs = List.enumerate 0 xs"

section \<open>Collections of the development\<close>

named_theorems rust_defs \<open>unfolding of the outcome operations\<close>
named_theorems ok_iff \<open>when a sequenced computation returns Ok\<close>
named_theorems no_panic \<open>when a sequenced computation does not panic\<close>

declare rbind_def [rust_defs] map_err_def [rust_defs] ensure_def [rust_defs]
  assert_def [rust_defs] unwrap_def [rust_defs] ok_or_def [rust_defs]
  vec_get_def [rust_defs] vec_index_def [rust_defs] for_all_def [rust_defs]

lemma rbind_simps [simp]:
  "rbind (Ok x) f = f x"
  "rbind (Err e) f = Err e"
  "rbind Panic f = Panic"
  by (simp_all add: rbind_def)

lemma rbind_assoc: "rbind (rbind r f) g = rbind r (\<lambda>x. rbind (f x) g)"
  by (cases r) simp_all

lemma rbind_cong [fundef_cong]:
  "r = r' \<Longrightarrow> (\<And>x. r' = Ok x \<Longrightarrow> f x = f' x) \<Longrightarrow> rbind r f = rbind r' f'"
  by (cases r') simp_all

lemma rbind_eq_Ok [ok_iff]: "rbind r f = Ok y \<longleftrightarrow> (\<exists>x. r = Ok x \<and> f x = Ok y)"
  by (cases r) simp_all

lemma rbind_eq_Panic [no_panic]:
  "rbind r f = Panic \<longleftrightarrow> r = Panic \<or> (\<exists>x. r = Ok x \<and> f x = Panic)"
  by (cases r) simp_all

lemma rbind_eq_Err: "rbind r f = Err e \<longleftrightarrow> r = Err e \<or> (\<exists>x. r = Ok x \<and> f x = Err e)"
  by (cases r) simp_all

lemma map_err_eq_Ok [ok_iff]: "map_err f r = Ok y \<longleftrightarrow> r = Ok y"
  by (cases r) (simp_all add: map_err_def)

lemma map_err_eq_Panic [no_panic]: "map_err f r = Panic \<longleftrightarrow> r = Panic"
  by (cases r) (simp_all add: map_err_def)

lemma ensure_eq_Ok [ok_iff]: "ensure b e = Ok u \<longleftrightarrow> b"
  by (simp add: ensure_def)

lemma ensure_not_Panic [simp, no_panic]: "ensure b e \<noteq> Panic"
  by (simp add: ensure_def)

lemma assert_eq_Ok [ok_iff]: "assert b = Ok u \<longleftrightarrow> b"
  by (simp add: assert_def)

lemma assert_eq_Panic [no_panic]: "assert b = Panic \<longleftrightarrow> \<not> b"
  by (simp add: assert_def)

lemma assert_True [simp]: "assert True = Ok ()"
  by (simp add: assert_def)

lemma unwrap_eq_Ok [ok_iff]: "unwrap opt = Ok x \<longleftrightarrow> opt = Some x"
  by (cases opt) (simp_all add: unwrap_def)

lemma unwrap_eq_Panic [no_panic]: "unwrap opt = Panic \<longleftrightarrow> opt = None"
  by (cases opt) (simp_all add: unwrap_def)

lemma unwrap_Some [simp]: "unwrap (Some x) = Ok x"
  by (simp add: unwrap_def)

lemma ok_or_eq_Ok [ok_iff]: "ok_or e opt = Ok x \<longleftrightarrow> opt = Some x"
  by (cases opt) (simp_all add: ok_or_def)

lemma ok_or_not_Panic [simp, no_panic]: "ok_or e opt \<noteq> Panic"
  by (cases opt) (simp_all add: ok_or_def)

lemma vec_get_eq_Some [ok_iff]: "vec_get xs i = Some x \<longleftrightarrow> i < length xs \<and> xs ! i = x"
  by (auto simp: vec_get_def)

lemma vec_index_eq_Ok [ok_iff]: "vec_index xs i = Ok x \<longleftrightarrow> i < length xs \<and> xs ! i = x"
  by (auto simp: vec_index_def)

lemma vec_index_eq_Panic [no_panic]: "vec_index xs i = Panic \<longleftrightarrow> length xs \<le> i"
  by (auto simp: vec_index_def)

lemma vec_index_less [simp]: "i < length xs \<Longrightarrow> vec_index xs i = Ok (xs ! i)"
  by (simp add: vec_index_def)

lemma vec_index_not_Err [simp]: "vec_index xs i \<noteq> Err e"
  by (simp add: vec_index_def)

subsection \<open>Loops\<close>

lemma for_each_append: "for_each f (xs @ ys) s = rbind (for_each f xs s) (for_each f ys)"
  by (induction xs arbitrary: s) (auto simp: rbind_assoc intro: rbind_cong)

text \<open>The Hoare-style rule of the loop: what every turn keeps holds at the end.\<close>

lemma for_each_invariant:
  assumes "for_each f xs s = Ok t" and "I s"
    and "\<And>x s s'. x \<in> set xs \<Longrightarrow> I s \<Longrightarrow> f x s = Ok s' \<Longrightarrow> I s'"
  shows "I t"
  using assms
proof (induction xs arbitrary: s)
  case Nil
  then show ?case by simp
next
  case (Cons x xs)
  then obtain s' where s': "f x s = Ok s'" and rest: "for_each f xs s' = Ok t"
    by (auto simp: rbind_eq_Ok)
  have "I s'" by (rule Cons.prems(3)[OF _ Cons.prems(2) s']) simp
  show ?case
  proof (rule Cons.IH[OF rest \<open>I s'\<close>])
    fix y u u'
    assume "y \<in> set xs" "I u" "f y u = Ok u'"
    then show "I u'" using Cons.prems(3) by (meson list.set_intros(2))
  qed
qed

lemma for_each_not_Panic:
  assumes "I s"
    and "\<And>x s. x \<in> set xs \<Longrightarrow> I s \<Longrightarrow> f x s \<noteq> Panic"
    and "\<And>x s s'. x \<in> set xs \<Longrightarrow> I s \<Longrightarrow> f x s = Ok s' \<Longrightarrow> I s'"
  shows "for_each f xs s \<noteq> Panic"
  using assms
proof (induction xs arbitrary: s)
  case Nil
  then show ?case by simp
next
  case (Cons x xs)
  show ?case
  proof (cases "f x s")
    case (Ok s')
    have "I s'" by (rule Cons.prems(3)[OF _ Cons.prems(1) Ok]) simp
    then have "for_each f xs s' \<noteq> Panic"
      using Cons.IH Cons.prems(2,3) by (meson list.set_intros(2))
    with Ok show ?thesis by simp
  next
    case Panic
    then show ?thesis using Cons.prems(1,2) by simp
  qed simp
qed

text \<open>
  Rules for a loop over a vector by index: \<open>I i s\<close> is the invariant before turn \<open>i\<close>. The first
  gives that the loop returns, the second what holds when it has returned, the third what held at
  every turn of a loop that has returned.
\<close>

lemma for_each_total:
  assumes "I 0 s"
    and "\<And>i s. i < length xs \<Longrightarrow> I i s \<Longrightarrow> \<exists>s'. f (xs ! i) s = Ok s' \<and> I (Suc i) s'"
  shows "\<exists>t. for_each f xs s = Ok t \<and> I (length xs) t"
proof -
  have "\<exists>t. for_each f (take n xs) s = Ok t \<and> I n t" if "n \<le> length xs" for n
    using that
  proof (induction n)
    case 0
    then show ?case using assms(1) by simp
  next
    case (Suc n)
    then obtain t where t: "for_each f (take n xs) s = Ok t" "I n t" by auto
    with assms(2)[of n t] Suc.prems obtain t' where "f (xs ! n) t = Ok t'" "I (Suc n) t'"
      by auto
    with t show ?case using Suc.prems by (simp add: take_Suc_conv_app_nth for_each_append)
  qed
  from this[of "length xs"] show ?thesis by simp
qed

lemma for_each_turn:
  assumes "for_each f xs s = Ok t" and "I 0 s" and "i < length xs"
    and "\<And>i s s'. i < length xs \<Longrightarrow> I i s \<Longrightarrow> f (xs ! i) s = Ok s' \<Longrightarrow> I (Suc i) s'"
  shows "\<exists>u u'. I i u \<and> f (xs ! i) u = Ok u'"
proof -
  have "\<exists>u. for_each f (take n xs) s = Ok u \<and> I n u" if "n \<le> length xs" for n
    using that
  proof (induction n)
    case 0
    then show ?case using assms(2) by simp
  next
    case (Suc n)
    then obtain u where u: "for_each f (take n xs) s = Ok u" "I n u" by auto
    have "for_each f (take (Suc n) xs @ drop (Suc n) xs) s = Ok t" using assms(1) by simp
    then obtain u' where u': "f (xs ! n) u = Ok u'"
      using u(1) Suc.prems by (auto simp: take_Suc_conv_app_nth for_each_append rbind_eq_Ok)
    with u assms(4)[of n u u'] Suc.prems show ?case
      by (simp add: take_Suc_conv_app_nth for_each_append)
  qed
  from this[of i] assms(3) obtain u where u: "for_each f (take i xs) s = Ok u" "I i u" by auto
  have "for_each f (take (Suc i) xs @ drop (Suc i) xs) s = Ok t" using assms(1) by simp
  then show ?thesis
    using u assms(3) by (auto simp: take_Suc_conv_app_nth for_each_append rbind_eq_Ok)
qed

lemma for_each_indexed:
  assumes "for_each f xs s = Ok t" and "I 0 s"
    and "\<And>i s s'. i < length xs \<Longrightarrow> I i s \<Longrightarrow> f (xs ! i) s = Ok s' \<Longrightarrow> I (Suc i) s'"
  shows "I (length xs) t"
proof (cases xs rule: rev_cases)
  case Nil
  then show ?thesis using assms by simp
next
  case (snoc ys y)
  then have n: "length ys < length xs" "xs ! length ys = y" by simp_all
  obtain u where u: "for_each f ys s = Ok u" "f y u = Ok t"
    using assms(1) snoc by (auto simp: for_each_append rbind_eq_Ok)
  let ?J = "\<lambda>i u. I i u \<and> for_each f (take i xs) s = Ok u"
  have "\<exists>u u'. ?J (length ys) u \<and> f (xs ! length ys) u = Ok u'"
    by (rule for_each_turn[OF assms(1) _ n(1)])
       (use assms(2,3) in \<open>auto simp: take_Suc_conv_app_nth for_each_append\<close>)
  then have "I (length ys) u" using u snoc by auto
  then show ?thesis using assms(3)[OF n(1), of u t] n u snoc by simp
qed

lemma for_each_not_Panic_indexed:
  assumes "I 0 s"
    and "\<And>i s. i < length xs \<Longrightarrow> I i s \<Longrightarrow> f (xs ! i) s \<noteq> Panic"
    and "\<And>i s s'. i < length xs \<Longrightarrow> I i s \<Longrightarrow> f (xs ! i) s = Ok s' \<Longrightarrow> I (Suc i) s'"
  shows "for_each f xs s \<noteq> Panic"
proof -
  have "for_each f (take n xs) s \<noteq> Panic \<and> (\<forall>t. for_each f (take n xs) s = Ok t \<longrightarrow> I n t)"
    if "n \<le> length xs" for n
    using that
  proof (induction n)
    case 0
    then show ?case using assms(1) by simp
  next
    case (Suc n)
    then show ?case
      using assms(2,3)
      by (auto simp: take_Suc_conv_app_nth for_each_append rbind_eq_Panic rbind_eq_Ok)
  qed
  from this[of "length xs"] show ?thesis by simp
qed

lemma for_all_simps [simp]:
  "for_all f [] = Ok ()"
  "for_all f (x # xs) = rbind (f x) (\<lambda>_. for_all f xs)"
  by (simp_all add: for_all_def)

lemma for_all_append: "for_all f (xs @ ys) = rbind (for_all f xs) (\<lambda>_. for_all f ys)"
  by (induction xs) (simp_all add: rbind_assoc)

lemma for_all_eq_Ok [ok_iff]: "for_all f xs = Ok u \<longleftrightarrow> (\<forall>x \<in> set xs. f x = Ok ())"
  by (induction xs) (auto simp: rbind_eq_Ok)

lemma for_all_not_Panic [no_panic]:
  "(\<And>x. x \<in> set xs \<Longrightarrow> f x \<noteq> Panic) \<Longrightarrow> for_all f xs \<noteq> Panic"
  by (induction xs) (auto simp: rbind_eq_Panic)

lemma rmap_eq_Ok [ok_iff]: "rmap f xs = Ok ys \<longleftrightarrow> list_all2 (\<lambda>x y. f x = Ok y) xs ys"
  by (induction xs arbitrary: ys) (auto simp: rbind_eq_Ok list_all2_Cons1)

lemma rmap_all_Ok: "(\<And>x. x \<in> set xs \<Longrightarrow> f x = Ok (g x)) \<Longrightarrow> rmap f xs = Ok (map g xs)"
  by (induction xs) simp_all

lemma rmap_length: "rmap f xs = Ok ys \<Longrightarrow> length ys = length xs"
  by (auto simp: rmap_eq_Ok dest: list_all2_lengthD)

lemma rmap_not_Panic [no_panic]:
  "(\<And>x. x \<in> set xs \<Longrightarrow> f x \<noteq> Panic) \<Longrightarrow> rmap f xs \<noteq> Panic"
  by (induction xs) (auto simp: rbind_eq_Panic)

lemma position_None:
  assumes "\<And>x. x \<in> set xs \<Longrightarrow> test x = Ok (P x)"
  shows "position test xs = Ok None \<longleftrightarrow> (\<forall>x \<in> set xs. \<not> P x)" "position test xs \<noteq> Panic" "position test xs \<noteq> Err e"
proof -
  have "(position_from i test xs = Ok None \<longleftrightarrow> (\<forall>x \<in> set xs. \<not> P x)) \<and> position_from i test xs \<noteq> Panic \<and>
      position_from i test xs \<noteq> Err e" for i
    using assms by (induction xs arbitrary: i) auto
  then show "position test xs = Ok None \<longleftrightarrow> (\<forall>x \<in> set xs. \<not> P x)" "position test xs \<noteq> Panic" "position test xs \<noteq> Err e"
    by (simp_all add: position_def)
qed

lemma rmap_cong [fundef_cong]:
  "xs = ys \<Longrightarrow> (\<And>x. x \<in> set ys \<Longrightarrow> f x = g x) \<Longrightarrow> rmap f xs = rmap g ys"
  by (induction xs arbitrary: ys) auto

lemma for_all_cong [fundef_cong]:
  "xs = ys \<Longrightarrow> (\<And>x. x \<in> set ys \<Longrightarrow> f x = g x) \<Longrightarrow> for_all f xs = for_all g ys"
  by (induction xs arbitrary: ys) auto

lemma for_each_cong [fundef_cong]:
  "xs = ys \<Longrightarrow> (\<And>x s. x \<in> set ys \<Longrightarrow> f x s = g x s) \<Longrightarrow> for_each f xs s = for_each g ys s"
proof (induction xs arbitrary: ys s)
  case (Cons x xs)
  then show ?case by (auto intro!: rbind_cong)
qed simp

section \<open>Maps\<close>

text \<open>A map filled by a loop, with keys that differ.\<close>

lemma fold_map_upd_Some:
  assumes "distinct (map k xs)"
  shows "fold (\<lambda>x m. m(k x \<mapsto> v x)) xs m0 j = Some y \<longleftrightarrow>
    (\<exists>x \<in> set xs. k x = j \<and> v x = y) \<or> (j \<notin> k ` set xs \<and> m0 j = Some y)"
  using assms by (induction xs arbitrary: m0) (auto simp: rev_image_eqI)

section \<open>Numbers\<close>

lemma as_u16_id [simp]: "n \<le> u16_max \<Longrightarrow> as_u16 n = n"
  by (simp add: as_u16_def)

lemma as_u16_less [simp]: "as_u16 n < 65536"
  by (simp add: as_u16_def)

lemma unat_u8_less [simp]: "unat (x :: u8) < 256"
  using unsigned_less[of x, where ?'a = nat] by simp

lemma unat_u16_less [simp]: "unat (x :: u16) < 65536"
  using unsigned_less[of x, where ?'a = nat] by simp

lemma unat_u32_less [simp]: "unat (x :: u32) < 4294967296"
  using unsigned_less[of x, where ?'a = nat] by simp

lemma unat_u64_less [simp]: "unat (x :: u64) < 18446744073709551616"
  using unsigned_less[of x, where ?'a = nat] by simp

lemma distinct_u16_length: "distinct (xs :: u16 list) \<Longrightarrow> length xs \<le> 65536"
  using card_mono[of "UNIV :: u16 set" "set xs"] by (simp add: distinct_card card_word)

lemma unat_of_nat_u16: "i < 65536 \<Longrightarrow> unat (of_nat i :: u16) = i"
  by (simp add: unat_of_nat)

section \<open>Lists\<close>

lemma set_enumerate_from_zero [simp]:
  "(i, x) \<in> set (enumerate_from_zero xs) \<longleftrightarrow> i < length xs \<and> xs ! i = x"
  by (auto simp: enumerate_from_zero_def in_set_enumerate_eq)

lemma enumerate_from_zero_nth:
  "i < length xs \<Longrightarrow> enumerate_from_zero xs ! i = (i, xs ! i)"
  by (simp add: enumerate_from_zero_def nth_enumerate_eq)

lemma length_enumerate_from_zero [simp]: "length (enumerate_from_zero xs) = length xs"
  by (simp add: enumerate_from_zero_def)

lemma for_all_enumerate:
  "for_all f (enumerate_from_zero xs) = Ok u \<longleftrightarrow> (\<forall>i < length xs. f (i, xs ! i) = Ok ())"
  by (auto simp: for_all_eq_Ok)

lemma for_all_enumerate_iff:
  assumes "\<And>i x. x \<in> set xs \<Longrightarrow> f (i, x) = Ok () \<longleftrightarrow> P x"
  shows "for_all f (enumerate_from_zero xs) = Ok u \<longleftrightarrow> (\<forall>x \<in> set xs. P x)"
  using assms by (simp add: for_all_enumerate all_set_conv_all_nth)

lemma for_all_enumerate_not_Panic:
  assumes "\<And>i x. x \<in> set xs \<Longrightarrow> f (i, x) \<noteq> Panic"
  shows "for_all f (enumerate_from_zero xs) \<noteq> Panic"
  by (rule for_all_not_Panic) (use assms in \<open>auto simp: all_set_conv_all_nth\<close>)

end
