(* ===== verification/Errors.thy ===== *)
theory Errors
  imports Prelude
begin

text \<open>
  The error values of the binary format and of the verifier: \<^verbatim>\<open>StatusCode\<close> of
  \<^verbatim>\<open>move-core/types/src/vm_status.rs\<close>, \<^verbatim>\<open>IndexKind\<close> and \<^verbatim>\<open>PartialVMError\<close> of
  \<^verbatim>\<open>move-binary-format/src/lib.rs\<close> and \<^verbatim>\<open>move-binary-format/src/errors.rs\<close>.

  A status code is its discriminant (the Rust enum is \<^verbatim>\<open>repr(u64)\<close> with every discriminant
  written out). Of an error the status, the sub-status, the indices and the code offsets are
  kept; the message and the captured execution state are diagnostics only.
\<close>

section \<open>Status codes\<close>

type_synonym status_code = nat

abbreviation UNKNOWN_VERIFICATION_ERROR :: status_code where
  "UNKNOWN_VERIFICATION_ERROR \<equiv> 1000"

abbreviation INDEX_OUT_OF_BOUNDS :: status_code where
  "INDEX_OUT_OF_BOUNDS \<equiv> 1001"

abbreviation INVALID_SIGNATURE_TOKEN :: status_code where
  "INVALID_SIGNATURE_TOKEN \<equiv> 1003"

abbreviation RECURSIVE_STRUCT_DEFINITION :: status_code where
  "RECURSIVE_STRUCT_DEFINITION \<equiv> 1005"

abbreviation FIELD_MISSING_TYPE_ABILITY :: status_code where
  "FIELD_MISSING_TYPE_ABILITY \<equiv> 1006"

abbreviation INVALID_FALL_THROUGH :: status_code where
  "INVALID_FALL_THROUGH \<equiv> 1007"

abbreviation NEGATIVE_STACK_SIZE_WITHIN_BLOCK :: status_code where
  "NEGATIVE_STACK_SIZE_WITHIN_BLOCK \<equiv> 1009"

abbreviation INVALID_MAIN_FUNCTION_SIGNATURE :: status_code where
  "INVALID_MAIN_FUNCTION_SIGNATURE \<equiv> 1011"

abbreviation DUPLICATE_ELEMENT :: status_code where
  "DUPLICATE_ELEMENT \<equiv> 1012"

abbreviation INVALID_MODULE_HANDLE :: status_code where
  "INVALID_MODULE_HANDLE \<equiv> 1013"

abbreviation UNIMPLEMENTED_HANDLE :: status_code where
  "UNIMPLEMENTED_HANDLE \<equiv> 1014"

abbreviation LOOKUP_FAILED :: status_code where
  "LOOKUP_FAILED \<equiv> 1017"

abbreviation TYPE_MISMATCH :: status_code where
  "TYPE_MISMATCH \<equiv> 1020"

abbreviation MISSING_DEPENDENCY :: status_code where
  "MISSING_DEPENDENCY \<equiv> 1021"

abbreviation POP_WITHOUT_DROP_ABILITY :: status_code where
  "POP_WITHOUT_DROP_ABILITY \<equiv> 1023"

abbreviation BR_TYPE_MISMATCH_ERROR :: status_code where
  "BR_TYPE_MISMATCH_ERROR \<equiv> 1025"

abbreviation ABORT_TYPE_MISMATCH_ERROR :: status_code where
  "ABORT_TYPE_MISMATCH_ERROR \<equiv> 1026"

abbreviation STLOC_TYPE_MISMATCH_ERROR :: status_code where
  "STLOC_TYPE_MISMATCH_ERROR \<equiv> 1027"

abbreviation STLOC_UNSAFE_TO_DESTROY_ERROR :: status_code where
  "STLOC_UNSAFE_TO_DESTROY_ERROR \<equiv> 1028"

abbreviation UNSAFE_RET_LOCAL_OR_RESOURCE_STILL_BORROWED :: status_code where
  "UNSAFE_RET_LOCAL_OR_RESOURCE_STILL_BORROWED \<equiv> 1029"

abbreviation RET_TYPE_MISMATCH_ERROR :: status_code where
  "RET_TYPE_MISMATCH_ERROR \<equiv> 1030"

abbreviation RET_BORROWED_MUTABLE_REFERENCE_ERROR :: status_code where
  "RET_BORROWED_MUTABLE_REFERENCE_ERROR \<equiv> 1031"

abbreviation FREEZEREF_TYPE_MISMATCH_ERROR :: status_code where
  "FREEZEREF_TYPE_MISMATCH_ERROR \<equiv> 1032"

abbreviation FREEZEREF_EXISTS_MUTABLE_BORROW_ERROR :: status_code where
  "FREEZEREF_EXISTS_MUTABLE_BORROW_ERROR \<equiv> 1033"

abbreviation BORROWFIELD_TYPE_MISMATCH_ERROR :: status_code where
  "BORROWFIELD_TYPE_MISMATCH_ERROR \<equiv> 1034"

abbreviation BORROWFIELD_BAD_FIELD_ERROR :: status_code where
  "BORROWFIELD_BAD_FIELD_ERROR \<equiv> 1035"

abbreviation BORROWFIELD_EXISTS_MUTABLE_BORROW_ERROR :: status_code where
  "BORROWFIELD_EXISTS_MUTABLE_BORROW_ERROR \<equiv> 1036"

abbreviation COPYLOC_UNAVAILABLE_ERROR :: status_code where
  "COPYLOC_UNAVAILABLE_ERROR \<equiv> 1037"

abbreviation COPYLOC_WITHOUT_COPY_ABILITY :: status_code where
  "COPYLOC_WITHOUT_COPY_ABILITY \<equiv> 1038"

abbreviation COPYLOC_EXISTS_BORROW_ERROR :: status_code where
  "COPYLOC_EXISTS_BORROW_ERROR \<equiv> 1039"

abbreviation MOVELOC_UNAVAILABLE_ERROR :: status_code where
  "MOVELOC_UNAVAILABLE_ERROR \<equiv> 1040"

abbreviation MOVELOC_EXISTS_BORROW_ERROR :: status_code where
  "MOVELOC_EXISTS_BORROW_ERROR \<equiv> 1041"

abbreviation BORROWLOC_REFERENCE_ERROR :: status_code where
  "BORROWLOC_REFERENCE_ERROR \<equiv> 1042"

abbreviation BORROWLOC_UNAVAILABLE_ERROR :: status_code where
  "BORROWLOC_UNAVAILABLE_ERROR \<equiv> 1043"

abbreviation BORROWLOC_EXISTS_BORROW_ERROR :: status_code where
  "BORROWLOC_EXISTS_BORROW_ERROR \<equiv> 1044"

abbreviation CALL_TYPE_MISMATCH_ERROR :: status_code where
  "CALL_TYPE_MISMATCH_ERROR \<equiv> 1045"

abbreviation CALL_BORROWED_MUTABLE_REFERENCE_ERROR :: status_code where
  "CALL_BORROWED_MUTABLE_REFERENCE_ERROR \<equiv> 1046"

abbreviation PACK_TYPE_MISMATCH_ERROR :: status_code where
  "PACK_TYPE_MISMATCH_ERROR \<equiv> 1047"

abbreviation UNPACK_TYPE_MISMATCH_ERROR :: status_code where
  "UNPACK_TYPE_MISMATCH_ERROR \<equiv> 1048"

abbreviation READREF_TYPE_MISMATCH_ERROR :: status_code where
  "READREF_TYPE_MISMATCH_ERROR \<equiv> 1049"

abbreviation READREF_WITHOUT_COPY_ABILITY :: status_code where
  "READREF_WITHOUT_COPY_ABILITY \<equiv> 1050"

abbreviation READREF_EXISTS_MUTABLE_BORROW_ERROR :: status_code where
  "READREF_EXISTS_MUTABLE_BORROW_ERROR \<equiv> 1051"

abbreviation WRITEREF_TYPE_MISMATCH_ERROR :: status_code where
  "WRITEREF_TYPE_MISMATCH_ERROR \<equiv> 1052"

abbreviation WRITEREF_WITHOUT_DROP_ABILITY :: status_code where
  "WRITEREF_WITHOUT_DROP_ABILITY \<equiv> 1053"

abbreviation WRITEREF_EXISTS_BORROW_ERROR :: status_code where
  "WRITEREF_EXISTS_BORROW_ERROR \<equiv> 1054"

abbreviation WRITEREF_NO_MUTABLE_REFERENCE_ERROR :: status_code where
  "WRITEREF_NO_MUTABLE_REFERENCE_ERROR \<equiv> 1055"

abbreviation INTEGER_OP_TYPE_MISMATCH_ERROR :: status_code where
  "INTEGER_OP_TYPE_MISMATCH_ERROR \<equiv> 1056"

abbreviation BOOLEAN_OP_TYPE_MISMATCH_ERROR :: status_code where
  "BOOLEAN_OP_TYPE_MISMATCH_ERROR \<equiv> 1057"

abbreviation EQUALITY_OP_TYPE_MISMATCH_ERROR :: status_code where
  "EQUALITY_OP_TYPE_MISMATCH_ERROR \<equiv> 1058"

abbreviation EXISTS_WITHOUT_KEY_ABILITY_OR_BAD_ARGUMENT :: status_code where
  "EXISTS_WITHOUT_KEY_ABILITY_OR_BAD_ARGUMENT \<equiv> 1059"

abbreviation BORROWGLOBAL_TYPE_MISMATCH_ERROR :: status_code where
  "BORROWGLOBAL_TYPE_MISMATCH_ERROR \<equiv> 1060"

abbreviation MOVEFROM_TYPE_MISMATCH_ERROR :: status_code where
  "MOVEFROM_TYPE_MISMATCH_ERROR \<equiv> 1062"

abbreviation BORROWGLOBAL_WITHOUT_KEY_ABILITY :: status_code where
  "BORROWGLOBAL_WITHOUT_KEY_ABILITY \<equiv> 1061"

abbreviation MOVETO_WITHOUT_KEY_ABILITY :: status_code where
  "MOVETO_WITHOUT_KEY_ABILITY \<equiv> 1065"

abbreviation MOVEFROM_WITHOUT_KEY_ABILITY :: status_code where
  "MOVEFROM_WITHOUT_KEY_ABILITY \<equiv> 1063"

abbreviation MOVETO_TYPE_MISMATCH_ERROR :: status_code where
  "MOVETO_TYPE_MISMATCH_ERROR \<equiv> 1064"

abbreviation MODULE_ADDRESS_DOES_NOT_MATCH_SENDER :: status_code where
  "MODULE_ADDRESS_DOES_NOT_MATCH_SENDER \<equiv> 1067"

abbreviation NO_MODULE_HANDLES :: status_code where
  "NO_MODULE_HANDLES \<equiv> 1068"

abbreviation POSITIVE_STACK_SIZE_AT_BLOCK_END :: status_code where
  "POSITIVE_STACK_SIZE_AT_BLOCK_END \<equiv> 1069"

abbreviation MISSING_ACQUIRES_ANNOTATION :: status_code where
  "MISSING_ACQUIRES_ANNOTATION \<equiv> 1070"

abbreviation EXTRANEOUS_ACQUIRES_ANNOTATION :: status_code where
  "EXTRANEOUS_ACQUIRES_ANNOTATION \<equiv> 1071"

abbreviation DUPLICATE_ACQUIRES_ANNOTATION :: status_code where
  "DUPLICATE_ACQUIRES_ANNOTATION \<equiv> 1072"

abbreviation INVALID_ACQUIRES_ANNOTATION :: status_code where
  "INVALID_ACQUIRES_ANNOTATION \<equiv> 1073"

abbreviation GLOBAL_REFERENCE_ERROR :: status_code where
  "GLOBAL_REFERENCE_ERROR \<equiv> 1074"

abbreviation CONSTRAINT_NOT_SATISFIED :: status_code where
  "CONSTRAINT_NOT_SATISFIED \<equiv> 1075"

abbreviation NUMBER_OF_TYPE_ARGUMENTS_MISMATCH :: status_code where
  "NUMBER_OF_TYPE_ARGUMENTS_MISMATCH \<equiv> 1076"

abbreviation LOOP_IN_INSTANTIATION_GRAPH :: status_code where
  "LOOP_IN_INSTANTIATION_GRAPH \<equiv> 1077"

abbreviation ZERO_SIZED_STRUCT :: status_code where
  "ZERO_SIZED_STRUCT \<equiv> 1080"

abbreviation LINKER_ERROR :: status_code where
  "LINKER_ERROR \<equiv> 1081"

abbreviation INVALID_CONSTANT_TYPE :: status_code where
  "INVALID_CONSTANT_TYPE \<equiv> 1082"

abbreviation MALFORMED_CONSTANT_DATA :: status_code where
  "MALFORMED_CONSTANT_DATA \<equiv> 1083"

abbreviation EMPTY_CODE_UNIT :: status_code where
  "EMPTY_CODE_UNIT \<equiv> 1084"

abbreviation INVALID_LOOP_SPLIT :: status_code where
  "INVALID_LOOP_SPLIT \<equiv> 1085"

abbreviation INVALID_LOOP_BREAK :: status_code where
  "INVALID_LOOP_BREAK \<equiv> 1086"

abbreviation INVALID_LOOP_CONTINUE :: status_code where
  "INVALID_LOOP_CONTINUE \<equiv> 1087"

abbreviation UNSAFE_RET_UNUSED_VALUES_WITHOUT_DROP :: status_code where
  "UNSAFE_RET_UNUSED_VALUES_WITHOUT_DROP \<equiv> 1088"

abbreviation TOO_MANY_LOCALS :: status_code where
  "TOO_MANY_LOCALS \<equiv> 1089"

abbreviation GENERIC_MEMBER_OPCODE_MISMATCH :: status_code where
  "GENERIC_MEMBER_OPCODE_MISMATCH \<equiv> 1090"

abbreviation FUNCTION_RESOLUTION_FAILURE :: status_code where
  "FUNCTION_RESOLUTION_FAILURE \<equiv> 1091"

abbreviation INVALID_OPERATION_IN_SCRIPT :: status_code where
  "INVALID_OPERATION_IN_SCRIPT \<equiv> 1094"

abbreviation DUPLICATE_MODULE_NAME :: status_code where
  "DUPLICATE_MODULE_NAME \<equiv> 1095"

abbreviation BACKWARD_INCOMPATIBLE_MODULE_UPDATE :: status_code where
  "BACKWARD_INCOMPATIBLE_MODULE_UPDATE \<equiv> 1096"

abbreviation CYCLIC_MODULE_DEPENDENCY :: status_code where
  "CYCLIC_MODULE_DEPENDENCY \<equiv> 1097"

abbreviation NUMBER_OF_ARGUMENTS_MISMATCH :: status_code where
  "NUMBER_OF_ARGUMENTS_MISMATCH \<equiv> 1098"

abbreviation INVALID_PARAM_TYPE_FOR_DESERIALIZATION :: status_code where
  "INVALID_PARAM_TYPE_FOR_DESERIALIZATION \<equiv> 1099"

abbreviation FAILED_TO_DESERIALIZE_ARGUMENT :: status_code where
  "FAILED_TO_DESERIALIZE_ARGUMENT \<equiv> 1100"

abbreviation NUMBER_OF_SIGNER_ARGUMENTS_MISMATCH :: status_code where
  "NUMBER_OF_SIGNER_ARGUMENTS_MISMATCH \<equiv> 1101"

abbreviation CALLED_SCRIPT_VISIBLE_FROM_NON_SCRIPT_VISIBLE :: status_code where
  "CALLED_SCRIPT_VISIBLE_FROM_NON_SCRIPT_VISIBLE \<equiv> 1102"

abbreviation EXECUTE_SCRIPT_FUNCTION_CALLED_ON_NON_SCRIPT_VISIBLE :: status_code where
  "EXECUTE_SCRIPT_FUNCTION_CALLED_ON_NON_SCRIPT_VISIBLE \<equiv> 1103"

abbreviation INVALID_FRIEND_DECL_WITH_SELF :: status_code where
  "INVALID_FRIEND_DECL_WITH_SELF \<equiv> 1104"

abbreviation INVALID_FRIEND_DECL_WITH_MODULES_OUTSIDE_ACCOUNT_ADDRESS :: status_code where
  "INVALID_FRIEND_DECL_WITH_MODULES_OUTSIDE_ACCOUNT_ADDRESS \<equiv> 1105"

abbreviation INVALID_FRIEND_DECL_WITH_MODULES_IN_DEPENDENCIES :: status_code where
  "INVALID_FRIEND_DECL_WITH_MODULES_IN_DEPENDENCIES \<equiv> 1106"

abbreviation CYCLIC_MODULE_FRIENDSHIP :: status_code where
  "CYCLIC_MODULE_FRIENDSHIP \<equiv> 1107"

abbreviation INVALID_PHANTOM_TYPE_PARAM_POSITION :: status_code where
  "INVALID_PHANTOM_TYPE_PARAM_POSITION \<equiv> 1108"

abbreviation VEC_UPDATE_EXISTS_MUTABLE_BORROW_ERROR :: status_code where
  "VEC_UPDATE_EXISTS_MUTABLE_BORROW_ERROR \<equiv> 1109"

abbreviation VEC_BORROW_ELEMENT_EXISTS_MUTABLE_BORROW_ERROR :: status_code where
  "VEC_BORROW_ELEMENT_EXISTS_MUTABLE_BORROW_ERROR \<equiv> 1110"

abbreviation UNKNOWN_INVARIANT_VIOLATION_ERROR :: status_code where
  "UNKNOWN_INVARIANT_VIOLATION_ERROR \<equiv> 2000"

abbreviation EMPTY_VALUE_STACK :: status_code where
  "EMPTY_VALUE_STACK \<equiv> 2003"

abbreviation PC_OVERFLOW :: status_code where
  "PC_OVERFLOW \<equiv> 2005"

abbreviation VERIFICATION_ERROR :: status_code where
  "VERIFICATION_ERROR \<equiv> 2006"

abbreviation STORAGE_ERROR :: status_code where
  "STORAGE_ERROR \<equiv> 2008"

abbreviation INTERNAL_TYPE_ERROR :: status_code where
  "INTERNAL_TYPE_ERROR \<equiv> 2009"

abbreviation EVENT_KEY_MISMATCH :: status_code where
  "EVENT_KEY_MISMATCH \<equiv> 2010"

abbreviation UNREACHABLE :: status_code where
  "UNREACHABLE \<equiv> 2011"

abbreviation VM_STARTUP_FAILURE :: status_code where
  "VM_STARTUP_FAILURE \<equiv> 2012"

abbreviation UNEXPECTED_ERROR_FROM_KNOWN_MOVE_FUNCTION :: status_code where
  "UNEXPECTED_ERROR_FROM_KNOWN_MOVE_FUNCTION \<equiv> 2015"

abbreviation VERIFIER_INVARIANT_VIOLATION :: status_code where
  "VERIFIER_INVARIANT_VIOLATION \<equiv> 2016"

abbreviation UNEXPECTED_VERIFIER_ERROR :: status_code where
  "UNEXPECTED_VERIFIER_ERROR \<equiv> 2017"

abbreviation UNEXPECTED_DESERIALIZATION_ERROR :: status_code where
  "UNEXPECTED_DESERIALIZATION_ERROR \<equiv> 2018"

abbreviation FAILED_TO_SERIALIZE_WRITE_SET_CHANGES :: status_code where
  "FAILED_TO_SERIALIZE_WRITE_SET_CHANGES \<equiv> 2019"

abbreviation FAILED_TO_DESERIALIZE_RESOURCE :: status_code where
  "FAILED_TO_DESERIALIZE_RESOURCE \<equiv> 2020"

abbreviation TYPE_RESOLUTION_FAILURE :: status_code where
  "TYPE_RESOLUTION_FAILURE \<equiv> 2021"

abbreviation DUPLICATE_NATIVE_FUNCTION :: status_code where
  "DUPLICATE_NATIVE_FUNCTION \<equiv> 2022"

abbreviation UNKNOWN_BINARY_ERROR :: status_code where
  "UNKNOWN_BINARY_ERROR \<equiv> 3000"

abbreviation MALFORMED :: status_code where
  "MALFORMED \<equiv> 3001"

abbreviation BAD_MAGIC :: status_code where
  "BAD_MAGIC \<equiv> 3002"

abbreviation UNKNOWN_VERSION :: status_code where
  "UNKNOWN_VERSION \<equiv> 3003"

abbreviation UNKNOWN_TABLE_TYPE :: status_code where
  "UNKNOWN_TABLE_TYPE \<equiv> 3004"

abbreviation UNKNOWN_SIGNATURE_TYPE :: status_code where
  "UNKNOWN_SIGNATURE_TYPE \<equiv> 3005"

abbreviation UNKNOWN_SERIALIZED_TYPE :: status_code where
  "UNKNOWN_SERIALIZED_TYPE \<equiv> 3006"

abbreviation UNKNOWN_OPCODE :: status_code where
  "UNKNOWN_OPCODE \<equiv> 3007"

abbreviation BAD_HEADER_TABLE :: status_code where
  "BAD_HEADER_TABLE \<equiv> 3008"

abbreviation UNEXPECTED_SIGNATURE_TYPE :: status_code where
  "UNEXPECTED_SIGNATURE_TYPE \<equiv> 3009"

abbreviation DUPLICATE_TABLE :: status_code where
  "DUPLICATE_TABLE \<equiv> 3010"

abbreviation UNKNOWN_ABILITY :: status_code where
  "UNKNOWN_ABILITY \<equiv> 3013"

abbreviation UNKNOWN_NATIVE_STRUCT_FLAG :: status_code where
  "UNKNOWN_NATIVE_STRUCT_FLAG \<equiv> 3014"

abbreviation BAD_U64 :: status_code where
  "BAD_U64 \<equiv> 3019"

abbreviation BAD_U128 :: status_code where
  "BAD_U128 \<equiv> 3020"

abbreviation VALUE_SERIALIZATION_ERROR :: status_code where
  "VALUE_SERIALIZATION_ERROR \<equiv> 3022"

abbreviation VALUE_DESERIALIZATION_ERROR :: status_code where
  "VALUE_DESERIALIZATION_ERROR \<equiv> 3023"

abbreviation CODE_DESERIALIZATION_ERROR :: status_code where
  "CODE_DESERIALIZATION_ERROR \<equiv> 3024"

abbreviation INVALID_FLAG_BITS :: status_code where
  "INVALID_FLAG_BITS \<equiv> 3025"

abbreviation UNKNOWN_RUNTIME_STATUS :: status_code where
  "UNKNOWN_RUNTIME_STATUS \<equiv> 4000"

abbreviation EXECUTED :: status_code where
  "EXECUTED \<equiv> 4001"

abbreviation OUT_OF_GAS :: status_code where
  "OUT_OF_GAS \<equiv> 4002"

abbreviation RESOURCE_DOES_NOT_EXIST :: status_code where
  "RESOURCE_DOES_NOT_EXIST \<equiv> 4003"

abbreviation RESOURCE_ALREADY_EXISTS :: status_code where
  "RESOURCE_ALREADY_EXISTS \<equiv> 4004"

abbreviation MISSING_DATA :: status_code where
  "MISSING_DATA \<equiv> 4008"

abbreviation DATA_FORMAT_ERROR :: status_code where
  "DATA_FORMAT_ERROR \<equiv> 4009"

abbreviation ABORTED :: status_code where
  "ABORTED \<equiv> 4016"

abbreviation ARITHMETIC_ERROR :: status_code where
  "ARITHMETIC_ERROR \<equiv> 4017"

abbreviation VECTOR_OPERATION_ERROR :: status_code where
  "VECTOR_OPERATION_ERROR \<equiv> 4018"

abbreviation EXECUTION_STACK_OVERFLOW :: status_code where
  "EXECUTION_STACK_OVERFLOW \<equiv> 4020"

abbreviation CALL_STACK_OVERFLOW :: status_code where
  "CALL_STACK_OVERFLOW \<equiv> 4021"

abbreviation VM_MAX_TYPE_DEPTH_REACHED :: status_code where
  "VM_MAX_TYPE_DEPTH_REACHED \<equiv> 4024"

abbreviation VM_MAX_VALUE_DEPTH_REACHED :: status_code where
  "VM_MAX_VALUE_DEPTH_REACHED \<equiv> 4025"

abbreviation VM_EXTENSION_ERROR :: status_code where
  "VM_EXTENSION_ERROR \<equiv> 4026"

section \<open>Kinds of index\<close>

datatype index_kind =
    IK_ModuleHandle
  | IK_StructHandle
  | IK_FunctionHandle
  | IK_FieldHandle
  | IK_FriendDeclaration
  | IK_FunctionInstantiation
  | IK_FieldInstantiation
  | IK_StructDefinition
  | IK_StructDefInstantiation
  | IK_FunctionDefinition
  | IK_FieldDefinition
  | IK_Signature
  | IK_Identifier
  | IK_AddressIdentifier
  | IK_ConstantPool
  | IK_LocalPool
  | IK_CodeDefinition
  | IK_TypeParameter
  | IK_MemberCount

section \<open>Partial errors\<close>

record partial_vm_error =
  major_status :: status_code
  sub_status :: "u64 option"
  indices :: "(index_kind \<times> nat) list"
  offsets :: "(nat \<times> nat) list"

type_synonym 'a vm_result = "('a, partial_vm_error) result"

definition new_error :: "status_code \<Rightarrow> partial_vm_error" where
  "new_error status = \<lparr>major_status = status, sub_status = None, indices = [], offsets = []\<rparr>"

definition with_sub_status :: "partial_vm_error \<Rightarrow> u64 \<Rightarrow> partial_vm_error" where
  "with_sub_status e s = e\<lparr>sub_status := Some s\<rparr>"

definition at_index :: "partial_vm_error \<Rightarrow> index_kind \<Rightarrow> nat \<Rightarrow> partial_vm_error" where
  "at_index e kind index = e\<lparr>indices := indices e @ [(kind, index)]\<rparr>"

definition at_code_offset :: "partial_vm_error \<Rightarrow> nat \<Rightarrow> nat \<Rightarrow> partial_vm_error" where
  "at_code_offset e function offset = e\<lparr>offsets := offsets e @ [(function, offset)]\<rparr>"

definition offset_out_of_bounds :: "status_code \<Rightarrow> nat \<Rightarrow> nat \<Rightarrow> partial_vm_error" where
  "offset_out_of_bounds status cur_function cur_bytecode_offset =
     at_code_offset (new_error status) cur_function cur_bytecode_offset"

definition bounds_error :: "status_code \<Rightarrow> index_kind \<Rightarrow> nat \<Rightarrow> partial_vm_error" where
  "bounds_error status kind idx = at_index (new_error status) kind idx"

definition verification_error :: "status_code \<Rightarrow> index_kind \<Rightarrow> nat \<Rightarrow> partial_vm_error" where
  "verification_error status kind idx = at_index (new_error status) kind idx"

text \<open>Locating an error never changes its status.\<close>

lemma major_status_simps [simp]:
  "major_status (new_error st) = st"
  "major_status (with_sub_status e s) = major_status e"
  "major_status (at_index e k i) = major_status e"
  "major_status (at_code_offset e f off) = major_status e"
  "major_status (offset_out_of_bounds st f off) = st"
  "major_status (bounds_error st k i) = st"
  "major_status (verification_error st k i) = st"
  by (simp_all add: new_error_def with_sub_status_def at_index_def at_code_offset_def
      offset_out_of_bounds_def bounds_error_def verification_error_def)

end
