(* ===== verification/Bytecode.thy ===== *)
theory Bytecode
  imports Errors
begin

text \<open>
  The instructions of the Move virtual machine: the index types and \<^verbatim>\<open>enum Bytecode\<close> of
  \<^verbatim>\<open>move-binary-format/src/file_format.rs\<close>, with the functions that classify branches and give
  the successors of an instruction. The constructors are the source's, except \<open>NotOp\<close>,
  \<open>AndOp\<close> and \<open>OrOp\<close> for \<^verbatim>\<open>Not\<close>, \<^verbatim>\<open>And\<close> and \<^verbatim>\<open>Or\<close>.
\<close>

section \<open>Index types\<close>

type_synonym table_index = u16
type_synonym module_handle_index = u16
type_synonym struct_handle_index = u16
type_synonym function_handle_index = u16
type_synonym field_handle_index = u16
type_synonym struct_def_instantiation_index = u16
type_synonym function_instantiation_index = u16
type_synonym field_instantiation_index = u16
type_synonym identifier_index = u16
type_synonym address_identifier_index = u16
type_synonym constant_pool_index = u16
type_synonym signature_index = u16
type_synonym struct_definition_index = u16
type_synonym function_definition_index = u16
type_synonym type_parameter_index = u16
type_synonym local_index = u8
type_synonym member_count = u16
type_synonym code_offset = u16

section \<open>Instructions\<close>

datatype (plugins only: code size) bytecode =
    Pop
  | Ret
  | BrTrue code_offset
  | BrFalse code_offset
  | Branch code_offset
  | LdU8 u8
  | LdU64 u64
  | LdU128 u128
  | CastU8
  | CastU64
  | CastU128
  | LdConst constant_pool_index
  | LdTrue
  | LdFalse
  | CopyLoc local_index
  | MoveLoc local_index
  | StLoc local_index
  | Call function_handle_index
  | CallGeneric function_instantiation_index
  | Pack struct_definition_index
  | PackGeneric struct_def_instantiation_index
  | Unpack struct_definition_index
  | UnpackGeneric struct_def_instantiation_index
  | ReadRef
  | WriteRef
  | FreezeRef
  | MutBorrowLoc local_index
  | ImmBorrowLoc local_index
  | MutBorrowField field_handle_index
  | MutBorrowFieldGeneric field_instantiation_index
  | ImmBorrowField field_handle_index
  | ImmBorrowFieldGeneric field_instantiation_index
  | MutBorrowGlobal struct_definition_index
  | MutBorrowGlobalGeneric struct_def_instantiation_index
  | ImmBorrowGlobal struct_definition_index
  | ImmBorrowGlobalGeneric struct_def_instantiation_index
  | Add
  | Sub
  | Mul
  | Mod
  | Div
  | BitOr
  | BitAnd
  | Xor
  | OrOp
  | AndOp
  | NotOp
  | Eq
  | Neq
  | Lt
  | Gt
  | Le
  | Ge
  | Abort
  | Nop
  | Exists struct_definition_index
  | ExistsGeneric struct_def_instantiation_index
  | MoveFrom struct_definition_index
  | MoveFromGeneric struct_def_instantiation_index
  | MoveTo struct_definition_index
  | MoveToGeneric struct_def_instantiation_index
  | Shl
  | Shr
  | VecPack signature_index u64
  | VecLen signature_index
  | VecImmBorrow signature_index
  | VecMutBorrow signature_index
  | VecPushBack signature_index
  | VecPopBack signature_index
  | VecUnpack signature_index u64
  | VecSwap signature_index

section \<open>Branches\<close>

definition is_unconditional_branch :: "bytecode \<Rightarrow> bool" where
  "is_unconditional_branch instr =
     (case instr of Ret \<Rightarrow> True | Abort \<Rightarrow> True | Branch _ \<Rightarrow> True | _ \<Rightarrow> False)"

definition is_conditional_branch :: "bytecode \<Rightarrow> bool" where
  "is_conditional_branch instr =
     (case instr of BrFalse _ \<Rightarrow> True | BrTrue _ \<Rightarrow> True | _ \<Rightarrow> False)"

definition is_branch :: "bytecode \<Rightarrow> bool" where
  "is_branch instr = (is_conditional_branch instr \<or> is_unconditional_branch instr)"

definition offset :: "bytecode \<Rightarrow> nat option" where
  "offset instr =
     (case instr of
        BrFalse off \<Rightarrow> Some (unat off)
      | BrTrue off \<Rightarrow> Some (unat off)
      | Branch off \<Rightarrow> Some (unat off)
      | _ \<Rightarrow> None)"

text \<open>
  \<^verbatim>\<open>Bytecode::get_successors\<close>. Code offsets are \<^verbatim>\<open>u16\<close>; they are numbers here, with the cast of
  \<^verbatim>\<open>code.len()\<close> written out. The assertion keeps \<^verbatim>\<open>pc + 1\<close> from overflowing.
\<close>

definition get_successors :: "nat \<Rightarrow> bytecode list \<Rightarrow> (nat list, 'e) result" where
  "get_successors pc code =
     (if pc \<le> u16_max - 2 \<and> pc < length code then
        let instr = code ! pc;
            v = (case offset instr of Some off \<Rightarrow> [off] | None \<Rightarrow> []);
            next_pc = pc + 1
        in if as_u16 (length code) \<le> next_pc then Ok v
           else
             let v = (if \<not> is_unconditional_branch instr \<and> next_pc \<notin> set v
                      then v @ [pc + 1] else v)
             in Ok (if 1 < length v \<and> v ! 1 < v ! 0 then [v ! 1, v ! 0] else v)
      else Panic)"

lemmas branch_defs = is_unconditional_branch_def is_conditional_branch_def is_branch_def
  offset_def

lemma offset_less [simp]: "offset instr = Some off \<Longrightarrow> off < 65536"
  by (cases instr) (auto simp: offset_def)

lemma offset_is_branch: "offset instr = Some off \<Longrightarrow> is_branch instr"
  by (cases instr) (auto simp: branch_defs)

lemma offset_None_iff:
  "offset instr = None \<longleftrightarrow> \<not> is_branch instr \<or> instr = Ret \<or> instr = Abort"
  by (cases instr) (auto simp: branch_defs)

lemma conditional_not_unconditional:
  "is_conditional_branch instr \<Longrightarrow> \<not> is_unconditional_branch instr"
  by (cases instr) (auto simp: branch_defs)

text \<open>
  For code that the assertion admits the successors are exactly the branch target and, unless the
  instruction always branches, the next instruction, in ascending order.
\<close>

lemma get_successors_Ok:
  assumes "pc < length code" and "length code \<le> u16_max - 1"
  shows "\<exists>v. get_successors pc code = Ok v \<and> sorted v \<and> distinct v \<and>
    set v = set_option (offset (code ! pc)) \<union>
      (if pc + 1 < length code \<and> \<not> is_unconditional_branch (code ! pc) then {pc + 1} else {})"
  using assms by (cases "offset (code ! pc)") (auto simp: get_successors_def Let_def)

lemma get_successors_eq_Panic [no_panic]:
  "get_successors pc code = Panic \<longleftrightarrow> u16_max - 2 < pc \<or> length code \<le> pc"
  by (auto simp: get_successors_def Let_def)

end
