(* ===== verification/Abilities.thy ===== *)
theory Abilities
  imports Bytecode
begin

unbundle bit_operations_syntax

text \<open>
  Abilities and ability sets (\<^verbatim>\<open>Ability\<close> and \<^verbatim>\<open>AbilitySet\<close> of
  \<^verbatim>\<open>move-binary-format/src/file_format.rs\<close>). An ability set is the \<^verbatim>\<open>u8\<close> bit set of the source;
  \<open>abilities_of\<close> is the set of abilities it stands for, and the lemmas show that the bit
  operations implement the operations on sets.
\<close>

section \<open>Abilities\<close>

datatype ability = Copy | Drop | Store | Key

definition ability_bits :: "ability \<Rightarrow> u8" where
  "ability_bits a = (case a of Copy \<Rightarrow> 1 | Drop \<Rightarrow> 2 | Store \<Rightarrow> 4 | Key \<Rightarrow> 8)"

definition ability_from_u8 :: "u8 \<Rightarrow> ability option" where
  "ability_from_u8 u =
     (if u = 1 then Some Copy
      else if u = 2 then Some Drop
      else if u = 4 then Some Store
      else if u = 8 then Some Key
      else None)"

definition ability_requires :: "ability \<Rightarrow> ability" where
  "ability_requires a =
     (case a of Copy \<Rightarrow> Copy | Drop \<Rightarrow> Drop | Store \<Rightarrow> Store | Key \<Rightarrow> Store)"

section \<open>Ability sets\<close>

type_synonym ability_set = u8

definition ability_set_EMPTY :: ability_set where
  "ability_set_EMPTY = 0"

definition ability_set_PRIMITIVES :: ability_set where
  "ability_set_PRIMITIVES = ability_bits Copy OR ability_bits Drop OR ability_bits Store"

definition ability_set_REFERENCES :: ability_set where
  "ability_set_REFERENCES = ability_bits Copy OR ability_bits Drop"

definition ability_set_SIGNER :: ability_set where
  "ability_set_SIGNER = ability_bits Drop"

definition ability_set_VECTOR :: ability_set where
  "ability_set_VECTOR = ability_bits Copy OR ability_bits Drop OR ability_bits Store"

definition ability_set_ALL :: ability_set where
  "ability_set_ALL =
     ability_bits Copy OR ability_bits Drop OR ability_bits Store OR ability_bits Key"

definition has_ability :: "ability_set \<Rightarrow> ability \<Rightarrow> bool" where
  "has_ability s ability = (let a = ability_bits ability in a AND s = a)"

definition has_copy :: "ability_set \<Rightarrow> bool" where
  "has_copy s = has_ability s Copy"

definition has_drop :: "ability_set \<Rightarrow> bool" where
  "has_drop s = has_ability s Drop"

definition has_store :: "ability_set \<Rightarrow> bool" where
  "has_store s = has_ability s Store"

definition has_key :: "ability_set \<Rightarrow> bool" where
  "has_key s = has_ability s Key"

definition ability_set_remove :: "ability_set \<Rightarrow> ability \<Rightarrow> ability_set" where
  "ability_set_remove s a = s AND NOT (ability_bits a)"

definition ability_set_intersect :: "ability_set \<Rightarrow> ability_set \<Rightarrow> ability_set" where
  "ability_set_intersect s t = s AND t"

definition ability_set_union :: "ability_set \<Rightarrow> ability_set \<Rightarrow> ability_set" where
  "ability_set_union s t = s OR t"

definition ability_set_add :: "ability_set \<Rightarrow> ability \<Rightarrow> ability_set" where
  "ability_set_add s a = s OR ability_bits a"

definition is_subset_bits :: "u8 \<Rightarrow> u8 \<Rightarrow> bool" where
  "is_subset_bits lower upper = (lower AND upper = lower)"

definition ability_set_is_subset :: "ability_set \<Rightarrow> ability_set \<Rightarrow> bool" where
  "ability_set_is_subset s t = is_subset_bits s t"

definition ability_set_from_u8 :: "u8 \<Rightarrow> ability_set option" where
  "ability_set_from_u8 byte = (if is_subset_bits byte ability_set_ALL then Some byte else None)"

definition ability_set_into_u8 :: "ability_set \<Rightarrow> u8" where
  "ability_set_into_u8 s = s"

text \<open>
  \<^verbatim>\<open>AbilitySetIterator\<close>: the index starts at 1 and doubles while it is at most 8, and every index
  whose bit is set yields its ability.
\<close>

definition ability_set_into_iter :: "ability_set \<Rightarrow> ability list" where
  "ability_set_into_iter s = List.map_filter (\<lambda>idx. ability_from_u8 (s AND idx)) [1, 2, 4, 8]"

definition required_by :: "ability \<Rightarrow> ability_set" where
  "required_by a =
     (case a of
        Copy \<Rightarrow> ability_set_add ability_set_EMPTY Copy
      | Drop \<Rightarrow> ability_set_add ability_set_EMPTY Drop
      | Store \<Rightarrow> ability_set_add (ability_set_add ability_set_EMPTY Store) Key
      | Key \<Rightarrow> ability_set_EMPTY)"

text \<open>
  \<^verbatim>\<open>AbilitySet::polymorphic_abilities\<close>: an ability that is declared stays only where every type
  argument that is not phantom has the ability that it requires.
\<close>

definition polymorphic_abilities ::
  "ability_set \<Rightarrow> bool list \<Rightarrow> ability_set list \<Rightarrow> ability_set vm_result" where
  "polymorphic_abilities declared_abilities declared_phantom_parameters type_arguments =
     (if length declared_phantom_parameters \<noteq> length type_arguments
      then Err (new_error VERIFIER_INVARIANT_VIOLATION)
      else Ok (fold (\<lambda>ty_arg_abilities acc. ability_set_intersect acc ty_arg_abilities)
             (map (\<lambda>(ty_arg_abilities, _).
                 fold (\<lambda>s acc. ability_set_union acc s)
                   (map required_by (ability_set_into_iter ty_arg_abilities)) ability_set_EMPTY)
               (filter (\<lambda>(_, is_phantom). \<not> is_phantom)
                 (zip type_arguments declared_phantom_parameters)))
             declared_abilities))"

section \<open>The sets that the bits stand for\<close>

definition abilities_of :: "ability_set \<Rightarrow> ability set" where
  "abilities_of s = {a. has_ability s a}"

lemma in_abilities_of [simp]: "a \<in> abilities_of s \<longleftrightarrow> has_ability s a"
  by (simp add: abilities_of_def)

text \<open>The position of an ability's bit; everything about the sets is read off single bits.\<close>

definition ability_bit :: "ability \<Rightarrow> nat" where
  "ability_bit a = (case a of Copy \<Rightarrow> 0 | Drop \<Rightarrow> 1 | Store \<Rightarrow> 2 | Key \<Rightarrow> 3)"

lemma ability_bits_push_bit: "ability_bits a = push_bit (ability_bit a) 1"
  by (cases a) (simp_all add: ability_bits_def ability_bit_def)

lemma ability_bit_inject [simp]: "ability_bit a = ability_bit b \<longleftrightarrow> a = b"
  by (cases a; cases b) (simp_all add: ability_bit_def)

lemma ability_bit_less [simp]: "ability_bit a < 8"
  by (cases a) (simp_all add: ability_bit_def)

lemma bit_ability_bits: "bit (ability_bits a) n \<longleftrightarrow> n = ability_bit a"
  by (auto simp: ability_bits_push_bit bit_simps)

lemma has_ability_iff_bit: "has_ability s a \<longleftrightarrow> bit s (ability_bit a)"
proof -
  have "has_ability s a \<longleftrightarrow> (\<forall>n < 8. (n = ability_bit a \<and> bit s n) = (n = ability_bit a))"
    by (simp add: has_ability_def Let_def bit_eq_iff [where ?'a = u8] bit_and_iff
        bit_ability_bits)
  also have "\<dots> \<longleftrightarrow> bit s (ability_bit a)"
    using ability_bit_less[of a] by blast
  finally show ?thesis .
qed

lemma abilities_of_empty [simp]: "abilities_of ability_set_EMPTY = {}"
  by (auto simp: has_ability_iff_bit ability_set_EMPTY_def)

lemma abilities_of_intersect [simp]:
  "abilities_of (ability_set_intersect s t) = abilities_of s \<inter> abilities_of t"
  by (auto simp: has_ability_iff_bit ability_set_intersect_def bit_simps)

lemma abilities_of_union [simp]:
  "abilities_of (ability_set_union s t) = abilities_of s \<union> abilities_of t"
  by (auto simp: has_ability_iff_bit ability_set_union_def bit_simps)

lemma abilities_of_add [simp]: "abilities_of (ability_set_add s a) = insert a (abilities_of s)"
  by (auto simp: has_ability_iff_bit ability_set_add_def bit_simps bit_ability_bits)

lemma abilities_of_remove [simp]:
  "abilities_of (ability_set_remove s a) = abilities_of s - {a}"
  by (auto simp: has_ability_iff_bit ability_set_remove_def bit_simps bit_ability_bits)

lemma abilities_of_required_by: "abilities_of (required_by a) = {b. ability_requires b = a}"
proof (rule set_eqI)
  fix b
  show "b \<in> abilities_of (required_by a) \<longleftrightarrow> b \<in> {b. ability_requires b = a}"
    by (cases a; cases b; simp add: required_by_def ability_requires_def
        flip: in_abilities_of)
qed

lemma and_ability_bits: "s AND ability_bits a = (if has_ability s a then ability_bits a else 0)"
  by (auto simp: has_ability_iff_bit bit_eq_iff [where ?'a = u8] bit_simps bit_ability_bits)

lemma set_ability_set_into_iter [simp]: "set (ability_set_into_iter s) = abilities_of s"
proof -
  have idx: "[1, 2, 4, 8] = map ability_bits [Copy, Drop, Store, Key]"
    by (simp add: ability_bits_def)
  have from_bits: "ability_from_u8 (s AND ability_bits a) = (if has_ability s a then Some a else None)"
    for a
    by (cases a; cases "has_ability s a"; simp only: and_ability_bits if_True if_False)
       (simp_all add: ability_from_u8_def ability_bits_def)
  show ?thesis
    unfolding ability_set_into_iter_def idx
  proof (rule set_eqI)
    fix a
    show "a \<in> set (List.map_filter (\<lambda>idx. ability_from_u8 (s AND idx))
        (map ability_bits [Copy, Drop, Store, Key])) \<longleftrightarrow> a \<in> abilities_of s"
      by (cases a) (auto simp: map_filter_def from_bits)
  qed
qed

lemma abilities_of_fold_union:
  "abilities_of (fold (\<lambda>s acc. ability_set_union acc s) ss acc) =
     abilities_of acc \<union> (\<Union>s \<in> set ss. abilities_of s)"
  by (induction ss arbitrary: acc) auto

lemma abilities_of_fold_intersect:
  "abilities_of (fold (\<lambda>s acc. ability_set_intersect acc s) ss acc) =
     abilities_of acc \<inter> (\<Inter>s \<in> set ss. abilities_of s)"
  by (induction ss arbitrary: acc) auto

lemma bit_eight [simp]: "\<not> bit (w :: u8) n" if "8 \<le> n"
  using that bit_imp_le_length[of w n] by auto

lemma ability_set_eqI:
  assumes "abilities_of s = abilities_of t" "is_subset_bits s ability_set_ALL"
    "is_subset_bits t ability_set_ALL"
  shows "s = t"
proof (rule bit_eqI)
  fix n
  have all: "bit ability_set_ALL m \<longleftrightarrow> (\<exists>a. m = ability_bit a)" for m
    by (simp add: ability_set_ALL_def bit_simps bit_ability_bits) (metis ability.exhaust)
  have sub: "bit w n \<Longrightarrow> bit ability_set_ALL n" if "is_subset_bits w ability_set_ALL" for w
    using that by (metis bit_and_iff is_subset_bits_def)
  show "bit s n \<longleftrightarrow> bit t n"
  proof (cases "\<exists>a. n = ability_bit a")
    case True
    then obtain a where "n = ability_bit a" by blast
    with assms(1) show ?thesis
      by (metis has_ability_iff_bit in_abilities_of)
  next
    case False
    then show ?thesis using sub assms(2,3) all by blast
  qed
qed

section \<open>Abilities of an instantiation\<close>

lemma polymorphic_abilities_of:
  assumes "length phantoms = length args"
  shows "\<exists>r. polymorphic_abilities declared phantoms args = Ok r \<and>
    abilities_of r = {a \<in> abilities_of declared.
      \<forall>i < length args. \<not> phantoms ! i \<longrightarrow> has_ability (args ! i) (ability_requires a)}"
proof -
  have "abilities_of (fold (\<lambda>s acc. ability_set_union acc s)
      (map required_by (ability_set_into_iter s)) ability_set_EMPTY) =
      {b. ability_requires b \<in> abilities_of s}" for s
    by (auto simp: abilities_of_fold_union abilities_of_required_by simp del: in_abilities_of)
  then have req: "has_ability (fold (\<lambda>s acc. ability_set_union acc s)
      (map required_by (ability_set_into_iter s)) ability_set_EMPTY) b =
      has_ability s (ability_requires b)" for s b
    by (metis in_abilities_of mem_Collect_eq)
  have mem: "(s, ph) \<in> set (zip args phantoms) \<longleftrightarrow>
      (\<exists>i < length args. s = args ! i \<and> ph = phantoms ! i)" for s ph
    using assms by (auto simp: set_zip)
  show ?thesis
    using assms
    by (auto simp: polymorphic_abilities_def abilities_of_fold_intersect req mem; blast)
qed

text \<open>
  C16: the abilities of an instantiated type. When the argument lists have the same length,
  \<^verbatim>\<open>AbilitySet::polymorphic_abilities\<close> returns the set of exactly those declared abilities whose
  required ability is had by every type argument that is not phantom; the union-and-intersection
  computation on bits is the specification that the comment in the code states.
\<close>

theorem polymorphic_abilities_spec:
  assumes "length phantoms = length args"
  shows "\<exists>r. polymorphic_abilities declared phantoms args = Ok r \<and>
    abilities_of r = {a \<in> abilities_of declared.
      \<forall>i < length args. \<not> phantoms ! i \<longrightarrow> has_ability (args ! i) (ability_requires a)}"
  using assms by (rule polymorphic_abilities_of)

theorem polymorphic_abilities_spec_witness:
  "\<exists>r. polymorphic_abilities ability_set_VECTOR [False, True]
      [ability_set_SIGNER, ability_set_EMPTY] = Ok r \<and> abilities_of r = {Drop}"
proof -
  have "{a \<in> abilities_of ability_set_VECTOR. \<forall>i < length [ability_set_SIGNER, ability_set_EMPTY].
      \<not> [False, True] ! i \<longrightarrow> has_ability ([ability_set_SIGNER, ability_set_EMPTY] ! i)
        (ability_requires a)} = {Drop}" (is "?S = _")
  proof -
    have "a \<in> ?S \<longleftrightarrow> a = Drop" for a
      by (cases a) (simp_all add: less_Suc_eq has_ability_def ability_set_VECTOR_def
          ability_set_SIGNER_def ability_requires_def ability_bits_def)
    then show ?thesis by blast
  qed
  then show ?thesis
    using polymorphic_abilities_spec
      [of "[False, True]" "[ability_set_SIGNER, ability_set_EMPTY]" ability_set_VECTOR]
    by simp
qed

end
