(* ===== verification/File_Format.thy ===== *)
theory File_Format
  imports Abilities
begin

text \<open>
  The data of a compiled module or script (\<^verbatim>\<open>move-binary-format/src/file_format.rs\<close>): signature
  tokens and their traversal, the handle and definition tables, code units, modules and scripts.
  Every Rust struct is a record with the same fields (prefixed, since record fields are global),
  every enum a datatype.
\<close>

section \<open>Signature tokens\<close>

datatype signature_token =
    Bool
  | U8
  | U64
  | U128
  | Address
  | Signer
  | Vector signature_token
  | Struct struct_handle_index
  | StructInstantiation struct_handle_index "signature_token list"
  | Reference signature_token
  | MutableReference signature_token
  | TypeParameter type_parameter_index

type_synonym signature = "signature_token list"

definition is_integer :: "signature_token \<Rightarrow> bool" where
  "is_integer tok = (case tok of U8 \<Rightarrow> True | U64 \<Rightarrow> True | U128 \<Rightarrow> True | _ \<Rightarrow> False)"

definition is_reference :: "signature_token \<Rightarrow> bool" where
  "is_reference tok =
     (case tok of Reference _ \<Rightarrow> True | MutableReference _ \<Rightarrow> True | _ \<Rightarrow> False)"

definition is_mutable_reference :: "signature_token \<Rightarrow> bool" where
  "is_mutable_reference tok = (case tok of MutableReference _ \<Rightarrow> True | _ \<Rightarrow> False)"

definition is_signer :: "signature_token \<Rightarrow> bool" where
  "is_signer tok = (case tok of Signer \<Rightarrow> True | _ \<Rightarrow> False)"

fun is_valid_for_constant :: "signature_token \<Rightarrow> bool" where
  "is_valid_for_constant Bool = True"
| "is_valid_for_constant U8 = True"
| "is_valid_for_constant U64 = True"
| "is_valid_for_constant U128 = True"
| "is_valid_for_constant Address = True"
| "is_valid_for_constant (Vector inner) = is_valid_for_constant inner"
| "is_valid_for_constant _ = False"

text \<open>
  \<^verbatim>\<open>SignatureTokenPreorderTraversalIter\<close>: the iterator keeps a stack of tokens; each call of \<^verbatim>\<open>next\<close>
  pops one and pushes its children so that the first child is popped next. The list is what the
  iterator yields until its stack is empty; the head of \<open>stack\<close> is the top.
\<close>

definition inner_tokens :: "signature_token \<Rightarrow> signature_token list" where
  "inner_tokens tok =
     (case tok of
        Reference inner_tok \<Rightarrow> [inner_tok]
      | MutableReference inner_tok \<Rightarrow> [inner_tok]
      | Vector inner_tok \<Rightarrow> [inner_tok]
      | StructInstantiation _ inner_toks \<Rightarrow> inner_toks
      | _ \<Rightarrow> [])"

lemma inner_tokens_size: "sum_list (map (\<lambda>t. Suc (size t)) (inner_tokens tok)) \<le> size tok"
proof -
  have "sum_list (map (\<lambda>t. Suc (size t)) toks) = size_list size toks"
    for toks :: "signature_token list"
    by (induction toks) auto
  then show ?thesis
    by (cases tok) (auto simp: inner_tokens_def)
qed

function preorder_from :: "signature_token list \<Rightarrow> signature_token list" where
  "preorder_from [] = []"
| "preorder_from (tok # stack) = tok # preorder_from (inner_tokens tok @ stack)"
  by pat_completeness auto
termination
proof (relation "measure (\<lambda>stack. sum_list (map (\<lambda>t. Suc (size t)) stack))")
  fix tok :: signature_token and stack
  show "(inner_tokens tok @ stack, tok # stack)
      \<in> measure (\<lambda>stack. sum_list (map (\<lambda>t. Suc (size t)) stack))"
    using inner_tokens_size[of tok] by simp
qed simp

definition preorder_traversal :: "signature_token \<Rightarrow> signature_token list" where
  "preorder_traversal tok = preorder_from [tok]"

text \<open>The iterator with depths, \<^verbatim>\<open>SignatureTokenPreorderTraversalIterWithDepth\<close>.\<close>

function preorder_depth_from ::
  "(signature_token \<times> nat) list \<Rightarrow> (signature_token \<times> nat) list" where
  "preorder_depth_from [] = []"
| "preorder_depth_from ((tok, depth) # stack) =
     (tok, depth) # preorder_depth_from (map (\<lambda>t. (t, depth + 1)) (inner_tokens tok) @ stack)"
  by pat_completeness auto
termination
proof (relation "measure (\<lambda>stack. sum_list (map (\<lambda>p. Suc (size (fst p))) stack))")
  fix tok :: signature_token and depth :: nat and stack
  show "(map (\<lambda>t. (t, depth + 1)) (inner_tokens tok) @ stack, (tok, depth) # stack)
      \<in> measure (\<lambda>stack. sum_list (map (\<lambda>p. Suc (size (fst p))) stack))"
    using inner_tokens_size[of tok] by (simp add: comp_def)
qed simp

definition preorder_traversal_with_depth :: "signature_token \<Rightarrow> (signature_token \<times> nat) list" where
  "preorder_traversal_with_depth tok = preorder_depth_from [(tok, 1)]"

section \<open>Handles\<close>

record module_handle =
  mh_address :: address_identifier_index
  mh_name :: identifier_index

record struct_type_parameter =
  stp_constraints :: ability_set
  stp_is_phantom :: bool

record struct_handle =
  sh_module :: module_handle_index
  sh_name :: identifier_index
  sh_abilities :: ability_set
  sh_type_parameters :: "struct_type_parameter list"

record function_handle =
  fh_module :: module_handle_index
  fh_name :: identifier_index
  fh_parameters :: signature_index
  fh_return :: signature_index
  fh_type_parameters :: "ability_set list"

record field_handle =
  fdh_owner :: struct_definition_index
  fdh_field :: member_count

definition type_param_constraints :: "struct_handle \<Rightarrow> ability_set list" where
  "type_param_constraints sh = map stp_constraints (sh_type_parameters sh)"

section \<open>Instantiations\<close>

record struct_def_instantiation =
  sdi_def :: struct_definition_index
  sdi_type_parameters :: signature_index

record function_instantiation =
  fi_handle :: function_handle_index
  fi_type_parameters :: signature_index

record field_instantiation =
  fdi_handle :: field_handle_index
  fdi_type_parameters :: signature_index

section \<open>Definitions\<close>

record field_definition =
  fdd_name :: identifier_index
  fdd_signature :: signature_token

datatype struct_field_information = Native | Declared "field_definition list"

record struct_definition =
  sd_struct_handle :: struct_handle_index
  sd_field_information :: struct_field_information

definition declared_field_count :: "struct_definition \<Rightarrow> nat vm_result" where
  "declared_field_count sd =
     (case sd_field_information sd of
        Native \<Rightarrow> Err (new_error LINKER_ERROR)
      | Declared fds \<Rightarrow> Ok (as_u16 (length fds)))"

definition field :: "struct_definition \<Rightarrow> nat \<Rightarrow> field_definition option" where
  "field sd off =
     (case sd_field_information sd of
        Native \<Rightarrow> None
      | Declared fds \<Rightarrow> vec_get fds off)"

datatype visibility = Private | Public | VScript | Friend

definition visibility_as_u8 :: "visibility \<Rightarrow> u8" where
  "visibility_as_u8 v = (case v of Private \<Rightarrow> 0 | Public \<Rightarrow> 1 | VScript \<Rightarrow> 2 | Friend \<Rightarrow> 3)"

definition visibility_try_from :: "u8 \<Rightarrow> visibility option" where
  "visibility_try_from v =
     (if v = visibility_as_u8 Private then Some Private
      else if v = visibility_as_u8 Public then Some Public
      else if v = visibility_as_u8 VScript then Some VScript
      else if v = visibility_as_u8 Friend then Some Friend
      else None)"

record code_unit =
  cu_locals :: signature_index
  cu_code :: "bytecode list"

record function_definition =
  fd_function :: function_handle_index
  fd_visibility :: visibility
  fd_acquires_global_resources :: "struct_definition_index list"
  fd_code :: "code_unit option"

definition is_native :: "function_definition \<Rightarrow> bool" where
  "is_native fd = (fd_code fd = None)"

record pool_constant =
  const_type :: signature_token
  const_data :: "u8 list"

section \<open>Modules and scripts\<close>

type_synonym ident_str = string
type_synonym account_address = "u8 list"

record compiled_script =
  cs_version :: u32
  cs_module_handles :: "module_handle list"
  cs_struct_handles :: "struct_handle list"
  cs_function_handles :: "function_handle list"
  cs_function_instantiations :: "function_instantiation list"
  cs_signatures :: "signature list"
  cs_identifiers :: "ident_str list"
  cs_address_identifiers :: "account_address list"
  cs_constant_pool :: "pool_constant list"
  cs_type_parameters :: "ability_set list"
  cs_parameters :: signature_index
  cs_code :: code_unit

record compiled_module =
  cm_version :: u32
  cm_self_module_handle_idx :: module_handle_index
  cm_module_handles :: "module_handle list"
  cm_struct_handles :: "struct_handle list"
  cm_function_handles :: "function_handle list"
  cm_field_handles :: "field_handle list"
  cm_friend_decls :: "module_handle list"
  cm_struct_def_instantiations :: "struct_def_instantiation list"
  cm_function_instantiations :: "function_instantiation list"
  cm_field_instantiations :: "field_instantiation list"
  cm_signatures :: "signature list"
  cm_identifiers :: "ident_str list"
  cm_address_identifiers :: "account_address list"
  cm_constant_pool :: "pool_constant list"
  cm_struct_defs :: "struct_definition list"
  cm_function_defs :: "function_definition list"

section \<open>The traversal visits every token\<close>

text \<open>The tokens of a type, as the recursion over its structure gives them.\<close>

fun subtokens :: "signature_token \<Rightarrow> signature_token list" where
  "subtokens (Reference tok) = Reference tok # subtokens tok"
| "subtokens (MutableReference tok) = MutableReference tok # subtokens tok"
| "subtokens (Vector tok) = Vector tok # subtokens tok"
| "subtokens (StructInstantiation idx toks) =
     StructInstantiation idx toks # concat (map subtokens toks)"
| "subtokens tok = [tok]"

lemma subtokens_inner: "subtokens tok = tok # concat (map subtokens (inner_tokens tok))"
  by (cases tok) (simp_all add: inner_tokens_def)

lemma preorder_from_subtokens: "preorder_from stack = concat (map subtokens stack)"
proof (induction stack rule: preorder_from.induct)
  case 1
  then show ?case by simp
next
  case (2 tok stack)
  then show ?case by (simp add: subtokens_inner[of tok])
qed

lemma preorder_traversal_subtokens [simp]: "preorder_traversal tok = subtokens tok"
  by (simp add: preorder_traversal_def preorder_from_subtokens)

lemma self_in_subtokens [simp]: "tok \<in> set (subtokens tok)"
  by (subst subtokens_inner) simp

lemma visibility_roundtrip: "visibility_try_from (visibility_as_u8 v) = Some v"
  by (cases v) (simp_all add: visibility_try_from_def visibility_as_u8_def)

end
