(* ===== verification/Binary_Views.thy ===== *)
theory Binary_Views
  imports File_Format
begin

text \<open>
  Access to the tables of a module or a script (\<^verbatim>\<open>move-binary-format/src/access.rs\<close> and
  \<^verbatim>\<open>binary_views.rs\<close>). The accessors \<open>..._at\<close> index a vector and panic out of range; those that a
  script has no table for return \<open>INVALID_OPERATION_IN_SCRIPT\<close>. \<open>token_abilities\<close> is
  \<^verbatim>\<open>BinaryIndexedView::abilities\<close>. The function view is in \<open>Function_View\<close>, since it holds the
  control flow graph.
\<close>

section \<open>The indexed view\<close>

datatype binary_indexed_view = ViewModule compiled_module | ViewScript compiled_script

definition module_handles :: "binary_indexed_view \<Rightarrow> module_handle list" where
  "module_handles view =
     (case view of ViewModule m \<Rightarrow> cm_module_handles m | ViewScript s \<Rightarrow> cs_module_handles s)"

definition struct_handles :: "binary_indexed_view \<Rightarrow> struct_handle list" where
  "struct_handles view =
     (case view of ViewModule m \<Rightarrow> cm_struct_handles m | ViewScript s \<Rightarrow> cs_struct_handles s)"

definition function_handles :: "binary_indexed_view \<Rightarrow> function_handle list" where
  "function_handles view =
     (case view of ViewModule m \<Rightarrow> cm_function_handles m | ViewScript s \<Rightarrow> cs_function_handles s)"

definition identifiers :: "binary_indexed_view \<Rightarrow> ident_str list" where
  "identifiers view =
     (case view of ViewModule m \<Rightarrow> cm_identifiers m | ViewScript s \<Rightarrow> cs_identifiers s)"

definition address_identifiers :: "binary_indexed_view \<Rightarrow> account_address list" where
  "address_identifiers view =
     (case view of ViewModule m \<Rightarrow> cm_address_identifiers m
      | ViewScript s \<Rightarrow> cs_address_identifiers s)"

definition constant_pool :: "binary_indexed_view \<Rightarrow> pool_constant list" where
  "constant_pool view =
     (case view of ViewModule m \<Rightarrow> cm_constant_pool m | ViewScript s \<Rightarrow> cs_constant_pool s)"

definition signatures :: "binary_indexed_view \<Rightarrow> signature list" where
  "signatures view =
     (case view of ViewModule m \<Rightarrow> cm_signatures m | ViewScript s \<Rightarrow> cs_signatures s)"

definition function_instantiations :: "binary_indexed_view \<Rightarrow> function_instantiation list" where
  "function_instantiations view =
     (case view of ViewModule m \<Rightarrow> cm_function_instantiations m
      | ViewScript s \<Rightarrow> cs_function_instantiations s)"

definition field_handles :: "binary_indexed_view \<Rightarrow> field_handle list option" where
  "field_handles view =
     (case view of ViewModule m \<Rightarrow> Some (cm_field_handles m) | ViewScript _ \<Rightarrow> None)"

definition friend_decls :: "binary_indexed_view \<Rightarrow> module_handle list option" where
  "friend_decls view =
     (case view of ViewModule m \<Rightarrow> Some (cm_friend_decls m) | ViewScript _ \<Rightarrow> None)"

definition struct_instantiations ::
  "binary_indexed_view \<Rightarrow> struct_def_instantiation list option" where
  "struct_instantiations view =
     (case view of ViewModule m \<Rightarrow> Some (cm_struct_def_instantiations m) | ViewScript _ \<Rightarrow> None)"

definition field_instantiations :: "binary_indexed_view \<Rightarrow> field_instantiation list option" where
  "field_instantiations view =
     (case view of ViewModule m \<Rightarrow> Some (cm_field_instantiations m) | ViewScript _ \<Rightarrow> None)"

definition struct_defs :: "binary_indexed_view \<Rightarrow> struct_definition list option" where
  "struct_defs view =
     (case view of ViewModule m \<Rightarrow> Some (cm_struct_defs m) | ViewScript _ \<Rightarrow> None)"

definition function_defs :: "binary_indexed_view \<Rightarrow> function_definition list option" where
  "function_defs view =
     (case view of ViewModule m \<Rightarrow> Some (cm_function_defs m) | ViewScript _ \<Rightarrow> None)"

definition self_handle_idx :: "binary_indexed_view \<Rightarrow> module_handle_index option" where
  "self_handle_idx view =
     (case view of ViewModule m \<Rightarrow> Some (cm_self_module_handle_idx m) | ViewScript _ \<Rightarrow> None)"

section \<open>Indexing\<close>

definition identifier_at :: "binary_indexed_view \<Rightarrow> identifier_index \<Rightarrow> ident_str vm_result" where
  "identifier_at view idx = vec_index (identifiers view) (unat idx)"

definition address_identifier_at ::
  "binary_indexed_view \<Rightarrow> address_identifier_index \<Rightarrow> account_address vm_result" where
  "address_identifier_at view idx = vec_index (address_identifiers view) (unat idx)"

definition constant_at ::
  "binary_indexed_view \<Rightarrow> constant_pool_index \<Rightarrow> pool_constant vm_result" where
  "constant_at view idx = vec_index (constant_pool view) (unat idx)"

definition signature_at :: "binary_indexed_view \<Rightarrow> signature_index \<Rightarrow> signature vm_result" where
  "signature_at view idx = vec_index (signatures view) (unat idx)"

definition module_handle_at ::
  "binary_indexed_view \<Rightarrow> module_handle_index \<Rightarrow> module_handle vm_result" where
  "module_handle_at view idx = vec_index (module_handles view) (unat idx)"

definition struct_handle_at ::
  "binary_indexed_view \<Rightarrow> struct_handle_index \<Rightarrow> struct_handle vm_result" where
  "struct_handle_at view idx = vec_index (struct_handles view) (unat idx)"

definition function_handle_at ::
  "binary_indexed_view \<Rightarrow> function_handle_index \<Rightarrow> function_handle vm_result" where
  "function_handle_at view idx = vec_index (function_handles view) (unat idx)"

definition function_instantiation_at ::
  "binary_indexed_view \<Rightarrow> function_instantiation_index \<Rightarrow> function_instantiation vm_result" where
  "function_instantiation_at view idx = vec_index (function_instantiations view) (unat idx)"

text \<open>The tables that only a module has.\<close>

definition module_table_at :: "'a list option \<Rightarrow> nat \<Rightarrow> 'a vm_result" where
  "module_table_at table idx =
     (case table of Some xs \<Rightarrow> vec_index xs idx | None \<Rightarrow> Err (new_error INVALID_OPERATION_IN_SCRIPT))"

definition field_handle_at ::
  "binary_indexed_view \<Rightarrow> field_handle_index \<Rightarrow> field_handle vm_result" where
  "field_handle_at view idx = module_table_at (field_handles view) (unat idx)"

definition struct_instantiation_at ::
  "binary_indexed_view \<Rightarrow> struct_def_instantiation_index \<Rightarrow> struct_def_instantiation vm_result" where
  "struct_instantiation_at view idx = module_table_at (struct_instantiations view) (unat idx)"

definition field_instantiation_at ::
  "binary_indexed_view \<Rightarrow> field_instantiation_index \<Rightarrow> field_instantiation vm_result" where
  "field_instantiation_at view idx = module_table_at (field_instantiations view) (unat idx)"

definition struct_def_at ::
  "binary_indexed_view \<Rightarrow> struct_definition_index \<Rightarrow> struct_definition vm_result" where
  "struct_def_at view idx = module_table_at (struct_defs view) (unat idx)"

definition function_def_at ::
  "binary_indexed_view \<Rightarrow> function_definition_index \<Rightarrow> function_definition vm_result" where
  "function_def_at view idx = module_table_at (function_defs view) (unat idx)"

section \<open>Abilities of a type\<close>

fun token_abilities ::
  "binary_indexed_view \<Rightarrow> signature_token \<Rightarrow> ability_set list \<Rightarrow> ability_set vm_result" where
  "token_abilities view Bool constraints = Ok ability_set_PRIMITIVES"
| "token_abilities view U8 constraints = Ok ability_set_PRIMITIVES"
| "token_abilities view U64 constraints = Ok ability_set_PRIMITIVES"
| "token_abilities view U128 constraints = Ok ability_set_PRIMITIVES"
| "token_abilities view Address constraints = Ok ability_set_PRIMITIVES"
| "token_abilities view (Reference _) constraints = Ok ability_set_REFERENCES"
| "token_abilities view (MutableReference _) constraints = Ok ability_set_REFERENCES"
| "token_abilities view Signer constraints = Ok ability_set_SIGNER"
| "token_abilities view (TypeParameter idx) constraints = vec_index constraints (unat idx)"
| "token_abilities view (Vector ty) constraints =
     rbind (token_abilities view ty constraints) (\<lambda>abilities.
       polymorphic_abilities ability_set_VECTOR [False] [abilities])"
| "token_abilities view (Struct idx) constraints =
     rbind (struct_handle_at view idx) (\<lambda>sh. Ok (sh_abilities sh))"
| "token_abilities view (StructInstantiation idx type_args) constraints =
     rbind (struct_handle_at view idx) (\<lambda>sh.
       rbind (rmap (\<lambda>arg. token_abilities view arg constraints) type_args) (\<lambda>type_arguments.
         polymorphic_abilities (sh_abilities sh) (map stp_is_phantom (sh_type_parameters sh))
           type_arguments))"

section \<open>Well-formed tokens have abilities\<close>

text \<open>
  What the bounds checker establishes for every type: the struct handles are in range with the
  right number of arguments, and so are the type parameters.
\<close>

definition token_in_bounds :: "binary_indexed_view \<Rightarrow> nat \<Rightarrow> signature_token \<Rightarrow> bool" where
  "token_in_bounds view type_param_count tok =
     (\<forall>t \<in> set (subtokens tok). case t of
        Struct idx \<Rightarrow> unat idx < length (struct_handles view) \<and>
          sh_type_parameters (struct_handles view ! unat idx) = []
      | StructInstantiation idx args \<Rightarrow> unat idx < length (struct_handles view) \<and>
          length (sh_type_parameters (struct_handles view ! unat idx)) = length args
      | TypeParameter idx \<Rightarrow> unat idx < type_param_count
      | _ \<Rightarrow> True)"

lemma polymorphic_abilities_Ok:
  "length phantoms = length args \<Longrightarrow> \<exists>r. polymorphic_abilities declared phantoms args = Ok r"
  by (simp add: polymorphic_abilities_def)

lemma token_in_bounds_inner:
  "token_in_bounds view n tok \<Longrightarrow> t \<in> set (inner_tokens tok) \<Longrightarrow> token_in_bounds view n t"
  using subtokens_inner[of tok] by (auto simp: token_in_bounds_def)

lemma token_abilities_Ok:
  "token_in_bounds view (length constraints) tok \<Longrightarrow>
     \<exists>r. token_abilities view tok constraints = Ok r"
proof (induction view tok constraints rule: token_abilities.induct)
  case (10 view ty constraints)
  then obtain a where "token_abilities view ty constraints = Ok a"
    using token_in_bounds_inner[of view _ "Vector ty" ty] by (auto simp: inner_tokens_def)
  then show ?case using polymorphic_abilities_Ok[of "[False]" "[a]"] by simp
next
  case (12 view idx type_args constraints)
  let ?sh = "struct_handles view ! unat idx"
  have bounds: "unat idx < length (struct_handles view)"
    "length (sh_type_parameters ?sh) = length type_args"
    using 12(2) by (auto simp: token_in_bounds_def)
  then have sh: "struct_handle_at view idx = Ok ?sh"
    by (simp add: struct_handle_at_def)
  have "\<exists>r. token_abilities view arg constraints = Ok r" if "arg \<in> set type_args" for arg
    using 12(1)[OF sh that] token_in_bounds_inner[OF 12(2)] that
    by (simp add: inner_tokens_def)
  then obtain f where "\<And>arg. arg \<in> set type_args \<Longrightarrow> token_abilities view arg constraints = Ok (f arg)"
    by metis
  then have "rmap (\<lambda>arg. token_abilities view arg constraints) type_args = Ok (map f type_args)"
    by (auto simp: rmap_eq_Ok list_all2_conv_all_nth)
  then show ?case
    using sh bounds polymorphic_abilities_Ok
      [of "map stp_is_phantom (sh_type_parameters ?sh)" "map f type_args" "sh_abilities ?sh"]
    by simp
qed (auto simp: token_in_bounds_def struct_handle_at_def)

end
