(* ===== verification/Control_Flow.thy ===== *)
theory Control_Flow
  imports File_Format
begin

text \<open>
  The control flow verifier (\<^verbatim>\<open>move-bytecode-verifier/src/control_flow.rs\<close>). It labels the loop heads
  of a function body with the last instruction that jumps back to them and then makes three passes
  over the code with a stack of the open loops. The development shows that the stack of the code is
  the list of loops around the current instruction, that accepted code has well nested loops which
  are entered through their heads only, and that the passes do not panic.
\<close>

section \<open>Labels\<close>

datatype label = Loop nat | Code

definition is_back_edge :: "nat \<Rightarrow> nat \<Rightarrow> bool" where
  "is_back_edge cur_instr target_instr = (target_instr \<le> cur_instr)"

text \<open>
  The iterator \<^verbatim>\<open>ControlFlowVerifier::code\<close> converts every index to a \<^verbatim>\<open>u16\<close> and unwraps, which is the
  assertion at the start of a turn.
\<close>

definition label_turn :: "nat \<times> bytecode \<Rightarrow> label list \<Rightarrow> label list vm_result" where
  "label_turn = (\<lambda>(i, instr) labels.
     rbind (assert (i \<le> u16_max)) (\<lambda>_.
       case offset instr of
         Some prev \<Rightarrow>
           if is_back_edge i prev
           then rbind (assert (prev < length labels)) (\<lambda>_. Ok (labels[prev := Loop i]))
           else Ok labels
       | None \<Rightarrow> Ok labels))"

definition instruction_labels :: "bytecode list \<Rightarrow> label list vm_result" where
  "instruction_labels code =
     for_each label_turn (enumerate_from_zero code) (replicate (length code) Code)"

section \<open>Passes over the code\<close>

text \<open>The stack of open loops, the innermost first: its head and its last continue.\<close>

type_synonym loop_stack = "(nat \<times> nat) list"

definition check_code_turn ::
  "(loop_stack \<Rightarrow> nat \<Rightarrow> bytecode \<Rightarrow> unit vm_result) \<Rightarrow>
     (nat \<times> bytecode) \<times> label \<Rightarrow> loop_stack \<Rightarrow> loop_stack vm_result" where
  "check_code_turn check = (\<lambda>((cur_instr, instr), label) loop_stack.
     rbind (assert (cur_instr \<le> u16_max)) (\<lambda>_.
       let loop_stack =
         (case label of Loop last_continue \<Rightarrow> (cur_instr, last_continue) # loop_stack
          | Code \<Rightarrow> loop_stack)
       in rbind (check loop_stack cur_instr instr) (\<lambda>_.
            case offset instr of
              Some target \<Rightarrow>
                if is_back_edge cur_instr target
                then (case loop_stack of
                        [] \<Rightarrow> Panic
                      | (_, last_continue) # rest \<Rightarrow>
                          Ok (if cur_instr = last_continue then rest else loop_stack))
                else Ok loop_stack
            | None \<Rightarrow> Ok loop_stack)))"

definition check_code ::
  "bytecode list \<Rightarrow> label list \<Rightarrow> (loop_stack \<Rightarrow> nat \<Rightarrow> bytecode \<Rightarrow> unit vm_result) \<Rightarrow>
     unit vm_result" where
  "check_code code labels check =
     rbind (for_each (check_code_turn check) (zip (enumerate_from_zero code) labels) [])
       (\<lambda>_. Ok ())"

definition cf_error :: "nat \<Rightarrow> status_code \<Rightarrow> nat \<Rightarrow> partial_vm_error" where
  "cf_error current_function status off = at_code_offset (new_error status) current_function off"

definition continue_check :: "nat \<Rightarrow> loop_stack \<Rightarrow> nat \<Rightarrow> bytecode \<Rightarrow> unit vm_result" where
  "continue_check current_function loop_stack cur_instr instr =
     (case offset instr of
        Some target \<Rightarrow>
          if is_back_edge cur_instr target
          then (case loop_stack of
                  [] \<Rightarrow> Panic
                | (cur_loop_head, _) # _ \<Rightarrow>
                    if target \<noteq> cur_loop_head
                    then Err (cf_error current_function INVALID_LOOP_CONTINUE cur_instr)
                    else Ok ())
          else Ok ()
      | None \<Rightarrow> Ok ())"

definition check_continues :: "nat \<Rightarrow> bytecode list \<Rightarrow> label list \<Rightarrow> unit vm_result" where
  "check_continues current_function code labels =
     check_code code labels (continue_check current_function)"

definition break_check :: "nat \<Rightarrow> loop_stack \<Rightarrow> nat \<Rightarrow> bytecode \<Rightarrow> unit vm_result" where
  "break_check current_function loop_stack cur_instr instr =
     (case offset instr of
        Some target \<Rightarrow>
          if \<not> is_back_edge cur_instr target
          then (case loop_stack of
                  (_, last_continue) # _ \<Rightarrow>
                    if last_continue < target \<and> target \<noteq> as_u16 (last_continue + 1)
                    then Err (cf_error current_function INVALID_LOOP_BREAK cur_instr)
                    else Ok ()
                | [] \<Rightarrow> Ok ())
          else Ok ()
      | None \<Rightarrow> Ok ())"

definition check_breaks :: "nat \<Rightarrow> bytecode list \<Rightarrow> label list \<Rightarrow> unit vm_result" where
  "check_breaks current_function code labels =
     check_code code labels (break_check current_function)"

definition is_break :: "loop_stack \<Rightarrow> nat \<Rightarrow> bool" where
  "is_break loop_stack jump_target =
     (case loop_stack of [] \<Rightarrow> False | (_, last_continue) # _ \<Rightarrow> last_continue < jump_target)"

text \<open>
  \<^verbatim>\<open>count_loop_depth\<close>. The counter is a \<^verbatim>\<open>usize\<close>; a decrement at zero would be an overflow and is the
  outcome \<open>Panic\<close>, which is shown not to occur.
\<close>

definition last_continues :: "label list \<Rightarrow> nat list" where
  "last_continues labels =
     List.map_filter (\<lambda>label. case label of Loop last_continue \<Rightarrow> Some last_continue | Code \<Rightarrow> None)
       labels"

definition depth_turn ::
  "nat list \<Rightarrow> nat \<times> label \<Rightarrow> nat \<times> nat list \<Rightarrow> (nat \<times> nat list) vm_result" where
  "depth_turn lasts = (\<lambda>(idx, label) (count, counts).
     let count = (case label of Loop _ \<Rightarrow> count + 1 | Code \<Rightarrow> count);
         counts = counts @ [count]
     in rbind (assert (idx \<le> u16_max)) (\<lambda>_.
          if idx \<in> set lasts
          then rbind (assert (0 < count)) (\<lambda>_. Ok (count - 1, counts))
          else Ok (count, counts)))"

definition count_loop_depth :: "label list \<Rightarrow> nat list vm_result" where
  "count_loop_depth labels =
     rbind (for_each (depth_turn (last_continues labels)) (enumerate_from_zero labels) (0, []))
       (\<lambda>(_, counts). Ok counts)"

definition split_check ::
  "nat \<Rightarrow> label list \<Rightarrow> nat list \<Rightarrow> loop_stack \<Rightarrow> nat \<Rightarrow> bytecode \<Rightarrow> unit vm_result" where
  "split_check current_function labels loop_depth loop_stack i instr =
     (case offset instr of
        Some j \<Rightarrow>
          if i < j \<and> \<not> is_break loop_stack j
          then rbind (vec_index loop_depth i) (\<lambda>before_depth.
            rbind (vec_index labels j) (\<lambda>label.
            rbind (vec_index loop_depth j) (\<lambda>depth.
            rbind (case label of
                Loop _ \<Rightarrow> rbind (assert (0 < depth)) (\<lambda>_. Ok (depth - 1))
              | Code \<Rightarrow> Ok depth) (\<lambda>after_depth.
              if before_depth \<noteq> after_depth
              then Err (cf_error current_function INVALID_LOOP_SPLIT i)
              else Ok ()))))
          else Ok ()
      | None \<Rightarrow> Ok ())"

definition check_no_loop_splits :: "nat \<Rightarrow> bytecode list \<Rightarrow> label list \<Rightarrow> unit vm_result" where
  "check_no_loop_splits current_function code labels =
     rbind (count_loop_depth labels) (\<lambda>loop_depth.
       check_code code labels (split_check current_function labels loop_depth))"

definition check_jumps :: "nat \<Rightarrow> bytecode list \<Rightarrow> label list \<Rightarrow> unit vm_result" where
  "check_jumps current_function code labels =
     rbind (check_continues current_function code labels) (\<lambda>_.
     rbind (check_breaks current_function code labels) (\<lambda>_.
       check_no_loop_splits current_function code labels))"

definition control_flow_verify :: "nat option \<Rightarrow> code_unit \<Rightarrow> unit vm_result" where
  "control_flow_verify current_function_opt code =
     (let current_function = (case current_function_opt of Some f \<Rightarrow> f | None \<Rightarrow> 0)
      in if cu_code code = [] then Err (new_error EMPTY_CODE_UNIT)
         else if \<not> is_unconditional_branch (last (cu_code code))
         then Err (at_code_offset (new_error INVALID_FALL_THROUGH) current_function
                (as_u16 (length (cu_code code) - 1)))
         else rbind (instruction_labels (cu_code code))
                (check_jumps current_function (cu_code code)))"

section \<open>Labels are the last continues\<close>

text \<open>Before turn \<open>n\<close>: the last of the first \<open>n\<close> instructions that jumps back to \<open>h\<close> is \<open>l\<close>.\<close>

definition continue_upto :: "nat \<Rightarrow> bytecode list \<Rightarrow> nat \<Rightarrow> nat \<Rightarrow> bool" where
  "continue_upto n code h l =
     (l < n \<and> offset (code ! l) = Some h \<and> h \<le> l \<and>
      (\<forall>i. l < i \<and> i < n \<longrightarrow> offset (code ! i) \<noteq> Some h))"

definition loop_at :: "bytecode list \<Rightarrow> nat \<Rightarrow> nat \<Rightarrow> bool" where
  "loop_at code h l = continue_upto (length code) code h l"

lemma loop_atD:
  assumes "loop_at code h l"
  shows "h \<le> l" "l < length code" "h < length code" "offset (code ! l) = Some h"
  using assms by (auto simp: loop_at_def continue_upto_def)

lemma loop_at_inject: "loop_at code h l \<Longrightarrow> loop_at code h' l \<Longrightarrow> h = h'"
  by (auto simp: loop_at_def continue_upto_def)

lemma loop_at_unique: "loop_at code h l \<Longrightarrow> loop_at code h l' \<Longrightarrow> l = l'"
  unfolding loop_at_def continue_upto_def by (metis linorder_neqE_nat)

text \<open>Every backward jump belongs to a loop that is still open there.\<close>

lemma back_jump_loop_at:
  assumes "i < length code" "offset (code ! i) = Some t" "t \<le> i"
  shows "\<exists>l. loop_at code t l \<and> i \<le> l"
proof -
  let ?S = "{k. k < length code \<and> offset (code ! k) = Some t \<and> t \<le> k}"
  have fin: "finite ?S" and mem: "i \<in> ?S" using assms by auto
  obtain m where m: "m \<in> ?S" and max: "\<And>k. k \<in> ?S \<Longrightarrow> k \<le> m"
    using fin mem Max_in[of ?S] Max_ge[of ?S] by blast
  have "loop_at code t m"
    using m max by (fastforce simp: loop_at_def continue_upto_def)
  with max[OF mem] show ?thesis by blast
qed

lemma continue_upto_Suc:
  "continue_upto (Suc n) code h l \<longleftrightarrow>
     (if offset (code ! n) = Some h \<and> h \<le> n then l = n else continue_upto n code h l)"
  by (auto simp: continue_upto_def less_Suc_eq)

lemma instruction_labels_spec:
  assumes "length code \<le> u16_max + 1"
  shows "\<exists>labels. instruction_labels code = Ok labels \<and> length labels = length code \<and>
    (\<forall>h l. h < length code \<longrightarrow> (labels ! h = Loop l \<longleftrightarrow> loop_at code h l))"
proof -
  let ?I = "\<lambda>n labels. length labels = length code \<and>
    (\<forall>h l. h < length code \<longrightarrow> (labels ! h = Loop l \<longleftrightarrow> continue_upto n code h l))"
  have "\<exists>labels. for_each label_turn (enumerate_from_zero code) (replicate (length code) Code)
      = Ok labels \<and> ?I (length (enumerate_from_zero code)) labels"
  proof (rule for_each_total)
    show "?I 0 (replicate (length code) Code)" by (simp add: continue_upto_def)
  next
    fix i labels
    assume i: "i < length (enumerate_from_zero code)" and inv: "?I i labels"
    show "\<exists>labels'. label_turn (enumerate_from_zero code ! i) labels = Ok labels' \<and>
        ?I (Suc i) labels'"
    proof (cases "\<exists>t. offset (code ! i) = Some t \<and> t \<le> i")
      case True
      then obtain t where t: "offset (code ! i) = Some t" "t \<le> i" by blast
      then show ?thesis
        using i inv assms
        by (auto simp: label_turn_def enumerate_from_zero_nth assert_def is_back_edge_def
            nth_list_update continue_upto_Suc)
    next
      case False
      then show ?thesis
        using i inv assms
        by (auto simp: label_turn_def enumerate_from_zero_nth assert_def is_back_edge_def
            continue_upto_Suc split: option.splits)
    qed
  qed
  then show ?thesis by (simp add: instruction_labels_def loop_at_def)
qed

section \<open>The stack is the list of open loops\<close>

text \<open>
  The loops around an instruction, innermost first: those whose head is at most \<open>i\<close>
  (\<open>stack_at\<close>, after the push of turn \<open>i\<close>) or less than \<open>i\<close> (\<open>stack_before\<close>) and whose last
  continue has not been passed.
\<close>

definition open_loops :: "label list \<Rightarrow> nat \<Rightarrow> nat \<Rightarrow> loop_stack" where
  "open_loops labels i n =
     rev (List.map_filter (\<lambda>h. case labels ! h of
         Loop l \<Rightarrow> (if i \<le> l then Some (h, l) else None)
       | Code \<Rightarrow> None) [0..<n])"

abbreviation stack_before :: "label list \<Rightarrow> nat \<Rightarrow> loop_stack" where
  "stack_before labels i \<equiv> open_loops labels i i"

abbreviation stack_at :: "label list \<Rightarrow> nat \<Rightarrow> loop_stack" where
  "stack_at labels i \<equiv> open_loops labels i (Suc i)"

lemma open_loops_0 [simp]: "open_loops labels i 0 = []"
  by (simp add: open_loops_def map_filter_def)

lemma open_loops_Suc:
  "open_loops labels i (Suc n) =
     (case labels ! n of Loop l \<Rightarrow> (if i \<le> l then [(n, l)] else []) | Code \<Rightarrow> []) @
     open_loops labels i n"
  by (simp add: open_loops_def map_filter_def split: label.splits)

lemma set_open_loops:
  "(h, l) \<in> set (open_loops labels i n) \<longleftrightarrow> h < n \<and> labels ! h = Loop l \<and> i \<le> l"
  by (induction n) (auto simp: open_loops_Suc less_Suc_eq split: label.splits)

lemma distinct_open_loops: "distinct (open_loops labels i n)"
  by (induction n) (auto simp: open_loops_Suc set_open_loops split: label.splits)

lemma hd_open_loops:
  assumes "open_loops labels i n = (h, l) # rest" "(h', l') \<in> set rest"
  shows "h' < h"
  using assms
proof (induction n)
  case 0
  then show ?case by simp
next
  case (Suc n)
  then show ?case
    by (auto simp: open_loops_Suc set_open_loops split: label.splits if_splits)
qed

lemma open_loops_next:
  "open_loops labels (Suc i) n = filter (\<lambda>(h, l). l \<noteq> i) (open_loops labels i n)"
  by (induction n) (auto simp: open_loops_Suc split: label.splits)

text \<open>
  Well nested code, as far as instruction \<open>n\<close>: every backward jump goes to the innermost loop
  around it.
\<close>

definition nested_upto :: "nat \<Rightarrow> bytecode list \<Rightarrow> bool" where
  "nested_upto n code =
     (\<forall>i < n. \<forall>t h l. offset (code ! i) = Some t \<and> t \<le> i \<and> loop_at code h l \<and> h \<le> i \<and> i \<le> l
        \<longrightarrow> h \<le> t)"

text \<open>What holds of the labels of a body; the hypotheses of the lemmas below.\<close>

definition labels_of :: "bytecode list \<Rightarrow> label list \<Rightarrow> bool" where
  "labels_of code labels =
     (length labels = length code \<and>
      (\<forall>h l. h < length code \<longrightarrow> (labels ! h = Loop l \<longleftrightarrow> loop_at code h l)))"

lemma labels_ofD:
  assumes "labels_of code labels" "h < length code"
  shows "labels ! h = Loop l \<longleftrightarrow> loop_at code h l"
  using assms by (simp add: labels_of_def)

lemma set_stack_at:
  assumes "labels_of code labels" "i < length code"
  shows "(h, l) \<in> set (stack_at labels i) \<longleftrightarrow> loop_at code h l \<and> h \<le> i \<and> i \<le> l"
  using assms by (auto simp: set_open_loops labels_of_def less_Suc_eq_le)

lemma set_stack_before:
  assumes "labels_of code labels" "i < length code"
  shows "(h, l) \<in> set (stack_before labels i) \<longleftrightarrow> loop_at code h l \<and> h < i \<and> i \<le> l"
  using assms by (auto simp: set_open_loops labels_of_def)

lemma stack_push:
  assumes "labels_of code labels" "i < length code"
  shows "(case labels ! i of Loop l \<Rightarrow> (i, l) # stack_before labels i
     | Code \<Rightarrow> stack_before labels i) = stack_at labels i"
proof (cases "labels ! i")
  case (Loop l)
  then have "i \<le> l" using labels_ofD[OF assms] loop_atD(1) by blast
  with Loop show ?thesis by (simp add: open_loops_Suc)
qed (simp add: open_loops_Suc)

lemma back_jump_stack_not_empty:
  assumes "labels_of code labels" "i < length code" "offset (code ! i) = Some t" "t \<le> i"
  shows "\<exists>l. (t, l) \<in> set (stack_at labels i)"
  using back_jump_loop_at[OF assms(2-4)] assms by (auto simp: set_stack_at)

text \<open>Where the back jump at \<open>i\<close> goes to the innermost loop, popping keeps the open loops.\<close>

lemma stack_pop:
  assumes labels: "labels_of code labels" and i: "i < length code"
    and nested: "nested_upto (Suc i) code"
  shows "(case offset (code ! i) of
      Some t \<Rightarrow> if is_back_edge i t
        then (case stack_at labels i of [] \<Rightarrow> Panic
              | (_, l) # rest \<Rightarrow> Ok (if i = l then rest else stack_at labels i))
        else Ok (stack_at labels i)
    | None \<Rightarrow> Ok (stack_at labels i)) = Ok (stack_before labels (Suc i))"
proof (cases "\<exists>t. offset (code ! i) = Some t \<and> t \<le> i")
  case True
  then obtain t where t: "offset (code ! i) = Some t" "t \<le> i" by blast
  obtain h l rest where stack: "stack_at labels i = (h, l) # rest"
    using back_jump_stack_not_empty[OF labels i t] by (cases "stack_at labels i") auto
  have open_hl: "loop_at code h l" "h \<le> i" "i \<le> l"
    using set_stack_at[OF labels i, of h l] stack by auto
  have "h \<le> t"
    using nested t open_hl unfolding nested_upto_def by blast
  moreover obtain l' where "(t, l') \<in> set (stack_at labels i)"
    using back_jump_stack_not_empty[OF labels i t] by blast
  ultimately have ht: "h = t"
    using stack hd_open_loops[OF stack, of t l'] by auto
  have "l' \<noteq> i" if "(h', l') \<in> set rest" for h' l'
  proof
    assume "l' = i"
    moreover have "loop_at code h' l'"
      using that stack set_stack_at[OF labels i, of h' l'] by auto
    ultimately have "h' = t" using t by (auto dest: loop_atD(4))
    then show False using hd_open_loops[OF stack that] ht by simp
  qed
  then have rest: "filter (\<lambda>(h, l). l \<noteq> i) rest = rest"
    by (auto simp: filter_id_conv)
  show ?thesis
    using t stack rest by (simp add: is_back_edge_def open_loops_next)
next
  case False
  have "l \<noteq> i" if "(h, l) \<in> set (stack_at labels i)" for h l
    using that False set_stack_at[OF labels i, of h l] by (auto dest: loop_atD)
  then have "filter (\<lambda>(h, l). l \<noteq> i) (stack_at labels i) = stack_at labels i"
    by (auto simp: filter_id_conv)
  then show ?thesis
    using False by (auto simp: is_back_edge_def open_loops_next split: option.splits)
qed

section \<open>What the passes establish\<close>

lemma zip_enumerate_nth:
  "length labels = length code \<Longrightarrow> i < length code \<Longrightarrow>
     zip (enumerate_from_zero code) labels ! i = ((i, code ! i), labels ! i)"
  by (simp add: enumerate_from_zero_nth)

lemma check_code_turn_eq:
  assumes "labels_of code labels" "i < length code" "length code \<le> u16_max + 1"
    and "nested_upto (Suc i) code"
  shows "check_code_turn check ((i, code ! i), labels ! i) (stack_before labels i) =
    rbind (check (stack_at labels i) i (code ! i)) (\<lambda>_. Ok (stack_before labels (Suc i)))"
  using assms(2,3)
  by (simp add: check_code_turn_def stack_push[OF assms(1,2)] stack_pop[OF assms(1,2,4)]
      assert_def)

lemma nested_upto_mono: "nested_upto n code \<Longrightarrow> m \<le> n \<Longrightarrow> nested_upto m code"
  unfolding nested_upto_def by (meson order_less_le_trans)

text \<open>
  For well nested code a pass is the check of every instruction with the loops around it: the
  stack that the code threads through the pass is a function of the position.
\<close>

lemma check_code_eq:
  assumes labels: "labels_of code labels" and len: "length code \<le> u16_max + 1"
    and nested: "nested_upto (length code) code"
  shows "check_code code labels check =
    for_all (\<lambda>i. check (stack_at labels i) i (code ! i)) [0..<length code]"
proof -
  let ?zs = "zip (enumerate_from_zero code) labels"
  have lz: "length ?zs = length code" using labels by (simp add: labels_of_def)
  have "for_each (check_code_turn check) (take n ?zs) [] =
      rbind (for_all (\<lambda>i. check (stack_at labels i) i (code ! i)) [0..<n])
        (\<lambda>_. Ok (stack_before labels n))" if "n \<le> length code" for n
    using that
  proof (induction n)
    case 0
    then show ?case by simp
  next
    case (Suc n)
    then have n: "n < length code" by simp
    have "check_code_turn check (?zs ! n) (stack_before labels n) =
        rbind (check (stack_at labels n) n (code ! n)) (\<lambda>_. Ok (stack_before labels (Suc n)))"
      using check_code_turn_eq[OF labels n len nested_upto_mono[OF nested], of check] Suc.prems
        zip_enumerate_nth[of labels code n] labels n by (simp add: labels_of_def)
    then show ?case
      using Suc lz
      by (simp add: take_Suc_conv_app_nth for_each_append for_all_append rbind_assoc)
  qed
  from this[of "length code"] lz show ?thesis
    by (simp add: check_code_def rbind_assoc) (simp add: rbind_def split: result.splits)
qed

lemma continue_turn:
  assumes labels: "labels_of code labels" and il: "i < length code"
    and len: "length code \<le> u16_max + 1" and nested: "nested_upto i code"
    and turn: "check_code_turn (continue_check f) ((i, code ! i), labels ! i)
      (stack_before labels i) = Ok s'"
  shows "s' = stack_before labels (Suc i) \<and> nested_upto (Suc i) code"
proof -
  have check: "continue_check f (stack_at labels i) i (code ! i) = Ok ()"
    using turn unfolding check_code_turn_def
    by (auto simp: stack_push[OF labels il] rbind_eq_Ok Let_def)
  have "nested_upto (Suc i) code"
    unfolding nested_upto_def
  proof (intro allI impI, elim conjE)
    fix k t h l
    assume k: "k < Suc i" and off: "offset (code ! k) = Some t" and t: "t \<le> k"
      and loop: "loop_at code h l" "h \<le> k" "k \<le> l"
    show "h \<le> t"
    proof (cases "k = i")
      case True
      obtain h0 l0 rest where stack: "stack_at labels i = (h0, l0) # rest"
        using back_jump_stack_not_empty[OF labels il, of t] off t True
        by (cases "stack_at labels i") auto
      have "h0 = t"
        using check stack off t True
        by (auto simp: continue_check_def is_back_edge_def split: if_splits)
      moreover have "(h, l) \<in> set (stack_at labels i)"
        using set_stack_at[OF labels il] loop True by simp
      ultimately show ?thesis using stack hd_open_loops[OF stack, of h l] by auto
    next
      case False
      then show ?thesis
        using nested k off t loop unfolding nested_upto_def by (meson less_SucE)
    qed
  qed
  moreover have "s' = stack_before labels (Suc i)"
    using turn check check_code_turn_eq[OF labels il len calculation] by simp
  ultimately show ?thesis by simp
qed

lemma check_continues_nested:
  assumes labels: "labels_of code labels" and len: "length code \<le> u16_max + 1"
    and ok: "check_continues f code labels = Ok u"
  shows "nested_upto (length code) code"
proof -
  let ?zs = "zip (enumerate_from_zero code) labels"
  let ?I = "\<lambda>n s. s = stack_before labels n \<and> nested_upto n code"
  have ll: "length labels = length code" using labels by (simp add: labels_of_def)
  obtain t where "for_each (check_code_turn (continue_check f)) ?zs [] = Ok t"
    using ok by (auto simp: check_continues_def check_code_def rbind_eq_Ok)
  then have "?I (length ?zs) t"
  proof (rule for_each_indexed)
    show "?I 0 []" by (simp add: nested_upto_def)
  next
    fix i s s'
    assume "i < length ?zs" "?I i s" "check_code_turn (continue_check f) (?zs ! i) s = Ok s'"
    then show "?I (Suc i) s'"
      using continue_turn[OF labels _ len, of i f s'] zip_enumerate_nth[OF ll, of i] ll by simp
  qed
  then show ?thesis using ll by simp
qed

lemma check_continues_not_Panic:
  assumes labels: "labels_of code labels" and len: "length code \<le> u16_max + 1"
  shows "check_continues f code labels \<noteq> Panic"
proof -
  let ?zs = "zip (enumerate_from_zero code) labels"
  let ?I = "\<lambda>n s. s = stack_before labels n \<and> nested_upto n code"
  have ll: "length labels = length code" using labels by (simp add: labels_of_def)
  have "for_each (check_code_turn (continue_check f)) ?zs [] \<noteq> Panic"
  proof (rule for_each_not_Panic_indexed[where I = ?I])
    show "?I 0 []" by (simp add: nested_upto_def)
  next
    fix i s
    assume "i < length ?zs" "?I i s"
    then have i: "i < length code" and s: "s = stack_before labels i" by (simp_all add: ll)
    have ne: "stack_at labels i \<noteq> []" if "offset (code ! i) = Some t" "t \<le> i" for t
      using back_jump_stack_not_empty[OF labels i that] by auto
    show "check_code_turn (continue_check f) (?zs ! i) s \<noteq> Panic"
      using ne i len
      by (auto simp: zip_enumerate_nth[OF ll i] check_code_turn_def s stack_push[OF labels i]
          continue_check_def assert_def is_back_edge_def Let_def rbind_eq_Panic
          split: option.splits list.splits)
  next
    fix i s s'
    assume "i < length ?zs" "?I i s" "check_code_turn (continue_check f) (?zs ! i) s = Ok s'"
    then show "?I (Suc i) s'"
      using continue_turn[OF labels _ len, of i f s'] zip_enumerate_nth[OF ll, of i] ll by simp
  qed
  then show ?thesis by (simp add: check_continues_def check_code_def rbind_eq_Panic)
qed

text \<open>Of two loops that overlap one contains the other.\<close>

lemma loops_nested:
  assumes "nested_upto (length code) code" "loop_at code h l" "loop_at code h' l'"
    and "h < h'" "h' \<le> l"
  shows "l' < l"
proof (rule ccontr)
  assume "\<not> l' < l"
  then have "l < l'"
    using assms(2,3,4) loop_at_inject[of code h l h'] by (cases "l = l'") auto
  then show False
    using assms loop_atD[OF assms(2)] unfolding nested_upto_def
    by (meson less_imp_le_nat not_less)
qed

lemma count_loop_depth_eq:
  assumes labels: "labels_of code labels" and len: "length code \<le> u16_max + 1"
    and nested: "nested_upto (length code) code"
  shows "count_loop_depth labels = Ok (map (\<lambda>i. length (stack_at labels i)) [0..<length code])"
proof -
  let ?lasts = "last_continues labels"
  let ?I = "\<lambda>n (count, counts). count = length (stack_before labels n) \<and>
    counts = map (\<lambda>i. length (stack_at labels i)) [0..<n]"
  have ll: "length labels = length code" using labels by (simp add: labels_of_def)
  have lasts: "i \<in> set ?lasts \<longleftrightarrow> (\<exists>h. loop_at code h i)" for i
  proof -
    have "i \<in> set ?lasts \<longleftrightarrow> (\<exists>h < length labels. labels ! h = Loop i)"
      by (force simp: last_continues_def map_filter_def in_set_conv_nth split: label.splits)
    also have "\<dots> \<longleftrightarrow> (\<exists>h. loop_at code h i)"
      using labels ll loop_atD(3) unfolding labels_of_def by metis
    finally show ?thesis .
  qed
  have "\<exists>t. for_each (depth_turn ?lasts) (enumerate_from_zero labels) (0, []) = Ok t \<and>
      ?I (length (enumerate_from_zero labels)) t"
  proof (rule for_each_total)
    show "?I 0 (0, [])" by simp
  next
    fix i s
    assume "i < length (enumerate_from_zero labels)" and inv: "?I i s"
    then have i: "i < length code" by (simp add: ll)
    have push: "(case labels ! i of Loop _ \<Rightarrow> length (stack_before labels i) + 1
        | Code \<Rightarrow> length (stack_before labels i)) = length (stack_at labels i)"
      by (subst stack_push[OF labels i, symmetric]) (simp split: label.splits)
    note pop = stack_pop[OF labels i nested_upto_mono[OF nested]]
    have "length (stack_before labels (Suc i)) =
        (if i \<in> set ?lasts then length (stack_at labels i) - 1 else length (stack_at labels i)) \<and>
        (i \<in> set ?lasts \<longrightarrow> 0 < length (stack_at labels i))"
    proof (cases "\<exists>h. loop_at code h i")
      case True
      then obtain h where h: "loop_at code h i" by blast
      note hD = loop_atD[OF h]
      obtain h0 l0 rest where stack: "stack_at labels i = (h0, l0) # rest"
        using back_jump_stack_not_empty[OF labels i hD(4,1)] by (cases "stack_at labels i") auto
      have mem: "(h, i) \<in> set (stack_at labels i)"
        using set_stack_at[OF labels i] h hD by simp
      have "loop_at code h0 l0" "h0 \<le> i" "i \<le> l0"
        using set_stack_at[OF labels i, of h0 l0] stack by auto
      then have "h0 \<le> h"
        using nested hD i unfolding nested_upto_def by blast
      then have "(h, i) = (h0, l0)"
        using mem stack hd_open_loops[OF stack, of h i] by auto
      then show ?thesis
        using pop stack hD i lasts True by (simp add: is_back_edge_def Suc_leI)
    next
      case False
      have "l \<noteq> i" if "(h, l) \<in> set (stack_at labels i)" for h l
        using that False set_stack_at[OF labels i, of h l] by auto
      then have "filter (\<lambda>(h, l). l \<noteq> i) (stack_at labels i) = stack_at labels i"
        by (auto simp: filter_id_conv)
      then show ?thesis using False lasts by (simp add: open_loops_next)
    qed
    then show "\<exists>s'. depth_turn ?lasts (enumerate_from_zero labels ! i) s = Ok s' \<and>
        ?I (Suc i) s'"
      using inv i len ll push
      by (auto simp: depth_turn_def enumerate_from_zero_nth assert_def Let_def
          split: label.splits)
  qed
  then show ?thesis by (auto simp: count_loop_depth_def ll)
qed

section \<open>Accepted code\<close>

text \<open>Where control can go from an instruction: its jump target, or the next instruction.\<close>

definition flows_to :: "bytecode list \<Rightarrow> nat \<Rightarrow> nat \<Rightarrow> bool" where
  "flows_to code i j =
     (i < length code \<and>
      (offset (code ! i) = Some j \<or> \<not> is_unconditional_branch (code ! i) \<and> j = i + 1))"

lemma instruction_labels_length:
  assumes "instruction_labels code = Ok labels"
  shows "length code \<le> u16_max + 1"
proof (rule ccontr)
  assume "\<not> ?thesis"
  then have i: "u16_max + 1 < length (enumerate_from_zero code)" by simp
  have "\<exists>u u'. True \<and> label_turn (enumerate_from_zero code ! (u16_max + 1)) u = Ok u'"
    by (rule for_each_turn[OF assms[unfolded instruction_labels_def] _ i]) simp_all
  then show False
    using i by (simp add: label_turn_def enumerate_from_zero_nth assert_def)
qed

lemma instruction_labels_labels_of:
  assumes "instruction_labels code = Ok labels"
  shows "labels_of code labels"
  using instruction_labels_spec[OF instruction_labels_length[OF assms]] assms
  by (auto simp: labels_of_def)

text \<open>The conditions on a forward jump, read off the two last passes.\<close>

lemma forward_jump_stays:
  assumes labels: "labels_of code labels" and len: "length code \<le> u16_max + 1"
    and nested: "nested_upto (length code) code"
    and breaks: "check_breaks f code labels = Ok u"
    and splits: "check_no_loop_splits f code labels = Ok u'"
    and jump: "i < length code" "offset (code ! i) = Some j" "i < j"
    and loop: "loop_at code h l" "h < j" "j \<le> l"
  shows "h \<le> i"
proof -
  note pass = check_code_eq[OF labels len nested]
  have j: "j < length code" using loop loop_atD[OF loop(1)] by simp
  have break_ok: "break_check f (stack_at labels i) i (code ! i) = Ok ()"
    using breaks jump(1) by (simp add: check_breaks_def pass for_all_eq_Ok)
  let ?depth = "map (\<lambda>i. length (stack_at labels i)) [0..<length code]"
  have split_ok: "split_check f labels ?depth (stack_at labels i) i (code ! i) = Ok ()"
    using splits jump(1)
    by (simp add: check_no_loop_splits_def pass count_loop_depth_eq[OF labels len nested]
        for_all_eq_Ok)
  show ?thesis
  proof (cases "is_break (stack_at labels i) j")
    case True
    then obtain h0 l0 rest where stack: "stack_at labels i = (h0, l0) # rest" and l0: "l0 < j"
      by (auto simp: is_break_def split: list.splits)
    have in0: "loop_at code h0 l0" "h0 \<le> i" "i \<le> l0"
      using set_stack_at[OF labels jump(1), of h0 l0] stack by auto
    have "j = l0 + 1"
      using break_ok stack l0 jump j len
      by (auto simp: break_check_def is_back_edge_def split: if_splits)
    then have "h \<le> l0" "l0 \<le> l" using loop by simp_all
    moreover have "l0 < length code" "offset (code ! l0) = Some h0" "h0 \<le> l0"
      using loop_atD[OF in0(1)] by simp_all
    ultimately have "h \<le> h0" using nested loop(1) unfolding nested_upto_def by blast
    then show ?thesis using in0 by simp
  next
    case False
    let ?before = "stack_before labels j"
    have depth: "length (stack_at labels i) = length ?before"
    proof -
      have ll: "length labels = length code" using labels by (simp add: labels_of_def)
      have "length (stack_at labels j) =
          (case labels ! j of Loop _ \<Rightarrow> Suc (length ?before) | Code \<Rightarrow> length ?before)"
        using stack_push[OF labels j, symmetric] by (simp split: label.splits)
      then show ?thesis
        using split_ok False jump j ll
        by (cases "labels ! j")
           (simp_all add: split_check_def rbind_eq_Ok assert_def split: if_splits)
    qed
    have sub: "set (stack_at labels i) \<subseteq> set ?before"
    proof clarify
      fix h' l'
      assume mem: "(h', l') \<in> set (stack_at labels i)"
      then have in': "loop_at code h' l'" "h' \<le> i" "i \<le> l'"
        using set_stack_at[OF labels jump(1)] by auto
      obtain h0 l0 rest where stack: "stack_at labels i = (h0, l0) # rest"
        using mem by (cases "stack_at labels i") auto
      have in0: "loop_at code h0 l0" "h0 \<le> i" "j \<le> l0"
        using set_stack_at[OF labels jump(1), of h0 l0] stack False
        by (auto simp: is_break_def)
      have "j \<le> l'"
      proof (cases "h' = h0")
        case True
        then show ?thesis using in' in0 loop_at_unique by blast
      next
        case False
        then have "h' < h0" using mem stack hd_open_loops[OF stack, of h' l'] by auto
        then show ?thesis
          using loops_nested[OF nested in'(1) in0(1)] in0 in' by simp
      qed
      then show "(h', l') \<in> set ?before"
        using set_stack_before[OF labels j] in' jump by simp
    qed
    have "set (stack_at labels i) = set ?before"
      using sub depth
      by (metis card_subset_eq distinct_card distinct_open_loops List.finite_set)
    moreover have "(h, l) \<in> set ?before"
      using set_stack_before[OF labels j] loop by simp
    ultimately show ?thesis using set_stack_at[OF labels jump(1)] by blast
  qed
qed

lemma verify_structured:
  assumes "control_flow_verify f code = Ok u"
  shows "cu_code code \<noteq> []" "is_unconditional_branch (last (cu_code code))"
    and "\<And>i t h l. flows_to (cu_code code) i t \<Longrightarrow> t \<le> i \<Longrightarrow> loop_at (cu_code code) h l \<Longrightarrow>
      h \<le> i \<Longrightarrow> i \<le> l \<Longrightarrow> h \<le> t"
    and "\<And>i j h l. flows_to (cu_code code) i j \<Longrightarrow> i < j \<Longrightarrow> loop_at (cu_code code) h l \<Longrightarrow>
      h < j \<Longrightarrow> j \<le> l \<Longrightarrow> h \<le> i"
proof -
  let ?code = "cu_code code"
  obtain fn labels where ne: "?code \<noteq> []" and uncond: "is_unconditional_branch (last ?code)"
    and inst: "instruction_labels ?code = Ok labels"
    and jumps: "check_jumps fn ?code labels = Ok u"
    using assms by (auto simp: control_flow_verify_def Let_def rbind_eq_Ok split: if_splits)
  note labels = instruction_labels_labels_of[OF inst] and len = instruction_labels_length[OF inst]
  obtain u1 u2 where conts: "check_continues fn ?code labels = Ok u1"
    and breaks: "check_breaks fn ?code labels = Ok u2"
    and splits: "check_no_loop_splits fn ?code labels = Ok u"
    using jumps by (auto simp: check_jumps_def rbind_eq_Ok)
  note nested = check_continues_nested[OF labels len conts]
  show "?code \<noteq> []" "is_unconditional_branch (last ?code)" by (fact ne, fact uncond)
  show "h \<le> t" if "flows_to ?code i t" "t \<le> i" "loop_at ?code h l" "h \<le> i" "i \<le> l" for i t h l
    using that nested unfolding flows_to_def nested_upto_def by auto
  show "h \<le> i" if "flows_to ?code i j" "i < j" "loop_at ?code h l" "h < j" "j \<le> l" for i j h l
    using that forward_jump_stays[OF labels len nested breaks splits, of i j h l]
    unfolding flows_to_def by auto
qed

text \<open>
  C5: code that the control flow verifier accepts has structured loops. It ends in an instruction
  that always branches; a backward jump goes to the head of the innermost loop around it; and
  control that flows forward, by a jump or by falling through, into a loop from outside enters it at
  its head. A loop is the range from a target \<open>h\<close> of backward jumps to the last instruction \<open>l\<close> that
  jumps back to it.
\<close>

theorem control_flow_verify_structured:
  assumes "control_flow_verify f code = Ok u"
  shows "cu_code code \<noteq> [] \<and> is_unconditional_branch (last (cu_code code)) \<and>
    (\<forall>i t h l. flows_to (cu_code code) i t \<and> t \<le> i \<and> loop_at (cu_code code) h l \<and> h \<le> i \<and> i \<le> l
       \<longrightarrow> h \<le> t) \<and>
    (\<forall>i j h l. flows_to (cu_code code) i j \<and> i < j \<and> loop_at (cu_code code) h l \<and> h < j \<and> j \<le> l
       \<longrightarrow> h \<le> i)"
  using verify_structured[OF assms] by blast

text \<open>A loop with a break and a continue, for the witnesses.\<close>

definition loop_example :: code_unit where
  "loop_example = \<lparr>cu_locals = 0, cu_code = [LdTrue, BrFalse 4, Nop, Branch 0, Ret]\<rparr>"

lemmas control_flow_exec = control_flow_verify_def instruction_labels_def label_turn_def
  check_jumps_def check_continues_def check_breaks_def check_no_loop_splits_def check_code_def
  check_code_turn_def continue_check_def break_check_def split_check_def count_loop_depth_def
  last_continues_def depth_turn_def is_break_def is_back_edge_def enumerate_from_zero_def
  map_filter_def offset_def is_unconditional_branch_def assert_def vec_index_def as_u16_def

lemma loop_example_accepted: "control_flow_verify None loop_example = Ok ()"
  by (simp add: loop_example_def control_flow_exec)

theorem control_flow_verify_structured_witness:
  "control_flow_verify None loop_example = Ok () \<and> is_unconditional_branch (last (cu_code loop_example)) \<and>
   flows_to (cu_code loop_example) 2 3 \<and> loop_at (cu_code loop_example) 0 3 \<and> (0 :: nat) \<le> 2"
proof -
  have flow: "flows_to (cu_code loop_example) 2 3" and loop: "loop_at (cu_code loop_example) 0 3"
    by (auto simp: loop_example_def flows_to_def branch_defs loop_at_def continue_upto_def less_Suc_eq)
  from control_flow_verify_structured[OF loop_example_accepted]
  have "is_unconditional_branch (last (cu_code loop_example))" "(0 :: nat) \<le> 2"
    using flow loop by (blast, auto)
  then show ?thesis using flow loop loop_example_accepted by blast
qed

section \<open>The verifier does not panic\<close>

definition jumps_in_bounds :: "bytecode list \<Rightarrow> bool" where
  "jumps_in_bounds code =
     (\<forall>instr \<in> set code. \<forall>off. offset instr = Some off \<longrightarrow> off < length code)"

lemma split_check_not_Panic:
  assumes labels: "labels_of code labels" and i: "i < length code"
    and bounds: "jumps_in_bounds code"
  shows "split_check f labels (map (\<lambda>i. length (stack_at labels i)) [0..<length code])
    (stack_at labels i) i (code ! i) \<noteq> Panic"
proof (cases "offset (code ! i)")
  case None
  then show ?thesis by (simp add: split_check_def)
next
  case (Some j)
  have ll: "length labels = length code" using labels by (simp add: labels_of_def)
  have j: "j < length code"
    using Some i bounds unfolding jumps_in_bounds_def by (meson nth_mem)
  have "0 < length (stack_at labels j)" if "labels ! j = Loop l" for l
    using stack_push[OF labels j, symmetric] that by simp
  then show ?thesis
    using Some i j ll
    by (cases "labels ! j") (auto simp: split_check_def assert_def)
qed

text \<open>
  C15: on a body of at most 65536 instructions whose jump targets are in range, which is what the
  bounds checker and the binary format give, the control flow verifier returns: none of its
  indexing, unwrapping, conversions and counter decrements panics.
\<close>

theorem control_flow_verify_no_panic:
  assumes "length (cu_code code) \<le> u16_max + 1" and "jumps_in_bounds (cu_code code)"
  shows "control_flow_verify f code \<noteq> Panic"
proof -
  let ?code = "cu_code code"
  obtain labels where inst: "instruction_labels ?code = Ok labels"
    using instruction_labels_spec[OF assms(1)] by blast
  note labels = instruction_labels_labels_of[OF inst]
  have "check_jumps g ?code labels \<noteq> Panic" for g
  proof (cases "check_continues g ?code labels")
    case (Ok u)
    note nested = check_continues_nested[OF labels assms(1) Ok]
    note pass = check_code_eq[OF labels assms(1) nested]
    have "check_breaks g ?code labels \<noteq> Panic"
      unfolding check_breaks_def pass
      by (rule for_all_not_Panic) (auto simp: break_check_def split: option.splits list.splits)
    moreover have "check_no_loop_splits g ?code labels \<noteq> Panic"
      unfolding check_no_loop_splits_def count_loop_depth_eq[OF labels assms(1) nested]
        rbind_simps pass
      by (rule for_all_not_Panic) (use split_check_not_Panic[OF labels _ assms(2)] in auto)
    ultimately show ?thesis using Ok by (simp add: check_jumps_def rbind_eq_Panic)
  next
    case (Err e)
    then show ?thesis by (simp add: check_jumps_def)
  next
    case Panic
    then show ?thesis using check_continues_not_Panic[OF labels assms(1)] by simp
  qed
  then show ?thesis by (simp add: control_flow_verify_def inst Let_def)
qed

theorem control_flow_verify_no_panic_witness:
  "length (cu_code loop_example) \<le> u16_max + 1 \<and> jumps_in_bounds (cu_code loop_example) \<and>
   control_flow_verify (Some 3) loop_example \<noteq> Panic"
proof -
  have "length (cu_code loop_example) \<le> u16_max + 1" "jumps_in_bounds (cu_code loop_example)"
    by (simp_all add: loop_example_def jumps_in_bounds_def offset_def)
  then show ?thesis using control_flow_verify_no_panic by blast
qed

end
