(* ===== verification/BTree.thy ===== *)
theory BTree
  imports Prelude
begin

text \<open>
  The ordered collections of Rust's standard library, \<^verbatim>\<open>BTreeMap\<close> and \<^verbatim>\<open>BTreeSet\<close>, as lists sorted by
  key: what the sources rely on is lookup after insertion and iteration in ascending order. The
  locale \<open>ordered_map\<close> is that interface; clients use the facts of its interpretation.
\<close>

section \<open>Maps\<close>

type_synonym ('k, 'v) btree_map = "('k \<times> 'v) list"

fun bt_insert :: "'k :: linorder \<Rightarrow> 'v \<Rightarrow> ('k, 'v) btree_map \<Rightarrow> ('k, 'v) btree_map" where
  "bt_insert k v [] = [(k, v)]"
| "bt_insert k v ((k', v') # m) =
     (if k < k' then (k, v) # (k', v') # m
      else if k = k' then (k, v) # m
      else (k', v') # bt_insert k v m)"

definition bt_get :: "('k, 'v) btree_map \<Rightarrow> 'k \<Rightarrow> 'v option" where
  "bt_get m k = map_of m k"

definition bt_keys :: "('k, 'v) btree_map \<Rightarrow> 'k list" where
  "bt_keys m = map fst m"

definition bt_wf :: "('k :: linorder, 'v) btree_map \<Rightarrow> bool" where
  "bt_wf m = sorted_wrt (<) (bt_keys m)"

text \<open>\<^verbatim>\<open>map[&key]\<close> panics where the key is missing.\<close>

definition bt_index :: "('k, 'v) btree_map \<Rightarrow> 'k \<Rightarrow> ('v, 'e) result" where
  "bt_index m k = unwrap (bt_get m k)"

definition bt_contains_key :: "('k, 'v) btree_map \<Rightarrow> 'k \<Rightarrow> bool" where
  "bt_contains_key m k = (bt_get m k \<noteq> None)"

section \<open>Sets\<close>

type_synonym 'k btree_set = "'k list"

definition bs_insert :: "'k :: linorder \<Rightarrow> 'k btree_set \<Rightarrow> 'k btree_set" where
  "bs_insert k s = insort_insert k s"

definition bs_from_list :: "'k :: linorder list \<Rightarrow> 'k btree_set" where
  "bs_from_list xs = fold bs_insert xs []"

section \<open>The interface\<close>

locale ordered_map =
  fixes empty :: 'm
    and insert_at :: "'k :: linorder \<Rightarrow> 'v \<Rightarrow> 'm \<Rightarrow> 'm"
    and get :: "'m \<Rightarrow> 'k \<Rightarrow> 'v option"
    and entries :: "'m \<Rightarrow> ('k \<times> 'v) list"
    and wf :: "'m \<Rightarrow> bool"
  assumes wf_empty: "wf empty"
    and get_empty: "get empty k = None"
    and wf_insert: "wf m \<Longrightarrow> wf (insert_at k v m)"
    and get_insert: "wf m \<Longrightarrow> get (insert_at k v m) k' = (if k' = k then Some v else get m k')"
    and in_entries: "wf m \<Longrightarrow> (k, v) \<in> set (entries m) \<longleftrightarrow> get m k = Some v"
    and sorted_entries: "wf m \<Longrightarrow> sorted_wrt (<) (map fst (entries m))"
begin

lemma get_insert_same: "wf m \<Longrightarrow> get (insert_at k v m) k = Some v"
  by (simp add: get_insert)

lemma get_insert_other: "wf m \<Longrightarrow> k' \<noteq> k \<Longrightarrow> get (insert_at k v m) k' = get m k'"
  by (simp add: get_insert)

lemma distinct_entries: "wf m \<Longrightarrow> distinct (map fst (entries m))"
  using sorted_entries strict_sorted_iff by blast

lemma keys_get: "wf m \<Longrightarrow> k \<in> set (map fst (entries m)) \<longleftrightarrow> (\<exists>v. get m k = Some v)"
  by (auto simp flip: in_entries) (force simp: image_iff)

end

lemma in_bt_keys: "k \<in> set (bt_keys m) \<longleftrightarrow> (\<exists>v. bt_get m k = Some v)"
  by (metis bt_get_def bt_keys_def domIff dom_map_of_conv_image_fst not_None_eq list.set_map)

lemma bt_keys_insert: "set (bt_keys (bt_insert k v m)) = insert k (set (bt_keys m))"
  by (induction k v m rule: bt_insert.induct) (auto simp: bt_keys_def)

lemma bt_wf_insert: "bt_wf m \<Longrightarrow> bt_wf (bt_insert k v m)"
proof (induction k v m rule: bt_insert.induct)
  case (2 k v k' v' m)
  then show ?case
    using bt_keys_insert[of k v m] by (auto simp: bt_wf_def bt_keys_def)
qed (simp add: bt_wf_def bt_keys_def)

lemma bt_get_insert: "bt_wf m \<Longrightarrow> bt_get (bt_insert k v m) k' = (if k' = k then Some v else bt_get m k')"
  by (induction k v m rule: bt_insert.induct) (auto simp: bt_get_def bt_wf_def bt_keys_def)

interpretation btm: ordered_map "[]" bt_insert bt_get "\<lambda>m. m" bt_wf
proof unfold_locales
  fix m :: "('k :: linorder, 'v) btree_map" and k v
  assume wf: "bt_wf m"
  then have "distinct (map fst m)"
    using strict_sorted_iff by (auto simp: bt_wf_def bt_keys_def)
  then show "(k, v) \<in> set m \<longleftrightarrow> bt_get m k = Some v"
    by (simp add: bt_get_def)
qed (simp_all add: bt_wf_insert bt_get_insert, simp_all add: bt_wf_def bt_get_def bt_keys_def)

lemma bt_fold_insert:
  fixes m :: "('k :: linorder, 'v) btree_map"
  assumes "bt_wf m"
  shows "bt_wf (fold (\<lambda>x m. bt_insert (k x) (v x) m) xs m)"
    and "bt_get (fold (\<lambda>x m. bt_insert (k x) (v x) m) xs m) = fold (\<lambda>x m. m(k x \<mapsto> v x)) xs (bt_get m)"
proof -
  have get: "bt_get (bt_insert j y m) = (bt_get m)(j \<mapsto> y)" if "bt_wf m" for j y and m :: "('k, 'v) btree_map"
    using that by (simp add: fun_eq_iff btm.get_insert)
  show "bt_wf (fold (\<lambda>x m. bt_insert (k x) (v x) m) xs m)"
    using assms by (induction xs arbitrary: m) (simp_all add: btm.wf_insert)
  show "bt_get (fold (\<lambda>x m. bt_insert (k x) (v x) m) xs m) = fold (\<lambda>x m. m(k x \<mapsto> v x)) xs (bt_get m)"
    using assms by (induction xs arbitrary: m) (simp_all add: btm.wf_insert get)
qed

lemma bs_insert_simps [simp]:
  "set (bs_insert k s) = insert k (set s)"
  "sorted s \<Longrightarrow> sorted (bs_insert k s)"
  "distinct s \<Longrightarrow> distinct (bs_insert k s)"
  by (simp_all add: bs_insert_def set_insort_insert sorted_insort_insert distinct_insort_insert)

lemma set_bs_from_list [simp]: "set (bs_from_list xs) = set xs"
proof -
  have "set (fold bs_insert xs s) = set xs \<union> set s" for s
    by (induction xs arbitrary: s) auto
  then show ?thesis by (simp add: bs_from_list_def)
qed

end
