(* ===== verification/Control_Flow_Graph.thy ===== *)
theory Control_Flow_Graph
  imports Control_Flow BTree
begin

text \<open>
  The control flow graph of a function body (\<^verbatim>\<open>move-binary-format/src/control_flow_graph.rs\<close>): its
  basic blocks, the reverse post-order in which the analyses visit them and the back edges, as
  \<^verbatim>\<open>VMControlFlowGraph::new\<close> computes them. Block ids and code offsets are \<^verbatim>\<open>u16\<close> in the source; they
  are numbers here with every cast and addition reduced by \<open>as_u16\<close>.
\<close>

section \<open>Definitions\<close>

record basic_block =
  bb_exit :: nat
  bb_successors :: "nat list"

record vm_control_flow_graph =
  cfg_blocks :: "(nat, basic_block) btree_map"
  cfg_traversal_successors :: "(nat, nat) btree_map"
  cfg_loop_heads :: "(nat, nat btree_set) btree_map"

definition ENTRY_BLOCK_ID :: nat where
  "ENTRY_BLOCK_ID = 0"

definition cfg_back_edge :: "nat \<Rightarrow> nat \<Rightarrow> bool" where
  "cfg_back_edge cur_block target_block = (target_block \<le> cur_block)"

definition is_end_of_block :: "nat \<Rightarrow> bytecode list \<Rightarrow> nat btree_set \<Rightarrow> bool" where
  "is_end_of_block pc code block_ids =
     (as_u16 (pc + 1) = as_u16 (length code) \<or> as_u16 (pc + 1) \<in> set block_ids)"

definition record_block_ids :: "nat \<Rightarrow> bytecode list \<Rightarrow> nat btree_set \<Rightarrow> nat btree_set" where
  "record_block_ids pc code block_ids =
     (let instr = code ! pc;
          block_ids = (case offset instr of
              Some off \<Rightarrow> bs_insert off block_ids
            | None \<Rightarrow> block_ids)
      in if is_branch instr \<and> as_u16 (pc + 1) < as_u16 (length code)
         then bs_insert (as_u16 (pc + 1)) block_ids else block_ids)"

definition collect_block_ids :: "bytecode list \<Rightarrow> nat btree_set" where
  "collect_block_ids code =
     fold (\<lambda>pc. record_block_ids (as_u16 pc) code) [0..<length code] (bs_insert ENTRY_BLOCK_ID [])"

definition block_turn ::
  "bytecode list \<Rightarrow> nat btree_set \<Rightarrow> nat \<Rightarrow> (nat, basic_block) btree_map \<times> nat \<Rightarrow>
     ((nat, basic_block) btree_map \<times> nat) vm_result" where
  "block_turn code block_ids pc = (\<lambda>(blocks, entry).
     let co_pc = as_u16 pc
     in if is_end_of_block co_pc code block_ids
        then rbind (get_successors co_pc code) (\<lambda>succs.
               Ok (bt_insert entry \<lparr>bb_exit = co_pc, bb_successors = succs\<rparr> blocks,
                   as_u16 (co_pc + 1)))
        else Ok (blocks, entry))"

definition create_blocks :: "bytecode list \<Rightarrow> (nat, basic_block) btree_map vm_result" where
  "create_blocks code =
     rbind (for_each (block_turn code (collect_block_ids code)) [0..<length code] ([], 0))
       (\<lambda>(blocks, entry).
         rbind (assert (entry = as_u16 (length code))) (\<lambda>_. Ok blocks))"

text \<open>The acyclic subgraph without the loop back edges, from which the traversal order is taken.\<close>

definition dag_of :: "(nat, basic_block) btree_map \<Rightarrow> (nat, nat btree_set) btree_map" where
  "dag_of blocks =
     map (\<lambda>(b, block). (b, bs_from_list (filter (\<lambda>succ. \<not> cfg_back_edge b succ)
       (bb_successors block)))) blocks"

lemma bt_get_dag_of:
  "bt_get (dag_of blocks) b =
     map_option (\<lambda>block. bs_from_list (filter (\<lambda>succ. \<not> cfg_back_edge b succ)
       (bb_successors block))) (bt_get blocks b)"
  by (induction blocks) (auto simp: dag_of_def bt_get_def)

text \<open>
  The post-order traversal: a stack of blocks, each marked with whether it is visited for the first
  time; the head of the list is the top. It ends because the edges of the subgraph go to higher
  block ids and only ids of blocks are expanded.
\<close>

definition dfs_rank :: "(nat, basic_block) btree_map \<Rightarrow> nat \<times> bool \<Rightarrow> nat" where
  "dfs_rank blocks = (\<lambda>(cur, is_first_visit).
     2 * card {k \<in> set (bt_keys blocks). cur \<le> k} + (if is_first_visit then 1 else 0))"

function post_order_loop ::
  "(nat, basic_block) btree_map \<Rightarrow> (nat \<times> bool) list \<Rightarrow> nat btree_set \<Rightarrow> nat list \<Rightarrow>
     nat list vm_result" where
  "post_order_loop blocks [] finished post_order = Ok post_order"
| "post_order_loop blocks ((cur, is_first_visit) # stack) finished post_order =
     (if is_first_visit
      then (case bt_get (dag_of blocks) cur of
              None \<Rightarrow> Panic
            | Some succs \<Rightarrow>
                post_order_loop blocks
                  (rev (map (\<lambda>succ. (succ, True)) (filter (\<lambda>succ. succ \<notin> set finished) succs))
                    @ (cur, False) # stack)
                  finished post_order)
      else if cur \<notin> set finished
      then post_order_loop blocks stack (bs_insert cur finished) (post_order @ [cur])
      else post_order_loop blocks stack finished post_order)"
  by pat_completeness auto

lemma dfs_rank_succ:
  assumes "bt_get (dag_of blocks) cur = Some succs" "succ \<in> set succs"
  shows "dfs_rank blocks (succ, True) < dfs_rank blocks (cur, True)"
proof -
  obtain block where "bt_get blocks cur = Some block" and "cur < succ"
    using assms by (auto simp: bt_get_dag_of cfg_back_edge_def)
  then have "cur \<in> set (bt_keys blocks)"
    by (simp add: in_bt_keys)
  with \<open>cur < succ\<close> have "{k \<in> set (bt_keys blocks). succ \<le> k} \<subset> {k \<in> set (bt_keys blocks). cur \<le> k}"
    by (intro psubsetI) (auto simp: set_eq_iff not_le[symmetric])
  then have "card {k \<in> set (bt_keys blocks). succ \<le> k} < card {k \<in> set (bt_keys blocks). cur \<le> k}"
    by (rule psubset_card_mono[rotated]) simp
  then show ?thesis by (simp add: dfs_rank_def)
qed

termination post_order_loop
proof (relation "inv_image (mult less_than)
    (\<lambda>(blocks, stack, _, _). image_mset (dfs_rank blocks) (mset stack))")
  show "wf (inv_image (mult less_than) (\<lambda>(blocks :: (nat, basic_block) btree_map,
      stack :: (nat \<times> bool) list, _ :: nat btree_set, _ :: nat list).
      image_mset (dfs_rank blocks) (mset stack)))"
    by (intro wf_inv_image wf_mult wf_less_than)
next
  fix blocks :: "(nat, basic_block) btree_map" and cur is_first_visit
    and stack :: "(nat \<times> bool) list" and finished :: "nat btree_set" and post_order :: "nat list"
    and succs
  assume "is_first_visit" and succs: "bt_get (dag_of blocks) cur = Some succs"
  let ?new = "mset (rev (map (\<lambda>succ. (succ, True)) (filter (\<lambda>succ. succ \<notin> set finished) succs)) @
    [(cur, False)])"
  let ?rank = "image_mset (dfs_rank blocks)"
  have "(?rank (mset stack) + ?rank ?new, ?rank (mset stack) + ?rank {#(cur, True)#})
      \<in> mult less_than"
    by (rule one_step_implies_mult)
       (use dfs_rank_succ[OF succs] in \<open>auto simp: dfs_rank_def\<close>)
  then show "((blocks, rev (map (\<lambda>succ. (succ, True)) (filter (\<lambda>succ. succ \<notin> set finished) succs)) @
        (cur, False) # stack, finished, post_order),
      blocks, (cur, is_first_visit) # stack, finished, post_order)
      \<in> inv_image (mult less_than)
          (\<lambda>(blocks, stack, _, _). image_mset (dfs_rank blocks) (mset stack))"
    using \<open>is_first_visit\<close> by (simp add: ac_simps)
qed (simp_all add: subset_implies_mult)

definition post_order :: "(nat, basic_block) btree_map \<Rightarrow> nat list vm_result" where
  "post_order blocks = post_order_loop blocks [(ENTRY_BLOCK_ID, True)] [] []"

text \<open>The map from a block to the next one in the traversal order, from the windows of length two.\<close>

definition successors_in_order :: "nat list \<Rightarrow> (nat, nat) btree_map" where
  "successors_in_order order = fold (\<lambda>(b, b'). bt_insert b b') (zip order (tl order)) []"

definition add_loop_head ::
  "nat \<Rightarrow> nat \<Rightarrow> (nat, nat btree_set) btree_map \<Rightarrow> (nat, nat btree_set) btree_map" where
  "add_loop_head b succ heads =
     (if cfg_back_edge b succ
      then bt_insert succ
             (bs_insert b (case bt_get heads succ of Some edges \<Rightarrow> edges | None \<Rightarrow> [])) heads
      else heads)"

definition gather_loop_heads ::
  "(nat, basic_block) btree_map \<Rightarrow> (nat, nat btree_set) btree_map" where
  "gather_loop_heads blocks =
     fold (\<lambda>(b, block). fold (add_loop_head b) (bb_successors block)) blocks []"

definition new_cfg :: "bytecode list \<Rightarrow> vm_control_flow_graph vm_result" where
  "new_cfg code =
     rbind (create_blocks code) (\<lambda>blocks.
     rbind (post_order blocks) (\<lambda>post_order.
       Ok \<lparr>cfg_blocks = blocks,
           cfg_traversal_successors = successors_in_order (rev post_order),
           cfg_loop_heads = gather_loop_heads blocks\<rparr>))"

subsection \<open>The trait \<^verbatim>\<open>ControlFlowGraph\<close>\<close>

definition block_start :: "nat \<Rightarrow> nat" where
  "block_start block_id = block_id"

definition block_end :: "vm_control_flow_graph \<Rightarrow> nat \<Rightarrow> nat vm_result" where
  "block_end cfg block_id = rbind (bt_index (cfg_blocks cfg) block_id) (\<lambda>bb. Ok (bb_exit bb))"

definition successors :: "vm_control_flow_graph \<Rightarrow> nat \<Rightarrow> nat list vm_result" where
  "successors cfg block_id = rbind (bt_index (cfg_blocks cfg) block_id) (\<lambda>bb. Ok (bb_successors bb))"

definition next_block :: "vm_control_flow_graph \<Rightarrow> nat \<Rightarrow> nat option" where
  "next_block cfg block_id = bt_get (cfg_traversal_successors cfg) block_id"

definition instr_indexes :: "vm_control_flow_graph \<Rightarrow> nat \<Rightarrow> nat list vm_result" where
  "instr_indexes cfg block_id =
     rbind (block_end cfg block_id) (\<lambda>last. Ok [block_start block_id..<Suc last])"

definition blocks :: "vm_control_flow_graph \<Rightarrow> nat list" where
  "blocks cfg = bt_keys (cfg_blocks cfg)"

definition num_blocks :: "vm_control_flow_graph \<Rightarrow> nat" where
  "num_blocks cfg = as_u16 (length (cfg_blocks cfg))"

definition entry_block_id :: nat where
  "entry_block_id = ENTRY_BLOCK_ID"

definition is_loop_head :: "vm_control_flow_graph \<Rightarrow> nat \<Rightarrow> bool" where
  "is_loop_head cfg block_id = bt_contains_key (cfg_loop_heads cfg) block_id"

definition cfg_is_back_edge :: "vm_control_flow_graph \<Rightarrow> nat \<Rightarrow> nat \<Rightarrow> bool" where
  "cfg_is_back_edge cfg cur next =
     (case bt_get (cfg_loop_heads cfg) next of
        Some back_edges \<Rightarrow> cur \<in> set back_edges
      | None \<Rightarrow> False)"

subsection \<open>Breadth-first reachability\<close>

definition push_unseen :: "nat \<Rightarrow> nat list \<times> nat btree_set \<Rightarrow> nat list \<times> nat btree_set" where
  "push_unseen block_id = (\<lambda>(ret, seen).
     if block_id \<notin> set seen then (ret @ [block_id], bs_insert block_id seen) else (ret, seen))"

definition all_targets :: "vm_control_flow_graph \<Rightarrow> nat set" where
  "all_targets cfg = (\<Union>bb \<in> set (map snd (cfg_blocks cfg)). set (bb_successors bb))"

lemma push_unseen_card:
  assumes "finite A" "set ss \<subseteq> A"
  shows "case fold push_unseen ss (ret, seen) of (ret', seen') \<Rightarrow>
    card (A - set seen') + length ret' = card (A - set seen) + length ret"
  using assms(2)
proof (induction ss arbitrary: ret seen)
  case (Cons s ss)
  have "card (A - set seen) = Suc (card (A - insert s (set seen)))" if "s \<notin> set seen"
    using that Cons.prems assms(1) card_Suc_Diff1[of "A - set seen" s]
    by (simp add: Diff_insert2[symmetric] Diff_insert[symmetric])
  then show ?case
    using Cons.IH[of "bs_insert s seen" "ret @ [s]"] Cons.IH[of seen ret] Cons.prems
    by (auto simp: push_unseen_def split: prod.splits)
qed simp

function traverse_loop ::
  "vm_control_flow_graph \<Rightarrow> nat \<Rightarrow> nat list \<Rightarrow> nat btree_set \<Rightarrow> nat list vm_result" where
  "traverse_loop cfg index ret seen =
     (if index < length ret
      then case successors cfg (ret ! index) of
             Ok succs \<Rightarrow>
               (case fold push_unseen succs (ret, seen) of
                  (ret', seen') \<Rightarrow> traverse_loop cfg (index + 1) ret' seen')
           | Err e \<Rightarrow> Err e
           | Panic \<Rightarrow> Panic
      else Ok ret)"
  by pat_completeness auto

termination traverse_loop
proof (relation "measure (\<lambda>(cfg, index, ret, seen).
    card (all_targets cfg - set seen) + length ret - index)")
  fix cfg index ret seen succs ret' seen'
  assume "index < length ret" and succs: "successors cfg (ret ! index) = Ok succs"
    and step: "(ret', seen') = fold push_unseen succs (ret, seen)"
  have "set succs \<subseteq> all_targets cfg"
    using succs
    by (auto simp: successors_def bt_index_def unwrap_def rbind_eq_Ok all_targets_def bt_get_def
        split: option.splits dest!: map_of_SomeD)
  then have "card (all_targets cfg - set seen') + length ret' =
      card (all_targets cfg - set seen) + length ret"
    using push_unseen_card[of "all_targets cfg" succs seen ret] step[symmetric]
    by (simp add: all_targets_def)
  then show "((cfg, index + 1, ret', seen'), cfg, index, ret, seen) \<in>
      measure (\<lambda>(cfg, index, ret, seen). card (all_targets cfg - set seen) + length ret - index)"
    using \<open>index < length ret\<close> by simp
qed simp

declare traverse_loop.simps [simp del]

definition traverse_by :: "vm_control_flow_graph \<Rightarrow> nat \<Rightarrow> nat list vm_result" where
  "traverse_by cfg block_id = traverse_loop cfg 0 [block_id] (bs_insert block_id [])"

definition reachable_from :: "vm_control_flow_graph \<Rightarrow> nat \<Rightarrow> nat list vm_result" where
  "reachable_from cfg block_id = traverse_by cfg block_id"

section \<open>Basic blocks\<close>

text \<open>What a body must satisfy for the construction to succeed.\<close>

definition cfg_ready :: "bytecode list \<Rightarrow> bool" where
  "cfg_ready code = (code \<noteq> [] \<and> length code \<le> u16_max - 1 \<and> jumps_in_bounds code)"

text \<open>The offsets that begin a block: the entry, the jump targets and what follows a branch.\<close>

definition leader :: "bytecode list \<Rightarrow> nat \<Rightarrow> bool" where
  "leader code b =
     (b = 0 \<or> (\<exists>i < length code. offset (code ! i) = Some b) \<or>
      (0 < b \<and> b < length code \<and> is_branch (code ! (b - 1))))"

lemma cfg_ready_offset:
  "cfg_ready code \<Longrightarrow> i < length code \<Longrightarrow> offset (code ! i) = Some j \<Longrightarrow> j < length code"
  unfolding cfg_ready_def jumps_in_bounds_def by (meson nth_mem)

lemma leader_less: "cfg_ready code \<Longrightarrow> leader code b \<Longrightarrow> b < length code"
  using cfg_ready_offset by (auto simp: leader_def) (auto simp: cfg_ready_def)

lemma collect_block_ids_leader:
  assumes "cfg_ready code"
  shows "b \<in> set (collect_block_ids code) \<longleftrightarrow> leader code b"
proof -
  let ?rec = "\<lambda>pc. record_block_ids (as_u16 pc) code"
  have step: "b \<in> set (?rec pc s) \<longleftrightarrow> b \<in> set s \<or> offset (code ! pc) = Some b \<or>
      (b = Suc pc \<and> is_branch (code ! pc) \<and> Suc pc < length code)" if "pc < length code" for pc s
    using that assms
    by (auto simp: record_block_ids_def Let_def cfg_ready_def split: option.splits)
  have "b \<in> set (fold ?rec [0..<n] s) \<longleftrightarrow> b \<in> set s \<or> (\<exists>pc < n. offset (code ! pc) = Some b \<or>
      (b = Suc pc \<and> is_branch (code ! pc) \<and> Suc pc < length code))" if "n \<le> length code" for n s
    using that
  proof (induction n)
    case (Suc n)
    then show ?case using step[of n] by (auto simp: less_Suc_eq)
  qed simp
  from this[of "length code"] show ?thesis
    by (auto simp: collect_block_ids_def leader_def ENTRY_BLOCK_ID_def) (metis Suc_pred diff_less less_trans zero_less_one Suc_lessD)
qed

text \<open>A position ends a block where the code ends or the next instruction begins one.\<close>

definition ends_block :: "bytecode list \<Rightarrow> nat \<Rightarrow> bool" where
  "ends_block code i = (Suc i = length code \<or> leader code (Suc i))"

lemma is_end_of_block_iff:
  assumes "cfg_ready code" "i < length code"
  shows "is_end_of_block i code (collect_block_ids code) \<longleftrightarrow> ends_block code i"
  using assms collect_block_ids_leader[OF assms(1)]
  by (auto simp: is_end_of_block_def ends_block_def cfg_ready_def)

text \<open>The block that begins at \<open>b\<close>: it runs to the next end, and has the successors of its exit.\<close>

definition block_of :: "bytecode list \<Rightarrow> nat \<Rightarrow> basic_block \<Rightarrow> bool" where
  "block_of code b bb =
     (leader code b \<and> b \<le> bb_exit bb \<and> bb_exit bb < length code \<and> ends_block code (bb_exit bb) \<and>
      (\<forall>i. b \<le> i \<and> i < bb_exit bb \<longrightarrow> \<not> ends_block code i) \<and>
      get_successors (bb_exit bb) code = (Ok (bb_successors bb) :: nat list vm_result))"

lemma create_blocks_spec:
  assumes ready: "cfg_ready code"
  shows "\<exists>blocks. create_blocks code = Ok blocks \<and> bt_wf blocks \<and>
    (\<forall>b bb. bt_get blocks b = Some bb \<longrightarrow> block_of code b bb) \<and>
    (\<forall>b. leader code b \<longrightarrow> (\<exists>bb. bt_get blocks b = Some bb))"
proof -
  let ?ids = "collect_block_ids code"
  let ?I = "\<lambda>n (blocks, entry). bt_wf blocks \<and> entry \<le> n \<and> (n < length code \<longrightarrow> leader code entry) \<and>
    (n = length code \<longrightarrow> entry = n) \<and> (\<forall>i. entry \<le> i \<and> i < n \<longrightarrow> \<not> ends_block code i) \<and>
    (\<forall>b bb. bt_get blocks b = Some bb \<longrightarrow> block_of code b bb) \<and>
    (\<forall>b < entry. leader code b \<longrightarrow> (\<exists>bb. bt_get blocks b = Some bb))"
  have len: "length code \<le> u16_max - 1" "0 < length code"
    using ready by (auto simp: cfg_ready_def)
  have "\<exists>t. for_each (block_turn code ?ids) [0..<length code] ([], 0) = Ok t \<and>
      ?I (length [0..<length code]) t"
  proof (rule for_each_total)
    show "?I 0 ([], 0)" using len by (simp add: btm.wf_empty btm.get_empty leader_def)
  next
    fix n s
    assume "n < length [0..<length code]" and inv: "?I n s"
    then have n: "n < length code" by simp
    obtain blocks entry where s: "s = (blocks, entry)" by (cases s)
    have as: "as_u16 n = n" "as_u16 (n + 1) = n + 1" using n len by simp_all
    obtain succs where succs: "get_successors n code = (Ok succs :: nat list vm_result)"
      using get_successors_Ok[OF n len(1)] by blast
    show "\<exists>s'. block_turn code ?ids ([0..<length code] ! n) s = Ok s' \<and> ?I (Suc n) s'"
    proof (cases "ends_block code n")
      case True
      let ?bb = "\<lparr>bb_exit = n, bb_successors = succs\<rparr>"
      have "block_of code entry ?bb"
        using inv s n True succs by (simp add: block_of_def)
      moreover have upto: "b = entry \<or> b < entry" if "leader code b" "b < n + 1" for b
      proof (rule ccontr)
        assume "\<not> (b = entry \<or> b < entry)"
        with that have "ends_block code (b - 1)" "entry \<le> b - 1" "b - 1 < n"
          by (auto simp: ends_block_def)
        then show False using inv s by auto
      qed
      moreover have "\<exists>bb. bt_get (bt_insert entry ?bb blocks) b = Some bb"
        if "leader code b" "b < n + 1" for b
        using upto[OF that] that inv s by (auto simp: btm.get_insert)
      moreover have "Suc n < length code \<Longrightarrow> leader code (Suc n)"
        using True by (simp add: ends_block_def)
      ultimately show ?thesis
        using inv s n True succs as is_end_of_block_iff[OF ready n]
        by (auto simp: block_turn_def Let_def btm.wf_insert btm.get_insert less_Suc_eq)
    next
      case False
      then have "Suc n < length code" using n by (auto simp: ends_block_def)
      then show ?thesis
        using inv s n False as is_end_of_block_iff[OF ready n]
        by (auto simp: block_turn_def Let_def less_Suc_eq)
    qed
  qed
  then obtain blocks where "for_each (block_turn code ?ids) [0..<length code] ([], 0) =
      Ok (blocks, length code)" and inv: "?I (length code) (blocks, length code)"
    by auto
  then have "create_blocks code = Ok blocks"
    using len by (simp add: create_blocks_def assert_def)
  then show ?thesis using inv leader_less[OF ready] by auto
qed

lemma block_of_successors:
  assumes "cfg_ready code" "block_of code b bb"
  shows "set (bb_successors bb) = {s. flows_to code (bb_exit bb) s \<and> s < length code}"
proof -
  have exit: "bb_exit bb < length code" and len: "length code \<le> u16_max - 1"
    using assms by (auto simp: block_of_def cfg_ready_def)
  obtain v where "get_successors (bb_exit bb) code = (Ok v :: nat list vm_result)"
    and "set v = set_option (offset (code ! bb_exit bb)) \<union>
      (if bb_exit bb + 1 < length code \<and> \<not> is_unconditional_branch (code ! bb_exit bb)
       then {bb_exit bb + 1} else {})"
    using get_successors_Ok[OF exit len] by blast
  then show ?thesis
    using assms exit cfg_ready_offset[OF assms(1) exit] by (auto simp: block_of_def flows_to_def)
qed

lemma flows_to_leader:
  assumes "cfg_ready code" "flows_to code i j" "j < length code" "ends_block code i"
  shows "leader code j"
  using assms by (auto simp: flows_to_def ends_block_def leader_def)

text \<open>Inside a block control only falls through.\<close>

lemma block_of_inner:
  assumes "block_of code b bb" "b \<le> i" "i < bb_exit bb"
  shows "\<not> is_branch (code ! i)" "flows_to code i j \<longleftrightarrow> j = Suc i"
proof -
  have i: "Suc i < length code" "\<not> ends_block code i"
    using assms by (auto simp: block_of_def)
  show nb: "\<not> is_branch (code ! i)"
    using i by (auto simp: ends_block_def leader_def)
  show "flows_to code i j \<longleftrightarrow> j = Suc i"
    using i nb offset_is_branch[of "code ! i" j] by (auto simp: flows_to_def is_branch_def)
qed

text \<open>Evaluation of the construction on a concrete body.\<close>

lemmas cfg_exec = new_cfg_def create_blocks_def collect_block_ids_def record_block_ids_def
  block_turn_def is_end_of_block_def get_successors_def post_order_def dag_of_def
  successors_in_order_def gather_loop_heads_def add_loop_head_def cfg_back_edge_def
  ENTRY_BLOCK_ID_def bs_insert_def bs_from_list_def bt_get_def as_u16_def branch_defs
  insort_insert_key_def Let_def upt_rec assert_def

end
