(* ===== verification/Cfg_Traversal.thy ===== *)
theory Cfg_Traversal
  imports Control_Flow_Graph
begin

text \<open>
  What a control flow graph promises to the abstract interpreter. The blocks are closed under
  successors; the traversal order of an accepted body begins at the entry, holds every block that is
  reachable, and visits a block after all its predecessors other than the sources of its back edges,
  which it visits later: the order is a reverse post-order and loops are entered at their heads.
  The locale \<open>flow_graph\<close> is that contract.
\<close>

section \<open>The depth-first traversal\<close>

definition dag_edge :: "(nat, basic_block) btree_map \<Rightarrow> nat \<Rightarrow> nat \<Rightarrow> bool" where
  "dag_edge bm b s =
     (\<exists>bb. bt_get bm b = Some bb \<and> s \<in> set (bb_successors bb) \<and> b < s)"

definition closed_blocks :: "(nat, basic_block) btree_map \<Rightarrow> bool" where
  "closed_blocks bm =
     ((\<exists>bb. bt_get bm 0 = Some bb) \<and>
      (\<forall>b bb s. bt_get bm b = Some bb \<and> s \<in> set (bb_successors bb) \<longrightarrow>
         (\<exists>bb'. bt_get bm s = Some bb')))"

text \<open>A list in which the successors of a block come before it.\<close>

definition post_ordered :: "(nat, basic_block) btree_map \<Rightarrow> nat list \<Rightarrow> bool" where
  "post_ordered bm post =
     (\<forall>xs c ys. post = xs @ c # ys \<longrightarrow> (\<forall>s. dag_edge bm c s \<longrightarrow> s \<in> set xs))"

text \<open>The successors of a block on the stack that is being visited are finished or above it.\<close>

definition pending_done ::
  "(nat, basic_block) btree_map \<Rightarrow> (nat \<times> bool) list \<Rightarrow> nat list \<Rightarrow> bool" where
  "pending_done bm stack post =
     (\<forall>xs c ys. stack = xs @ (c, False) # ys \<longrightarrow>
        (\<forall>s. dag_edge bm c s \<longrightarrow> s \<in> set post \<union> fst ` set xs))"

definition dfs_inv ::
  "(nat, basic_block) btree_map \<Rightarrow> (nat \<times> bool) list \<Rightarrow> nat btree_set \<Rightarrow> nat list \<Rightarrow> bool" where
  "dfs_inv bm stack finished post =
     (set finished = set post \<and> distinct post \<and> post_ordered bm post \<and>
      (\<forall>c \<in> fst ` set stack \<union> set post. (dag_edge bm)\<^sup>*\<^sup>* 0 c) \<and>
      0 \<in> fst ` set stack \<union> set post \<and> pending_done bm stack post)"

lemma pending_doneD:
  assumes "pending_done bm (xs @ (c, False) # ys) post" "dag_edge bm c s"
  shows "s \<in> set post \<union> fst ` set xs"
  using assms unfolding pending_done_def by blast

lemma split_after:
  assumes "as @ bs = xs @ d # ys" "d \<notin> set as"
  shows "\<exists>us. xs = as @ us \<and> bs = us @ d # ys"
  using assms by (induction as arbitrary: xs) (auto simp: Cons_eq_append_conv)

lemma post_ordered_snoc:
  assumes "post_ordered bm post" "\<And>s. dag_edge bm c s \<Longrightarrow> s \<in> set post"
  shows "post_ordered bm (post @ [c])"
  unfolding post_ordered_def
proof (intro allI impI)
  fix xs d ys s
  assume "post @ [c] = xs @ d # ys" "dag_edge bm d s"
  then show "s \<in> set xs"
    using assms by (cases ys rule: rev_cases) (auto simp: post_ordered_def)
qed

lemma reachable_key:
  assumes "closed_blocks bm" "(dag_edge bm)\<^sup>*\<^sup>* 0 c"
  shows "\<exists>bb. bt_get bm c = Some bb"
  using assms(2,1) by (induction) (auto simp: closed_blocks_def dag_edge_def)

lemma dag_of_edges:
  assumes "bt_get (dag_of bm) c = Some succs"
  shows "s \<in> set succs \<longleftrightarrow> dag_edge bm c s"
  using assms by (auto simp: bt_get_dag_of dag_edge_def cfg_back_edge_def)

lemma dfs_inv_expand:
  assumes inv: "dfs_inv bm ((c, True) # stack) finished post"
    and succs: "bt_get (dag_of bm) c = Some succs"
    and new: "new = rev (map (\<lambda>succ. (succ, True)) (filter (\<lambda>succ. succ \<notin> set finished) succs))"
  shows "dfs_inv bm (new @ (c, False) # stack) finished post"
proof -
  note edges = dag_of_edges[OF succs]
  have fst_new: "fst ` set new = {s. dag_edge bm c s \<and> s \<notin> set finished}"
  proof -
    have "fst ` set new = {s \<in> set succs. s \<notin> set finished}"
      unfolding new by (simp add: image_image)
    then show ?thesis by (simp only: edges)
  qed
  have inv': "pending_done bm ((c, True) # stack) post" "set finished = set post"
    using inv by (simp_all add: dfs_inv_def)
  have "pending_done bm (new @ (c, False) # stack) post"
    unfolding pending_done_def
  proof (intro allI impI)
    fix xs d ys s
    assume split: "new @ (c, False) # stack = xs @ (d, False) # ys" and s: "dag_edge bm d s"
    have "(d, False) \<notin> set new" by (auto simp: new)
    then obtain us where us: "xs = new @ us" "(c, False) # stack = us @ (d, False) # ys"
      using split_after[OF split] by blast
    show "s \<in> set post \<union> fst ` set xs"
    proof (cases us)
      case Nil
      then have "d = c" using us by simp
      then show ?thesis using s fst_new us inv' by auto
    next
      case (Cons u us')
      then have "(c, True) # stack = ((c, True) # us') @ (d, False) # ys" and "u = (c, False)"
        using us by simp_all
      then have "s \<in> set post \<union> fst ` set ((c, True) # us')"
        using pending_doneD[of bm "(c, True) # us'" d ys post s] inv'(1) s by simp
      then show ?thesis using us Cons \<open>u = (c, False)\<close> by auto
    qed
  qed
  moreover have "\<forall>d \<in> fst ` set (new @ (c, False) # stack) \<union> set post. (dag_edge bm)\<^sup>*\<^sup>* 0 d"
  proof -
    have "\<forall>d \<in> fst ` set new. (dag_edge bm)\<^sup>*\<^sup>* 0 d"
      using inv rtranclp.rtrancl_into_rtrancl[of "dag_edge bm" 0 c]
      unfolding fst_new dfs_inv_def by simp
    then show ?thesis using inv by (simp add: dfs_inv_def image_Un ball_Un)
  qed
  moreover have "0 \<in> fst ` set (new @ (c, False) # stack) \<union> set post"
    using inv by (auto simp: dfs_inv_def)
  ultimately show ?thesis using inv unfolding dfs_inv_def by blast
qed

lemma dfs_inv_finish:
  assumes inv: "dfs_inv bm ((c, False) # stack) finished post"
  shows "c \<notin> set finished \<Longrightarrow> dfs_inv bm stack (bs_insert c finished) (post @ [c])"
    and "c \<in> set finished \<Longrightarrow> dfs_inv bm stack finished post"
proof -
  have pending: "pending_done bm ((c, False) # stack) post"
    using inv by (simp add: dfs_inv_def)
  have done_c: "s \<in> set post" if "dag_edge bm c s" for s
    using pending_doneD[of bm "[]", OF _ that] pending by simp
  have below: "s \<in> insert c (set post) \<union> fst ` set xs"
    if "stack = xs @ (d, False) # ys" "dag_edge bm d s" for xs d ys s
    using pending_doneD[of bm "(c, False) # xs" d ys post s] pending that by simp
  show "dfs_inv bm stack (bs_insert c finished) (post @ [c])" if "c \<notin> set finished"
  proof -
    have "pending_done bm stack (post @ [c])"
      unfolding pending_done_def using below by simp
    moreover have "post_ordered bm (post @ [c])"
      using post_ordered_snoc[OF _ done_c] inv by (simp add: dfs_inv_def)
    ultimately show ?thesis using inv that by (auto simp: dfs_inv_def)
  qed
  show "dfs_inv bm stack finished post" if "c \<in> set finished"
  proof -
    have "c \<in> set post" using inv that by (simp add: dfs_inv_def)
    then have "pending_done bm stack post"
      unfolding pending_done_def using below by (simp add: insert_absorb)
    then show ?thesis using inv \<open>c \<in> set post\<close> by (auto simp: dfs_inv_def)
  qed
qed

lemma post_order_loop_spec:
  assumes "closed_blocks bm" "dfs_inv bm stack finished post"
  shows "\<exists>p. post_order_loop bm stack finished post = Ok p \<and> dfs_inv bm [] p p"
  using assms
proof (induction bm stack finished post rule: post_order_loop.induct)
  case (1 bm finished post)
  then show ?case by (auto simp: dfs_inv_def)
next
  case (2 bm c first stack finished post)
  show ?case
  proof (cases first)
    case True
    have "(dag_edge bm)\<^sup>*\<^sup>* 0 c" using 2(5) by (simp add: dfs_inv_def)
    then obtain succs where succs: "bt_get (dag_of bm) c = Some succs"
      using reachable_key[OF 2(4)] by (fastforce simp: bt_get_dag_of)
    show ?thesis
      using 2(1)[OF True succs 2(4) dfs_inv_expand[OF _ succs refl]] 2(5) True succs by auto
  next
    case False
    then have inv: "dfs_inv bm ((c, False) # stack) finished post" using 2(5) by simp
    show ?thesis
    proof (cases "c \<in> set finished")
      case True
      then show ?thesis
        using 2(3)[OF False _ 2(4) dfs_inv_finish(2)[OF inv]] False by simp
    next
      case c: False
      then show ?thesis
        using 2(2)[OF False _ 2(4) dfs_inv_finish(1)[OF inv]] False by simp
    qed
  qed
qed

section \<open>The traversal order\<close>

definition traversal_order :: "vm_control_flow_graph \<Rightarrow> nat list" where
  "traversal_order cfg = (case post_order (cfg_blocks cfg) of Ok p \<Rightarrow> rev p | _ \<Rightarrow> [])"

definition reverse_post_order :: "(nat, basic_block) btree_map \<Rightarrow> nat list \<Rightarrow> bool" where
  "reverse_post_order bm order =
     (distinct order \<and> post_ordered bm (rev order) \<and> (\<forall>c \<in> set order. (dag_edge bm)\<^sup>*\<^sup>* 0 c) \<and>
      0 \<in> set order)"

lemma post_order_spec:
  assumes "closed_blocks bm"
  shows "\<exists>p. post_order bm = Ok p \<and> reverse_post_order bm (rev p)"
proof -
  have "pending_done bm [(0, True)] []"
    by (auto simp: pending_done_def Cons_eq_append_conv)
  then have "dfs_inv bm [(0, True)] [] []"
    by (auto simp: dfs_inv_def post_ordered_def)
  from post_order_loop_spec[OF assms this] show ?thesis
    by (auto simp: post_order_def ENTRY_BLOCK_ID_def dfs_inv_def reverse_post_order_def)
qed

lemma order_edge:
  assumes "reverse_post_order bm order" "i < length order" "dag_edge bm (order ! i) s"
  shows "\<exists>j. i < j \<and> j < length order \<and> order ! j = s"
proof -
  have "rev order = rev (drop (Suc i) order) @ order ! i # rev (take i order)"
    using arg_cong[OF id_take_nth_drop[OF assms(2)], of rev] by simp
  moreover have "post_ordered bm (rev order)"
    using assms(1) by (simp add: reverse_post_order_def)
  ultimately have "s \<in> set (rev (drop (Suc i) order))"
    using assms(3) unfolding post_ordered_def by blast
  then obtain k where "k < length order - Suc i" "drop (Suc i) order ! k = s"
    by (auto simp: in_set_conv_nth)
  then show ?thesis by (intro exI[of _ "Suc i + k"]) simp
qed

lemma order_reach:
  assumes "reverse_post_order bm order" "(dag_edge bm)\<^sup>*\<^sup>* a b" "i < length order" "order ! i = a"
  shows "\<exists>j. i \<le> j \<and> j < length order \<and> order ! j = b"
  using assms(2-4)
proof (induction)
  case (step b c)
  then obtain j where "i \<le> j" "j < length order" "order ! j = b" by blast
  then obtain k where "j < k" "k < length order" "order ! k = c"
    using order_edge[OF assms(1), of j c] step.hyps(2) by blast
  then show ?case using \<open>i \<le> j\<close> by (intro exI[of _ k]) simp
qed auto

lemma order_all_reachable:
  assumes "reverse_post_order bm order"
  shows "(dag_edge bm)\<^sup>*\<^sup>* 0 b \<longleftrightarrow> b \<in> set order"
proof
  assume reach: "(dag_edge bm)\<^sup>*\<^sup>* 0 b"
  obtain i where "i < length order" "order ! i = 0"
    using assms by (auto simp: reverse_post_order_def in_set_conv_nth)
  then show "b \<in> set order" using order_reach[OF assms reach] nth_mem by blast
qed (use assms in \<open>simp add: reverse_post_order_def\<close>)

lemma order_hd:
  assumes "reverse_post_order bm order"
  shows "order \<noteq> []" "hd order = 0"
proof -
  obtain i where i: "i < length order" "order ! i = 0"
    using assms by (auto simp: reverse_post_order_def in_set_conv_nth)
  then show ne: "order \<noteq> []" by auto
  have "(dag_edge bm)\<^sup>*\<^sup>* 0 (order ! 0)"
    using ne order_all_reachable[OF assms] by simp
  then obtain j where "i \<le> j" "j < length order" "order ! j = order ! 0"
    using order_reach[OF assms _ i] by blast
  then have "j = 0"
    using assms ne by (simp add: reverse_post_order_def nth_eq_iff_index_eq)
  then show "hd order = 0" using i \<open>i \<le> j\<close> ne by (simp add: hd_conv_nth)
qed

lemma order_before:
  assumes "reverse_post_order bm order" "(dag_edge bm)\<^sup>*\<^sup>* a (order ! i)" "i < length order"
    and "a \<in> set order"
  shows "\<exists>j \<le> i. order ! j = a"
proof -
  obtain j where j: "j < length order" "order ! j = a"
    using assms(4) by (auto simp: in_set_conv_nth)
  then obtain k where "j \<le> k" "k < length order" "order ! k = order ! i"
    using order_reach[OF assms(1,2)] by blast
  then have "k = i"
    using assms by (simp add: reverse_post_order_def nth_eq_iff_index_eq)
  then show ?thesis using j \<open>j \<le> k\<close> by blast
qed

lemma bt_get_fold_insert:
  assumes "bt_wf m"
  shows "bt_wf (fold (\<lambda>(k, v). bt_insert k v) kvs m)"
    and "bt_get (fold (\<lambda>(k, v). bt_insert k v) kvs m) k =
      (case map_of (rev kvs) k of Some v \<Rightarrow> Some v | None \<Rightarrow> bt_get m k)"
  using assms
  by (induction kvs arbitrary: m)
     (auto simp: btm.wf_insert btm.get_insert map_add_def split: option.splits)

lemma successors_in_order_next:
  assumes "distinct order" "i < length order"
  shows "bt_get (successors_in_order order) (order ! i) =
    (if Suc i < length order then Some (order ! Suc i) else None)"
proof -
  let ?kvs = "zip order (tl order)"
  have fst: "map fst ?kvs = take (length order - 1) order" by (simp add: map_fst_zip_take)
  then have dist: "distinct (map fst ?kvs)" using assms by simp
  have "map_of (rev ?kvs) = map_of ?kvs"
    using dist map_of_inject_set[of "rev ?kvs" ?kvs] by (simp add: rev_map[symmetric] del: map_fst_zip)
  then have "bt_get (successors_in_order order) k = map_of ?kvs k" for k
    using bt_get_fold_insert(2)[OF btm.wf_empty, of ?kvs k]
    by (simp add: successors_in_order_def btm.get_empty split: option.splits)
  moreover have "map_of ?kvs (order ! i) = Some (order ! Suc i)" if "Suc i < length order"
    using that dist by (auto simp: in_set_conv_nth nth_tl intro!: exI[of _ i])
  moreover have "map_of ?kvs (order ! i) = None" if "\<not> Suc i < length order"
  proof -
    have "order ! i \<notin> set (take (length order - 1) order)"
      using that assms by (auto simp: in_set_conv_nth nth_eq_iff_index_eq)
    then show ?thesis
      using fst by (metis list.set_map map_of_eq_None_iff)
  qed
  ultimately show ?thesis by simp
qed

section \<open>Back edges\<close>

definition marked :: "(nat, nat btree_set) btree_map \<Rightarrow> nat \<Rightarrow> nat \<Rightarrow> bool" where
  "marked heads b s = (\<exists>edges. bt_get heads s = Some edges \<and> b \<in> set edges)"

lemma add_loop_head_marked:
  assumes "bt_wf heads"
  shows "bt_wf (add_loop_head b s heads)"
    and "marked (add_loop_head b s heads) b' s' \<longleftrightarrow> marked heads b' s' \<or> (b' = b \<and> s' = s \<and> s \<le> b)"
  using assms
  by (cases "bt_get heads s";
      auto simp: add_loop_head_def marked_def cfg_back_edge_def btm.wf_insert btm.get_insert)+

lemma fold_loop_heads_marked:
  assumes "bt_wf heads"
  shows "bt_wf (fold (add_loop_head b) succs heads)"
    and "marked (fold (add_loop_head b) succs heads) b' s' \<longleftrightarrow>
      marked heads b' s' \<or> (b' = b \<and> s' \<in> set succs \<and> s' \<le> b)"
  using assms by (induction succs arbitrary: heads) (auto simp: add_loop_head_marked)

lemma gather_loop_heads_marked:
  assumes "bt_wf bm"
  shows "marked (gather_loop_heads bm) b s \<longleftrightarrow>
    (\<exists>bb. bt_get bm b = Some bb \<and> s \<in> set (bb_successors bb) \<and> s \<le> b)"
proof -
  have "bt_wf heads \<Longrightarrow> marked (fold (\<lambda>(b, block). fold (add_loop_head b) (bb_successors block)) m heads) b s
      \<longleftrightarrow> marked heads b s \<or> (\<exists>bb. (b, bb) \<in> set m \<and> s \<in> set (bb_successors bb) \<and> s \<le> b)"
    for heads m
    by (induction m arbitrary: heads) (auto simp: fold_loop_heads_marked)
  from this[OF btm.wf_empty, of bm] show ?thesis
    by (auto simp: gather_loop_heads_def marked_def btm.get_empty btm.in_entries[OF assms])
qed

section \<open>Loop heads dominate their loops\<close>

definition blocks_ok :: "bytecode list \<Rightarrow> (nat, basic_block) btree_map \<Rightarrow> bool" where
  "blocks_ok code bm =
     (bt_wf bm \<and> (\<forall>b bb. bt_get bm b = Some bb \<longrightarrow> block_of code b bb) \<and>
      (\<forall>b. leader code b \<longrightarrow> (\<exists>bb. bt_get bm b = Some bb)))"

lemma blocks_ok_closed:
  assumes "cfg_ready code" "blocks_ok code bm"
  shows "closed_blocks bm"
proof -
  have "leader code s" if "bt_get bm b = Some bb" "s \<in> set (bb_successors bb)" for b bb s
    using that assms block_of_successors[OF assms(1), of b bb] flows_to_leader[OF assms(1)]
    by (auto simp: blocks_ok_def block_of_def)
  moreover have "leader code 0" by (simp add: leader_def)
  ultimately show ?thesis
    using assms(2) unfolding closed_blocks_def blocks_ok_def by blast
qed

lemma block_ofD:
  assumes "block_of code b bb"
  shows "leader code b" "b \<le> bb_exit bb" "bb_exit bb < length code" "ends_block code (bb_exit bb)"
  using assms unfolding block_of_def by blast+

text \<open>No block begins strictly inside another.\<close>

lemma leader_block:
  assumes "block_of code b bb" "leader code h" "h \<le> bb_exit bb"
  shows "h \<le> b"
proof (rule ccontr)
  assume "\<not> h \<le> b"
  then have "ends_block code (h - 1)" "b \<le> h - 1" "h - 1 < bb_exit bb"
    using assms by (auto simp: ends_block_def)
  then show False using assms(1) by (auto simp: block_of_def)
qed

lemma loop_head_leader: "loop_at code h l \<Longrightarrow> leader code h"
  using loop_atD[of code h l] by (auto simp: leader_def)

text \<open>A forward edge into a loop, other than to its head, comes from inside the loop.\<close>

lemma dag_edge_in_loop:
  assumes verified: "control_flow_verify f code = Ok u" and ready: "cfg_ready (cu_code code)"
    and blocks: "blocks_ok (cu_code code) bm"
    and loop: "loop_at (cu_code code) h l"
    and edge: "dag_edge bm a b" and inside: "h < b" "b \<le> l"
  shows "h \<le> a" "a \<le> l"
proof -
  obtain bb where bb: "bt_get bm a = Some bb" "b \<in> set (bb_successors bb)" "a < b"
    using edge by (auto simp: dag_edge_def)
  then have block: "block_of (cu_code code) a bb" using blocks by (auto simp: blocks_ok_def)
  then have flow: "flows_to (cu_code code) (bb_exit bb) b" "b < length (cu_code code)"
    using block_of_successors[OF ready] bb by auto
  then have "leader (cu_code code) b"
    using flows_to_leader[OF ready] block by (auto simp: block_of_def)
  then have "bb_exit bb < b" using leader_block[OF block] bb(3) by (meson leD leI)
  then have "h \<le> bb_exit bb"
    using verify_structured(4)[OF verified flow(1) _ loop] inside by simp
  then show "h \<le> a" using leader_block[OF block loop_head_leader[OF loop]] by simp
  show "a \<le> l" using bb(3) inside by simp
qed

lemma loop_head_dominates:
  assumes verified: "control_flow_verify f code = Ok u" and ready: "cfg_ready (cu_code code)"
    and blocks: "blocks_ok (cu_code code) bm"
    and loop: "loop_at (cu_code code) h l"
    and reach: "(dag_edge bm)\<^sup>*\<^sup>* 0 b" and inside: "h \<le> b" "b \<le> l"
  shows "(dag_edge bm)\<^sup>*\<^sup>* 0 h \<and> (dag_edge bm)\<^sup>*\<^sup>* h b"
  using reach inside
proof (induction)
  case (step a b)
  show ?case
  proof (cases "h = b")
    case True
    then show ?thesis using step.hyps by auto
  next
    case False
    then have "h \<le> a" "a \<le> l"
      using dag_edge_in_loop[OF verified ready blocks loop step.hyps(2)] step.prems by simp_all
    then show ?thesis using step by (auto intro: rtranclp.rtrancl_into_rtrancl)
  qed
qed auto

lemma loop_head_in:
  assumes verified: "control_flow_verify f code = Ok u" and ready: "cfg_ready (cu_code code)"
    and blocks: "blocks_ok (cu_code code) bm"
    and loop: "loop_at (cu_code code) h l"
    and pred: "\<And>t. t \<in> K \<Longrightarrow> t = 0 \<or> (\<exists>c \<in> K. dag_edge bm c t)"
    and "b \<in> K" "h \<le> b" "b \<le> l"
  shows "h \<in> K"
  using assms(6-8)
proof (induction b rule: less_induct)
  case (less b)
  show ?case
  proof (cases "h = b")
    case True
    then show ?thesis using less.prems by simp
  next
    case False
    then obtain c where c: "c \<in> K" "dag_edge bm c b" using pred[OF less.prems(1)] less.prems by auto
    then have "h \<le> c" "c \<le> l"
      using dag_edge_in_loop[OF verified ready blocks loop c(2)] False less.prems by simp_all
    moreover have "c < b" using c(2) by (auto simp: dag_edge_def)
    ultimately show ?thesis using less.IH c(1) by blast
  qed
qed

lemma back_edge_loop:
  assumes ready: "cfg_ready code" and block: "block_of code b bb"
    and "s \<in> set (bb_successors bb)" "s \<le> b"
  shows "\<exists>l. loop_at code s l \<and> b \<le> l"
proof -
  have flow: "flows_to code (bb_exit bb) s" and le: "s \<le> bb_exit bb"
    using assms block_of_successors[OF ready block] by (auto simp: block_of_def)
  then have "offset (code ! bb_exit bb) = Some s" "bb_exit bb < length code"
    by (auto simp: flows_to_def)
  then obtain l where "loop_at code s l" "bb_exit bb \<le> l"
    using back_jump_loop_at[of "bb_exit bb" code s] le by blast
  then show ?thesis using block by (auto simp: block_of_def)
qed

section \<open>The contract\<close>

locale flow_graph =
  fixes graph_ok :: "'g \<Rightarrow> bool"
    and order :: "'g \<Rightarrow> nat list"
    and entry :: nat
    and succs :: "'g \<Rightarrow> nat \<Rightarrow> nat list vm_result"
    and next_of :: "'g \<Rightarrow> nat \<Rightarrow> nat option"
    and back_edge :: "'g \<Rightarrow> nat \<Rightarrow> nat \<Rightarrow> bool"
  assumes distinct_order: "graph_ok g \<Longrightarrow> distinct (order g)"
    and entry_first: "graph_ok g \<Longrightarrow> order g \<noteq> [] \<and> order g ! 0 = entry"
    and next_in_order: "graph_ok g \<Longrightarrow> i < length (order g) \<Longrightarrow>
      next_of g (order g ! i) = (if Suc i < length (order g) then Some (order g ! Suc i) else None)"
    and succs_known: "graph_ok g \<Longrightarrow> i < length (order g) \<Longrightarrow> \<exists>ss. succs g (order g ! i) = Ok ss"
    and forward_later: "graph_ok g \<Longrightarrow> i < length (order g) \<Longrightarrow> succs g (order g ! i) = Ok ss \<Longrightarrow>
      s \<in> set ss \<Longrightarrow> \<not> back_edge g (order g ! i) s \<Longrightarrow>
      \<exists>j. i < j \<and> j < length (order g) \<and> order g ! j = s"
    and back_earlier: "graph_ok g \<Longrightarrow> i < length (order g) \<Longrightarrow> succs g (order g ! i) = Ok ss \<Longrightarrow>
      s \<in> set ss \<Longrightarrow> back_edge g (order g ! i) s \<Longrightarrow> \<exists>j \<le> i. order g ! j = s"
    and back_unique: "graph_ok g \<Longrightarrow> succs g b = Ok ss \<Longrightarrow> s \<in> set ss \<Longrightarrow> s' \<in> set ss \<Longrightarrow>
      back_edge g b s \<Longrightarrow> back_edge g b s' \<Longrightarrow> s = s'"
    and back_dominates: "graph_ok g \<Longrightarrow>
      (\<And>t. t \<in> K \<Longrightarrow> t = entry \<or>
         (\<exists>c \<in> K. \<exists>ss. succs g c = Ok ss \<and> t \<in> set ss \<and> \<not> back_edge g c t)) \<Longrightarrow>
      b \<in> K \<Longrightarrow> succs g b = Ok ss \<Longrightarrow> s \<in> set ss \<Longrightarrow> back_edge g b s \<Longrightarrow> s \<in> K"
begin

lemma succs_in_order:
  assumes "graph_ok g" "b \<in> set (order g)" "succs g b = Ok ss" "s \<in> set ss"
  shows "s \<in> set (order g)"
proof -
  obtain i where i: "i < length (order g)" "order g ! i = b"
    using assms(2) by (auto simp: in_set_conv_nth)
  then show ?thesis
    using forward_later[OF assms(1) i(1)] back_earlier[OF assms(1) i(1)] assms(3,4)
    by (metis le_less_trans nth_mem)
qed

lemma entry_in_order: "graph_ok g \<Longrightarrow> entry \<in> set (order g)"
  using entry_first[of g] by (metis length_greater_0_conv nth_mem)

end

text \<open>The graph of a body that the bounds checker and the control flow verifier accept.\<close>

definition graph_of :: "code_unit \<Rightarrow> vm_control_flow_graph \<Rightarrow> bool" where
  "graph_of code cfg =
     (cfg_ready (cu_code code) \<and> (\<exists>f. control_flow_verify f code = Ok ()) \<and>
      new_cfg (cu_code code) = Ok cfg)"

lemma new_cfg_spec:
  assumes "cfg_ready code"
  shows "\<exists>cfg. new_cfg code = Ok cfg \<and> blocks_ok code (cfg_blocks cfg) \<and>
    reverse_post_order (cfg_blocks cfg) (traversal_order cfg) \<and>
    cfg_traversal_successors cfg = successors_in_order (traversal_order cfg) \<and>
    cfg_loop_heads cfg = gather_loop_heads (cfg_blocks cfg)"
proof -
  obtain bm where bm: "create_blocks code = Ok bm" "blocks_ok code bm"
    using create_blocks_spec[OF assms] unfolding blocks_ok_def by blast
  obtain p where "post_order bm = Ok p" "reverse_post_order bm (rev p)"
    using post_order_spec[OF blocks_ok_closed[OF assms bm(2)]] by blast
  then show ?thesis using bm by (simp add: new_cfg_def traversal_order_def)
qed

lemma graph_of_cases:
  assumes "graph_of code cfg"
  obtains f where "cfg_ready (cu_code code)" "control_flow_verify f code = Ok ()"
    "blocks_ok (cu_code code) (cfg_blocks cfg)"
    "reverse_post_order (cfg_blocks cfg) (traversal_order cfg)"
    "cfg_traversal_successors cfg = successors_in_order (traversal_order cfg)"
    "cfg_loop_heads cfg = gather_loop_heads (cfg_blocks cfg)"
  using assms new_cfg_spec[of "cu_code code"] by (auto simp: graph_of_def)

lemma cfg_is_back_edge_iff:
  assumes "graph_of code cfg" "bt_get (cfg_blocks cfg) b = Some bb" "s \<in> set (bb_successors bb)"
  shows "cfg_is_back_edge cfg b s \<longleftrightarrow> s \<le> b"
proof -
  obtain f where "blocks_ok (cu_code code) (cfg_blocks cfg)"
    "cfg_loop_heads cfg = gather_loop_heads (cfg_blocks cfg)"
    using graph_of_cases[OF assms(1)] by metis
  then show ?thesis
    using assms gather_loop_heads_marked[of "cfg_blocks cfg" b s]
    by (auto simp: cfg_is_back_edge_def marked_def blocks_ok_def split: option.splits)
qed

lemma successors_get:
  "successors cfg b = Ok ss \<longleftrightarrow> (\<exists>bb. bt_get (cfg_blocks cfg) b = Some bb \<and> ss = bb_successors bb)"
  by (auto simp: successors_def bt_index_def unwrap_def rbind_eq_Ok split: option.splits)

lemma graph_back_earlier:
  assumes graph: "graph_of code cfg" and i: "i < length (traversal_order cfg)"
    and succs: "bt_get (cfg_blocks cfg) (traversal_order cfg ! i) = Some bb" "s \<in> set (bb_successors bb)"
    and le: "s \<le> traversal_order cfg ! i"
  shows "\<exists>j \<le> i. traversal_order cfg ! j = s"
proof -
  let ?b = "traversal_order cfg ! i"
  obtain f where ready: "cfg_ready (cu_code code)" and verified: "control_flow_verify f code = Ok ()"
    and bm: "blocks_ok (cu_code code) (cfg_blocks cfg)"
    and rpo: "reverse_post_order (cfg_blocks cfg) (traversal_order cfg)"
    using graph_of_cases[OF graph] by metis
  have "block_of (cu_code code) ?b bb" using bm succs by (auto simp: blocks_ok_def)
  then obtain l where "loop_at (cu_code code) s l" "?b \<le> l"
    using back_edge_loop[OF ready _ succs(2) le] by blast
  moreover have "(dag_edge (cfg_blocks cfg))\<^sup>*\<^sup>* 0 ?b"
    using order_all_reachable[OF rpo] i by simp
  ultimately have "(dag_edge (cfg_blocks cfg))\<^sup>*\<^sup>* 0 s" "(dag_edge (cfg_blocks cfg))\<^sup>*\<^sup>* s ?b"
    using loop_head_dominates[OF verified ready bm] le by blast+
  then show ?thesis using order_before[OF rpo _ i] order_all_reachable[OF rpo] by blast
qed

interpretation cfg: flow_graph "\<lambda>cfg. \<exists>code. graph_of code cfg" traversal_order entry_block_id
  successors next_block cfg_is_back_edge
proof unfold_locales
  fix cfg
  assume "\<exists>code. graph_of code cfg"
  then obtain code where graph: "graph_of code cfg" by blast
  obtain f where ready: "cfg_ready (cu_code code)" and verified: "control_flow_verify f code = Ok ()"
    and bm: "blocks_ok (cu_code code) (cfg_blocks cfg)"
    and rpo: "reverse_post_order (cfg_blocks cfg) (traversal_order cfg)"
    and nexts: "cfg_traversal_successors cfg = successors_in_order (traversal_order cfg)"
    using graph_of_cases[OF graph] by metis
  show "distinct (traversal_order cfg)" using rpo by (simp add: reverse_post_order_def)
  then show "next_block cfg (traversal_order cfg ! i) =
      (if Suc i < length (traversal_order cfg) then Some (traversal_order cfg ! Suc i) else None)"
    if "i < length (traversal_order cfg)" for i
    using successors_in_order_next[OF _ that] by (simp add: next_block_def nexts)
  show "traversal_order cfg \<noteq> [] \<and> traversal_order cfg ! 0 = entry_block_id"
    using order_hd[OF rpo] by (simp add: hd_conv_nth entry_block_id_def ENTRY_BLOCK_ID_def)
  have "\<exists>bb. bt_get (cfg_blocks cfg) (traversal_order cfg ! i) = Some bb"
    if "i < length (traversal_order cfg)" for i
    using reachable_key[OF blocks_ok_closed[OF ready bm]] order_all_reachable[OF rpo] that by simp
  then show "\<exists>ss. successors cfg (traversal_order cfg ! i) = Ok ss"
    if "i < length (traversal_order cfg)" for i
    using that by (auto simp: successors_get)
  show "\<exists>j. i < j \<and> j < length (traversal_order cfg) \<and> traversal_order cfg ! j = s"
    if i: "i < length (traversal_order cfg)" and "successors cfg (traversal_order cfg ! i) = Ok ss"
      "s \<in> set ss" "\<not> cfg_is_back_edge cfg (traversal_order cfg ! i) s" for i ss s
    using that cfg_is_back_edge_iff[OF graph] order_edge[OF rpo i, of s]
    by (fastforce simp: successors_get dag_edge_def)
  show "\<exists>j \<le> i. traversal_order cfg ! j = s"
    if i: "i < length (traversal_order cfg)" and "successors cfg (traversal_order cfg ! i) = Ok ss"
      "s \<in> set ss" "cfg_is_back_edge cfg (traversal_order cfg ! i) s" for i ss s
    using that cfg_is_back_edge_iff[OF graph] graph_back_earlier[OF graph i]
    by (auto simp: successors_get)
  show "s = s'" if edges: "successors cfg b = Ok ss" "s \<in> set ss" "s' \<in> set ss"
    "cfg_is_back_edge cfg b s" "cfg_is_back_edge cfg b s'" for b ss s s'
  proof -
    obtain bb where bb: "bt_get (cfg_blocks cfg) b = Some bb" "ss = bb_successors bb"
      using edges(1) by (auto simp: successors_get)
    then have block: "block_of (cu_code code) b bb" using bm by (auto simp: blocks_ok_def)
    have "offset (cu_code code ! bb_exit bb) = Some t" if "t \<in> set ss" "cfg_is_back_edge cfg b t" for t
      using that bb cfg_is_back_edge_iff[OF graph bb(1)] block_of_successors[OF ready block] block_ofD(2)[OF block]
      by (auto simp: flows_to_def)
    from this[OF edges(2,4)] this[OF edges(3,5)] show ?thesis by simp
  qed
  show "s \<in> K" if K: "\<And>t. t \<in> K \<Longrightarrow> t = entry_block_id \<or> (\<exists>c \<in> K. \<exists>ss. successors cfg c = Ok ss \<and>
      t \<in> set ss \<and> \<not> cfg_is_back_edge cfg c t)"
    and b: "b \<in> K" "successors cfg b = Ok ss" "s \<in> set ss" "cfg_is_back_edge cfg b s" for K b ss s
  proof -
    obtain bb where bb: "bt_get (cfg_blocks cfg) b = Some bb" "s \<in> set (bb_successors bb)" "s \<le> b"
      using b cfg_is_back_edge_iff[OF graph] by (auto simp: successors_get)
    moreover have "block_of (cu_code code) b bb" using bm bb by (auto simp: blocks_ok_def)
    ultimately obtain l where loop: "loop_at (cu_code code) s l" "b \<le> l"
      using back_edge_loop[OF ready] by blast
    have pred: "t = 0 \<or> (\<exists>c \<in> K. dag_edge (cfg_blocks cfg) c t)" if "t \<in> K" for t
      using K[OF that] cfg_is_back_edge_iff[OF graph]
      by (fastforce simp: entry_block_id_def ENTRY_BLOCK_ID_def successors_get dag_edge_def)
    show ?thesis by (rule loop_head_in[OF verified ready bm loop(1) pred b(1) bb(3) loop(2)])
  qed
qed

section \<open>Reachability\<close>

definition edge :: "vm_control_flow_graph \<Rightarrow> nat \<Rightarrow> nat \<Rightarrow> bool" where
  "edge cfg b s = (\<exists>ss. successors cfg b = Ok ss \<and> s \<in> set ss)"

definition bfs_inv :: "vm_control_flow_graph \<Rightarrow> nat \<Rightarrow> nat \<Rightarrow> nat list \<Rightarrow> nat btree_set \<Rightarrow> bool" where
  "bfs_inv cfg b index ret seen =
     (b \<in> set ret \<and> distinct ret \<and> set seen = set ret \<and> index \<le> length ret \<and>
      (\<forall>c \<in> set ret. (edge cfg)\<^sup>*\<^sup>* b c) \<and>
      (\<forall>i < index. \<forall>s. edge cfg (ret ! i) s \<longrightarrow> s \<in> set ret))"

lemma push_unseen_spec:
  assumes "set seen = set ret" "distinct ret" "fold push_unseen ss (ret, seen) = (ret', seen')"
  shows "\<exists>new. ret' = ret @ new \<and> set ret' = set ret \<union> set ss \<and> set seen' = set ret' \<and> distinct ret'"
  using assms
proof (induction ss arbitrary: ret seen)
  case (Cons s ss)
  show ?case
  proof (cases "s \<in> set ret")
    case True
    then show ?thesis using Cons by (auto simp: push_unseen_def insert_absorb)
  next
    case False
    then show ?thesis
      using Cons.IH[of "bs_insert s seen" "ret @ [s]"] Cons.prems by (auto simp: push_unseen_def)
  qed
qed simp

lemma bfs_inv_step:
  assumes inv: "bfs_inv cfg b index ret seen" and index: "index < length ret"
    and ss: "successors cfg (ret ! index) = Ok ss"
    and push: "fold push_unseen ss (ret, seen) = (ret', seen')"
  shows "bfs_inv cfg b (index + 1) ret' seen'"
proof -
  obtain new where new: "ret' = ret @ new" and set': "set ret' = set ret \<union> set ss"
    and seen': "set seen' = set ret'" "distinct ret'"
    using push_unseen_spec[OF _ _ push] inv by (auto simp: bfs_inv_def)
  have "(edge cfg)\<^sup>*\<^sup>* b c" if "c \<in> set ss" for c
  proof (rule rtranclp.rtrancl_into_rtrancl)
    show "(edge cfg)\<^sup>*\<^sup>* b (ret ! index)" using inv index by (simp add: bfs_inv_def)
    show "edge cfg (ret ! index) c" using ss that by (auto simp: edge_def)
  qed
  then have "\<forall>c \<in> set ret'. (edge cfg)\<^sup>*\<^sup>* b c" using inv set' by (auto simp: bfs_inv_def)
  moreover have "s \<in> set ret'" if "i < index + 1" "edge cfg (ret' ! i) s" for i s
  proof (cases "i = index")
    case True
    then show ?thesis using that ss set' new index by (auto simp: edge_def nth_append)
  next
    case False
    then have "i < index" "edge cfg (ret ! i) s" using that index new by (simp_all add: nth_append)
    then show ?thesis using inv set' by (auto simp: bfs_inv_def)
  qed
  ultimately show ?thesis using inv index new set' seen' by (auto simp: bfs_inv_def)
qed

lemma traverse_loop_spec:
  assumes "closed_blocks (cfg_blocks cfg)" "\<forall>c \<in> set ret. \<exists>bb. bt_get (cfg_blocks cfg) c = Some bb"
    and "bfs_inv cfg b index ret seen"
  shows "\<exists>r. traverse_loop cfg index ret seen = Ok r \<and> distinct r \<and> set r = {c. (edge cfg)\<^sup>*\<^sup>* b c}"
  using assms
proof (induction cfg index ret seen rule: traverse_loop.induct)
  case (1 cfg index ret seen)
  show ?case
  proof (cases "index < length ret")
    case True
    then obtain bb where bb: "bt_get (cfg_blocks cfg) (ret ! index) = Some bb" using 1(3) by force
    then have ss: "successors cfg (ret ! index) = Ok (bb_successors bb)" by (simp add: successors_get)
    obtain ret' seen' where push: "fold push_unseen (bb_successors bb) (ret, seen) = (ret', seen')"
      by fastforce
    have "set ret' = set ret \<union> set (bb_successors bb)"
      using push_unseen_spec[OF _ _ push] 1(4) by (auto simp: bfs_inv_def)
    then have "\<forall>c \<in> set ret'. \<exists>bb. bt_get (cfg_blocks cfg) c = Some bb"
      using 1(2,3) bb by (auto simp: closed_blocks_def)
    then show ?thesis
      using 1(1)[OF True ss push[symmetric] 1(2) _ bfs_inv_step[OF 1(4) True ss push]] True ss push
      by (subst traverse_loop.simps) simp
  next
    case False
    then have closed: "s \<in> set ret" if "c \<in> set ret" "edge cfg c s" for c s
      using 1(4) that by (auto simp: bfs_inv_def in_set_conv_nth)
    have "c \<in> set ret" if "(edge cfg)\<^sup>*\<^sup>* b c" for c
      using that by (induction) (use 1(4) closed in \<open>auto simp: bfs_inv_def\<close>)
    then show ?thesis using 1(4) False by (subst traverse_loop.simps) (auto simp: bfs_inv_def)
  qed
qed

section \<open>Properties of the graph\<close>

lemma block_end_get:
  "block_end cfg b = Ok stop \<longleftrightarrow> (\<exists>bb. bt_get (cfg_blocks cfg) b = Some bb \<and> stop = bb_exit bb)"
  by (auto simp: block_end_def bt_index_def unwrap_def rbind_eq_Ok split: option.splits)

lemma leader_below:
  "\<exists>b. b \<le> i \<and> leader code b \<and> (\<forall>c. b < c \<and> c \<le> i \<longrightarrow> \<not> leader code c)"
proof (induction i)
  case 0
  then show ?case by (simp add: leader_def)
next
  case (Suc i)
  show ?case
  proof (cases "leader code (Suc i)")
    case True
    then show ?thesis by (intro exI[of _ "Suc i"]) auto
  next
    case False
    moreover obtain b where "b \<le> i" "leader code b" "\<forall>c. b < c \<and> c \<le> i \<longrightarrow> \<not> leader code c"
      using Suc by blast
    ultimately show ?thesis by (intro exI[of _ b]) (auto simp: le_Suc_eq)
  qed
qed

lemma covering_block:
  assumes "cfg_ready code" "blocks_ok code bm" "i < length code"
  shows "\<exists>!b. \<exists>stop. (\<exists>bb. bt_get bm b = Some bb \<and> stop = bb_exit bb) \<and> b \<le> i \<and> i \<le> stop"
proof -
  obtain b where b: "b \<le> i" "leader code b" and max: "\<And>c. b < c \<Longrightarrow> c \<le> i \<Longrightarrow> \<not> leader code c"
    using leader_below[of i code] by blast
  obtain bb where bb: "bt_get bm b = Some bb" "block_of code b bb"
    using assms(2) b(2) unfolding blocks_ok_def by blast
  have le: "i \<le> bb_exit bb"
  proof (rule ccontr)
    assume "\<not> i \<le> bb_exit bb"
    then have "leader code (Suc (bb_exit bb))" "b < Suc (bb_exit bb)" "Suc (bb_exit bb) \<le> i"
      using block_ofD[OF bb(2)] assms(3) by (auto simp: ends_block_def)
    then show False using max by blast
  qed
  have unique: "c = b" if "bt_get bm c = Some cc" "c \<le> i" "i \<le> bb_exit cc" for c cc
  proof (rule antisym)
    have c: "block_of code c cc" using assms(2) that(1) unfolding blocks_ok_def by blast
    show "c \<le> b" using max[OF _ that(2)] block_ofD(1)[OF c] by (meson not_le)
    show "b \<le> c" using leader_block[OF c b(2)] that(3) b(1) by simp
  qed
  show ?thesis
  proof (rule ex1I[of _ b])
    show "\<exists>stop. (\<exists>bb. bt_get bm b = Some bb \<and> stop = bb_exit bb) \<and> b \<le> i \<and> i \<le> stop"
      using bb(1) b(1) le by blast
    fix c
    assume "\<exists>stop. (\<exists>bb. bt_get bm c = Some bb \<and> stop = bb_exit bb) \<and> c \<le> i \<and> i \<le> stop"
    then show "c = b" by (elim exE conjE) (simp add: unique)
  qed
qed

text \<open>
  C13: construction succeeds on every non-empty body of at most 65534 instructions whose jumps are in
  bounds. Its blocks partition the instructions; control enters a block only at its start, and inside
  it only falls through; the successors of a block are exactly where its last instruction can flow,
  and all of them are blocks of the graph.
\<close>

theorem new_cfg_blocks:
  assumes "cfg_ready code"
  shows "\<exists>cfg. new_cfg code = Ok cfg \<and>
    (\<forall>i < length code. \<exists>!b. \<exists>stop. block_end cfg b = Ok stop \<and> b \<le> i \<and> i \<le> stop) \<and>
    (\<forall>b stop. block_end cfg b = Ok stop \<longrightarrow>
       stop < length code \<and>
       (\<forall>i j. flows_to code i j \<and> b < j \<and> j \<le> stop \<longrightarrow> Suc i = j) \<and>
       (\<forall>i j. flows_to code i j \<and> b \<le> i \<and> i < stop \<longrightarrow> j = Suc i) \<and>
       (\<exists>ss. successors cfg b = Ok ss \<and> set ss = {s. flows_to code stop s \<and> s < length code} \<and>
          set ss \<subseteq> set (blocks cfg)))"
proof -
  obtain cfg where cfg: "new_cfg code = Ok cfg" and bm: "blocks_ok code (cfg_blocks cfg)"
    using new_cfg_spec[OF assms] by blast
  have closed: "closed_blocks (cfg_blocks cfg)" by (rule blocks_ok_closed[OF assms bm])
  have block: "\<exists>bb. bt_get (cfg_blocks cfg) b = Some bb \<and> bb_exit bb = stop \<and> block_of code b bb"
    if "block_end cfg b = Ok stop" for b stop
    using that bm by (auto simp: block_end_get blocks_ok_def)
  have enters: "Suc i = j"
    if "block_of code b bb" "flows_to code i j" "b < j" "j \<le> bb_exit bb" for b bb i j
  proof (rule ccontr)
    assume "Suc i \<noteq> j"
    then have "leader code j" using that(2) by (auto simp: flows_to_def leader_def)
    then show False using leader_block[OF that(1) _ that(4)] that(3) by simp
  qed
  have cover: "\<forall>i < length code. \<exists>!b. \<exists>stop. block_end cfg b = Ok stop \<and> b \<le> i \<and> i \<le> stop"
    using covering_block[OF assms bm] by (simp add: block_end_get)
  have "stop < length code \<and>
      (\<forall>i j. flows_to code i j \<and> b < j \<and> j \<le> stop \<longrightarrow> Suc i = j) \<and>
      (\<forall>i j. flows_to code i j \<and> b \<le> i \<and> i < stop \<longrightarrow> j = Suc i) \<and>
      (\<exists>ss. successors cfg b = Ok ss \<and> set ss = {s. flows_to code stop s \<and> s < length code} \<and>
         set ss \<subseteq> set (blocks cfg))" if ends: "block_end cfg b = Ok stop" for b stop
  proof -
    obtain bb where bb: "bt_get (cfg_blocks cfg) b = Some bb" "bb_exit bb = stop" "block_of code b bb"
      using block[OF ends] by blast
    have "set (bb_successors bb) \<subseteq> set (blocks cfg)"
      using closed bb(1) by (auto simp: blocks_def in_bt_keys closed_blocks_def)
    moreover have "successors cfg b = Ok (bb_successors bb)"
      using bb(1) by (simp add: successors_get)
    ultimately show ?thesis
      using block_ofD(3)[OF bb(3)] enters[OF bb(3)] block_of_inner(2)[OF bb(3)]
        block_of_successors[OF assms bb(3)] bb(2) by blast
  qed
  with cover show ?thesis using cfg by blast
qed

lemma traversal_order_reachable:
  assumes graph: "graph_of code cfg"
  shows "set (traversal_order cfg) = {b. (edge cfg)\<^sup>*\<^sup>* entry_block_id b}"
proof -
  have ok: "\<exists>code. graph_of code cfg" using graph by blast
  have "b \<in> set (traversal_order cfg)" if "(edge cfg)\<^sup>*\<^sup>* entry_block_id b" for b
    using that
  proof (induction)
    case (step b s)
    then show ?case using cfg.succs_in_order[OF ok] by (auto simp: edge_def)
  qed (rule cfg.entry_in_order[OF ok])
  moreover have "(edge cfg)\<^sup>*\<^sup>* entry_block_id b" if "b \<in> set (traversal_order cfg)" for b
  proof -
    have "(dag_edge (cfg_blocks cfg))\<^sup>*\<^sup>* 0 b"
      using graph_of_cases[OF graph] order_all_reachable that by metis
    moreover have "dag_edge (cfg_blocks cfg) \<le> edge cfg"
      by (auto simp: dag_edge_def edge_def successors_get)
    ultimately show ?thesis
      using rtranclp_mono by (auto simp: entry_block_id_def ENTRY_BLOCK_ID_def)
  qed
  ultimately show ?thesis by blast
qed

lemma loop_example_ready: "cfg_ready (cu_code loop_example)"
  by (simp add: loop_example_def cfg_ready_def jumps_in_bounds_def offset_def)

theorem new_cfg_blocks_witness:
  "cfg_ready (cu_code loop_example) \<and>
   (\<exists>cfg b stop. new_cfg (cu_code loop_example) = Ok cfg \<and> block_end cfg b = Ok stop \<and> b \<le> 3 \<and> 3 \<le> stop)"
proof -
  have "3 < length (cu_code loop_example)" by (simp add: loop_example_def)
  then show ?thesis
    using loop_example_ready new_cfg_blocks[OF loop_example_ready] by blast
qed

text \<open>
  C12: for a body that the control flow verifier accepts, the traversal of the graph starts at the
  entry block, visits exactly the blocks that are reachable from it, each once and in the order that
  the next-block map gives, and visits both ends of every edge in order: the target of an edge that
  is not a back edge comes later, and the target of a back edge, a loop head, does not. The edges
  reported as back edges are those that do not go to a higher offset.
\<close>

theorem traversal_reverse_post_order:
  assumes "cfg_ready (cu_code code)" "control_flow_verify f code = Ok ()"
    and "new_cfg (cu_code code) = Ok cfg"
  shows "\<exists>order. order \<noteq> [] \<and> distinct order \<and> hd order = entry_block_id \<and>
    set order = {b. (edge cfg)\<^sup>*\<^sup>* entry_block_id b} \<and>
    (\<forall>i < length order. next_block cfg (order ! i) =
       (if Suc i < length order then Some (order ! Suc i) else None)) \<and>
    (\<forall>i j. i < length order \<and> j < length order \<and> edge cfg (order ! i) (order ! j) \<longrightarrow>
       (cfg_is_back_edge cfg (order ! i) (order ! j) \<longleftrightarrow> j \<le> i) \<and>
       (cfg_is_back_edge cfg (order ! i) (order ! j) \<longleftrightarrow> order ! j \<le> order ! i))"
proof -
  have graph: "graph_of code cfg" using assms by (auto simp: graph_of_def)
  then have ok: "\<exists>code. graph_of code cfg" by blast
  let ?order = "traversal_order cfg"
  note first = cfg.entry_first[OF ok] and dist = cfg.distinct_order[OF ok]
  have reach: "set ?order = {b. (edge cfg)\<^sup>*\<^sup>* entry_block_id b}"
    by (rule traversal_order_reachable[OF graph])
  have "cfg_is_back_edge cfg (?order ! i) (?order ! j) \<longleftrightarrow> j \<le> i"
    if ij: "i < length ?order" "j < length ?order" and "edge cfg (?order ! i) (?order ! j)" for i j
  proof -
    obtain ss where ss: "successors cfg (?order ! i) = Ok ss" "?order ! j \<in> set ss"
      using \<open>edge cfg (?order ! i) (?order ! j)\<close> by (auto simp: edge_def)
    have "\<exists>k \<le> i. ?order ! k = ?order ! j" if "cfg_is_back_edge cfg (?order ! i) (?order ! j)"
      by (rule cfg.back_earlier[OF ok ij(1) ss that])
    moreover have "\<exists>k. i < k \<and> k < length ?order \<and> ?order ! k = ?order ! j"
      if "\<not> cfg_is_back_edge cfg (?order ! i) (?order ! j)"
      by (rule cfg.forward_later[OF ok ij(1) ss that])
    moreover have "k = j" if "k < length ?order" "?order ! k = ?order ! j" for k
      using that ij(2) nth_eq_iff_index_eq[OF dist] by blast
    ultimately show ?thesis using ij(1) by (metis le_less_trans not_le)
  qed
  moreover have "cfg_is_back_edge cfg b s \<longleftrightarrow> s \<le> b" if "edge cfg b s" for b s
    using that cfg_is_back_edge_iff[OF graph] by (auto simp: edge_def successors_get)
  ultimately show ?thesis
    using first dist reach cfg.next_in_order[OF ok] by (intro exI[of _ ?order]) (simp add: hd_conv_nth)
qed

theorem traversal_reverse_post_order_witness:
  "cfg_ready (cu_code loop_example) \<and> control_flow_verify None loop_example = Ok () \<and>
   (\<exists>cfg order. new_cfg (cu_code loop_example) = Ok cfg \<and>
     set order = {b. (edge cfg)\<^sup>*\<^sup>* entry_block_id b})"
proof -
  obtain cfg where cfg: "new_cfg (cu_code loop_example) = Ok cfg"
    using new_cfg_spec[OF loop_example_ready] by blast
  from traversal_reverse_post_order[OF loop_example_ready loop_example_accepted cfg]
  obtain order where "set order = {b. (edge cfg)\<^sup>*\<^sup>* entry_block_id b}" by blast
  then show ?thesis using cfg loop_example_ready loop_example_accepted by blast
qed

text \<open>
  C14: the breadth-first search from a block of the graph ends without a panic and returns exactly the
  blocks reachable from it, each once.
\<close>

theorem reachable_from_correct:
  assumes "cfg_ready code" "new_cfg code = Ok cfg" "b \<in> set (blocks cfg)"
  shows "\<exists>r. reachable_from cfg b = Ok r \<and> distinct r \<and> set r = {c. (edge cfg)\<^sup>*\<^sup>* b c}"
proof -
  have "blocks_ok code (cfg_blocks cfg)" using new_cfg_spec[OF assms(1)] assms(2) by auto
  moreover have "bfs_inv cfg b 0 [b] (bs_insert b [])" by (simp add: bfs_inv_def)
  ultimately show ?thesis
    using traverse_loop_spec[OF blocks_ok_closed[OF assms(1)], of cfg "[b]" b 0 "bs_insert b []"] assms(3)
    by (simp add: reachable_from_def traverse_by_def blocks_def in_bt_keys)
qed

theorem reachable_from_correct_witness:
  "\<exists>cfg r. new_cfg (cu_code loop_example) = Ok cfg \<and> 0 \<in> set (blocks cfg) \<and>
     reachable_from cfg 0 = Ok r \<and> set r = {c. (edge cfg)\<^sup>*\<^sup>* 0 c}"
proof -
  obtain cfg where cfg: "new_cfg (cu_code loop_example) = Ok cfg"
    and "blocks_ok (cu_code loop_example) (cfg_blocks cfg)"
    using new_cfg_spec[OF loop_example_ready] by blast
  then have "0 \<in> set (blocks cfg)" by (simp add: blocks_ok_def blocks_def in_bt_keys leader_def)
  then show ?thesis using cfg reachable_from_correct[OF loop_example_ready cfg] by blast
qed

end
