(* ===== verification/Function_View.thy ===== *)
theory Function_View
  imports Binary_Views Cfg_Traversal
begin

text \<open>
  \<^verbatim>\<open>FunctionView\<close> of \<^verbatim>\<open>binary_views.rs\<close>: what the passes over a function body see, with its control flow
  graph. The lemmas give when a view can be built.
\<close>

record function_view =
  fv_index :: "nat option"
  fv_code :: code_unit
  fv_parameters :: signature
  fv_return :: signature
  fv_locals :: signature
  fv_type_parameters :: "ability_set list"
  fv_cfg :: vm_control_flow_graph

definition function_view_function ::
  "compiled_module \<Rightarrow> nat \<Rightarrow> code_unit \<Rightarrow> function_handle \<Rightarrow> function_view vm_result" where
  "function_view_function module index code fh =
     rbind (signature_at (ViewModule module) (fh_parameters fh)) (\<lambda>parameters.
     rbind (signature_at (ViewModule module) (fh_return fh)) (\<lambda>returns.
     rbind (signature_at (ViewModule module) (cu_locals code)) (\<lambda>locals.
     rbind (new_cfg (cu_code code)) (\<lambda>cfg.
       Ok \<lparr>fv_index = Some index, fv_code = code, fv_parameters = parameters, fv_return = returns,
           fv_locals = locals, fv_type_parameters = fh_type_parameters fh, fv_cfg = cfg\<rparr>))))"

definition function_view_script :: "compiled_script \<Rightarrow> function_view vm_result" where
  "function_view_script script =
     (let code = cs_code script in
      rbind (signature_at (ViewScript script) (cs_parameters script)) (\<lambda>parameters.
      rbind (signature_at (ViewScript script) (cu_locals code)) (\<lambda>locals.
      rbind (new_cfg (cu_code code)) (\<lambda>cfg.
        Ok \<lparr>fv_index = None, fv_code = code, fv_parameters = parameters, fv_return = [],
            fv_locals = locals, fv_type_parameters = cs_type_parameters script, fv_cfg = cfg\<rparr>))))"

text \<open>
  The views that the verifier hands to the passes: the control flow verifier has accepted the body,
  the bounds checker has checked its jumps, and the graph is the one of the body.
\<close>

definition verified_view :: "function_view \<Rightarrow> bool" where
  "verified_view view = graph_of (fv_code view) (fv_cfg view)"

lemma verified_view_function:
  assumes "control_flow_verify (Some index) code = Ok ()" "cfg_ready (cu_code code)"
    and "function_view_function module index code fh = Ok view"
  shows "verified_view view" "fv_code view = code"
  using assms by (auto simp: function_view_function_def verified_view_def graph_of_def rbind_eq_Ok)

lemma verified_view_script:
  assumes "control_flow_verify None (cs_code script) = Ok ()" "cfg_ready (cu_code (cs_code script))"
    and "function_view_script script = Ok view"
  shows "verified_view view" "fv_code view = cs_code script"
  using assms
  by (auto simp: function_view_script_def verified_view_def graph_of_def rbind_eq_Ok Let_def)

lemma function_view_function_Ok:
  assumes "cfg_ready (cu_code code)"
    and "unat (fh_parameters fh) < length (cm_signatures module)"
    and "unat (fh_return fh) < length (cm_signatures module)"
    and "unat (cu_locals code) < length (cm_signatures module)"
  shows "\<exists>view. function_view_function module index code fh = Ok view"
  using assms new_cfg_spec[OF assms(1)]
  by (auto simp: function_view_function_def signature_at_def signatures_def)

section \<open>An example\<close>

text \<open>A script with one parameter, which loops while it is true; the theories below use its view.\<close>

definition branching_code :: code_unit where
  "branching_code = \<lparr>cu_locals = 0, cu_code = [CopyLoc 0, BrFalse 3, Branch 0, Ret]\<rparr>"

definition branching_cfg :: vm_control_flow_graph where
  "branching_cfg =
     \<lparr>cfg_blocks =
        [(0, \<lparr>bb_exit = 1, bb_successors = [2, 3]\<rparr>), (2, \<lparr>bb_exit = 2, bb_successors = [0]\<rparr>),
         (3, \<lparr>bb_exit = 3, bb_successors = []\<rparr>)],
      cfg_traversal_successors = [(0, 2), (2, 3)], cfg_loop_heads = [(0, [2])]\<rparr>"

definition branching_view :: function_view where
  "branching_view =
     \<lparr>fv_index = None, fv_code = branching_code, fv_parameters = [Bool], fv_return = [],
      fv_locals = [], fv_type_parameters = [], fv_cfg = branching_cfg\<rparr>"
definition branching_script :: compiled_script where
  "branching_script =
     \<lparr>cs_version = 4, cs_module_handles = [], cs_struct_handles = [], cs_function_handles = [],
      cs_function_instantiations = [], cs_signatures = [[], [Bool]], cs_identifiers = [],
      cs_address_identifiers = [], cs_constant_pool = [], cs_type_parameters = [],
      cs_parameters = 1, cs_code = branching_code\<rparr>"
lemma branching_cfg_new: "new_cfg (cu_code branching_code) = Ok branching_cfg"
  by (simp add: branching_code_def branching_cfg_def cfg_exec)

lemma branching_view_script: "function_view_script branching_script = Ok branching_view"
proof -
  have "cu_locals branching_code = 0" by (simp add: branching_code_def)
  then show ?thesis
    by (simp add: function_view_script_def branching_script_def branching_view_def branching_cfg_new
        signature_at_def signatures_def)
qed

lemma branching_ready: "cfg_ready (cu_code branching_code)"
  by (simp add: branching_code_def cfg_ready_def jumps_in_bounds_def offset_def)

lemma branching_accepted: "control_flow_verify None branching_code = Ok ()"
  by (simp add: branching_code_def control_flow_exec)

lemma branching_verified: "verified_view branching_view"
  using branching_cfg_new branching_ready branching_accepted
  by (auto simp: verified_view_def graph_of_def branching_view_def)

end
