(* ===== verification/Absint.thy ===== *)
theory Absint
  imports Function_View
begin

text \<open>
  \<^verbatim>\<open>absint.rs\<close>: the abstract interpreter that the flow-sensitive passes share. The domain and the
  transfer functions are its parameters, as in the traits \<^verbatim>\<open>AbstractDomain\<close> and \<^verbatim>\<open>TransferFunctions\<close>; the
  analysis error is \<^verbatim>\<open>PartialVMError\<close>, as in every implementation, and the analyses of the verifier keep
  no auxiliary data in \<^verbatim>\<open>self\<close>. The locales \<open>abstract_domain\<close> and \<open>transfer_functions\<close> are the contracts of
  the traits. From them follow that the analysis of a verified view ends, without a panic, in a map
  that is stable wherever no error is recorded, and (locale \<open>sound_analysis\<close>) that such a map covers
  every execution.
\<close>

section \<open>The interpreter\<close>

datatype join_result = Changed | Unchanged

datatype block_postcondition = Unprocessed | Success | Error partial_vm_error

record 's block_invariant =
  inv_pre :: 's
  inv_post :: block_postcondition

type_synonym 's invariant_map = "(nat, 's block_invariant) btree_map"

type_synonym 's transfer = "'s \<Rightarrow> bytecode \<Rightarrow> nat \<Rightarrow> nat \<Rightarrow> 's vm_result"

type_synonym 's domain_join = "'s \<Rightarrow> 's \<Rightarrow> ('s \<times> join_result) vm_result"

definition execute_instr :: "'s transfer \<Rightarrow> bytecode list \<Rightarrow> nat \<Rightarrow> nat \<Rightarrow> 's \<Rightarrow> 's vm_result" where
  "execute_instr execute code last_index pc state_acc =
     rbind (vec_index code pc) (\<lambda>instr. execute state_acc instr pc last_index)"

definition execute_block :: "'s transfer \<Rightarrow> nat \<Rightarrow> 's \<Rightarrow> function_view \<Rightarrow> 's vm_result" where
  "execute_block execute block_id pre_state function_view =
     rbind (block_end (fv_cfg function_view) block_id) (\<lambda>last_index.
     rbind (instr_indexes (fv_cfg function_view) block_id) (\<lambda>offsets.
       for_each (execute_instr execute (cu_code (fv_code function_view)) last_index) offsets pre_state))"

text \<open>One successor: join, or record the state when the block has none yet.\<close>

definition propagate ::
  "'s domain_join \<Rightarrow> vm_control_flow_graph \<Rightarrow> nat \<Rightarrow> 's \<Rightarrow> nat \<Rightarrow> 's invariant_map \<times> nat option \<Rightarrow>
     ('s invariant_map \<times> nat option) vm_result" where
  "propagate join cfg block_id post_state successor_block_id = (\<lambda>(inv_map, next_block_candidate).
     case bt_get inv_map successor_block_id of
       Some next_block_invariant \<Rightarrow>
         rbind (join (inv_pre next_block_invariant) post_state) (\<lambda>(pre, join_result).
           case join_result of
             Unchanged \<Rightarrow>
               Ok (bt_insert successor_block_id (next_block_invariant\<lparr>inv_pre := pre\<rparr>) inv_map,
                   next_block_candidate)
           | Changed \<Rightarrow>
               Ok (bt_insert successor_block_id \<lparr>inv_pre = pre, inv_post = Unprocessed\<rparr> inv_map,
                   if cfg_is_back_edge cfg block_id successor_block_id
                   then Some successor_block_id else next_block_candidate))
     | None \<Rightarrow>
         Ok (bt_insert successor_block_id \<lparr>inv_pre = post_state, inv_post = Success\<rparr> inv_map,
             next_block_candidate))"

definition analyze_turn ::
  "'s transfer \<Rightarrow> 's domain_join \<Rightarrow> function_view \<Rightarrow> 's invariant_map \<Rightarrow> nat \<Rightarrow>
     ('s invariant_map \<times> nat option) vm_result" where
  "analyze_turn execute join function_view inv_map block_id =
     (let cfg = fv_cfg function_view in
      case bt_get inv_map block_id of
        None \<Rightarrow> Ok (inv_map, next_block cfg block_id)
      | Some block_invariant \<Rightarrow>
          (case execute_block execute block_id (inv_pre block_invariant) function_view of
             Err e \<Rightarrow>
               Ok (bt_insert block_id (block_invariant\<lparr>inv_post := Error e\<rparr>) inv_map,
                   next_block cfg block_id)
           | Panic \<Rightarrow> Panic
           | Ok post_state \<Rightarrow>
               rbind (successors cfg block_id) (\<lambda>succs.
                 for_each (propagate join cfg block_id post_state) succs
                   (bt_insert block_id (block_invariant\<lparr>inv_post := Success\<rparr>) inv_map,
                    next_block cfg block_id))))"

lemma case_result_mono [partial_function_mono]:
  assumes "\<And>x. mono_option (\<lambda>f. B x f)" "\<And>e. mono_option (\<lambda>f. C e f)" "mono_option D"
  shows "mono_option (\<lambda>f. case r of Ok x \<Rightarrow> B x f | Err e \<Rightarrow> C e f | Panic \<Rightarrow> D f)"
  using assms by (cases r) simp_all

partial_function (option) analyze_loop ::
  "'s transfer \<Rightarrow> 's domain_join \<Rightarrow> function_view \<Rightarrow> 's invariant_map \<Rightarrow> nat option \<Rightarrow>
     's invariant_map vm_result option" where
  "analyze_loop execute join function_view inv_map next =
     (case next of
        None \<Rightarrow> Some (Ok inv_map)
      | Some block_id \<Rightarrow>
          (case analyze_turn execute join function_view inv_map block_id of
             Ok r \<Rightarrow> analyze_loop execute join function_view (fst r) (snd r)
           | Err e \<Rightarrow> Some (Err e)
           | Panic \<Rightarrow> Some Panic))"

definition analyze_function ::
  "'s transfer \<Rightarrow> 's domain_join \<Rightarrow> 's \<Rightarrow> function_view \<Rightarrow> 's invariant_map vm_result option" where
  "analyze_function execute join initial_state function_view =
     analyze_loop execute join function_view
       (bt_insert entry_block_id \<lparr>inv_pre = initial_state, inv_post = Unprocessed\<rparr> [])
       (Some entry_block_id)"

section \<open>Domains and transfer functions\<close>

text \<open>
  A domain of finite height: \<open>domain_ok p\<close> are the states of one analysis, \<open>rank p\<close> falls when a join
  changes the state.
\<close>

locale abstract_domain =
  fixes domain_ok :: "'p \<Rightarrow> 's \<Rightarrow> bool"
    and leq :: "'s \<Rightarrow> 's \<Rightarrow> bool"
    and join :: "'s domain_join"
    and rank :: "'p \<Rightarrow> 's \<Rightarrow> nat"
    and height :: "'p \<Rightarrow> nat"
  assumes leq_refl: "leq s s"
    and leq_trans: "leq s t \<Longrightarrow> leq t u \<Longrightarrow> leq s u"
    and join_bound: "domain_ok p s \<Longrightarrow> domain_ok p t \<Longrightarrow>
      \<exists>u r. join s t = Ok (u, r) \<and> domain_ok p u \<and> leq s u \<and> leq t u \<and>
        (case r of Unchanged \<Rightarrow> u = s | Changed \<Rightarrow> rank p u < rank p s)"
    and rank_height: "domain_ok p s \<Longrightarrow> rank p s \<le> height p"

locale transfer_functions = abstract_domain +
  fixes instr_ok :: "'p \<Rightarrow> bytecode \<Rightarrow> bool"
    and execute :: "'s transfer"
  assumes execute_total: "domain_ok p s \<Longrightarrow> instr_ok p instr \<Longrightarrow> execute s instr i l \<noteq> Panic"
    and execute_domain: "domain_ok p s \<Longrightarrow> instr_ok p instr \<Longrightarrow> execute s instr i l = Ok t \<Longrightarrow>
      domain_ok p t"

section \<open>The analysis ends in a stable map\<close>

definition stable ::
  "('s \<Rightarrow> 's \<Rightarrow> bool) \<Rightarrow> 's transfer \<Rightarrow> function_view \<Rightarrow> 's invariant_map \<Rightarrow> nat \<Rightarrow> 's \<Rightarrow> bool" where
  "stable leq execute view m b pre =
     (\<exists>s ss. execute_block execute b pre view = Ok s \<and> successors (fv_cfg view) b = Ok ss \<and>
        (\<forall>t \<in> set ss. \<exists>bi. bt_get m t = Some bi \<and> leq s (inv_pre bi)))"

text \<open>A block whose analysis is complete: not reached, or in error, or stable.\<close>

definition settled ::
  "('s \<Rightarrow> 's \<Rightarrow> bool) \<Rightarrow> 's transfer \<Rightarrow> function_view \<Rightarrow> 's invariant_map \<Rightarrow> nat \<Rightarrow> bool" where
  "settled leq execute view m b =
     (case bt_get m b of
        None \<Rightarrow> True
      | Some bi \<Rightarrow> (\<exists>e. inv_post bi = Error e) \<or> stable leq execute view m b (inv_pre bi))"

text \<open>The map only grows: every known block keeps a state that is at least as large.\<close>

definition grows :: "('s \<Rightarrow> 's \<Rightarrow> bool) \<Rightarrow> 's invariant_map \<Rightarrow> 's invariant_map \<Rightarrow> bool" where
  "grows leq m m' = (\<forall>b bi. bt_get m b = Some bi \<longrightarrow>
     (\<exists>bi'. bt_get m' b = Some bi' \<and> leq (inv_pre bi) (inv_pre bi')))"

context abstract_domain
begin

lemma grows_refl: "grows leq m m"
  by (simp add: grows_def leq_refl)

lemma stable_grows:
  assumes "stable leq execute view m b pre" "grows leq m m'"
  shows "stable leq execute view m' b pre"
  using assms unfolding stable_def grows_def by (meson leq_trans)

lemma settled_grows:
  assumes "settled leq execute view m b" "grows leq m m'" "bt_get m' b = bt_get m b"
  shows "settled leq execute view m' b"
  using assms stable_grows[OF _ assms(2)] by (auto simp: settled_def split: option.splits)

text \<open>The measure of a map: the ranks of the states of the blocks of the graph.\<close>

definition block_weight :: "'p \<Rightarrow> 's invariant_map \<Rightarrow> nat \<Rightarrow> nat" where
  "block_weight p m b = (case bt_get m b of None \<Rightarrow> Suc (height p) | Some bi \<Rightarrow> rank p (inv_pre bi))"

definition weight :: "'p \<Rightarrow> nat list \<Rightarrow> 's invariant_map \<Rightarrow> nat" where
  "weight p bs m = sum_list (map (block_weight p m) bs)"

lemma weight_mono:
  assumes "\<And>b. block_weight p m' b \<le> block_weight p m b"
  shows "weight p bs m' \<le> weight p bs m"
  unfolding weight_def using assms by (intro sum_list_mono) simp

lemma weight_strict:
  assumes "\<And>b. block_weight p m' b \<le> block_weight p m b" "c \<in> set bs"
    and "block_weight p m' c < block_weight p m c"
  shows "weight p bs m' < weight p bs m"
proof -
  obtain xs ys where bs: "bs = xs @ c # ys" using assms(2) by (meson split_list)
  show ?thesis
    using weight_mono[OF assms(1), of xs] weight_mono[OF assms(1), of ys] assms(3)
    by (simp add: weight_def bs)
qed

definition map_ok :: "'p \<Rightarrow> 's invariant_map \<Rightarrow> bool" where
  "map_ok p m = (bt_wf m \<and> (\<forall>b bi. bt_get m b = Some bi \<longrightarrow> domain_ok p (inv_pre bi)))"

text \<open>What the loop over the successors establishes, after some of them.\<close>

definition pushed ::
  "'p \<Rightarrow> vm_control_flow_graph \<Rightarrow> nat \<Rightarrow> 's \<Rightarrow> 's invariant_map \<Rightarrow> nat option \<Rightarrow> nat set \<Rightarrow>
     's invariant_map \<Rightarrow> nat option \<Rightarrow> bool" where
  "pushed p cfg b s m cand done m' cand' =
     (map_ok p m' \<and> grows leq m m' \<and> (\<forall>c. block_weight p m' c \<le> block_weight p m c) \<and>
      (\<forall>c. c \<notin> done \<longrightarrow> bt_get m' c = bt_get m c) \<and>
      (\<forall>t \<in> done. \<exists>bi. bt_get m' t = Some bi \<and> leq s (inv_pre bi)) \<and>
      ((cand' = cand \<and> (\<forall>t \<in> done. cfg_is_back_edge cfg b t \<longrightarrow> bt_get m' t = bt_get m t)) \<or>
       (\<exists>h \<in> done. cfg_is_back_edge cfg b h \<and> cand' = Some h \<and>
          block_weight p m' h < block_weight p m h)))"

lemma pushed_refl: "map_ok p m \<Longrightarrow> pushed p cfg b s m cand {} m cand"
  by (simp add: pushed_def grows_refl)

lemma map_ok_insert:
  "map_ok p m \<Longrightarrow> domain_ok p (inv_pre bi) \<Longrightarrow> map_ok p (bt_insert c bi m)"
  by (auto simp: map_ok_def btm.wf_insert btm.get_insert)

lemma block_weight_insert:
  "bt_wf m \<Longrightarrow> block_weight p (bt_insert t bi m) c =
     (if c = t then rank p (inv_pre bi) else block_weight p m c)"
  by (simp add: block_weight_def btm.get_insert)

lemma grows_insert:
  assumes "grows leq m m'" "bt_wf m'" "\<And>old. bt_get m' t = Some old \<Longrightarrow> leq (inv_pre old) (inv_pre bi)"
  shows "grows leq m (bt_insert t bi m')"
  unfolding grows_def
proof (intro allI impI)
  fix b old
  assume "bt_get m b = Some old"
  then obtain old' where "bt_get m' b = Some old'" "leq (inv_pre old) (inv_pre old')"
    using assms(1) unfolding grows_def by blast
  then show "\<exists>bi'. bt_get (bt_insert t bi m') b = Some bi' \<and> leq (inv_pre old) (inv_pre bi')"
    using assms(2,3) leq_trans by (auto simp: btm.get_insert)
qed

lemma pushed_insert:
  assumes pushed: "pushed p cfg b s m cand D m' cand'" and dom: "domain_ok p (inv_pre bi)"
    and old: "\<And>old. bt_get m' t = Some old \<Longrightarrow> leq (inv_pre old) (inv_pre bi)"
    and new: "leq s (inv_pre bi)" and less: "rank p (inv_pre bi) < block_weight p m' t"
    and cand'': "cand'' = (if cfg_is_back_edge cfg b t then Some t else cand')"
  shows "pushed p cfg b s m cand (insert t D) (bt_insert t bi m') cand''"
proof -
  have wf: "bt_wf m'" "map_ok p m'" "grows leq m m'"
    using pushed by (auto simp: pushed_def map_ok_def)
  have weight: "block_weight p (bt_insert t bi m') c \<le> block_weight p m c" for c
    using pushed less wf(1) by (auto simp: pushed_def block_weight_insert intro: order.trans less_imp_le)
  have less': "block_weight p (bt_insert t bi m') t < block_weight p m t"
    using pushed less wf(1) by (auto simp: pushed_def block_weight_insert intro: less_le_trans)
  have above: "\<forall>c \<in> insert t D. \<exists>bi'. bt_get (bt_insert t bi m') c = Some bi' \<and> leq s (inv_pre bi')"
    using pushed new wf(1) by (auto simp: pushed_def btm.get_insert)
  have same: "bt_get (bt_insert t bi m') c = bt_get m c" if "c \<notin> insert t D" for c
    using pushed that wf(1) by (simp add: pushed_def btm.get_insert)
  have next_ok: "(cand'' = cand \<and> (\<forall>c \<in> insert t D. cfg_is_back_edge cfg b c \<longrightarrow>
          bt_get (bt_insert t bi m') c = bt_get m c)) \<or>
       (\<exists>h \<in> insert t D. cfg_is_back_edge cfg b h \<and> cand'' = Some h \<and>
          block_weight p (bt_insert t bi m') h < block_weight p m h)"
  proof (cases "cfg_is_back_edge cfg b t")
    case True
    then show ?thesis using cand'' less' by (intro disjI2 bexI[of _ t]) simp_all
  next
    case False
    then have get: "bt_get (bt_insert t bi m') c = bt_get m' c"
      "block_weight p (bt_insert t bi m') c = block_weight p m' c" if "cfg_is_back_edge cfg b c" for c
      using that wf(1) by (auto simp: btm.get_insert block_weight_insert)
    then show ?thesis using pushed cand'' False unfolding pushed_def by auto
  qed
  show ?thesis
    unfolding pushed_def
    using map_ok_insert[OF wf(2) dom] grows_insert[OF wf(3,1) old] weight same above next_ok by blast
qed

lemma propagate_pushed:
  assumes pushed: "pushed p cfg b s m cand D m' cand'" and dom: "domain_ok p s"
    and known: "cfg_is_back_edge cfg b t \<Longrightarrow> bt_get m t \<noteq> None"
  shows "\<exists>m'' cand''. propagate join cfg b s t (m', cand') = Ok (m'', cand'') \<and>
    pushed p cfg b s m cand (insert t D) m'' cand''"
proof (cases "bt_get m' t")
  case None
  then have "bt_get m t = None"
    using pushed by (force simp: pushed_def grows_def)
  then have "\<not> cfg_is_back_edge cfg b t" using known by blast
  moreover have "rank p s < block_weight p m' t"
    using None rank_height[OF dom] by (simp add: block_weight_def le_imp_less_Suc)
  ultimately show ?thesis
    using pushed_insert[OF pushed, of "\<lparr>inv_pre = s, inv_post = Success\<rparr>" t] None dom leq_refl
    by (simp add: propagate_def)
next
  case (Some old)
  then have "domain_ok p (inv_pre old)" using pushed by (auto simp: pushed_def map_ok_def)
  then obtain u r where join: "join (inv_pre old) s = Ok (u, r)" "domain_ok p u"
    "leq (inv_pre old) u" "leq s u"
    and r: "case r of Unchanged \<Rightarrow> u = inv_pre old | Changed \<Rightarrow> rank p u < rank p (inv_pre old)"
    using join_bound[OF _ dom] by blast
  show ?thesis
  proof (cases r)
    case Changed
    then show ?thesis
      using pushed_insert[OF pushed, of "\<lparr>inv_pre = u, inv_post = Unprocessed\<rparr>" t] Some join r
      by (simp add: propagate_def block_weight_def)
  next
    case Unchanged
    have wf: "bt_wf m'" using pushed by (simp add: pushed_def map_ok_def)
    let ?m = "bt_insert t old m'"
    have get: "bt_get ?m c = bt_get m' c" for c using wf Some by (simp add: btm.get_insert)
    then have weight: "block_weight p ?m c = block_weight p m' c" for c by (simp add: block_weight_def)
    have "pushed p cfg b s m cand (insert t D) ?m cand'"
      using pushed join r Unchanged Some get btm.wf_insert[OF wf]
      unfolding pushed_def map_ok_def grows_def weight get by auto
    then show ?thesis using Some join Unchanged r by (simp add: propagate_def)
  qed
qed

lemma propagate_all:
  assumes "map_ok p m" "domain_ok p s"
    and "\<And>t. t \<in> set ss \<Longrightarrow> cfg_is_back_edge cfg b t \<Longrightarrow> bt_get m t \<noteq> None"
  shows "\<exists>m' cand'. for_each (propagate join cfg b s) ss (m, cand) = Ok (m', cand') \<and>
    pushed p cfg b s m cand (set ss) m' cand'"
proof -
  have "\<exists>r. for_each (propagate join cfg b s) ss (m, cand) = Ok r \<and>
      pushed p cfg b s m cand (set (take (length ss) ss)) (fst r) (snd r)"
  proof (rule for_each_total)
    show "pushed p cfg b s m cand (set (take 0 ss)) (fst (m, cand)) (snd (m, cand))"
      using pushed_refl[OF assms(1)] by simp
  next
    fix i r
    assume i: "i < length ss" and pushed: "pushed p cfg b s m cand (set (take i ss)) (fst r) (snd r)"
    have "set (take (Suc i) ss) = insert (ss ! i) (set (take i ss))"
      using i by (simp add: take_Suc_conv_app_nth)
    then show "\<exists>r'. propagate join cfg b s (ss ! i) r = Ok r' \<and>
        pushed p cfg b s m cand (set (take (Suc i) ss)) (fst r') (snd r')"
      using propagate_pushed[OF pushed assms(2), of "ss ! i"] assms(3) i by (cases r) fastforce
  qed
  then show ?thesis by auto
qed

end

lemma view_block:
  assumes "verified_view view" "b \<in> set (traversal_order (fv_cfg view))"
  shows "\<exists>bb. bt_get (cfg_blocks (fv_cfg view)) b = Some bb \<and> block_of (cu_code (fv_code view)) b bb"
proof -
  have graph: "graph_of (fv_code view) (fv_cfg view)" using assms(1) by (simp add: verified_view_def)
  obtain i where "i < length (traversal_order (fv_cfg view))" "traversal_order (fv_cfg view) ! i = b"
    using assms(2) by (auto simp: in_set_conv_nth)
  then obtain bb where "bt_get (cfg_blocks (fv_cfg view)) b = Some bb"
    using cfg.succs_known[of "fv_cfg view" i] graph by (auto simp: successors_get)
  then show ?thesis using graph_of_cases[OF graph] unfolding blocks_ok_def by metis
qed

lemma execute_block_eq:
  assumes "bt_get (cfg_blocks (fv_cfg view)) b = Some bb"
  shows "execute_block execute b pre view =
    for_each (execute_instr execute (cu_code (fv_code view)) (bb_exit bb)) [b..<Suc (bb_exit bb)] pre"
  using assms
  by (simp add: execute_block_def instr_indexes_def block_end_def bt_index_def block_start_def)

definition next_at :: "nat list \<Rightarrow> nat \<Rightarrow> nat option" where
  "next_at order k = (if k < length order then Some (order ! k) else None)"

context transfer_functions
begin

definition code_ok :: "'p \<Rightarrow> function_view \<Rightarrow> bool" where
  "code_ok p view = (verified_view view \<and> (\<forall>instr \<in> set (cu_code (fv_code view)). instr_ok p instr))"

lemma execute_block_domain:
  assumes "code_ok p view" "b \<in> set (traversal_order (fv_cfg view))" "domain_ok p pre"
  shows "execute_block execute b pre view \<noteq> Panic"
    and "execute_block execute b pre view = Ok s \<Longrightarrow> domain_ok p s"
proof -
  let ?code = "cu_code (fv_code view)"
  obtain bb where bb: "bt_get (cfg_blocks (fv_cfg view)) b = Some bb" "block_of ?code b bb"
    using view_block[of view b] assms by (auto simp: code_ok_def)
  have instr: "pc < length ?code" "instr_ok p (?code ! pc)" if "pc \<in> set [b..<Suc (bb_exit bb)]" for pc
    using that block_ofD(3)[OF bb(2)] assms(1) by (auto simp: code_ok_def)
  show "execute_block execute b pre view \<noteq> Panic"
    unfolding execute_block_eq[OF bb(1)]
  proof (rule for_each_not_Panic[where I = "domain_ok p"])
    show "domain_ok p pre" by (rule assms(3))
    show "execute_instr execute ?code (bb_exit bb) pc s \<noteq> Panic"
      if "pc \<in> set [b..<Suc (bb_exit bb)]" "domain_ok p s" for pc s
      using instr[OF that(1)] execute_total[OF that(2)] by (simp add: execute_instr_def)
    show "domain_ok p s'" if "pc \<in> set [b..<Suc (bb_exit bb)]" "domain_ok p s"
      "execute_instr execute ?code (bb_exit bb) pc s = Ok s'" for pc s s'
      using instr[OF that(1)] execute_domain[OF that(2)] that(3) by (simp add: execute_instr_def)
  qed
  show "domain_ok p s" if "execute_block execute b pre view = Ok s"
    using that unfolding execute_block_eq[OF bb(1)]
  proof (rule for_each_invariant[where I = "domain_ok p"])
    show "domain_ok p pre" by (rule assms(3))
    show "domain_ok p s'" if "pc \<in> set [b..<Suc (bb_exit bb)]" "domain_ok p s"
      "execute_instr execute ?code (bb_exit bb) pc s = Ok s'" for pc s s'
      using instr[OF that(1)] execute_domain[OF that(2)] that(3) by (simp add: execute_instr_def)
  qed
qed

text \<open>
  The invariant of the work loop when the block at position \<open>k\<close> of the traversal order is next: the
  blocks before it are settled, and every reached block other than the entry has been reached
  over an edge that is not a back edge.
\<close>

definition known :: "'s invariant_map \<Rightarrow> nat set" where
  "known m = {b. bt_get m b \<noteq> None}"

definition rooted :: "function_view \<Rightarrow> nat set \<Rightarrow> bool" where
  "rooted view K =
     (K \<subseteq> set (traversal_order (fv_cfg view)) \<and>
      (\<forall>t \<in> K. t = entry_block_id \<or> (\<exists>c \<in> K. \<exists>ss. successors (fv_cfg view) c = Ok ss \<and> t \<in> set ss \<and>
         \<not> cfg_is_back_edge (fv_cfg view) c t)))"

definition analysis_inv :: "'p \<Rightarrow> function_view \<Rightarrow> 's \<Rightarrow> 's invariant_map \<Rightarrow> nat \<Rightarrow> bool" where
  "analysis_inv p view init m k =
     (map_ok p m \<and> (\<exists>bi. bt_get m entry_block_id = Some bi \<and> leq init (inv_pre bi)) \<and>
      rooted view (known m) \<and> k \<le> length (traversal_order (fv_cfg view)) \<and>
      (\<forall>i < k. settled leq execute view m (traversal_order (fv_cfg view) ! i)))"

lemma rooted_back:
  assumes "verified_view view" "rooted view K" "b \<in> K" "successors (fv_cfg view) b = Ok ss"
    and "t \<in> set ss" "cfg_is_back_edge (fv_cfg view) b t"
  shows "t \<in> K"
proof (rule cfg.back_dominates[OF _ _ assms(3-6)])
  show "\<exists>code. graph_of code (fv_cfg view)" using assms(1) by (auto simp: verified_view_def)
qed (use assms(2) in \<open>auto simp: rooted_def\<close>)

lemma rooted_extend:
  assumes "verified_view view" "rooted view K" "b \<in> K" "successors (fv_cfg view) b = Ok ss"
  shows "rooted view (K \<union> set ss)"
proof -
  have ok: "\<exists>code. graph_of code (fv_cfg view)" using assms(1) by (auto simp: verified_view_def)
  have "set ss \<subseteq> set (traversal_order (fv_cfg view))"
    using cfg.succs_in_order[OF ok _ assms(4)] assms(2,3) by (auto simp: rooted_def)
  moreover have "\<exists>c \<in> K. \<exists>ss. successors (fv_cfg view) c = Ok ss \<and> t \<in> set ss \<and>
      \<not> cfg_is_back_edge (fv_cfg view) c t" if "t \<in> set ss" "t \<notin> K" for t
    using rooted_back[OF assms that(1)] that assms(3,4) by blast
  ultimately show ?thesis using assms(2) unfolding rooted_def by blast
qed

lemma known_pushed:
  assumes "pushed p cfg b s m cand (set ss) m' cand'"
  shows "known m' = known m \<union> set ss"
proof -
  have same: "\<And>c. c \<notin> set ss \<Longrightarrow> bt_get m' c = bt_get m c"
    and all: "\<And>t. t \<in> set ss \<Longrightarrow> \<exists>bi. bt_get m' t = Some bi"
    using assms unfolding pushed_def by blast+
  have "c \<in> known m' \<longleftrightarrow> c \<in> known m \<union> set ss" for c
    using same[of c] all[of c] by (cases "c \<in> set ss") (auto simp: known_def)
  then show ?thesis by blast
qed

lemma known_insert: "bt_wf m \<Longrightarrow> known (bt_insert b bi m) = insert b (known m)"
  by (auto simp: known_def btm.get_insert)

lemma analyze_turn_error:
  assumes inv: "analysis_inv p view init m k" and k: "k < length (traversal_order (fv_cfg view))"
    and b: "b = traversal_order (fv_cfg view) ! k" and bi: "bt_get m b = Some bi"
    and dist: "distinct (traversal_order (fv_cfg view))"
    and m': "m' = bt_insert b (bi\<lparr>inv_post := Error e\<rparr>) m"
  shows "analysis_inv p view init m' (Suc k)" "weight p bs m' = weight p bs m"
proof -
  have ok: "map_ok p m" "bt_wf m" using inv by (auto simp: analysis_inv_def map_ok_def)
  have grows: "grows leq m m'"
    unfolding m' using bi leq_refl by (intro grows_insert[OF grows_refl ok(2)]) simp
  have get: "bt_get m' c = (if c = b then Some (bi\<lparr>inv_post := Error e\<rparr>) else bt_get m c)" for c
    unfolding m' using ok(2) by (simp add: btm.get_insert)
  have "settled leq execute view m' (traversal_order (fv_cfg view) ! i)" if "i < Suc k" for i
  proof (cases "i = k")
    case True
    then show ?thesis using get b by (simp add: settled_def)
  next
    case False
    then have "i < k" "traversal_order (fv_cfg view) ! i \<noteq> b"
      using that k b dist nth_eq_iff_index_eq[OF dist, of i k] by auto
    then show ?thesis using inv settled_grows[OF _ grows] get by (simp add: analysis_inv_def)
  qed
  moreover have "domain_ok p (inv_pre bi)" using ok(1) bi by (auto simp: map_ok_def)
  then have "map_ok p m'" unfolding m' by (intro map_ok_insert[OF ok(1)]) simp
  moreover have "known m' = known m" using get bi by (auto simp: known_def)
  ultimately show "analysis_inv p view init m' (Suc k)"
    using inv k get bi by (auto simp: analysis_inv_def)
  have "block_weight p m' = block_weight p m"
    using get bi by (auto simp: block_weight_def)
  then show "weight p bs m' = weight p bs m" by (simp add: weight_def)
qed

text \<open>
  After a block has been executed and its state pushed to its successors, the analysis goes on with
  the next block, or with the head of the loop if the state there has changed.
\<close>

lemma analyze_turn_push:
  assumes view: "verified_view view" and inv: "analysis_inv p view init m k"
    and k: "k < length (traversal_order (fv_cfg view))" and b: "b = traversal_order (fv_cfg view) ! k"
    and bi: "bt_get m b = Some bi" and exec: "execute_block execute b (inv_pre bi) view = Ok s"
    and ss: "successors (fv_cfg view) b = Ok ss"
    and m1: "m1 = bt_insert b (bi\<lparr>inv_post := Success\<rparr>) m"
    and pushed: "pushed p (fv_cfg view) b s m1 (next_at (traversal_order (fv_cfg view)) (Suc k)) (set ss) m' cand'"
  shows "\<exists>k'. cand' = next_at (traversal_order (fv_cfg view)) k' \<and> analysis_inv p view init m' k' \<and>
    (weight p (traversal_order (fv_cfg view)) m' < weight p (traversal_order (fv_cfg view)) m \<or>
     weight p (traversal_order (fv_cfg view)) m' \<le> weight p (traversal_order (fv_cfg view)) m \<and> k < k')"
proof -
  let ?order = "traversal_order (fv_cfg view)"
  have graph: "\<exists>code. graph_of code (fv_cfg view)" using view by (auto simp: verified_view_def)
  note dist = cfg.distinct_order[OF graph]
  have ok: "map_ok p m" "bt_wf m" using inv by (auto simp: analysis_inv_def map_ok_def)
  have get1: "bt_get m1 c = (if c = b then Some (bi\<lparr>inv_post := Success\<rparr>) else bt_get m c)" for c
    unfolding m1 using ok(2) by (simp add: btm.get_insert)
  have weight1: "block_weight p m1 = block_weight p m" using get1 bi by (auto simp: block_weight_def)
  have "grows leq m m1"
    unfolding m1 using bi leq_refl by (intro grows_insert[OF grows_refl ok(2)]) simp
  moreover have "grows leq m1 m'" using pushed by (simp add: pushed_def)
  ultimately have grows: "grows leq m m'"
    unfolding grows_def by (meson leq_trans)
  have root: "rooted view (known m')"
    using rooted_extend[OF view _ _ ss] inv bi known_pushed[OF pushed] known_insert[OF ok(2)]
    by (auto simp: analysis_inv_def known_def m1 insert_absorb)
  obtain bi0 where bi0: "bt_get m entry_block_id = Some bi0" "leq init (inv_pre bi0)"
    using inv by (auto simp: analysis_inv_def)
  then obtain bi1 where entry: "bt_get m' entry_block_id = Some bi1" "leq init (inv_pre bi1)"
    using grows leq_trans unfolding grows_def by blast
  have ok': "map_ok p m'" using pushed by (simp add: pushed_def)
  have earlier: "?order ! i \<in> set ss \<Longrightarrow> cfg_is_back_edge (fv_cfg view) b (?order ! i)"
    if "i \<le> k" for i
  proof (rule ccontr)
    assume "?order ! i \<in> set ss" "\<not> cfg_is_back_edge (fv_cfg view) b (?order ! i)"
    then obtain j where "k < j" "j < length ?order" "?order ! j = ?order ! i"
      using cfg.forward_later[OF graph k _ _, of ss "?order ! i"] ss b by blast
    then show False using that k nth_eq_iff_index_eq[OF dist, of j i] by simp
  qed
  have settled: "settled leq execute view m' (?order ! i)"
    if "i < k" "bt_get m' (?order ! i) = bt_get m1 (?order ! i)" for i
  proof -
    have "?order ! i \<noteq> b" using that(1) k b nth_eq_iff_index_eq[OF dist, of i k] by auto
    then show ?thesis
      using that inv settled_grows[OF _ grows] get1 by (simp add: analysis_inv_def)
  qed
  have out: "bt_get m' c = bt_get m1 c" if "c \<notin> set ss" for c
    using pushed that by (simp add: pushed_def)
  have weight: "weight p ?order m' \<le> weight p ?order m"
    by (rule weight_mono) (use pushed weight1 in \<open>simp add: pushed_def\<close>)
  consider (on) "cand' = next_at ?order (Suc k)"
      "\<forall>t \<in> set ss. cfg_is_back_edge (fv_cfg view) b t \<longrightarrow> bt_get m' t = bt_get m1 t"
    | (again) h where "h \<in> set ss" "cfg_is_back_edge (fv_cfg view) b h" "cand' = Some h"
      "block_weight p m' h < block_weight p m h"
    using pushed weight1 unfolding pushed_def by auto
  then show ?thesis
  proof cases
    case on
    have same: "bt_get m' (?order ! i) = bt_get m1 (?order ! i)" if "i \<le> k" for i
      using earlier[OF that] on(2) out by blast
    have "settled leq execute view m' (?order ! i)" if "i < Suc k" for i
    proof (cases "i = k")
      case True
      then show ?thesis
        using same[of k] get1 b exec ss pushed by (auto simp: settled_def stable_def pushed_def)
    next
      case False
      then show ?thesis using settled[of i] same[of i] that by simp
    qed
    then have "analysis_inv p view init m' (Suc k)"
      using ok' entry root k by (simp add: analysis_inv_def)
    then show ?thesis using on(1) weight by blast
  next
    case (again h)
    obtain j where j: "j \<le> k" "?order ! j = h"
      using cfg.back_earlier[OF graph k _ again(1)] ss b again(2) by blast
    have "settled leq execute view m' (?order ! i)" if "i < j" for i
    proof (rule settled)
      have "?order ! i \<noteq> h" using that j k nth_eq_iff_index_eq[OF dist, of i j] by auto
      then have "?order ! i \<notin> set ss"
        using earlier[of i] cfg.back_unique[OF graph ss _ again(1) _ again(2)] that j(1) by auto
      then show "bt_get m' (?order ! i) = bt_get m1 (?order ! i)" by (rule out)
    qed (use that j in simp)
    then have "analysis_inv p view init m' j"
      using ok' entry root k j(1) by (simp add: analysis_inv_def)
    moreover have "weight p ?order m' < weight p ?order m"
      by (rule weight_strict[OF _ _ again(4)])
         (use pushed weight1 j k in \<open>auto simp: pushed_def\<close>)
    moreover have "cand' = next_at ?order j" using again(3) j k by (simp add: next_at_def)
    ultimately show ?thesis by blast
  qed
qed

lemma analyze_turn_spec:
  assumes code: "code_ok p view" and inv: "analysis_inv p view init m k"
    and k: "k < length (traversal_order (fv_cfg view))"
  shows "\<exists>m' k'. analyze_turn execute join view m (traversal_order (fv_cfg view) ! k) =
      Ok (m', next_at (traversal_order (fv_cfg view)) k') \<and> analysis_inv p view init m' k' \<and>
    (weight p (traversal_order (fv_cfg view)) m' < weight p (traversal_order (fv_cfg view)) m \<or>
     weight p (traversal_order (fv_cfg view)) m' \<le> weight p (traversal_order (fv_cfg view)) m \<and> k < k')"
proof -
  let ?order = "traversal_order (fv_cfg view)"
  define b where b: "b = ?order ! k"
  have view: "verified_view view" using code by (simp add: code_ok_def)
  then have graph: "\<exists>code. graph_of code (fv_cfg view)" by (auto simp: verified_view_def)
  have following: "next_block (fv_cfg view) b = next_at ?order (Suc k)"
    using cfg.next_in_order[OF graph k] by (simp add: b next_at_def)
  have ok: "map_ok p m" using inv by (simp add: analysis_inv_def)
  show ?thesis
  proof (cases "bt_get m b")
    case None
    then have "settled leq execute view m b" by (simp add: settled_def)
    then have "analysis_inv p view init m (Suc k)"
      using inv k by (auto simp: analysis_inv_def less_Suc_eq b)
    then show ?thesis using None following by (auto simp: analyze_turn_def b intro!: exI[of _ "Suc k"])
  next
    case (Some bi)
    have dom: "domain_ok p (inv_pre bi)" using ok Some by (auto simp: map_ok_def)
    note exec = execute_block_domain[OF code, of b "inv_pre bi"]
    have in_order: "b \<in> set ?order" using k by (simp add: b)
    show ?thesis
    proof (cases "execute_block execute b (inv_pre bi) view")
      case (Err e)
      then show ?thesis
        using analyze_turn_error[OF inv k b Some cfg.distinct_order[OF graph] refl] Some following
        by (auto simp: analyze_turn_def b[symmetric] intro!: exI[of _ "Suc k"])
    next
      case (Ok s)
      obtain ss where ss: "successors (fv_cfg view) b = Ok ss"
        using cfg.succs_known[OF graph k] b by blast
      define m1 where m1: "m1 = bt_insert b (bi\<lparr>inv_post := Success\<rparr>) m"
      have ok1: "map_ok p m1" unfolding m1 using map_ok_insert[OF ok] dom by simp
      have "bt_get m1 t \<noteq> None" if "t \<in> set ss" "cfg_is_back_edge (fv_cfg view) b t" for t
      proof -
        have "t \<in> known m"
        proof (rule rooted_back[OF view _ _ ss that])
          show "rooted view (known m)" using inv by (simp add: analysis_inv_def)
          show "b \<in> known m" using Some by (simp add: known_def)
        qed
        then show ?thesis using ok by (simp add: m1 known_def map_ok_def btm.get_insert)
      qed
      then obtain m' cand' where "for_each (propagate join (fv_cfg view) b s) ss
          (m1, next_at ?order (Suc k)) = Ok (m', cand')"
        and pushed: "pushed p (fv_cfg view) b s m1 (next_at ?order (Suc k)) (set ss) m' cand'"
        using propagate_all[OF ok1 exec(2)[OF in_order dom Ok]] by blast
      then have "analyze_turn execute join view m b = Ok (m', cand')"
        using Some Ok ss following m1 by (simp add: analyze_turn_def)
      then show ?thesis using analyze_turn_push[OF view inv k b Some Ok ss m1 pushed] b by auto
    next
      case Panic
      then show ?thesis using exec(1)[OF in_order dom] by simp
    qed
  qed
qed

lemma analyze_loop_spec:
  assumes code: "code_ok p view" and "analysis_inv p view init m k"
  shows "\<exists>m'. analyze_loop execute join view m (next_at (traversal_order (fv_cfg view)) k) = Some (Ok m') \<and>
    analysis_inv p view init m' (length (traversal_order (fv_cfg view)))"
  using assms(2)
proof (induction "(weight p (traversal_order (fv_cfg view)) m, length (traversal_order (fv_cfg view)) - k)"
    arbitrary: m k rule: wf_induct_rule[OF wf_lex_prod[OF wf_less wf_less]])
  case (1 m k)
  let ?order = "traversal_order (fv_cfg view)"
  show ?case
  proof (cases "k < length ?order")
    case True
    obtain m' k' where turn: "analyze_turn execute join view m (?order ! k) = Ok (m', next_at ?order k')"
      and inv: "analysis_inv p view init m' k'"
      and less: "weight p ?order m' < weight p ?order m \<or> weight p ?order m' \<le> weight p ?order m \<and> k < k'"
      using analyze_turn_spec[OF code 1(2) True] by blast
    have "\<exists>m''. analyze_loop execute join view m' (next_at ?order k') = Some (Ok m'') \<and>
        analysis_inv p view init m'' (length ?order)"
      by (rule 1(1)[OF _ inv]) (use less True in auto)
    then show ?thesis
      using turn True by (subst analyze_loop.simps) (simp add: next_at_def)
  next
    case False
    then show ?thesis
      using 1(2) by (subst analyze_loop.simps) (auto simp: next_at_def analysis_inv_def)
  qed
qed

end

text \<open>The result of an analysis: a map that covers the initial state, stable outside of errors.\<close>

definition certified ::
  "('s \<Rightarrow> 's \<Rightarrow> bool) \<Rightarrow> 's transfer \<Rightarrow> function_view \<Rightarrow> 's \<Rightarrow> 's invariant_map \<Rightarrow> bool" where
  "certified leq execute view init m =
     ((\<exists>bi. bt_get m entry_block_id = Some bi \<and> leq init (inv_pre bi)) \<and>
      (\<forall>b bi. bt_get m b = Some bi \<longrightarrow>
         (\<exists>e. inv_post bi = Error e) \<or> stable leq execute view m b (inv_pre bi)))"

definition no_errors :: "'s invariant_map \<Rightarrow> bool" where
  "no_errors m = (\<forall>b bi e. bt_get m b = Some bi \<longrightarrow> inv_post bi \<noteq> Error e)"

context transfer_functions
begin

lemma analyze_function_spec:
  assumes code: "code_ok p view" and init: "domain_ok p init"
  shows "\<exists>m. analyze_function execute join init view = Some (Ok m) \<and>
    certified leq execute view init m \<and> map_ok p m \<and>
    known m \<subseteq> set (traversal_order (fv_cfg view))"
proof -
  let ?order = "traversal_order (fv_cfg view)"
  let ?m = "bt_insert entry_block_id \<lparr>inv_pre = init, inv_post = Unprocessed\<rparr> []"
  have graph: "\<exists>code. graph_of code (fv_cfg view)"
    using code by (auto simp: code_ok_def verified_view_def)
  have "map_ok p []" by (simp add: map_ok_def btm.wf_empty btm.get_empty)
  then have ok: "map_ok p ?m" using map_ok_insert init by fastforce
  have "known ?m = {entry_block_id}"
    using known_insert[OF btm.wf_empty] by (simp add: known_def btm.get_empty)
  then have "analysis_inv p view init ?m 0"
    using ok cfg.entry_in_order[OF graph] leq_refl
    by (auto simp: analysis_inv_def rooted_def bt_get_def)
  then obtain m where m: "analyze_loop execute join view ?m (next_at ?order 0) = Some (Ok m)"
    and inv: "analysis_inv p view init m (length ?order)"
    using analyze_loop_spec[OF code] by blast
  have "next_at ?order 0 = Some entry_block_id"
    using cfg.entry_first[OF graph] by (simp add: next_at_def)
  then have "analyze_function execute join init view = Some (Ok m)"
    using m by (simp add: analyze_function_def)
  moreover have "certified leq execute view init m"
    unfolding certified_def
  proof (intro conjI allI impI)
    show "\<exists>bi. bt_get m entry_block_id = Some bi \<and> leq init (inv_pre bi)"
      using inv by (simp add: analysis_inv_def)
    fix b bi
    assume b: "bt_get m b = Some bi"
    then have "b \<in> set ?order" using inv by (auto simp: analysis_inv_def rooted_def known_def)
    then have "settled leq execute view m b"
      using inv by (auto simp: analysis_inv_def in_set_conv_nth)
    then show "(\<exists>e. inv_post bi = Error e) \<or> stable leq execute view m b (inv_pre bi)"
      using b by (simp add: settled_def)
  qed
  ultimately show ?thesis using inv by (simp add: analysis_inv_def rooted_def)
qed

end

section \<open>Executions\<close>

text \<open>
  The executions that a body admits, whatever the outcome of its conditional branches: \<open>step instr\<close>
  relates the concrete states before and after an instruction.
\<close>

inductive runs :: "bytecode list \<Rightarrow> (bytecode \<Rightarrow> 'c \<Rightarrow> 'c \<Rightarrow> bool) \<Rightarrow> 'c \<Rightarrow> nat \<Rightarrow> 'c \<Rightarrow> bool"
  for code step c0 where
  start: "runs code step c0 0 c0"
| move: "runs code step c0 i c \<Longrightarrow> i < length code \<Longrightarrow> step (code ! i) c c' \<Longrightarrow>
    flows_to code i j \<Longrightarrow> j < length code \<Longrightarrow> runs code step c0 j c'"

locale sound_analysis = transfer_functions +
  fixes rel :: "'c \<Rightarrow> 'b \<Rightarrow> bool"
    and step :: "'a \<Rightarrow> bytecode \<Rightarrow> 'c \<Rightarrow> 'c \<Rightarrow> bool"
    and safe :: "'a \<Rightarrow> bytecode \<Rightarrow> 'c \<Rightarrow> bool"
  assumes rel_mono: "rel c s \<Longrightarrow> leq s t \<Longrightarrow> rel c t"
    and execute_safe: "domain_ok p s \<Longrightarrow> instr_ok p instr \<Longrightarrow> rel c s \<Longrightarrow>
      execute s instr i l = Ok t \<Longrightarrow> safe p instr c"
    and execute_step: "domain_ok p s \<Longrightarrow> instr_ok p instr \<Longrightarrow> rel c s \<Longrightarrow>
      execute s instr i l = Ok t \<Longrightarrow> step p instr c c' \<Longrightarrow> rel c' t"
begin

text \<open>A concrete state at an offset is covered by the abstract state computed up to there.\<close>

definition covered :: "'a \<Rightarrow> function_view \<Rightarrow> 'b invariant_map \<Rightarrow> nat \<Rightarrow> 'c \<Rightarrow> bool" where
  "covered p view m i c =
     (\<exists>b bb bi s. bt_get (cfg_blocks (fv_cfg view)) b = Some bb \<and> bt_get m b = Some bi \<and>
        b \<le> i \<and> i \<le> bb_exit bb \<and> bb_exit bb < length (cu_code (fv_code view)) \<and>
        for_each (execute_instr execute (cu_code (fv_code view)) (bb_exit bb)) [b..<i] (inv_pre bi) = Ok s \<and>
        domain_ok p s \<and> rel c s)"

lemma covered_instr:
  assumes code: "code_ok p view" and map: "map_ok p m" "known m \<subseteq> set (traversal_order (fv_cfg view))"
    and cert: "certified leq execute view init m"
    and good: "no_errors m"
    and covered: "covered p view m i c"
  shows "safe p (cu_code (fv_code view) ! i) c"
    and "step p (cu_code (fv_code view) ! i) c c' \<Longrightarrow> flows_to (cu_code (fv_code view)) i j \<Longrightarrow>
      j < length (cu_code (fv_code view)) \<Longrightarrow> covered p view m j c'"
proof -
  let ?code = "cu_code (fv_code view)"
  obtain b bb bi s where bb: "bt_get (cfg_blocks (fv_cfg view)) b = Some bb" and bi: "bt_get m b = Some bi"
    and i: "b \<le> i" "i \<le> bb_exit bb" "bb_exit bb < length ?code"
    and upto: "for_each (execute_instr execute ?code (bb_exit bb)) [b..<i] (inv_pre bi) = Ok s"
    and s: "domain_ok p s" "rel c s"
    using covered unfolding covered_def by blast
  have graph: "graph_of (fv_code view) (fv_cfg view)" and instr: "instr_ok p (?code ! i)"
    using code i by (auto simp: code_ok_def verified_view_def)
  obtain s' ss where block: "execute_block execute b (inv_pre bi) view = Ok s'"
    and ss: "successors (fv_cfg view) b = Ok ss"
    and above: "\<And>t. t \<in> set ss \<Longrightarrow> \<exists>bi'. bt_get m t = Some bi' \<and> leq s' (inv_pre bi')"
    using cert good bi unfolding certified_def stable_def no_errors_def by metis
  have split: "[b..<Suc (bb_exit bb)] = [b..<i] @ i # [Suc i..<Suc (bb_exit bb)]"
    using i upt_add_eq_append[of b i "Suc (bb_exit bb) - i"] by (simp add: upt_conv_Cons)
  obtain t where exec: "execute s (?code ! i) i (bb_exit bb) = Ok t"
    and rest: "for_each (execute_instr execute ?code (bb_exit bb)) [Suc i..<Suc (bb_exit bb)] t = Ok s'"
    using block upto i unfolding execute_block_eq[OF bb] split
    by (auto simp: for_each_append rbind_eq_Ok execute_instr_def)
  show "safe p (?code ! i) c" by (rule execute_safe[OF s(1) instr s(2) exec])
  assume step: "step p (?code ! i) c c'" and flow: "flows_to ?code i j" and j: "j < length ?code"
  have t: "domain_ok p t" "rel c' t"
    using execute_domain[OF s(1) instr exec] execute_step[OF s(1) instr s(2) exec step] by simp_all
  have blk: "block_of ?code b bb"
    using graph_of_cases[OF graph] bb unfolding blocks_ok_def by metis
  show "covered p view m j c'"
  proof (cases "i < bb_exit bb")
    case True
    then have "j = Suc i" using block_of_inner(2)[OF blk i(1)] flow by blast
    moreover have "for_each (execute_instr execute ?code (bb_exit bb)) [b..<Suc i] (inv_pre bi) = Ok t"
      using upto exec i by (simp add: for_each_append execute_instr_def)
    ultimately show ?thesis
      unfolding covered_def using bb bi i t True by (metis Suc_leI le_SucI)
  next
    case False
    then have "i = bb_exit bb" using i by simp
    then have "s' = t" using rest by simp
    have "j \<in> set ss"
      using block_of_successors[OF _ blk] flow j ss bb graph \<open>i = bb_exit bb\<close>
      by (auto simp: successors_get graph_of_def)
    then obtain bj where bj: "bt_get m j = Some bj" "leq t (inv_pre bj)"
      using above \<open>s' = t\<close> by blast
    then have "j \<in> set (traversal_order (fv_cfg view))" using map(2) by (auto simp: known_def)
    then obtain jj where jj: "bt_get (cfg_blocks (fv_cfg view)) j = Some jj" "block_of ?code j jj"
      using view_block[of view j] code by (auto simp: code_ok_def)
    moreover have "domain_ok p (inv_pre bj)" using map(1) bj by (auto simp: map_ok_def)
    moreover have "rel c' (inv_pre bj)" by (rule rel_mono[OF t(2) bj(2)])
    ultimately show ?thesis
      unfolding covered_def using bj(1) block_ofD(2,3)[OF jj(2)] by fastforce
  qed
qed

lemma analysis_sound:
  assumes code: "code_ok p view" and init: "domain_ok p init" "rel c0 init"
    and result: "analyze_function execute join init view = Some (Ok m)"
    and good: "no_errors m"
    and run: "runs (cu_code (fv_code view)) (step p) c0 i c"
  shows "safe p (cu_code (fv_code view) ! i) c"
proof -
  have cert: "certified leq execute view init m" "map_ok p m"
    "known m \<subseteq> set (traversal_order (fv_cfg view))"
    using analyze_function_spec[OF code init(1)] result by auto
  note covers = covered_instr[OF code cert(2,3,1) good]
  have "covered p view m i c"
    using run
  proof (induction)
    case start
    obtain bi where bi: "bt_get m entry_block_id = Some bi" "leq init (inv_pre bi)"
      using cert(1) by (auto simp: certified_def)
    then have "entry_block_id \<in> set (traversal_order (fv_cfg view))"
      using cert(3) by (auto simp: known_def)
    then obtain bb where bb: "bt_get (cfg_blocks (fv_cfg view)) 0 = Some bb"
      "block_of (cu_code (fv_code view)) 0 bb"
      using view_block[of view 0] code by (auto simp: code_ok_def entry_block_id_def ENTRY_BLOCK_ID_def)
    moreover have "domain_ok p (inv_pre bi)" using cert(2) bi by (auto simp: map_ok_def)
    moreover have "rel c0 (inv_pre bi)" by (rule rel_mono[OF init(2) bi(2)])
    ultimately show ?case
      unfolding covered_def using bi(1) block_ofD(3)[OF bb(2)]
      by (fastforce simp: entry_block_id_def ENTRY_BLOCK_ID_def)
  next
    case (move i c c' j)
    then show ?case using covers(2) by blast
  qed
  then show ?thesis by (rule covers(1))
qed

end

section \<open>Evaluation\<close>

lemmas absint_exec = analyze_function_def analyze_loop.simps analyze_turn_def propagate_def
  execute_block_def execute_instr_def block_end_def instr_indexes_def block_start_def bt_index_def
  bt_get_def successors_def next_block_def cfg_is_back_edge_def entry_block_id_def
  ENTRY_BLOCK_ID_def Let_def upt_rec assert_def unwrap_def vec_index_def

end
