(* ===== verification/Locals_Safety.thy ===== *)
theory Locals_Safety
  imports Absint
begin

text \<open>
  \<^verbatim>\<open>locals_safety/abstract_state.rs\<close> and \<^verbatim>\<open>locals_safety/mod.rs\<close>: the pass that tracks which locals hold a
  value. The interpretation \<open>locals\<close> of \<open>sound_analysis\<close> relates it to the occupancy of the locals at
  run time; the theorems are that the pass always returns on a view of verified code, and that code
  it accepts never uses an empty local and never destroys a value that has no drop ability.
\<close>

section \<open>The abstract state\<close>

datatype local_state = Unavailable | MaybeAvailable | Available

record abstract_state =
  as_current_function :: "nat option"
  as_all_local_abilities :: "ability_set list"
  as_local_states :: "local_state list"

definition new_abstract_state ::
  "binary_indexed_view \<Rightarrow> function_view \<Rightarrow> abstract_state vm_result" where
  "new_abstract_state resolver function_view =
     (let num_args = length (fv_parameters function_view);
          num_locals = num_args + length (fv_locals function_view);
          local_states = map (\<lambda>i. if i < num_args then Available else Unavailable) [0..<num_locals]
      in rbind (rmap (\<lambda>st. token_abilities resolver st (fv_type_parameters function_view))
                  (fv_parameters function_view @ fv_locals function_view)) (\<lambda>all_local_abilities.
           Ok \<lparr>as_current_function = fv_index function_view,
               as_all_local_abilities = all_local_abilities,
               as_local_states = local_states\<rparr>))"

definition local_abilities :: "abstract_state \<Rightarrow> local_index \<Rightarrow> ability_set vm_result" where
  "local_abilities state idx = vec_index (as_all_local_abilities state) (unat idx)"

definition local_state_at :: "abstract_state \<Rightarrow> local_index \<Rightarrow> local_state vm_result" where
  "local_state_at state idx = vec_index (as_local_states state) (unat idx)"

definition set_local_state ::
  "abstract_state \<Rightarrow> local_index \<Rightarrow> local_state \<Rightarrow> abstract_state vm_result" where
  "set_local_state state idx ls =
     rbind (local_state_at state idx) (\<lambda>_.
       Ok (state\<lparr>as_local_states := (as_local_states state)[unat idx := ls]\<rparr>))"

definition set_available :: "abstract_state \<Rightarrow> local_index \<Rightarrow> abstract_state vm_result" where
  "set_available state idx = set_local_state state idx Available"

definition set_unavailable :: "abstract_state \<Rightarrow> local_index \<Rightarrow> abstract_state vm_result" where
  "set_unavailable state idx =
     rbind (local_state_at state idx) (\<lambda>ls.
     rbind (assert (ls = Available)) (\<lambda>_. set_local_state state idx Unavailable))"

definition state_error :: "abstract_state \<Rightarrow> status_code \<Rightarrow> nat \<Rightarrow> partial_vm_error" where
  "state_error state status pc =
     at_code_offset (new_error status)
       (case as_current_function state of Some f \<Rightarrow> f | None \<Rightarrow> 0) pc"

fun join_local :: "local_state \<Rightarrow> local_state \<Rightarrow> local_state" where
  "join_local Unavailable Unavailable = Unavailable"
| "join_local MaybeAvailable Unavailable = MaybeAvailable"
| "join_local Unavailable MaybeAvailable = MaybeAvailable"
| "join_local MaybeAvailable MaybeAvailable = MaybeAvailable"
| "join_local MaybeAvailable Available = MaybeAvailable"
| "join_local Available MaybeAvailable = MaybeAvailable"
| "join_local Unavailable Available = MaybeAvailable"
| "join_local Available Unavailable = MaybeAvailable"
| "join_local Available Available = Available"

definition join_states :: "abstract_state \<Rightarrow> abstract_state \<Rightarrow> abstract_state vm_result" where
  "join_states self other =
     rbind (assert (as_current_function self = as_current_function other)) (\<lambda>_.
     rbind (assert (length (as_all_local_abilities self) = length (as_all_local_abilities other))) (\<lambda>_.
     rbind (assert (length (as_local_states self) = length (as_local_states other))) (\<lambda>_.
       Ok \<lparr>as_current_function = as_current_function self,
           as_all_local_abilities = as_all_local_abilities self,
           as_local_states = map2 join_local (as_local_states self) (as_local_states other)\<rparr>)))"

definition locals_join :: "abstract_state domain_join" where
  "locals_join self state =
     rbind (join_states self state) (\<lambda>joined.
     rbind (assert (length (as_local_states self) = length (as_local_states joined))) (\<lambda>_.
       if list_all (\<lambda>(s, t). s = t) (zip (as_local_states self) (as_local_states joined))
       then Ok (self, Unchanged)
       else Ok (joined, Changed)))"

section \<open>The transfer function\<close>

definition holds_non_drop :: "local_state \<Rightarrow> ability_set vm_result \<Rightarrow> bool vm_result" where
  "holds_non_drop ls abilities =
     (case ls of
        Unavailable \<Rightarrow> Ok False
      | _ \<Rightarrow> rbind abilities (\<lambda>a. Ok (\<not> has_drop a)))"

definition execute_inner :: "abstract_state \<Rightarrow> bytecode \<Rightarrow> nat \<Rightarrow> abstract_state vm_result" where
  "execute_inner state instr pc =
     (case instr of
        StLoc idx \<Rightarrow>
          rbind (local_state_at state idx) (\<lambda>ls.
          rbind (holds_non_drop ls (local_abilities state idx)) (\<lambda>destroys.
            if destroys then Err (state_error state STLOC_UNSAFE_TO_DESTROY_ERROR pc)
            else set_available state idx))
      | MoveLoc idx \<Rightarrow>
          rbind (local_state_at state idx) (\<lambda>ls.
            if ls = Available then set_unavailable state idx
            else Err (state_error state MOVELOC_UNAVAILABLE_ERROR pc))
      | CopyLoc idx \<Rightarrow>
          rbind (local_state_at state idx) (\<lambda>ls.
            if ls = Available then Ok state
            else Err (state_error state COPYLOC_UNAVAILABLE_ERROR pc))
      | MutBorrowLoc idx \<Rightarrow>
          rbind (local_state_at state idx) (\<lambda>ls.
            if ls = Available then Ok state
            else Err (state_error state BORROWLOC_UNAVAILABLE_ERROR pc))
      | ImmBorrowLoc idx \<Rightarrow>
          rbind (local_state_at state idx) (\<lambda>ls.
            if ls = Available then Ok state
            else Err (state_error state BORROWLOC_UNAVAILABLE_ERROR pc))
      | Ret \<Rightarrow>
          rbind (assert (length (as_local_states state) = length (as_all_local_abilities state))) (\<lambda>_.
          rbind (for_all (\<lambda>(ls, abilities). rbind (holds_non_drop ls (Ok abilities)) (\<lambda>destroys.
              ensure (\<not> destroys) (state_error state UNSAFE_RET_UNUSED_VALUES_WITHOUT_DROP pc)))
            (zip (as_local_states state) (as_all_local_abilities state))) (\<lambda>_. Ok state))
      | _ \<Rightarrow> Ok state)"

definition locals_execute :: "abstract_state transfer" where
  "locals_execute state instr index last_index = execute_inner state instr index"

definition report_errors :: "'s invariant_map \<Rightarrow> unit vm_result" where
  "report_errors inv_map =
     for_all (\<lambda>(_, bi). case inv_post bi of Error err \<Rightarrow> Err err | _ \<Rightarrow> Ok ()) inv_map"

text \<open>The pass; \<open>None\<close> would be an analysis that does not end.\<close>

definition locals_safety_verify ::
  "binary_indexed_view \<Rightarrow> function_view \<Rightarrow> unit vm_result option" where
  "locals_safety_verify resolver function_view =
     (case new_abstract_state resolver function_view of
        Ok initial_state \<Rightarrow>
          map_option (\<lambda>r. rbind r report_errors)
            (analyze_function locals_execute locals_join initial_state function_view)
      | Err e \<Rightarrow> Some (Err e)
      | Panic \<Rightarrow> Some Panic)"

section \<open>The domain\<close>

type_synonym locals_params = "nat option \<times> ability_set list"

definition locals_domain :: "locals_params \<Rightarrow> abstract_state \<Rightarrow> bool" where
  "locals_domain p state =
     (as_current_function state = fst p \<and> as_all_local_abilities state = snd p \<and>
      length (as_local_states state) = length (snd p))"

definition local_le :: "local_state \<Rightarrow> local_state \<Rightarrow> bool" where
  "local_le x y = (x = y \<or> y = MaybeAvailable)"

definition locals_leq :: "abstract_state \<Rightarrow> abstract_state \<Rightarrow> bool" where
  "locals_leq s t = list_all2 local_le (as_local_states s) (as_local_states t)"

definition locals_rank :: "locals_params \<Rightarrow> abstract_state \<Rightarrow> nat" where
  "locals_rank p state = length (filter (\<lambda>l. l \<noteq> MaybeAvailable) (as_local_states state))"

lemma join_local_bound: "local_le x (join_local x y)" "local_le y (join_local x y)"
  by (cases x; cases y; simp add: local_le_def)+

lemma join_local_rank:
  assumes "length xs = length ys"
  shows "length (filter (\<lambda>l. l \<noteq> MaybeAvailable) (map2 join_local xs ys)) \<le>
      length (filter (\<lambda>l. l \<noteq> MaybeAvailable) xs)"
    and "map2 join_local xs ys \<noteq> xs \<Longrightarrow>
      length (filter (\<lambda>l. l \<noteq> MaybeAvailable) (map2 join_local xs ys)) <
      length (filter (\<lambda>l. l \<noteq> MaybeAvailable) xs)"
  using assms
proof (induction xs ys rule: list_induct2)
  case (Cons x xs y ys)
  case 1
  then show ?case using Cons by (cases x; cases y) auto
next
  case (Cons x xs y ys)
  case 2
  then show ?case using Cons by (cases x; cases y) (auto simp: less_Suc_eq_le)
qed simp_all

lemma list_all_zip_eq: "length xs = length ys \<Longrightarrow> list_all (\<lambda>(s, t). s = t) (zip xs ys) \<longleftrightarrow> xs = ys"
  by (induction xs ys rule: list_induct2) auto

lemma locals_join_eq:
  assumes "locals_domain p s" "locals_domain p t"
  shows "locals_join s t =
    (let joined = map2 join_local (as_local_states s) (as_local_states t)
     in if as_local_states s = joined then Ok (s, Unchanged)
        else Ok (s\<lparr>as_local_states := joined\<rparr>, Changed))"
  using assms
  by (auto simp: locals_join_def join_states_def locals_domain_def list_all_zip_eq Let_def assert_def)

section \<open>Occupancy at run time\<close>

text \<open>
  A frame's locals, each holding a value or not: \<^verbatim>\<open>StLoc\<close> fills its local, \<^verbatim>\<open>MoveLoc\<close> empties it, no
  other instruction changes the occupancy.
\<close>

definition local_step :: "bytecode \<Rightarrow> bool list \<Rightarrow> bool list \<Rightarrow> bool" where
  "local_step instr c c' =
     (case instr of
        StLoc idx \<Rightarrow> c' = c[unat idx := True]
      | MoveLoc idx \<Rightarrow> c' = c[unat idx := False]
      | _ \<Rightarrow> c' = c)"

text \<open>
  What an instruction needs: a local that is read, moved or borrowed holds a value; a value that is
  overwritten, or left behind by a return, may be dropped.
\<close>

definition local_safe :: "ability_set list \<Rightarrow> bytecode \<Rightarrow> bool list \<Rightarrow> bool" where
  "local_safe abilities instr c =
     (case instr of
        StLoc idx \<Rightarrow> c ! unat idx \<longrightarrow> has_drop (abilities ! unat idx)
      | MoveLoc idx \<Rightarrow> c ! unat idx
      | CopyLoc idx \<Rightarrow> c ! unat idx
      | MutBorrowLoc idx \<Rightarrow> c ! unat idx
      | ImmBorrowLoc idx \<Rightarrow> c ! unat idx
      | Ret \<Rightarrow> (\<forall>i < length c. c ! i \<longrightarrow> has_drop (abilities ! i))
      | _ \<Rightarrow> True)"

definition local_in_range :: "nat \<Rightarrow> bytecode \<Rightarrow> bool" where
  "local_in_range n instr =
     (case instr of
        StLoc idx \<Rightarrow> unat idx < n
      | MoveLoc idx \<Rightarrow> unat idx < n
      | CopyLoc idx \<Rightarrow> unat idx < n
      | MutBorrowLoc idx \<Rightarrow> unat idx < n
      | ImmBorrowLoc idx \<Rightarrow> unat idx < n
      | _ \<Rightarrow> True)"

definition occupied :: "bool list \<Rightarrow> abstract_state \<Rightarrow> bool" where
  "occupied c state =
     list_all2 (\<lambda>full l. l = MaybeAvailable \<or> full = (l = Available)) c (as_local_states state)"

lemma holds_non_drop_Ok [simp]:
  "holds_non_drop ls (Ok a) = Ok (ls \<noteq> Unavailable \<and> \<not> has_drop a)"
  by (cases ls) (simp_all add: holds_non_drop_def)

text \<open>The local that an instruction names, and the outcome of the transfer function in range.\<close>

lemma locals_execute_eq:
  assumes "locals_domain p s" "local_in_range (length (snd p)) instr"
  shows "locals_execute s instr i l =
    (case instr of
       StLoc idx \<Rightarrow>
         if as_local_states s ! unat idx \<noteq> Unavailable \<and> \<not> has_drop (snd p ! unat idx)
         then Err (state_error s STLOC_UNSAFE_TO_DESTROY_ERROR i)
         else Ok (s\<lparr>as_local_states := (as_local_states s)[unat idx := Available]\<rparr>)
     | MoveLoc idx \<Rightarrow>
         if as_local_states s ! unat idx = Available
         then Ok (s\<lparr>as_local_states := (as_local_states s)[unat idx := Unavailable]\<rparr>)
         else Err (state_error s MOVELOC_UNAVAILABLE_ERROR i)
     | CopyLoc idx \<Rightarrow>
         if as_local_states s ! unat idx = Available then Ok s
         else Err (state_error s COPYLOC_UNAVAILABLE_ERROR i)
     | MutBorrowLoc idx \<Rightarrow>
         if as_local_states s ! unat idx = Available then Ok s
         else Err (state_error s BORROWLOC_UNAVAILABLE_ERROR i)
     | ImmBorrowLoc idx \<Rightarrow>
         if as_local_states s ! unat idx = Available then Ok s
         else Err (state_error s BORROWLOC_UNAVAILABLE_ERROR i)
     | Ret \<Rightarrow>
         rbind (for_all (\<lambda>(ls, abilities). ensure (\<not> (ls \<noteq> Unavailable \<and> \<not> has_drop abilities))
             (state_error s UNSAFE_RET_UNUSED_VALUES_WITHOUT_DROP i))
           (zip (as_local_states s) (snd p))) (\<lambda>_. Ok s)
     | _ \<Rightarrow> Ok s)"
  using assms
  by (cases instr)
     (simp_all add: locals_execute_def execute_inner_def locals_domain_def local_in_range_def
       local_state_at_def local_abilities_def set_available_def set_unavailable_def set_local_state_def
       assert_def)

lemma for_all_droppable:
  "for_all (\<lambda>(ls, abilities). ensure (ls = Unavailable \<or> has_drop abilities) e) (zip xs ys) = Ok u \<longleftrightarrow>
    (\<forall>i < min (length xs) (length ys). xs ! i = Unavailable \<or> has_drop (ys ! i))"
  by (fastforce simp: for_all_eq_Ok ensure_eq_Ok set_zip)

lemma locals_execute_not_Panic:
  assumes "locals_domain p s" "local_in_range (length (snd p)) instr"
  shows "locals_execute s instr i l \<noteq> Panic"
proof -
  have "for_all (\<lambda>(ls, abilities). ensure (\<not> (ls \<noteq> Unavailable \<and> \<not> has_drop abilities)) e) xs \<noteq> Panic"
    for e :: partial_vm_error and xs :: "(local_state \<times> ability_set) list"
    by (rule for_all_not_Panic) (auto simp: ensure_def split: if_splits)
  then show ?thesis
    unfolding locals_execute_eq[OF assms] by (cases instr) (auto simp: rbind_eq_Panic)
qed

lemma occupied_nth:
  assumes "occupied c s" "i < length (as_local_states s)"
  shows "i < length c" "c ! i \<Longrightarrow> as_local_states s ! i \<noteq> Unavailable"
    "as_local_states s ! i = Available \<Longrightarrow> c ! i"
  using assms list_all2_nthD2[OF assms[unfolded occupied_def]]
  by (auto simp: occupied_def dest: list_all2_lengthD)

lemma occupied_mono:
  assumes "occupied c s" "locals_leq s t"
  shows "occupied c t"
  unfolding occupied_def
  by (rule list_all2_trans[OF _ assms(1)[unfolded occupied_def] assms(2)[unfolded locals_leq_def]])
     (auto simp: local_le_def)

interpretation locals: sound_analysis locals_domain locals_leq locals_join locals_rank
  "\<lambda>p. length (snd p)" "\<lambda>p. local_in_range (length (snd p))" locals_execute occupied
  "\<lambda>p. local_step" "\<lambda>p. local_safe (snd p)"
proof unfold_locales
  show "locals_leq s s" for s
    by (simp add: locals_leq_def local_le_def list_all2_same)
  show "locals_leq s t \<Longrightarrow> locals_leq t u \<Longrightarrow> locals_leq s u" for s t u
    unfolding locals_leq_def by (rule list_all2_trans) (auto simp: local_le_def)
  show "\<exists>u r. locals_join s t = Ok (u, r) \<and> locals_domain p u \<and> locals_leq s u \<and> locals_leq t u \<and>
      (case r of Unchanged \<Rightarrow> u = s | Changed \<Rightarrow> locals_rank p u < locals_rank p s)"
    if "locals_domain p s" "locals_domain p t" for p s t
  proof -
    have len: "length (as_local_states s) = length (as_local_states t)"
      using that by (simp add: locals_domain_def)
    let ?joined = "map2 join_local (as_local_states s) (as_local_states t)"
    have above: "list_all2 local_le (as_local_states s) ?joined"
      "list_all2 local_le (as_local_states t) ?joined"
      using len by (auto simp: list_all2_conv_all_nth join_local_bound)
    show ?thesis
    proof (cases "as_local_states s = ?joined")
      case True
      then show ?thesis
        using above that locals_join_eq[OF that] by (simp add: locals_leq_def Let_def)
    next
      case False
      then show ?thesis
        using above that locals_join_eq[OF that] join_local_rank(2)[OF len False[symmetric]]
        by (auto simp: locals_leq_def Let_def locals_rank_def locals_domain_def)
    qed
  qed
  show "locals_rank p s \<le> length (snd p)" if "locals_domain p s" for p s
    using that by (auto simp: locals_rank_def locals_domain_def intro: order.trans[OF length_filter_le])
  show "locals_execute s instr i l \<noteq> Panic"
    if "locals_domain p s" "local_in_range (length (snd p)) instr" for p s instr i l
    by (rule locals_execute_not_Panic[OF that])
  show "locals_domain p t" if "locals_domain p s" "local_in_range (length (snd p)) instr"
    "locals_execute s instr i l = Ok t" for p s instr i l t
    using that unfolding locals_execute_eq[OF that(1,2)]
    by (cases instr) (auto simp: locals_domain_def rbind_eq_Ok split: if_splits)
  show "occupied c t" if "occupied c s" "locals_leq s t" for c s t
    by (rule occupied_mono[OF that])
  fix p s instr c i l t c'
  assume dom: "locals_domain p s" and range: "local_in_range (length (snd p)) instr"
    and occ: "occupied c s" and exec: "locals_execute s instr i l = Ok t"
  have len: "length (as_local_states s) = length (snd p)" "length c = length (as_local_states s)"
    using dom occ by (auto simp: locals_domain_def occupied_def dest: list_all2_lengthD)
  show "local_safe (snd p) instr c"
    using exec range occupied_nth[OF occ] len unfolding locals_execute_eq[OF dom range]
    by (cases instr) (auto simp: local_safe_def local_in_range_def rbind_eq_Ok for_all_droppable
        split: if_splits)
  assume "local_step instr c c'"
  then show "occupied c' t"
    using exec range occ len unfolding locals_execute_eq[OF dom range]
    by (cases instr) (auto simp: local_step_def occupied_def rbind_eq_Ok split: if_splits
        intro: list_all2_update_cong)
qed

section \<open>Properties of the pass\<close>

definition initial_occupancy :: "function_view \<Rightarrow> bool list" where
  "initial_occupancy view =
     replicate (length (fv_parameters view)) True @ replicate (length (fv_locals view)) False"

definition locals_in_range :: "function_view \<Rightarrow> bool" where
  "locals_in_range view =
     (\<forall>instr \<in> set (cu_code (fv_code view)).
        local_in_range (length (fv_parameters view @ fv_locals view)) instr)"

lemma new_abstract_state_Ok:
  assumes "rmap (\<lambda>st. token_abilities resolver st (fv_type_parameters view))
    (fv_parameters view @ fv_locals view) = Ok abilities"
  shows "\<exists>init. new_abstract_state resolver view = Ok init \<and> as_all_local_abilities init = abilities \<and>
    locals_domain (fv_index view, abilities) init \<and> occupied (initial_occupancy view) init \<and>
    length abilities = length (fv_parameters view @ fv_locals view)"
  using assms rmap_length[OF assms]
  by (auto simp: new_abstract_state_def Let_def locals_domain_def occupied_def initial_occupancy_def
      list_all2_conv_all_nth nth_append)

lemma locals_code_ok:
  assumes "verified_view view" "locals_in_range view"
    and "length abilities = length (fv_parameters view @ fv_locals view)"
  shows "locals.code_ok (f, abilities) view"
  using assms by (simp add: locals.code_ok_def locals_in_range_def)

lemma report_errors_Ok:
  assumes "bt_wf m"
  shows "report_errors m = Ok () \<longleftrightarrow> no_errors m"
proof -
  have "report_errors m = Ok () \<longleftrightarrow> (\<forall>b bi e. (b, bi) \<in> set m \<longrightarrow> inv_post bi \<noteq> Error e)"
    by (auto simp: report_errors_def for_all_eq_Ok split: block_postcondition.splits prod.splits)
  then show ?thesis by (simp add: no_errors_def btm.in_entries[OF assms])
qed

lemma report_errors_not_Panic: "report_errors m \<noteq> Panic"
  unfolding report_errors_def
  by (rule for_all_not_Panic) (auto split: block_postcondition.splits)

text \<open>
  C1: soundness of the locals safety pass. In a body that the pass accepts, along every path that
  control can take from the entry, with the parameters filled and the other locals empty, no
  instruction copies, moves or borrows an empty local, none overwrites a value without drop, and
  no return leaves behind a value without drop.
\<close>

theorem locals_safety_sound:
  assumes "verified_view view" "locals_in_range view"
    and "rmap (\<lambda>st. token_abilities resolver st (fv_type_parameters view))
      (fv_parameters view @ fv_locals view) = Ok abilities"
    and "locals_safety_verify resolver view = Some (Ok ())"
    and "runs (cu_code (fv_code view)) local_step (initial_occupancy view) i c"
  shows "local_safe abilities (cu_code (fv_code view) ! i) c"
proof -
  obtain init where init: "new_abstract_state resolver view = Ok init"
    "locals_domain (fv_index view, abilities) init" "occupied (initial_occupancy view) init"
    and len: "length abilities = length (fv_parameters view @ fv_locals view)"
    using new_abstract_state_Ok[OF assms(3)] by blast
  note code = locals_code_ok[OF assms(1,2) len, of "fv_index view"]
  obtain m where m: "analyze_function locals_execute locals_join init view = Some (Ok m)"
    and "locals.map_ok (fv_index view, abilities) m"
    using locals.analyze_function_spec[OF code init(2)] by blast
  then have "no_errors m"
    using assms(4) init(1) report_errors_Ok[of m] by (simp add: locals_safety_verify_def locals.map_ok_def)
  from locals.analysis_sound[OF code init(2,3) m this] assms(5) show ?thesis by simp
qed

text \<open>
  C2: the pass returns. On a view of code that the control flow verifier accepts, whose local
  indices and types are in bounds, the fixed point iteration ends and the pass gives a verdict,
  \<open>Ok\<close> or an error, without a panic.
\<close>

theorem locals_safety_returns:
  assumes "verified_view view" "locals_in_range view"
    and "\<And>st. st \<in> set (fv_parameters view @ fv_locals view) \<Longrightarrow>
      token_in_bounds resolver (length (fv_type_parameters view)) st"
  shows "\<exists>r. locals_safety_verify resolver view = Some r \<and> r \<noteq> Panic"
proof -
  have "\<forall>st \<in> set (fv_parameters view @ fv_locals view).
      \<exists>a. token_abilities resolver st (fv_type_parameters view) = Ok a"
    using token_abilities_Ok assms(3) by blast
  then obtain f where f: "\<And>st. st \<in> set (fv_parameters view @ fv_locals view) \<Longrightarrow>
      token_abilities resolver st (fv_type_parameters view) = Ok (f st)"
    by metis
  then have "rmap (\<lambda>st. token_abilities resolver st (fv_type_parameters view))
      (fv_parameters view @ fv_locals view) = Ok (map f (fv_parameters view @ fv_locals view))"
    by (rule rmap_all_Ok)
  then obtain init where init: "new_abstract_state resolver view = Ok init"
    and dom: "locals_domain (fv_index view, map f (fv_parameters view @ fv_locals view)) init"
    using new_abstract_state_Ok by blast
  have code: "locals.code_ok (fv_index view, map f (fv_parameters view @ fv_locals view)) view"
    by (rule locals_code_ok[OF assms(1,2)]) simp
  obtain m where "analyze_function locals_execute locals_join init view = Some (Ok m)"
    using locals.analyze_function_spec[OF code dom] by blast
  then show ?thesis using init report_errors_not_Panic by (simp add: locals_safety_verify_def)
qed

section \<open>Witnesses\<close>

lemmas locals_exec = locals_safety_verify_def new_abstract_state_def locals_execute_def
  execute_inner_def local_state_at_def local_abilities_def set_available_def set_unavailable_def
  set_local_state_def locals_join_def join_states_def report_errors_def ensure_def
  holds_non_drop_def ability_set_PRIMITIVES_def has_drop_def has_ability_def ability_bits_def

lemma branching_locals_accepted:
  "locals_safety_verify (ViewScript branching_script) branching_view = Some (Ok ())"
  by (simp add: branching_view_def branching_code_def branching_cfg_def absint_exec locals_exec)

lemma branching_in_range: "locals_in_range branching_view"
  by (simp add: locals_in_range_def branching_view_def branching_code_def local_in_range_def)

lemma branching_abilities:
  "rmap (\<lambda>st. token_abilities (ViewScript branching_script) st (fv_type_parameters branching_view))
     (fv_parameters branching_view @ fv_locals branching_view) = Ok [ability_set_PRIMITIVES]"
  by (simp add: branching_view_def)

theorem locals_safety_sound_witness:
  "verified_view branching_view \<and> locals_in_range branching_view \<and>
   locals_safety_verify (ViewScript branching_script) branching_view = Some (Ok ()) \<and>
   runs (cu_code (fv_code branching_view)) local_step (initial_occupancy branching_view) 1 [True] \<and>
   local_safe [ability_set_PRIMITIVES] (cu_code (fv_code branching_view) ! 1) [True]"
proof -
  have "runs (cu_code (fv_code branching_view)) local_step (initial_occupancy branching_view) 1 [True]"
    by (rule runs.move[OF runs.start])
       (simp_all add: branching_view_def branching_code_def initial_occupancy_def local_step_def
         flows_to_def offset_def is_unconditional_branch_def)
  then show ?thesis
    using locals_safety_sound[OF branching_verified branching_in_range branching_abilities
        branching_locals_accepted] branching_verified branching_in_range branching_locals_accepted
    by blast
qed

theorem locals_safety_returns_witness:
  "verified_view branching_view \<and> locals_in_range branching_view \<and>
   (\<exists>r. locals_safety_verify (ViewScript branching_script) branching_view = Some r \<and> r \<noteq> Panic)"
proof -
  have "token_in_bounds (ViewScript branching_script) (length (fv_type_parameters branching_view)) st"
    if "st \<in> set (fv_parameters branching_view @ fv_locals branching_view)" for st
    using that by (simp add: branching_view_def token_in_bounds_def)
  then show ?thesis
    using locals_safety_returns[OF branching_verified branching_in_range] branching_verified
      branching_in_range by blast
qed

end
