(* ===== verification/Stack_Usage.thy ===== *)
theory Stack_Usage
  imports Absint
begin

text \<open>
  \<^verbatim>\<open>stack_usage_verifier.rs\<close>: every basic block leaves the operand stack as high as it found it and never
  reaches below that height. Heights are \<^verbatim>\<open>u64\<close> values with wrapping addition, as in a release build.
  The theorems relate an accepted body to its executions on true heights. That every instruction finds its
  operands always holds; that blocks are balanced needs a bound on the number of values that one
  instruction pushes, which makes the counter exact: without it the counter wraps and the pass accepts
  an unbalanced block.
\<close>

section \<open>The pass\<close>

definition field_count :: "struct_definition \<Rightarrow> nat" where
  "field_count sd = (case sd_field_information sd of Native \<Rightarrow> 0 | Declared fs \<Rightarrow> length fs)"

definition call_effect ::
  "binary_indexed_view \<Rightarrow> function_handle_index \<Rightarrow> (u64 \<times> u64) vm_result" where
  "call_effect resolver idx =
     rbind (function_handle_at resolver idx) (\<lambda>fh.
     rbind (signature_at resolver (fh_parameters fh)) (\<lambda>parameters.
     rbind (signature_at resolver (fh_return fh)) (\<lambda>return_sig.
       Ok (of_nat (length parameters), of_nat (length return_sig)))))"

definition instruction_effect ::
  "binary_indexed_view \<Rightarrow> signature \<Rightarrow> bytecode \<Rightarrow> (u64 \<times> u64) vm_result" where
  "instruction_effect resolver return_sig instr =
     (case instr of
        Pop \<Rightarrow> Ok (1, 0) | BrTrue _ \<Rightarrow> Ok (1, 0) | BrFalse _ \<Rightarrow> Ok (1, 0) | StLoc _ \<Rightarrow> Ok (1, 0)
      | Abort \<Rightarrow> Ok (1, 0)
      | LdU8 _ \<Rightarrow> Ok (0, 1) | LdU64 _ \<Rightarrow> Ok (0, 1) | LdU128 _ \<Rightarrow> Ok (0, 1) | LdTrue \<Rightarrow> Ok (0, 1)
      | LdFalse \<Rightarrow> Ok (0, 1) | LdConst _ \<Rightarrow> Ok (0, 1) | CopyLoc _ \<Rightarrow> Ok (0, 1) | MoveLoc _ \<Rightarrow> Ok (0, 1)
      | MutBorrowLoc _ \<Rightarrow> Ok (0, 1) | ImmBorrowLoc _ \<Rightarrow> Ok (0, 1)
      | NotOp \<Rightarrow> Ok (1, 1) | FreezeRef \<Rightarrow> Ok (1, 1) | ReadRef \<Rightarrow> Ok (1, 1) | Exists _ \<Rightarrow> Ok (1, 1)
      | ExistsGeneric _ \<Rightarrow> Ok (1, 1) | MutBorrowGlobal _ \<Rightarrow> Ok (1, 1)
      | MutBorrowGlobalGeneric _ \<Rightarrow> Ok (1, 1) | ImmBorrowGlobal _ \<Rightarrow> Ok (1, 1)
      | ImmBorrowGlobalGeneric _ \<Rightarrow> Ok (1, 1) | MutBorrowField _ \<Rightarrow> Ok (1, 1)
      | MutBorrowFieldGeneric _ \<Rightarrow> Ok (1, 1) | ImmBorrowField _ \<Rightarrow> Ok (1, 1)
      | ImmBorrowFieldGeneric _ \<Rightarrow> Ok (1, 1) | MoveFrom _ \<Rightarrow> Ok (1, 1) | MoveFromGeneric _ \<Rightarrow> Ok (1, 1)
      | CastU8 \<Rightarrow> Ok (1, 1) | CastU64 \<Rightarrow> Ok (1, 1) | CastU128 \<Rightarrow> Ok (1, 1) | VecLen _ \<Rightarrow> Ok (1, 1)
      | VecPopBack _ \<Rightarrow> Ok (1, 1)
      | Add \<Rightarrow> Ok (2, 1) | Sub \<Rightarrow> Ok (2, 1) | Mul \<Rightarrow> Ok (2, 1) | Mod \<Rightarrow> Ok (2, 1) | Div \<Rightarrow> Ok (2, 1)
      | BitOr \<Rightarrow> Ok (2, 1) | BitAnd \<Rightarrow> Ok (2, 1) | Xor \<Rightarrow> Ok (2, 1) | Shl \<Rightarrow> Ok (2, 1) | Shr \<Rightarrow> Ok (2, 1)
      | OrOp \<Rightarrow> Ok (2, 1) | AndOp \<Rightarrow> Ok (2, 1) | Eq \<Rightarrow> Ok (2, 1) | Neq \<Rightarrow> Ok (2, 1) | Lt \<Rightarrow> Ok (2, 1)
      | Gt \<Rightarrow> Ok (2, 1) | Le \<Rightarrow> Ok (2, 1) | Ge \<Rightarrow> Ok (2, 1)
      | VecPack _ num \<Rightarrow> Ok (num, 1) | VecUnpack _ num \<Rightarrow> Ok (1, num)
      | VecImmBorrow _ \<Rightarrow> Ok (2, 1) | VecMutBorrow _ \<Rightarrow> Ok (2, 1)
      | MoveTo _ \<Rightarrow> Ok (2, 0) | MoveToGeneric _ \<Rightarrow> Ok (2, 0) | WriteRef \<Rightarrow> Ok (2, 0)
      | VecPushBack _ \<Rightarrow> Ok (2, 0)
      | VecSwap _ \<Rightarrow> Ok (3, 0)
      | Branch _ \<Rightarrow> Ok (0, 0) | Nop \<Rightarrow> Ok (0, 0)
      | Ret \<Rightarrow> Ok (of_nat (length return_sig), 0)
      | Call idx \<Rightarrow> call_effect resolver idx
      | CallGeneric idx \<Rightarrow>
          rbind (function_instantiation_at resolver idx) (\<lambda>fi. call_effect resolver (fi_handle fi))
      | Pack idx \<Rightarrow>
          rbind (struct_def_at resolver idx) (\<lambda>sd. Ok (of_nat (field_count sd), 1))
      | PackGeneric idx \<Rightarrow>
          rbind (struct_instantiation_at resolver idx) (\<lambda>si.
          rbind (struct_def_at resolver (sdi_def si)) (\<lambda>sd. Ok (of_nat (field_count sd), 1)))
      | Unpack idx \<Rightarrow>
          rbind (struct_def_at resolver idx) (\<lambda>sd. Ok (1, of_nat (field_count sd)))
      | UnpackGeneric idx \<Rightarrow>
          rbind (struct_instantiation_at resolver idx) (\<lambda>si.
          rbind (struct_def_at resolver (sdi_def si)) (\<lambda>sd. Ok (1, of_nat (field_count sd)))))"

definition stack_error :: "function_view \<Rightarrow> status_code \<Rightarrow> nat \<Rightarrow> partial_vm_error" where
  "stack_error view status pc =
     at_code_offset (new_error status) (case fv_index view of Some f \<Rightarrow> f | None \<Rightarrow> 0) pc"

definition stack_turn ::
  "binary_indexed_view \<Rightarrow> function_view \<Rightarrow> nat \<Rightarrow> nat \<Rightarrow> u64 \<Rightarrow> u64 vm_result" where
  "stack_turn resolver view start i stack_size_increment =
     rbind (vec_index (cu_code (fv_code view)) i) (\<lambda>instr.
     rbind (instruction_effect resolver (fv_return view) instr) (\<lambda>(num_pops, num_pushes).
       if stack_size_increment < num_pops
       then Err (stack_error view NEGATIVE_STACK_SIZE_WITHIN_BLOCK start)
       else Ok (stack_size_increment - num_pops + num_pushes)))"

definition verify_block ::
  "binary_indexed_view \<Rightarrow> function_view \<Rightarrow> nat \<Rightarrow> unit vm_result" where
  "verify_block resolver view block_id =
     rbind (block_end (fv_cfg view) block_id) (\<lambda>last_index.
     rbind (for_each (stack_turn resolver view (block_start block_id))
         [block_start block_id..<Suc last_index] 0) (\<lambda>stack_size_increment.
       if stack_size_increment = 0 then Ok ()
       else Err (stack_error view POSITIVE_STACK_SIZE_AT_BLOCK_END (block_start block_id))))"

definition stack_usage_verify :: "binary_indexed_view \<Rightarrow> function_view \<Rightarrow> unit vm_result" where
  "stack_usage_verify resolver view =
     for_all (verify_block resolver view) (blocks (fv_cfg view))"

section \<open>Heights at run time\<close>

text \<open>The height of the operand stack above that at the entry of the function.\<close>

definition stack_step ::
  "binary_indexed_view \<Rightarrow> signature \<Rightarrow> bytecode \<Rightarrow> nat \<Rightarrow> nat \<Rightarrow> bool" where
  "stack_step resolver return_sig instr h h' =
     (\<exists>p q. instruction_effect resolver return_sig instr = Ok (p, q) \<and> unat p \<le> h \<and>
        h' = h - unat p + unat q)"

text \<open>
  A bound under which the counter of a block of at most 65534 instructions is exact. No pass checks it:
  only the operand of \<^verbatim>\<open>VecUnpack\<close> can exceed it in practice, since the other instructions push one
  value, or as many as a signature or a struct of the tables has entries.
\<close>

definition pushes_bounded :: "binary_indexed_view \<Rightarrow> function_view \<Rightarrow> bool" where
  "pushes_bounded resolver view =
     (\<forall>instr \<in> set (cu_code (fv_code view)). \<forall>p q.
        instruction_effect resolver (fv_return view) instr = Ok (p, q) \<longrightarrow> unat q < 2 ^ 48)"

lemma unat_minus_plus:
  assumes "p \<le> (w :: u64)" "unat w + unat q < 2 ^ 64"
  shows "unat (w - p + q) = unat w - unat p + unat q"
proof -
  have "unat (w - p) = unat w - unat p" using assms(1) by (rule unat_sub)
  moreover have "unat (w - p) + unat q < 2 ^ LENGTH(64)" using assms(2) calculation by simp
  ultimately show ?thesis using unat_add_lem[of "w - p" q] by simp
qed

lemma stack_turn_Ok:
  assumes "stack_turn resolver view start i w = Ok w'" "i < length (cu_code (fv_code view))"
    and "pushes_bounded resolver view" "unat w < 2 ^ 64 - 2 ^ 48"
  shows "\<exists>p q. instruction_effect resolver (fv_return view) (cu_code (fv_code view) ! i) = Ok (p, q) \<and>
    unat p \<le> unat w \<and> unat w' = unat w - unat p + unat q \<and> unat q < 2 ^ 48"
proof -
  obtain p q where eff: "instruction_effect resolver (fv_return view) (cu_code (fv_code view) ! i) = Ok (p, q)"
    and "p \<le> w" "w' = w - p + q"
    using assms(1,2) by (auto simp: stack_turn_def rbind_eq_Ok vec_index_eq_Ok split: if_splits)
  moreover have "unat q < 2 ^ 48"
    using assms(3) eff nth_mem[OF assms(2)] unfolding pushes_bounded_def by blast
  ultimately show ?thesis using assms(4) unat_minus_plus[of p w q] by (auto simp: word_le_nat_alt)
qed

lemma stack_turn_counter:
  assumes "stack_turn resolver view start i w = Ok w'" "i < length (cu_code (fv_code view))"
  shows "\<exists>p q. instruction_effect resolver (fv_return view) (cu_code (fv_code view) ! i) = Ok (p, q) \<and>
    unat p \<le> unat w \<and> unat w' \<le> unat w - unat p + unat q"
proof -
  obtain p q where eff: "instruction_effect resolver (fv_return view) (cu_code (fv_code view) ! i) = Ok (p, q)"
    and "p \<le> w" and w': "w' = w - p + q"
    using assms by (auto simp: stack_turn_def rbind_eq_Ok vec_index_eq_Ok split: if_splits)
  then have "unat (w - p) = unat w - unat p" "unat p \<le> unat w"
    by (simp_all add: unat_sub word_le_nat_alt)
  moreover have "unat w' \<le> unat (w - p) + unat q" by (simp add: w' unat_word_ariths)
  ultimately show ?thesis using eff by auto
qed

lemma branch_pushes_nothing:
  "is_branch instr \<Longrightarrow> instruction_effect resolver return_sig instr = Ok (p, q) \<Longrightarrow> q = 0"
  by (cases instr) (auto simp: instruction_effect_def branch_defs)

text \<open>The height at an offset is the counter of its block there.\<close>

definition at_height ::
  "binary_indexed_view \<Rightarrow> function_view \<Rightarrow> nat \<Rightarrow> nat \<Rightarrow> bool" where
  "at_height resolver view i h =
     (\<exists>b bb w. bt_get (cfg_blocks (fv_cfg view)) b = Some bb \<and> block_of (cu_code (fv_code view)) b bb \<and>
        b \<le> i \<and> i \<le> bb_exit bb \<and> h = unat w \<and> h \<le> (i - b) * 2 ^ 48 \<and>
        for_each (stack_turn resolver view b) [b..<i] 0 = Ok w)"

lemma verify_block_Ok:
  assumes "stack_usage_verify resolver view = Ok ()" "bt_get (cfg_blocks (fv_cfg view)) b = Some bb"
  shows "for_each (stack_turn resolver view b) [b..<Suc (bb_exit bb)] 0 = Ok 0"
proof -
  have "b \<in> set (blocks (fv_cfg view))" using assms(2) by (simp add: blocks_def in_bt_keys)
  then have "verify_block resolver view b = Ok ()"
    using assms(1) by (simp add: stack_usage_verify_def for_all_eq_Ok)
  then show ?thesis
    using assms(2)
    by (auto simp: verify_block_def block_end_def bt_index_def unwrap_def block_start_def rbind_eq_Ok
        split: if_splits)
qed

text \<open>One turn inside a block that is accepted, and where control goes from there.\<close>

lemma block_turn:
  assumes "stack_usage_verify resolver view = Ok ()" "bt_get (cfg_blocks (fv_cfg view)) b = Some bb"
    and i: "b \<le> i" "i \<le> bb_exit bb" and upto: "for_each (stack_turn resolver view b) [b..<i] 0 = Ok w"
  shows "\<exists>w'. stack_turn resolver view b i w = Ok w' \<and> (i = bb_exit bb \<longrightarrow> w' = 0) \<and>
    for_each (stack_turn resolver view b) [b..<Suc i] 0 = Ok w'"
proof -
  have split: "[b..<Suc (bb_exit bb)] = [b..<i] @ i # [Suc i..<Suc (bb_exit bb)]"
    using i upt_add_eq_append[of b i "Suc (bb_exit bb) - i"] by (simp add: upt_conv_Cons)
  obtain w' where turn: "stack_turn resolver view b i w = Ok w'"
    and rest: "for_each (stack_turn resolver view b) [Suc i..<Suc (bb_exit bb)] w' = Ok 0"
    using verify_block_Ok[OF assms(1,2)] upto unfolding split by (auto simp: for_each_append rbind_eq_Ok)
  have "for_each (stack_turn resolver view b) [b..<Suc i] 0 = Ok w'"
    using upto turn i by (simp add: for_each_append)
  moreover have "i = bb_exit bb \<longrightarrow> w' = 0" using rest by auto
  ultimately show ?thesis using turn by blast
qed

lemma block_moves:
  assumes graph: "graph_of (fv_code view) (fv_cfg view)" and bb: "block_of (cu_code (fv_code view)) b bb"
    and i: "b \<le> i" "i \<le> bb_exit bb"
    and flow: "flows_to (cu_code (fv_code view)) i j" "j < length (cu_code (fv_code view))"
  shows "i < bb_exit bb \<and> j = Suc i \<or>
    i = bb_exit bb \<and> (\<exists>jj. bt_get (cfg_blocks (fv_cfg view)) j = Some jj \<and> block_of (cu_code (fv_code view)) j jj)"
proof (cases "i < bb_exit bb")
  case True
  then show ?thesis using block_of_inner(2)[OF bb i(1)] flow by blast
next
  case False
  have "cfg_ready (cu_code (fv_code view))" using graph by (simp add: graph_of_def)
  then have "leader (cu_code (fv_code view)) j"
    using flows_to_leader[OF _ flow] block_ofD(4)[OF bb] i False by simp
  then have "\<exists>jj. bt_get (cfg_blocks (fv_cfg view)) j = Some jj \<and> block_of (cu_code (fv_code view)) j jj"
    using graph_of_cases[OF graph] flow(2) unfolding blocks_ok_def by metis
  then show ?thesis using False i by simp
qed

text \<open>The height is never below the counter, whether or not that has wrapped around.\<close>

definition above_counter ::
  "binary_indexed_view \<Rightarrow> function_view \<Rightarrow> nat \<Rightarrow> nat \<Rightarrow> bool" where
  "above_counter resolver view i h =
     (\<exists>b bb w. bt_get (cfg_blocks (fv_cfg view)) b = Some bb \<and> block_of (cu_code (fv_code view)) b bb \<and>
        b \<le> i \<and> i \<le> bb_exit bb \<and> unat w \<le> h \<and> for_each (stack_turn resolver view b) [b..<i] 0 = Ok w)"

lemma above_counter_step:
  assumes view: "verified_view view" and verify: "stack_usage_verify resolver view = Ok ()"
    and above: "above_counter resolver view i h"
  shows "\<exists>p q. instruction_effect resolver (fv_return view) (cu_code (fv_code view) ! i) = Ok (p, q) \<and> unat p \<le> h"
    and "stack_step resolver (fv_return view) (cu_code (fv_code view) ! i) h h' \<Longrightarrow>
      flows_to (cu_code (fv_code view)) i j \<Longrightarrow> j < length (cu_code (fv_code view)) \<Longrightarrow>
      above_counter resolver view j h'"
proof -
  let ?code = "cu_code (fv_code view)"
  obtain b bb w where bb: "bt_get (cfg_blocks (fv_cfg view)) b = Some bb" "block_of ?code b bb"
    and i: "b \<le> i" "i \<le> bb_exit bb" and h: "unat w \<le> h"
    and upto: "for_each (stack_turn resolver view b) [b..<i] 0 = Ok w"
    using above unfolding above_counter_def by blast
  obtain w' where turn: "stack_turn resolver view b i w = Ok w'" "i = bb_exit bb \<longrightarrow> w' = 0"
    "for_each (stack_turn resolver view b) [b..<Suc i] 0 = Ok w'"
    using block_turn[OF verify bb(1) i upto] by blast
  have "i < length ?code" using i block_ofD(3)[OF bb(2)] by simp
  then obtain p q where eff: "instruction_effect resolver (fv_return view) (?code ! i) = Ok (p, q)"
    and pq: "unat p \<le> unat w" "unat w' \<le> unat w - unat p + unat q"
    using stack_turn_counter[OF turn(1)] by blast
  then show "\<exists>p q. instruction_effect resolver (fv_return view) (?code ! i) = Ok (p, q) \<and> unat p \<le> h"
    using h by auto
  assume step: "stack_step resolver (fv_return view) (?code ! i) h h'" and flow: "flows_to ?code i j"
    and j: "j < length ?code"
  have h': "unat w' \<le> h'" using step eff pq h by (simp add: stack_step_def)
  have graph: "graph_of (fv_code view) (fv_cfg view)" using view by (simp add: verified_view_def)
  from block_moves[OF graph bb(2) i flow j] show "above_counter resolver view j h'"
  proof (elim disjE conjE exE)
    assume "i < bb_exit bb" "j = Suc i"
    then show ?thesis
      unfolding above_counter_def using bb i h' turn(3) by (intro exI[of _ b] exI[of _ bb] exI[of _ w']) simp
  next
    fix jj assume jj: "bt_get (cfg_blocks (fv_cfg view)) j = Some jj" "block_of ?code j jj"
    then show ?thesis
      unfolding above_counter_def using block_ofD(2)[OF jj(2)]
      by (intro exI[of _ j] exI[of _ jj] exI[of _ 0]) simp
  qed
qed

lemma at_height_step:
  assumes view: "verified_view view" and verify: "stack_usage_verify resolver view = Ok ()"
    and bounded: "pushes_bounded resolver view" and at: "at_height resolver view i h"
  shows "\<exists>p q. instruction_effect resolver (fv_return view) (cu_code (fv_code view) ! i) = Ok (p, q) \<and>
      (is_branch (cu_code (fv_code view) ! i) \<longrightarrow> h = unat p \<and> q = 0)"
    and "stack_step resolver (fv_return view) (cu_code (fv_code view) ! i) h h' \<Longrightarrow>
      flows_to (cu_code (fv_code view)) i j \<Longrightarrow> j < length (cu_code (fv_code view)) \<Longrightarrow>
      at_height resolver view j h'"
proof -
  let ?code = "cu_code (fv_code view)"
  obtain b bb w where bb: "bt_get (cfg_blocks (fv_cfg view)) b = Some bb" "block_of ?code b bb"
    and i: "b \<le> i" "i \<le> bb_exit bb" and h: "h = unat w" "h \<le> (i - b) * 2 ^ 48"
    and upto: "for_each (stack_turn resolver view b) [b..<i] 0 = Ok w"
    using at unfolding at_height_def by blast
  have graph: "graph_of (fv_code view) (fv_cfg view)" using view by (simp add: verified_view_def)
  then have len: "i < length ?code" "i - b < 65534"
    using i block_ofD(3)[OF bb(2)] by (auto simp: cfg_ready_def graph_of_def)
  have "(i - b) * 2 ^ 48 \<le> (65533 :: nat) * 2 ^ 48" using len(2) by (intro mult_right_mono) simp_all
  then have small: "unat w < 2 ^ 64 - 2 ^ 48" using h by simp
  obtain w' where turn: "stack_turn resolver view b i w = Ok w'" and exits: "i = bb_exit bb \<longrightarrow> w' = 0"
    and upto': "for_each (stack_turn resolver view b) [b..<Suc i] 0 = Ok w'"
    using block_turn[OF verify bb(1) i upto] by blast
  obtain p q where eff: "instruction_effect resolver (fv_return view) (?code ! i) = Ok (p, q)"
    and pq: "unat p \<le> unat w" "unat w' = unat w - unat p + unat q" "unat q < 2 ^ 48"
    using stack_turn_Ok[OF turn len(1) bounded small] by blast
  have "h = unat p \<and> q = 0" if branch: "is_branch (?code ! i)"
  proof -
    have "i = bb_exit bb" using block_of_inner(1)[OF bb(2) i(1)] branch i(2) by force
    then show ?thesis
      using exits pq branch_pushes_nothing[OF branch eff] h(1) by simp
  qed
  then show "\<exists>p q. instruction_effect resolver (fv_return view) (?code ! i) = Ok (p, q) \<and>
      (is_branch (?code ! i) \<longrightarrow> h = unat p \<and> q = 0)"
    using eff by blast
  assume step: "stack_step resolver (fv_return view) (?code ! i) h h'" and flow: "flows_to ?code i j"
    and j: "j < length ?code"
  have h': "h' = unat w'" using step eff pq h by (simp add: stack_step_def)
  from block_moves[OF graph bb(2) i flow j] show "at_height resolver view j h'"
  proof (elim disjE conjE exE)
    assume inner: "i < bb_exit bb" "j = Suc i"
    have "h' \<le> (Suc i - b) * 2 ^ 48" using h h' pq i by (simp add: Suc_diff_le)
    then show ?thesis
      unfolding at_height_def using bb i h' upto' inner by (intro exI[of _ b] exI[of _ bb] exI[of _ w']) simp
  next
    fix jj assume last: "i = bb_exit bb" and jj: "bt_get (cfg_blocks (fv_cfg view)) j = Some jj" "block_of ?code j jj"
    then show ?thesis
      unfolding at_height_def using exits h' block_ofD(2)[OF jj(2)]
      by (intro exI[of _ j] exI[of _ jj] exI[of _ 0]) simp
  qed
qed

lemma entry_block:
  assumes "verified_view view"
  obtains bb where "bt_get (cfg_blocks (fv_cfg view)) 0 = Some bb" "block_of (cu_code (fv_code view)) 0 bb"
proof -
  have "graph_of (fv_code view) (fv_cfg view)" using assms by (simp add: verified_view_def)
  moreover have "leader (cu_code (fv_code view)) 0" by (simp add: leader_def)
  ultimately show ?thesis using that graph_of_cases unfolding blocks_ok_def by metis
qed

lemma runs_above_counter:
  assumes "verified_view view" "stack_usage_verify resolver view = Ok ()"
    and "runs (cu_code (fv_code view)) (stack_step resolver (fv_return view)) 0 i h"
  shows "above_counter resolver view i h"
  using assms(3)
proof (induction)
  case start
  obtain bb where "bt_get (cfg_blocks (fv_cfg view)) 0 = Some bb" "block_of (cu_code (fv_code view)) 0 bb"
    by (rule entry_block[OF assms(1)])
  then show ?case unfolding above_counter_def by (intro exI[of _ 0] exI[of _ bb]) simp
next
  case (move i h h' j)
  then show ?case using above_counter_step(2)[OF assms(1,2)] by blast
qed

lemma runs_at_height:
  assumes "verified_view view" "stack_usage_verify resolver view = Ok ()" "pushes_bounded resolver view"
    and "runs (cu_code (fv_code view)) (stack_step resolver (fv_return view)) 0 i h"
  shows "at_height resolver view i h"
  using assms(4)
proof (induction)
  case start
  obtain bb where "bt_get (cfg_blocks (fv_cfg view)) 0 = Some bb" "block_of (cu_code (fv_code view)) 0 bb"
    by (rule entry_block[OF assms(1)])
  then show ?case unfolding at_height_def by (intro exI[of _ 0] exI[of _ bb]) simp
next
  case (move i h h' j)
  then show ?case using at_height_step(2)[OF assms(1-3)] by blast
qed

section \<open>Properties of the pass\<close>

text \<open>
  C20: soundness of the stack usage pass. In a body that the pass accepts, every instruction finds on
  the stack, above the height at the entry of the function, the values it pops, along every path. If
  moreover each instruction of the body pushes fewer than \<open>2 ^ 48\<close> values, which the pass does not check,
  a branch, a return or an abort finds exactly the values it pops, so that blocks start at the entry
  height and a return leaves exactly the values of the return signature.
\<close>

theorem stack_usage_sound:
  assumes "verified_view view" "stack_usage_verify resolver view = Ok ()"
    and "runs (cu_code (fv_code view)) (stack_step resolver (fv_return view)) 0 i h"
  shows "\<exists>p q. instruction_effect resolver (fv_return view) (cu_code (fv_code view) ! i) = Ok (p, q) \<and>
    unat p \<le> h \<and>
    (pushes_bounded resolver view \<and> is_branch (cu_code (fv_code view) ! i) \<longrightarrow> h = unat p \<and> q = 0)"
proof -
  obtain p q where eff: "instruction_effect resolver (fv_return view) (cu_code (fv_code view) ! i) = Ok (p, q)"
    "unat p \<le> h"
    using above_counter_step(1)[OF assms(1,2) runs_above_counter[OF assms]] by blast
  moreover have "h = unat p \<and> q = 0" if "pushes_bounded resolver view" "is_branch (cu_code (fv_code view) ! i)"
    using at_height_step(1)[OF assms(1,2) that(1) runs_at_height[OF assms(1,2) that(1) assms(3)]] that(2) eff(1)
    by auto
  ultimately show ?thesis by blast
qed

lemmas stack_exec = stack_usage_verify_def verify_block_def stack_turn_def instruction_effect_def
  blocks_def bt_keys_def block_end_def block_start_def bt_index_def bt_get_def unwrap_def
  vec_index_def upt_rec

lemma branching_stack_accepted:
  "stack_usage_verify (ViewScript branching_script) branching_view = Ok ()"
  by (simp add: branching_view_def branching_code_def branching_cfg_def stack_exec)

theorem stack_usage_sound_witness:
  "verified_view branching_view \<and>
   stack_usage_verify (ViewScript branching_script) branching_view = Ok () \<and>
   (\<exists>p q. instruction_effect (ViewScript branching_script) [] (BrFalse 3) = Ok (p, q) \<and> 1 = unat p \<and> q = 0)"
proof -
  have bounded: "pushes_bounded (ViewScript branching_script) branching_view"
    by (simp add: pushes_bounded_def branching_view_def branching_code_def instruction_effect_def)
  have run: "runs (cu_code (fv_code branching_view))
      (stack_step (ViewScript branching_script) (fv_return branching_view)) 0 1 1"
    by (rule runs.move[OF runs.start])
       (simp_all add: branching_view_def branching_code_def stack_step_def instruction_effect_def
         flows_to_def branch_defs)
  have "\<exists>p q. instruction_effect (ViewScript branching_script) [] (BrFalse 3) = Ok (p, q) \<and> 1 = unat p \<and> q = 0"
    using stack_usage_sound[OF branching_verified branching_stack_accepted run] bounded
    by (auto simp: branching_view_def branching_code_def branch_defs)
  then show ?thesis using branching_verified branching_stack_accepted by blast
qed

section \<open>The counter wraps\<close>

definition unpacking_code :: code_unit where
  "unpacking_code = \<lparr>cu_locals = 0, cu_code = [LdConst 0, VecUnpack 0 (- 1), LdTrue, Ret]\<rparr>"

definition unpacking_view :: function_view where
  "unpacking_view =
     \<lparr>fv_index = None, fv_code = unpacking_code, fv_parameters = [], fv_return = [], fv_locals = [],
      fv_type_parameters = [],
      fv_cfg = \<lparr>cfg_blocks = [(0, \<lparr>bb_exit = 3, bb_successors = []\<rparr>)], cfg_traversal_successors = [],
        cfg_loop_heads = []\<rparr>\<rparr>"

lemma unpacking_verified: "verified_view unpacking_view"
proof -
  have "cfg_ready (cu_code unpacking_code)" "control_flow_verify None unpacking_code = Ok ()"
    by (simp_all add: unpacking_code_def cfg_ready_def jumps_in_bounds_def offset_def control_flow_exec)
  moreover have "new_cfg (cu_code unpacking_code) = Ok (fv_cfg unpacking_view)"
    by (simp add: unpacking_code_def unpacking_view_def cfg_exec)
  ultimately show ?thesis by (auto simp: verified_view_def graph_of_def unpacking_view_def)
qed

text \<open>
  C21: without the bound of the previous property blocks need not be balanced. \<^verbatim>\<open>VecUnpack\<close> with \<^verbatim>\<open>u64::MAX\<close>
  elements followed by one more push brings the \<^verbatim>\<open>u64\<close> counter of the block back to zero, so the
  pass accepts a body whose return, in a function without return values, is reached with \<open>2 ^ 64\<close>
  values on the stack.
\<close>

theorem stack_usage_counter_wraps:
  "verified_view unpacking_view \<and> stack_usage_verify resolver unpacking_view = Ok () \<and>
   runs (cu_code (fv_code unpacking_view)) (stack_step resolver (fv_return unpacking_view)) 0 3 (2 ^ 64) \<and>
   cu_code (fv_code unpacking_view) ! 3 = Ret \<and> fv_return unpacking_view = []"
proof -
  let ?code = "cu_code (fv_code unpacking_view)"
  let ?step = "stack_step resolver (fv_return unpacking_view)"
  note defs = unpacking_view_def unpacking_code_def stack_step_def instruction_effect_def flows_to_def
    branch_defs
  have "stack_usage_verify resolver unpacking_view = Ok ()"
    by (simp add: unpacking_view_def unpacking_code_def stack_exec)
  moreover have "runs ?code ?step 0 1 1"
    by (rule runs.move[OF runs.start]) (simp_all add: defs)
  then have "runs ?code ?step 0 2 (2 ^ 64 - 1)"
    by (rule runs.move) (simp_all add: defs unsigned_minus_1_eq_mask mask_eq_exp_minus_1)
  then have "runs ?code ?step 0 3 (2 ^ 64)"
    by (rule runs.move) (simp_all add: defs)
  ultimately show ?thesis
    using unpacking_verified by (simp add: unpacking_view_def unpacking_code_def)
qed

end
