(* ===== verification/Check_Bounds.thy ===== *)
theory Check_Bounds
  imports Binary_Views
begin

text \<open>
  \<^verbatim>\<open>check_bounds.rs\<close>: the bounds checker, which runs on every module and script right after
  deserialization, in the order of the code. The second half states what it establishes,
  \<open>module_in_bounds\<close> and \<open>script_in_bounds\<close>, without reference to the order of the checks or to errors;
  the theorems are that the checker accepts exactly those modules and scripts and never panics.
  A script has fewer tables than a module, and the operands that would index the missing ones are free.
\<close>

section \<open>Contexts and errors\<close>

datatype bounds_context = CtxModule | CtxModuleFunction nat | CtxScript

definition context_offset_error :: "bounds_context \<Rightarrow> status_code \<Rightarrow> nat \<Rightarrow> partial_vm_error" where
  "context_offset_error ctx status cur_bytecode_offset =
     (case ctx of
        CtxModule \<Rightarrow> new_error UNKNOWN_INVARIANT_VIOLATION_ERROR
      | CtxModuleFunction f \<Rightarrow> offset_out_of_bounds status f cur_bytecode_offset
      | CtxScript \<Rightarrow> new_error status)"

definition check_bounds_impl :: "index_kind \<Rightarrow> 'a list \<Rightarrow> u16 \<Rightarrow> unit vm_result" where
  "check_bounds_impl kind pool idx =
     (if length pool \<le> unat idx then Err (bounds_error INDEX_OUT_OF_BOUNDS kind (unat idx)) else Ok ())"

definition check_bounds_impl_opt :: "index_kind \<Rightarrow> 'a list option \<Rightarrow> u16 \<Rightarrow> unit vm_result" where
  "check_bounds_impl_opt kind pool idx =
     (case pool of None \<Rightarrow> Ok () | Some p \<Rightarrow> check_bounds_impl kind p idx)"

definition check_code_unit_bounds_impl ::
  "bounds_context \<Rightarrow> 'a list \<Rightarrow> u16 \<Rightarrow> nat \<Rightarrow> unit vm_result" where
  "check_code_unit_bounds_impl ctx pool idx bytecode_offset =
     (if length pool \<le> unat idx
      then Err (context_offset_error ctx INDEX_OUT_OF_BOUNDS (as_u16 bytecode_offset))
      else Ok ())"

definition check_code_unit_bounds_impl_opt ::
  "bounds_context \<Rightarrow> 'a list option \<Rightarrow> u16 \<Rightarrow> nat \<Rightarrow> unit vm_result" where
  "check_code_unit_bounds_impl_opt ctx pool idx bytecode_offset =
     (case pool of None \<Rightarrow> Ok () | Some p \<Rightarrow> check_code_unit_bounds_impl ctx p idx bytecode_offset)"

section \<open>Types\<close>

definition check_type_node :: "binary_indexed_view \<Rightarrow> signature_token \<Rightarrow> unit vm_result" where
  "check_type_node view ty =
     (case ty of
        Struct idx \<Rightarrow>
          rbind (check_bounds_impl IK_StructHandle (struct_handles view) idx) (\<lambda>_.
            case vec_get (struct_handles view) (unat idx) of
              Some sh \<Rightarrow> ensure (sh_type_parameters sh = []) (new_error NUMBER_OF_TYPE_ARGUMENTS_MISMATCH)
            | None \<Rightarrow> Ok ())
      | StructInstantiation idx type_params \<Rightarrow>
          rbind (check_bounds_impl IK_StructHandle (struct_handles view) idx) (\<lambda>_.
            case vec_get (struct_handles view) (unat idx) of
              Some sh \<Rightarrow> ensure (length (sh_type_parameters sh) = length type_params)
                (new_error NUMBER_OF_TYPE_ARGUMENTS_MISMATCH)
            | None \<Rightarrow> Ok ())
      | _ \<Rightarrow> Ok ())"

definition check_type :: "binary_indexed_view \<Rightarrow> signature_token \<Rightarrow> unit vm_result" where
  "check_type view ty = for_all (check_type_node view) (preorder_traversal ty)"

definition check_type_parameter :: "signature_token \<Rightarrow> nat \<Rightarrow> unit vm_result" where
  "check_type_parameter ty type_param_count =
     for_all (\<lambda>t. case t of
         TypeParameter idx \<Rightarrow> ensure (unat idx < type_param_count)
           (bounds_error INDEX_OUT_OF_BOUNDS IK_TypeParameter (unat idx))
       | _ \<Rightarrow> Ok ()) (preorder_traversal ty)"

text \<open>The check of a signature found by index, skipped where the index is out of range.\<close>

definition check_signature_parameters ::
  "binary_indexed_view \<Rightarrow> signature_index \<Rightarrow> nat \<Rightarrow> unit vm_result" where
  "check_signature_parameters view idx type_param_count =
     (case vec_get (signatures view) (unat idx) of
        Some sig \<Rightarrow> for_all (\<lambda>ty. check_type_parameter ty type_param_count) sig
      | None \<Rightarrow> Ok ())"

definition check_signature :: "binary_indexed_view \<Rightarrow> signature \<Rightarrow> unit vm_result" where
  "check_signature view sig = for_all (check_type view) sig"

definition check_signatures :: "binary_indexed_view \<Rightarrow> unit vm_result" where
  "check_signatures view = for_all (check_signature view) (signatures view)"

definition check_constant :: "binary_indexed_view \<Rightarrow> pool_constant \<Rightarrow> unit vm_result" where
  "check_constant view c = check_type view (const_type c)"

definition check_constants :: "binary_indexed_view \<Rightarrow> unit vm_result" where
  "check_constants view = for_all (check_constant view) (constant_pool view)"

section \<open>Handles and instantiations\<close>

definition opt_list :: "'a list option \<Rightarrow> 'a list" where
  "opt_list t = (case t of None \<Rightarrow> [] | Some xs \<Rightarrow> xs)"

definition check_module_handle :: "binary_indexed_view \<Rightarrow> module_handle \<Rightarrow> unit vm_result" where
  "check_module_handle view mh =
     rbind (check_bounds_impl IK_AddressIdentifier (address_identifiers view) (mh_address mh)) (\<lambda>_.
       check_bounds_impl IK_Identifier (identifiers view) (mh_name mh))"

definition check_module_handles :: "binary_indexed_view \<Rightarrow> unit vm_result" where
  "check_module_handles view = for_all (check_module_handle view) (module_handles view)"

definition check_friend_decls :: "binary_indexed_view \<Rightarrow> unit vm_result" where
  "check_friend_decls view = for_all (check_module_handle view) (opt_list (friend_decls view))"

definition check_self_module_handle :: "binary_indexed_view \<Rightarrow> unit vm_result" where
  "check_self_module_handle view =
     (case self_handle_idx view of
        Some idx \<Rightarrow> check_bounds_impl IK_ModuleHandle (module_handles view) idx
      | None \<Rightarrow> Ok ())"

definition check_struct_handle :: "binary_indexed_view \<Rightarrow> struct_handle \<Rightarrow> unit vm_result" where
  "check_struct_handle view sh =
     rbind (check_bounds_impl IK_ModuleHandle (module_handles view) (sh_module sh)) (\<lambda>_.
       check_bounds_impl IK_Identifier (identifiers view) (sh_name sh))"

definition check_struct_handles :: "binary_indexed_view \<Rightarrow> unit vm_result" where
  "check_struct_handles view = for_all (check_struct_handle view) (struct_handles view)"

definition check_function_handle :: "binary_indexed_view \<Rightarrow> function_handle \<Rightarrow> unit vm_result" where
  "check_function_handle view fh =
     rbind (check_bounds_impl IK_ModuleHandle (module_handles view) (fh_module fh)) (\<lambda>_.
     rbind (check_bounds_impl IK_Identifier (identifiers view) (fh_name fh)) (\<lambda>_.
     rbind (check_bounds_impl IK_Signature (signatures view) (fh_parameters fh)) (\<lambda>_.
     rbind (check_bounds_impl IK_Signature (signatures view) (fh_return fh)) (\<lambda>_.
     rbind (check_signature_parameters view (fh_parameters fh) (length (fh_type_parameters fh))) (\<lambda>_.
       check_signature_parameters view (fh_return fh) (length (fh_type_parameters fh)))))))"

definition check_function_handles :: "binary_indexed_view \<Rightarrow> unit vm_result" where
  "check_function_handles view = for_all (check_function_handle view) (function_handles view)"

definition check_field_handle :: "binary_indexed_view \<Rightarrow> field_handle \<Rightarrow> unit vm_result" where
  "check_field_handle view fh =
     rbind (check_bounds_impl_opt IK_StructDefinition (struct_defs view) (fdh_owner fh)) (\<lambda>_.
       case Option.bind (struct_defs view) (\<lambda>d. vec_get d (unat (fdh_owner fh))) of
         Some struct_def \<Rightarrow>
           (let fields_count = (case sd_field_information struct_def of
                                  Native \<Rightarrow> 0 | Declared fs \<Rightarrow> length fs)
            in if fields_count \<le> unat (fdh_field fh)
               then Err (bounds_error INDEX_OUT_OF_BOUNDS IK_MemberCount (unat (fdh_field fh)))
               else Ok ())
       | None \<Rightarrow> Ok ())"

definition check_field_handles :: "binary_indexed_view \<Rightarrow> unit vm_result" where
  "check_field_handles view = for_all (check_field_handle view) (opt_list (field_handles view))"

definition check_struct_instantiation ::
  "binary_indexed_view \<Rightarrow> struct_def_instantiation \<Rightarrow> unit vm_result" where
  "check_struct_instantiation view si =
     rbind (check_bounds_impl_opt IK_StructDefinition (struct_defs view) (sdi_def si)) (\<lambda>_.
       check_bounds_impl IK_Signature (signatures view) (sdi_type_parameters si))"

definition check_struct_instantiations :: "binary_indexed_view \<Rightarrow> unit vm_result" where
  "check_struct_instantiations view =
     for_all (check_struct_instantiation view) (opt_list (struct_instantiations view))"

definition check_function_instantiation ::
  "binary_indexed_view \<Rightarrow> function_instantiation \<Rightarrow> unit vm_result" where
  "check_function_instantiation view fi =
     rbind (check_bounds_impl IK_FunctionHandle (function_handles view) (fi_handle fi)) (\<lambda>_.
       check_bounds_impl IK_Signature (signatures view) (fi_type_parameters fi))"

definition check_function_instantiations :: "binary_indexed_view \<Rightarrow> unit vm_result" where
  "check_function_instantiations view =
     for_all (check_function_instantiation view) (function_instantiations view)"

definition check_field_instantiation ::
  "binary_indexed_view \<Rightarrow> field_instantiation \<Rightarrow> unit vm_result" where
  "check_field_instantiation view fi =
     rbind (check_bounds_impl_opt IK_FieldHandle (field_handles view) (fdi_handle fi)) (\<lambda>_.
       check_bounds_impl IK_Signature (signatures view) (fdi_type_parameters fi))"

definition check_field_instantiations :: "binary_indexed_view \<Rightarrow> unit vm_result" where
  "check_field_instantiations view =
     for_all (check_field_instantiation view) (opt_list (field_instantiations view))"

section \<open>Definitions\<close>

definition check_struct_def :: "binary_indexed_view \<Rightarrow> struct_definition \<Rightarrow> unit vm_result" where
  "check_struct_def view sd =
     rbind (check_bounds_impl IK_StructHandle (struct_handles view) (sd_struct_handle sd)) (\<lambda>_.
       case sd_field_information sd of
         Declared fs \<Rightarrow>
           (let type_param_count = (case vec_get (struct_handles view) (unat (sd_struct_handle sd)) of
                                      None \<Rightarrow> 0 | Some sh \<Rightarrow> length (sh_type_parameters sh))
            in for_all (\<lambda>f.
                 rbind (check_bounds_impl IK_Identifier (identifiers view) (fdd_name f)) (\<lambda>_.
                 rbind (check_type view (fdd_signature f)) (\<lambda>_.
                   check_type_parameter (fdd_signature f) type_param_count))) fs)
       | Native \<Rightarrow> Ok ())"

definition check_struct_defs :: "binary_indexed_view \<Rightarrow> unit vm_result" where
  "check_struct_defs view = for_all (check_struct_def view) (opt_list (struct_defs view))"

definition get_locals :: "binary_indexed_view \<Rightarrow> code_unit \<Rightarrow> signature vm_result" where
  "get_locals view code_unit =
     (case vec_get (signatures view) (unat (cu_locals code_unit)) of
        Some sig \<Rightarrow> Ok sig
      | None \<Rightarrow> Err (bounds_error INDEX_OUT_OF_BOUNDS IK_Signature (unat (cu_locals code_unit))))"

section \<open>Code\<close>

text \<open>
  The type arguments of an instantiation found by index, skipped where the table or the entry is
  missing; \<open>tys\<close> selects the signature of the entry.
\<close>

definition check_instantiation_parameters ::
  "binary_indexed_view \<Rightarrow> ('i \<Rightarrow> signature_index) \<Rightarrow> 'i list option \<Rightarrow> u16 \<Rightarrow> nat \<Rightarrow> unit vm_result" where
  "check_instantiation_parameters view tys table idx type_param_count =
     (case Option.bind table (\<lambda>t. vec_get t (unat idx)) of
        Some inst \<Rightarrow> check_signature_parameters view (tys inst) type_param_count
      | None \<Rightarrow> Ok ())"

definition check_struct_operand ::
  "bounds_context \<Rightarrow> binary_indexed_view \<Rightarrow> struct_definition_index \<Rightarrow> nat \<Rightarrow> unit vm_result" where
  "check_struct_operand ctx view idx bytecode_offset =
     check_code_unit_bounds_impl_opt ctx (struct_defs view) idx bytecode_offset"

definition check_struct_instantiation_operand ::
  "bounds_context \<Rightarrow> binary_indexed_view \<Rightarrow> nat \<Rightarrow> struct_def_instantiation_index \<Rightarrow> nat \<Rightarrow> unit vm_result"
  where
  "check_struct_instantiation_operand ctx view type_param_count idx bytecode_offset =
     rbind (check_code_unit_bounds_impl_opt ctx (struct_instantiations view) idx bytecode_offset) (\<lambda>_.
       check_instantiation_parameters view sdi_type_parameters (struct_instantiations view) idx
         type_param_count)"

definition check_field_operand ::
  "bounds_context \<Rightarrow> binary_indexed_view \<Rightarrow> field_handle_index \<Rightarrow> nat \<Rightarrow> unit vm_result" where
  "check_field_operand ctx view idx bytecode_offset =
     check_code_unit_bounds_impl_opt ctx (field_handles view) idx bytecode_offset"

definition check_field_instantiation_operand ::
  "bounds_context \<Rightarrow> binary_indexed_view \<Rightarrow> nat \<Rightarrow> field_instantiation_index \<Rightarrow> nat \<Rightarrow> unit vm_result"
  where
  "check_field_instantiation_operand ctx view type_param_count idx bytecode_offset =
     rbind (check_code_unit_bounds_impl_opt ctx (field_instantiations view) idx bytecode_offset) (\<lambda>_.
       check_instantiation_parameters view fdi_type_parameters (field_instantiations view) idx
         type_param_count)"

definition check_jump_operand :: "bounds_context \<Rightarrow> nat \<Rightarrow> code_offset \<Rightarrow> nat \<Rightarrow> unit vm_result" where
  "check_jump_operand ctx code_len off bytecode_offset =
     (if code_len \<le> unat off
      then Err (context_offset_error ctx INDEX_OUT_OF_BOUNDS (as_u16 bytecode_offset))
      else Ok ())"

definition check_local_operand :: "bounds_context \<Rightarrow> nat \<Rightarrow> local_index \<Rightarrow> nat \<Rightarrow> unit vm_result" where
  "check_local_operand ctx locals_count idx bytecode_offset =
     (if locals_count \<le> unat idx
      then Err (context_offset_error ctx INDEX_OUT_OF_BOUNDS (as_u16 bytecode_offset))
      else Ok ())"

definition check_vector_operand ::
  "bounds_context \<Rightarrow> binary_indexed_view \<Rightarrow> nat \<Rightarrow> signature_index \<Rightarrow> nat \<Rightarrow> unit vm_result" where
  "check_vector_operand ctx view type_param_count idx bytecode_offset =
     rbind (check_code_unit_bounds_impl ctx (signatures view) idx bytecode_offset) (\<lambda>_.
       check_signature_parameters view idx type_param_count)"

definition check_instruction_bounds ::
  "bounds_context \<Rightarrow> binary_indexed_view \<Rightarrow> nat \<Rightarrow> nat \<Rightarrow> nat \<Rightarrow> nat \<times> bytecode \<Rightarrow> unit vm_result" where
  "check_instruction_bounds ctx view type_param_count locals_count code_len = (\<lambda>(pc, instr).
     case instr of
       LdConst idx \<Rightarrow> check_code_unit_bounds_impl ctx (constant_pool view) idx pc
     | MutBorrowField idx \<Rightarrow> check_field_operand ctx view idx pc
     | ImmBorrowField idx \<Rightarrow> check_field_operand ctx view idx pc
     | MutBorrowFieldGeneric idx \<Rightarrow> check_field_instantiation_operand ctx view type_param_count idx pc
     | ImmBorrowFieldGeneric idx \<Rightarrow> check_field_instantiation_operand ctx view type_param_count idx pc
     | Call idx \<Rightarrow> check_code_unit_bounds_impl ctx (function_handles view) idx pc
     | CallGeneric idx \<Rightarrow>
         rbind (check_code_unit_bounds_impl ctx (function_instantiations view) idx pc) (\<lambda>_.
           check_instantiation_parameters view fi_type_parameters
             (Some (function_instantiations view)) idx type_param_count)
     | Pack idx \<Rightarrow> check_struct_operand ctx view idx pc
     | Unpack idx \<Rightarrow> check_struct_operand ctx view idx pc
     | Exists idx \<Rightarrow> check_struct_operand ctx view idx pc
     | ImmBorrowGlobal idx \<Rightarrow> check_struct_operand ctx view idx pc
     | MutBorrowGlobal idx \<Rightarrow> check_struct_operand ctx view idx pc
     | MoveFrom idx \<Rightarrow> check_struct_operand ctx view idx pc
     | MoveTo idx \<Rightarrow> check_struct_operand ctx view idx pc
     | PackGeneric idx \<Rightarrow> check_struct_instantiation_operand ctx view type_param_count idx pc
     | UnpackGeneric idx \<Rightarrow> check_struct_instantiation_operand ctx view type_param_count idx pc
     | ExistsGeneric idx \<Rightarrow> check_struct_instantiation_operand ctx view type_param_count idx pc
     | ImmBorrowGlobalGeneric idx \<Rightarrow> check_struct_instantiation_operand ctx view type_param_count idx pc
     | MutBorrowGlobalGeneric idx \<Rightarrow> check_struct_instantiation_operand ctx view type_param_count idx pc
     | MoveFromGeneric idx \<Rightarrow> check_struct_instantiation_operand ctx view type_param_count idx pc
     | MoveToGeneric idx \<Rightarrow> check_struct_instantiation_operand ctx view type_param_count idx pc
     | BrTrue off \<Rightarrow> check_jump_operand ctx code_len off pc
     | BrFalse off \<Rightarrow> check_jump_operand ctx code_len off pc
     | Branch off \<Rightarrow> check_jump_operand ctx code_len off pc
     | CopyLoc idx \<Rightarrow> check_local_operand ctx locals_count idx pc
     | MoveLoc idx \<Rightarrow> check_local_operand ctx locals_count idx pc
     | StLoc idx \<Rightarrow> check_local_operand ctx locals_count idx pc
     | MutBorrowLoc idx \<Rightarrow> check_local_operand ctx locals_count idx pc
     | ImmBorrowLoc idx \<Rightarrow> check_local_operand ctx locals_count idx pc
     | VecPack idx _ \<Rightarrow> check_vector_operand ctx view type_param_count idx pc
     | VecLen idx \<Rightarrow> check_vector_operand ctx view type_param_count idx pc
     | VecImmBorrow idx \<Rightarrow> check_vector_operand ctx view type_param_count idx pc
     | VecMutBorrow idx \<Rightarrow> check_vector_operand ctx view type_param_count idx pc
     | VecPushBack idx \<Rightarrow> check_vector_operand ctx view type_param_count idx pc
     | VecPopBack idx \<Rightarrow> check_vector_operand ctx view type_param_count idx pc
     | VecUnpack idx _ \<Rightarrow> check_vector_operand ctx view type_param_count idx pc
     | VecSwap idx \<Rightarrow> check_vector_operand ctx view type_param_count idx pc
     | _ \<Rightarrow> Ok ())"

definition check_code_bounds ::
  "bounds_context \<Rightarrow> binary_indexed_view \<Rightarrow> code_unit \<Rightarrow> ability_set list \<Rightarrow> signature \<Rightarrow> unit vm_result"
  where
  "check_code_bounds ctx view code_unit type_parameters parameters =
     rbind (check_bounds_impl IK_Signature (signatures view) (cu_locals code_unit)) (\<lambda>_.
     rbind (get_locals view code_unit) (\<lambda>locals.
     rbind (for_all (\<lambda>ty. check_type_parameter ty (length type_parameters)) locals) (\<lambda>_.
       for_all (check_instruction_bounds ctx view (length type_parameters)
           (length locals + length parameters) (length (cu_code code_unit)))
         (enumerate_from_zero (cu_code code_unit)))))"

definition check_function_def ::
  "binary_indexed_view \<Rightarrow> nat \<times> function_definition \<Rightarrow> unit vm_result" where
  "check_function_def view = (\<lambda>(function_def_idx, fd).
     rbind (check_bounds_impl IK_FunctionHandle (function_handles view) (fd_function fd)) (\<lambda>_.
     rbind (for_all (check_bounds_impl_opt IK_StructDefinition (struct_defs view))
         (fd_acquires_global_resources fd)) (\<lambda>_.
       case fd_code fd of
         None \<Rightarrow> Ok ()
       | Some code_unit \<Rightarrow>
           rbind (vec_index (function_handles view) (unat (fd_function fd))) (\<lambda>fh.
           rbind (vec_index (signatures view) (unat (fh_parameters fh))) (\<lambda>parameters.
           rbind (get_locals view code_unit) (\<lambda>locals.
             if 256 < length locals + length parameters
             then Err (verification_error TOO_MANY_LOCALS IK_FunctionDefinition (as_u16 function_def_idx))
             else check_code_bounds (CtxModuleFunction (as_u16 function_def_idx)) view code_unit
                    (fh_type_parameters fh) parameters))))))"

definition check_function_defs :: "binary_indexed_view \<Rightarrow> unit vm_result" where
  "check_function_defs view =
     for_all (check_function_def view) (enumerate_from_zero (opt_list (function_defs view)))"

definition bounds_verify_impl :: "binary_indexed_view \<Rightarrow> unit vm_result" where
  "bounds_verify_impl view =
     rbind (check_signatures view) (\<lambda>_.
     rbind (check_constants view) (\<lambda>_.
     rbind (check_module_handles view) (\<lambda>_.
     rbind (check_self_module_handle view) (\<lambda>_.
     rbind (check_struct_handles view) (\<lambda>_.
     rbind (check_function_handles view) (\<lambda>_.
     rbind (check_field_handles view) (\<lambda>_.
     rbind (check_friend_decls view) (\<lambda>_.
     rbind (check_struct_instantiations view) (\<lambda>_.
     rbind (check_function_instantiations view) (\<lambda>_.
     rbind (check_field_instantiations view) (\<lambda>_.
     rbind (check_struct_defs view) (\<lambda>_.
       check_function_defs view))))))))))))"

definition bounds_verify_module :: "compiled_module \<Rightarrow> unit vm_result" where
  "bounds_verify_module module =
     (if module_handles (ViewModule module) = []
      then Err (verification_error NO_MODULE_HANDLES IK_ModuleHandle 0)
      else bounds_verify_impl (ViewModule module))"

definition bounds_verify_script :: "compiled_script \<Rightarrow> unit vm_result" where
  "bounds_verify_script script =
     (let view = ViewScript script in
      rbind (bounds_verify_impl view) (\<lambda>_.
      rbind (check_bounds_impl IK_Signature (signatures view) (cs_parameters script)) (\<lambda>_.
      rbind (check_signature_parameters view (cs_parameters script)
          (length (cs_type_parameters script))) (\<lambda>_.
      rbind (unwrap (vec_get (signatures view) (unat (cs_parameters script)))) (\<lambda>parameters.
        check_code_bounds CtxScript view (cs_code script) (cs_type_parameters script) parameters)))))"

section \<open>What is checked\<close>

definition in_pool :: "'a list \<Rightarrow> 'n::len word \<Rightarrow> bool" where
  "in_pool pool idx = (unat idx < length pool)"

text \<open>A table that a script does not have constrains nothing.\<close>

definition in_pool_opt :: "'a list option \<Rightarrow> 'n::len word \<Rightarrow> bool" where
  "in_pool_opt pool idx = (case pool of None \<Rightarrow> True | Some p \<Rightarrow> in_pool p idx)"

definition type_ok :: "binary_indexed_view \<Rightarrow> signature_token \<Rightarrow> bool" where
  "type_ok view ty =
     (\<forall>t \<in> set (subtokens ty). case t of
        Struct idx \<Rightarrow> in_pool (struct_handles view) idx \<and>
          sh_type_parameters (struct_handles view ! unat idx) = []
      | StructInstantiation idx args \<Rightarrow> in_pool (struct_handles view) idx \<and>
          length (sh_type_parameters (struct_handles view ! unat idx)) = length args
      | _ \<Rightarrow> True)"

definition type_params_ok :: "nat \<Rightarrow> signature_token \<Rightarrow> bool" where
  "type_params_ok n ty =
     (\<forall>t \<in> set (subtokens ty). case t of TypeParameter idx \<Rightarrow> unat idx < n | _ \<Rightarrow> True)"

definition signature_params_ok :: "binary_indexed_view \<Rightarrow> nat \<Rightarrow> signature_index \<Rightarrow> bool" where
  "signature_params_ok view n idx =
     (in_pool (signatures view) idx \<longrightarrow> (\<forall>ty \<in> set (signatures view ! unat idx). type_params_ok n ty))"

definition module_handle_ok :: "binary_indexed_view \<Rightarrow> module_handle \<Rightarrow> bool" where
  "module_handle_ok view mh =
     (in_pool (address_identifiers view) (mh_address mh) \<and> in_pool (identifiers view) (mh_name mh))"

definition struct_handle_ok :: "binary_indexed_view \<Rightarrow> struct_handle \<Rightarrow> bool" where
  "struct_handle_ok view sh =
     (in_pool (module_handles view) (sh_module sh) \<and> in_pool (identifiers view) (sh_name sh))"

definition function_handle_ok :: "binary_indexed_view \<Rightarrow> function_handle \<Rightarrow> bool" where
  "function_handle_ok view fh =
     (in_pool (module_handles view) (fh_module fh) \<and> in_pool (identifiers view) (fh_name fh) \<and>
      in_pool (signatures view) (fh_parameters fh) \<and> in_pool (signatures view) (fh_return fh) \<and>
      signature_params_ok view (length (fh_type_parameters fh)) (fh_parameters fh) \<and>
      signature_params_ok view (length (fh_type_parameters fh)) (fh_return fh))"

definition field_handle_ok :: "binary_indexed_view \<Rightarrow> field_handle \<Rightarrow> bool" where
  "field_handle_ok view fh =
     (case struct_defs view of
        None \<Rightarrow> True
      | Some defs \<Rightarrow> in_pool defs (fdh_owner fh) \<and>
          (\<exists>fs. sd_field_information (defs ! unat (fdh_owner fh)) = Declared fs \<and>
             unat (fdh_field fh) < length fs))"

definition field_definition_ok :: "binary_indexed_view \<Rightarrow> nat \<Rightarrow> field_definition \<Rightarrow> bool" where
  "field_definition_ok view n f =
     (in_pool (identifiers view) (fdd_name f) \<and> type_ok view (fdd_signature f) \<and>
      type_params_ok n (fdd_signature f))"

definition struct_definition_ok :: "binary_indexed_view \<Rightarrow> struct_definition \<Rightarrow> bool" where
  "struct_definition_ok view sd =
     (in_pool (struct_handles view) (sd_struct_handle sd) \<and>
      (\<forall>fs. sd_field_information sd = Declared fs \<longrightarrow> (\<forall>f \<in> set fs. field_definition_ok view
         (length (sh_type_parameters (struct_handles view ! unat (sd_struct_handle sd)))) f)))"

definition arguments_ok ::
  "binary_indexed_view \<Rightarrow> nat \<Rightarrow> ('i \<Rightarrow> signature_index) \<Rightarrow> 'i list option \<Rightarrow> u16 \<Rightarrow> bool" where
  "arguments_ok view n tys table idx =
     (case table of
        None \<Rightarrow> True
      | Some t \<Rightarrow> in_pool t idx \<longrightarrow> signature_params_ok view n (tys (t ! unat idx)))"

definition struct_inst_operand_ok ::
  "binary_indexed_view \<Rightarrow> nat \<Rightarrow> struct_def_instantiation_index \<Rightarrow> bool" where
  "struct_inst_operand_ok view n idx =
     (in_pool_opt (struct_instantiations view) idx \<and>
      arguments_ok view n sdi_type_parameters (struct_instantiations view) idx)"

definition field_inst_operand_ok ::
  "binary_indexed_view \<Rightarrow> nat \<Rightarrow> field_instantiation_index \<Rightarrow> bool" where
  "field_inst_operand_ok view n idx =
     (in_pool_opt (field_instantiations view) idx \<and>
      arguments_ok view n fdi_type_parameters (field_instantiations view) idx)"

definition vector_operand_ok :: "binary_indexed_view \<Rightarrow> nat \<Rightarrow> signature_index \<Rightarrow> bool" where
  "vector_operand_ok view n idx =
     (in_pool (signatures view) idx \<and> signature_params_ok view n idx)"

definition instruction_ok ::
  "binary_indexed_view \<Rightarrow> nat \<Rightarrow> nat \<Rightarrow> nat \<Rightarrow> bytecode \<Rightarrow> bool" where
  "instruction_ok view n locals_count code_len instr =
     (case instr of
        LdConst idx \<Rightarrow> in_pool (constant_pool view) idx
      | MutBorrowField idx \<Rightarrow> in_pool_opt (field_handles view) idx
      | ImmBorrowField idx \<Rightarrow> in_pool_opt (field_handles view) idx
      | MutBorrowFieldGeneric idx \<Rightarrow> field_inst_operand_ok view n idx
      | ImmBorrowFieldGeneric idx \<Rightarrow> field_inst_operand_ok view n idx
      | Call idx \<Rightarrow> in_pool (function_handles view) idx
      | CallGeneric idx \<Rightarrow> in_pool (function_instantiations view) idx \<and>
          arguments_ok view n fi_type_parameters (Some (function_instantiations view)) idx
      | Pack idx \<Rightarrow> in_pool_opt (struct_defs view) idx
      | Unpack idx \<Rightarrow> in_pool_opt (struct_defs view) idx
      | Exists idx \<Rightarrow> in_pool_opt (struct_defs view) idx
      | ImmBorrowGlobal idx \<Rightarrow> in_pool_opt (struct_defs view) idx
      | MutBorrowGlobal idx \<Rightarrow> in_pool_opt (struct_defs view) idx
      | MoveFrom idx \<Rightarrow> in_pool_opt (struct_defs view) idx
      | MoveTo idx \<Rightarrow> in_pool_opt (struct_defs view) idx
      | PackGeneric idx \<Rightarrow> struct_inst_operand_ok view n idx
      | UnpackGeneric idx \<Rightarrow> struct_inst_operand_ok view n idx
      | ExistsGeneric idx \<Rightarrow> struct_inst_operand_ok view n idx
      | ImmBorrowGlobalGeneric idx \<Rightarrow> struct_inst_operand_ok view n idx
      | MutBorrowGlobalGeneric idx \<Rightarrow> struct_inst_operand_ok view n idx
      | MoveFromGeneric idx \<Rightarrow> struct_inst_operand_ok view n idx
      | MoveToGeneric idx \<Rightarrow> struct_inst_operand_ok view n idx
      | BrTrue off \<Rightarrow> unat off < code_len
      | BrFalse off \<Rightarrow> unat off < code_len
      | Branch off \<Rightarrow> unat off < code_len
      | CopyLoc idx \<Rightarrow> unat idx < locals_count
      | MoveLoc idx \<Rightarrow> unat idx < locals_count
      | StLoc idx \<Rightarrow> unat idx < locals_count
      | MutBorrowLoc idx \<Rightarrow> unat idx < locals_count
      | ImmBorrowLoc idx \<Rightarrow> unat idx < locals_count
      | VecPack idx _ \<Rightarrow> vector_operand_ok view n idx
      | VecLen idx \<Rightarrow> vector_operand_ok view n idx
      | VecImmBorrow idx \<Rightarrow> vector_operand_ok view n idx
      | VecMutBorrow idx \<Rightarrow> vector_operand_ok view n idx
      | VecPushBack idx \<Rightarrow> vector_operand_ok view n idx
      | VecPopBack idx \<Rightarrow> vector_operand_ok view n idx
      | VecUnpack idx _ \<Rightarrow> vector_operand_ok view n idx
      | VecSwap idx \<Rightarrow> vector_operand_ok view n idx
      | _ \<Rightarrow> True)"

definition body_ok :: "binary_indexed_view \<Rightarrow> code_unit \<Rightarrow> nat \<Rightarrow> signature \<Rightarrow> bool" where
  "body_ok view code n parameters =
     (in_pool (signatures view) (cu_locals code) \<and>
      (\<forall>ty \<in> set (signatures view ! unat (cu_locals code)). type_params_ok n ty) \<and>
      (\<forall>instr \<in> set (cu_code code). instruction_ok view n
         (length (signatures view ! unat (cu_locals code)) + length parameters)
         (length (cu_code code)) instr))"

definition function_definition_ok :: "binary_indexed_view \<Rightarrow> function_definition \<Rightarrow> bool" where
  "function_definition_ok view fd =
     (in_pool (function_handles view) (fd_function fd) \<and>
      (\<forall>idx \<in> set (fd_acquires_global_resources fd). in_pool_opt (struct_defs view) idx) \<and>
      (\<forall>code fh parameters. fd_code fd = Some code \<and> fh = function_handles view ! unat (fd_function fd) \<and>
         parameters = signatures view ! unat (fh_parameters fh) \<longrightarrow>
         body_ok view code (length (fh_type_parameters fh)) parameters \<and>
         length (signatures view ! unat (cu_locals code)) + length parameters \<le> 256))"

definition tables_in_bounds :: "binary_indexed_view \<Rightarrow> bool" where
  "tables_in_bounds view =
     ((\<forall>sig \<in> set (signatures view). \<forall>ty \<in> set sig. type_ok view ty) \<and>
      (\<forall>c \<in> set (constant_pool view). type_ok view (const_type c)) \<and>
      (\<forall>mh \<in> set (module_handles view) \<union> set (opt_list (friend_decls view)). module_handle_ok view mh) \<and>
      (\<forall>idx. self_handle_idx view = Some idx \<longrightarrow> in_pool (module_handles view) idx) \<and>
      (\<forall>sh \<in> set (struct_handles view). struct_handle_ok view sh) \<and>
      (\<forall>fh \<in> set (function_handles view). function_handle_ok view fh) \<and>
      (\<forall>fh \<in> set (opt_list (field_handles view)). field_handle_ok view fh) \<and>
      (\<forall>si \<in> set (opt_list (struct_instantiations view)). in_pool_opt (struct_defs view) (sdi_def si) \<and>
         in_pool (signatures view) (sdi_type_parameters si)) \<and>
      (\<forall>fi \<in> set (function_instantiations view). in_pool (function_handles view) (fi_handle fi) \<and>
         in_pool (signatures view) (fi_type_parameters fi)) \<and>
      (\<forall>fi \<in> set (opt_list (field_instantiations view)). in_pool_opt (field_handles view) (fdi_handle fi) \<and>
         in_pool (signatures view) (fdi_type_parameters fi)) \<and>
      (\<forall>sd \<in> set (opt_list (struct_defs view)). struct_definition_ok view sd) \<and>
      (\<forall>fd \<in> set (opt_list (function_defs view)). function_definition_ok view fd))"

definition module_in_bounds :: "compiled_module \<Rightarrow> bool" where
  "module_in_bounds module = (cm_module_handles module \<noteq> [] \<and> tables_in_bounds (ViewModule module))"

text \<open>
  A script has no table of struct definitions, fields or their instantiations. The operands of the
  instructions on structs, fields and global storage, which index these tables in a module, are therefore not
  constrained in a script: they fall under the last case.
\<close>

definition script_instruction_ok ::
  "compiled_script \<Rightarrow> nat \<Rightarrow> nat \<Rightarrow> nat \<Rightarrow> bytecode \<Rightarrow> bool" where
  "script_instruction_ok script n locals_count code_len instr =
     (case instr of
        LdConst idx \<Rightarrow> in_pool (cs_constant_pool script) idx
      | Call idx \<Rightarrow> in_pool (cs_function_handles script) idx
      | CallGeneric idx \<Rightarrow> in_pool (cs_function_instantiations script) idx \<and>
          signature_params_ok (ViewScript script) n
            (fi_type_parameters (cs_function_instantiations script ! unat idx))
      | BrTrue off \<Rightarrow> unat off < code_len
      | BrFalse off \<Rightarrow> unat off < code_len
      | Branch off \<Rightarrow> unat off < code_len
      | CopyLoc idx \<Rightarrow> unat idx < locals_count
      | MoveLoc idx \<Rightarrow> unat idx < locals_count
      | StLoc idx \<Rightarrow> unat idx < locals_count
      | MutBorrowLoc idx \<Rightarrow> unat idx < locals_count
      | ImmBorrowLoc idx \<Rightarrow> unat idx < locals_count
      | VecPack idx _ \<Rightarrow> vector_operand_ok (ViewScript script) n idx
      | VecLen idx \<Rightarrow> vector_operand_ok (ViewScript script) n idx
      | VecImmBorrow idx \<Rightarrow> vector_operand_ok (ViewScript script) n idx
      | VecMutBorrow idx \<Rightarrow> vector_operand_ok (ViewScript script) n idx
      | VecPushBack idx \<Rightarrow> vector_operand_ok (ViewScript script) n idx
      | VecPopBack idx \<Rightarrow> vector_operand_ok (ViewScript script) n idx
      | VecUnpack idx _ \<Rightarrow> vector_operand_ok (ViewScript script) n idx
      | VecSwap idx \<Rightarrow> vector_operand_ok (ViewScript script) n idx
      | _ \<Rightarrow> True)"

definition script_in_bounds :: "compiled_script \<Rightarrow> bool" where
  "script_in_bounds script =
     ((\<forall>sig \<in> set (cs_signatures script). \<forall>ty \<in> set sig. type_ok (ViewScript script) ty) \<and>
      (\<forall>c \<in> set (cs_constant_pool script). type_ok (ViewScript script) (const_type c)) \<and>
      (\<forall>mh \<in> set (cs_module_handles script). module_handle_ok (ViewScript script) mh) \<and>
      (\<forall>sh \<in> set (cs_struct_handles script). struct_handle_ok (ViewScript script) sh) \<and>
      (\<forall>fh \<in> set (cs_function_handles script). function_handle_ok (ViewScript script) fh) \<and>
      (\<forall>fi \<in> set (cs_function_instantiations script). in_pool (cs_function_handles script) (fi_handle fi) \<and>
         in_pool (cs_signatures script) (fi_type_parameters fi)) \<and>
      in_pool (cs_signatures script) (cs_parameters script) \<and>
      signature_params_ok (ViewScript script) (length (cs_type_parameters script)) (cs_parameters script) \<and>
      in_pool (cs_signatures script) (cu_locals (cs_code script)) \<and>
      signature_params_ok (ViewScript script) (length (cs_type_parameters script)) (cu_locals (cs_code script)) \<and>
      (\<forall>instr \<in> set (cu_code (cs_code script)). script_instruction_ok script (length (cs_type_parameters script))
         (length (cs_signatures script ! unat (cu_locals (cs_code script))) +
          length (cs_signatures script ! unat (cs_parameters script)))
         (length (cu_code (cs_code script))) instr))"

section \<open>Each check accepts what it should\<close>

lemma check_bounds_impl_Ok [ok_iff]: "check_bounds_impl kind pool idx = Ok u \<longleftrightarrow> in_pool pool idx"
  by (auto simp: check_bounds_impl_def in_pool_def)

lemma check_bounds_impl_opt_Ok [ok_iff]:
  "check_bounds_impl_opt kind pool idx = Ok u \<longleftrightarrow> in_pool_opt pool idx"
  by (auto simp: check_bounds_impl_opt_def in_pool_opt_def check_bounds_impl_Ok split: option.splits)

lemma check_code_unit_bounds_impl_Ok [ok_iff]:
  "check_code_unit_bounds_impl ctx pool idx pc = Ok u \<longleftrightarrow> in_pool pool idx"
  by (auto simp: check_code_unit_bounds_impl_def in_pool_def)

lemma check_code_unit_bounds_impl_opt_Ok [ok_iff]:
  "check_code_unit_bounds_impl_opt ctx pool idx pc = Ok u \<longleftrightarrow> in_pool_opt pool idx"
  by (auto simp: check_code_unit_bounds_impl_opt_def in_pool_opt_def check_code_unit_bounds_impl_Ok
      split: option.splits)

lemma vec_get_in_pool: "vec_get pool (unat idx) = (if in_pool pool idx then Some (pool ! unat idx) else None)"
  by (simp add: vec_get_def in_pool_def)

lemma check_type_Ok [ok_iff]: "check_type view ty = Ok u \<longleftrightarrow> type_ok view ty"
proof -
  have "check_type_node view t = Ok () \<longleftrightarrow>
      (case t of
        Struct idx \<Rightarrow> in_pool (struct_handles view) idx \<and>
          sh_type_parameters (struct_handles view ! unat idx) = []
      | StructInstantiation idx args \<Rightarrow> in_pool (struct_handles view) idx \<and>
          length (sh_type_parameters (struct_handles view ! unat idx)) = length args
      | _ \<Rightarrow> True)" for t
    by (cases t) (auto simp: check_type_node_def rbind_eq_Ok vec_get_in_pool ok_iff)
  then show ?thesis by (simp add: check_type_def for_all_eq_Ok type_ok_def)
qed

lemma check_type_parameter_Ok [ok_iff]: "check_type_parameter ty n = Ok u \<longleftrightarrow> type_params_ok n ty"
proof -
  have "(case t of
         TypeParameter idx \<Rightarrow> ensure (unat idx < n) (bounds_error INDEX_OUT_OF_BOUNDS IK_TypeParameter (unat idx))
       | _ \<Rightarrow> Ok ()) = Ok () \<longleftrightarrow> (case t of TypeParameter idx \<Rightarrow> unat idx < n | _ \<Rightarrow> True)" for t
    by (cases t) (auto simp: ensure_eq_Ok)
  then show ?thesis by (simp add: check_type_parameter_def for_all_eq_Ok type_params_ok_def)
qed

lemma check_signature_parameters_Ok [ok_iff]:
  "check_signature_parameters view idx n = Ok u \<longleftrightarrow> signature_params_ok view n idx"
  by (auto simp: check_signature_parameters_def signature_params_ok_def vec_get_in_pool for_all_eq_Ok
      check_type_parameter_Ok)

lemma check_instantiation_parameters_Ok [ok_iff]:
  "check_instantiation_parameters view tys table idx n = Ok u \<longleftrightarrow> arguments_ok view n tys table idx"
  by (auto simp: check_instantiation_parameters_def arguments_ok_def vec_get_in_pool
      check_signature_parameters_Ok split: option.splits)

lemma check_module_handle_Ok [ok_iff]: "check_module_handle view mh = Ok u \<longleftrightarrow> module_handle_ok view mh"
  by (auto simp: check_module_handle_def module_handle_ok_def rbind_eq_Ok check_bounds_impl_Ok)

lemma check_struct_handle_Ok [ok_iff]: "check_struct_handle view sh = Ok u \<longleftrightarrow> struct_handle_ok view sh"
  by (auto simp: check_struct_handle_def struct_handle_ok_def rbind_eq_Ok check_bounds_impl_Ok)

lemma check_function_handle_Ok [ok_iff]:
  "check_function_handle view fh = Ok u \<longleftrightarrow> function_handle_ok view fh"
  by (auto simp: check_function_handle_def function_handle_ok_def rbind_eq_Ok check_bounds_impl_Ok
      check_signature_parameters_Ok)

lemma check_field_handle_Ok [ok_iff]: "check_field_handle view fh = Ok u \<longleftrightarrow> field_handle_ok view fh"
  by (auto simp: check_field_handle_def field_handle_ok_def rbind_eq_Ok check_bounds_impl_opt_Ok
      in_pool_opt_def vec_get_in_pool Let_def split: option.splits struct_field_information.splits if_splits)

lemma check_struct_def_Ok [ok_iff]: "check_struct_def view sd = Ok u \<longleftrightarrow> struct_definition_ok view sd"
  by (cases "sd_field_information sd")
     (auto simp: check_struct_def_def struct_definition_ok_def field_definition_ok_def rbind_eq_Ok
       check_bounds_impl_Ok vec_get_in_pool for_all_eq_Ok check_type_Ok check_type_parameter_Ok Let_def)

lemma check_instruction_bounds_Ok [ok_iff]:
  "check_instruction_bounds ctx view n locals_count code_len (pc, instr) = Ok u \<longleftrightarrow>
     instruction_ok view n locals_count code_len instr"
  by (cases instr)
     (auto simp: check_instruction_bounds_def instruction_ok_def check_field_operand_def
       check_field_instantiation_operand_def check_struct_operand_def
       check_struct_instantiation_operand_def check_jump_operand_def check_local_operand_def
       check_vector_operand_def struct_inst_operand_ok_def field_inst_operand_ok_def
       vector_operand_ok_def rbind_eq_Ok check_code_unit_bounds_impl_Ok
       check_code_unit_bounds_impl_opt_Ok check_instantiation_parameters_Ok
       check_signature_parameters_Ok)

lemma get_locals_Ok:
  "get_locals view code = Ok locals \<longleftrightarrow>
     in_pool (signatures view) (cu_locals code) \<and> locals = signatures view ! unat (cu_locals code)"
  by (auto simp: get_locals_def vec_get_in_pool)

lemma check_code_bounds_Ok [ok_iff]:
  "check_code_bounds ctx view code tps parameters = Ok u \<longleftrightarrow> body_ok view code (length tps) parameters"
  by (auto simp: check_code_bounds_def body_ok_def rbind_eq_Ok check_bounds_impl_Ok get_locals_Ok
      for_all_eq_Ok [of _ "signatures view ! _"] for_all_enumerate check_type_parameter_Ok
      check_instruction_bounds_Ok all_set_conv_all_nth)

lemma body_ok_locals: "body_ok view code n parameters \<Longrightarrow> in_pool (signatures view) (cu_locals code)"
  by (simp add: body_ok_def)

lemma check_function_def_Ok:
  assumes "\<And>fh. fh \<in> set (function_handles view) \<Longrightarrow> in_pool (signatures view) (fh_parameters fh)"
  shows "check_function_def view (i, fd) = Ok u \<longleftrightarrow> function_definition_ok view fd"
proof (cases "in_pool (function_handles view) (fd_function fd)")
  case True
  let ?fh = "function_handles view ! unat (fd_function fd)"
  have "in_pool (signatures view) (fh_parameters ?fh)"
    using True by (intro assms) (simp add: in_pool_def)
  then show ?thesis
    using True
    by (cases "fd_code fd")
       (auto simp: check_function_def_def function_definition_ok_def rbind_eq_Ok check_bounds_impl_Ok
         for_all_eq_Ok check_bounds_impl_opt_Ok vec_index_eq_Ok in_pool_def[symmetric] get_locals_Ok
         check_code_bounds_Ok not_less body_ok_locals split: if_splits)
next
  case False
  then show ?thesis
    by (auto simp: check_function_def_def function_definition_ok_def rbind_eq_Ok check_bounds_impl_Ok)
qed

lemma check_function_defs_Ok:
  assumes "\<And>fh. fh \<in> set (function_handles view) \<Longrightarrow> in_pool (signatures view) (fh_parameters fh)"
  shows "check_function_defs view = Ok u \<longleftrightarrow>
    (\<forall>fd \<in> set (opt_list (function_defs view)). function_definition_ok view fd)"
  by (simp add: check_function_defs_def for_all_enumerate check_function_def_Ok[OF assms]
      all_set_conv_all_nth)

lemma bounds_verify_impl_Ok: "bounds_verify_impl view = Ok u \<longleftrightarrow> tables_in_bounds view"
proof (cases "\<forall>fh \<in> set (function_handles view). function_handle_ok view fh")
  case True
  then have "check_function_defs view = Ok u \<longleftrightarrow>
      (\<forall>fd \<in> set (opt_list (function_defs view)). function_definition_ok view fd)" for u
    by (intro check_function_defs_Ok) (simp add: function_handle_ok_def)
  then show ?thesis
    by (auto simp: bounds_verify_impl_def tables_in_bounds_def rbind_eq_Ok for_all_eq_Ok
        check_signatures_def check_signature_def check_constants_def check_constant_def
        check_module_handles_def check_self_module_handle_def check_struct_handles_def
        check_function_handles_def check_field_handles_def check_friend_decls_def
        check_struct_instantiations_def check_struct_instantiation_def
        check_function_instantiations_def check_function_instantiation_def
        check_field_instantiations_def check_field_instantiation_def check_struct_defs_def
        check_type_Ok check_module_handle_Ok check_struct_handle_Ok check_function_handle_Ok
        check_field_handle_Ok check_struct_def_Ok check_bounds_impl_Ok check_bounds_impl_opt_Ok
        split: option.splits)
next
  case False
  then show ?thesis
    by (auto simp: bounds_verify_impl_def tables_in_bounds_def rbind_eq_Ok for_all_eq_Ok
        check_function_handles_def check_function_handle_Ok)
qed

section \<open>No panic\<close>

lemma check_bounds_impl_not_Panic [no_panic, simp]:
  "check_bounds_impl kind pool idx \<noteq> Panic" "check_bounds_impl_opt kind opt idx \<noteq> Panic"
  "check_code_unit_bounds_impl ctx pool idx pc \<noteq> Panic"
  "check_code_unit_bounds_impl_opt ctx opt idx pc \<noteq> Panic"
  by (auto simp: check_bounds_impl_def check_bounds_impl_opt_def check_code_unit_bounds_impl_def
      check_code_unit_bounds_impl_opt_def split: option.splits if_splits)

lemma check_type_not_Panic [no_panic, simp]: "check_type view ty \<noteq> Panic"
proof -
  have "check_type_node view t \<noteq> Panic" for t
    by (cases t) (auto simp: check_type_node_def rbind_eq_Panic ensure_def split: option.splits if_splits)
  then show ?thesis unfolding check_type_def by (intro for_all_not_Panic) blast
qed

lemma check_type_parameter_not_Panic [no_panic, simp]: "check_type_parameter ty n \<noteq> Panic"
  unfolding check_type_parameter_def
  by (rule for_all_not_Panic) (auto simp: ensure_def split: signature_token.splits if_splits)

lemma for_all_type_parameters_not_Panic [simp]: "for_all (\<lambda>ty. check_type_parameter ty n) tys \<noteq> Panic"
  by (rule for_all_not_Panic) simp

lemma check_signature_parameters_not_Panic [no_panic, simp]:
  "check_signature_parameters view idx n \<noteq> Panic"
  "check_instantiation_parameters view tys table i n \<noteq> Panic"
  by (auto simp: check_instantiation_parameters_def check_signature_parameters_def split: option.splits)

lemma check_instruction_bounds_not_Panic [simp]:
  "check_instruction_bounds ctx view n locals_count code_len x \<noteq> Panic"
proof (cases x)
  case (Pair pc instr)
  show ?thesis
    unfolding Pair
    by (cases instr)
       (auto simp: check_instruction_bounds_def check_field_operand_def
         check_field_instantiation_operand_def check_struct_operand_def
         check_struct_instantiation_operand_def check_jump_operand_def check_local_operand_def
         check_vector_operand_def rbind_eq_Panic)
qed

lemma check_code_bounds_not_Panic: "check_code_bounds ctx view code tps parameters \<noteq> Panic"
proof -
  have "for_all (check_instruction_bounds ctx view n m l) xs \<noteq> Panic" for n m l xs
    by (rule for_all_not_Panic) simp
  then show ?thesis
    by (auto simp: check_code_bounds_def rbind_eq_Panic get_locals_def split: option.splits)
qed

lemma check_function_def_not_Panic:
  assumes "\<And>fh. fh \<in> set (function_handles view) \<Longrightarrow> in_pool (signatures view) (fh_parameters fh)"
  shows "check_function_def view (i, fd) \<noteq> Panic"
proof -
  have acquires: "for_all (check_bounds_impl_opt IK_StructDefinition (struct_defs view)) xs \<noteq> Panic" for xs
    by (rule for_all_not_Panic) simp
  have "in_pool (signatures view) (fh_parameters (function_handles view ! unat (fd_function fd)))"
    if "in_pool (function_handles view) (fd_function fd)"
    using that by (intro assms) (simp add: in_pool_def)
  then show ?thesis
    using acquires check_code_bounds_not_Panic
    by (auto simp: check_function_def_def rbind_eq_Panic rbind_eq_Ok check_bounds_impl_Ok vec_index_eq_Ok
        vec_index_eq_Panic get_locals_def in_pool_def not_le split: option.splits if_splits)
qed

text \<open>The checks of the tables before the function definitions.\<close>

lemma check_entries_not_Panic [simp]:
  "check_signature view sig \<noteq> Panic" "check_constant view c \<noteq> Panic"
  "check_module_handle view mh \<noteq> Panic" "check_self_module_handle view \<noteq> Panic"
  "check_struct_handle view sh \<noteq> Panic" "check_function_handle view fh \<noteq> Panic"
  "check_field_handle view fldh \<noteq> Panic" "check_struct_instantiation view si \<noteq> Panic"
  "check_function_instantiation view fi \<noteq> Panic" "check_field_instantiation view fli \<noteq> Panic"
  "check_struct_def view sd \<noteq> Panic"
  by (auto simp: check_signature_def check_constant_def check_module_handle_def
      check_self_module_handle_def check_struct_handle_def check_function_handle_def
      check_field_handle_def check_struct_instantiation_def check_function_instantiation_def
      check_field_instantiation_def check_struct_def_def Let_def rbind_eq_Panic
      intro!: for_all_not_Panic split: option.splits struct_field_information.splits if_splits)

lemma check_tables_not_Panic:
  "check_signatures view \<noteq> Panic" "check_constants view \<noteq> Panic" "check_module_handles view \<noteq> Panic"
  "check_struct_handles view \<noteq> Panic" "check_function_handles view \<noteq> Panic"
  "check_field_handles view \<noteq> Panic" "check_friend_decls view \<noteq> Panic"
  "check_struct_instantiations view \<noteq> Panic" "check_function_instantiations view \<noteq> Panic"
  "check_field_instantiations view \<noteq> Panic" "check_struct_defs view \<noteq> Panic"
  unfolding check_signatures_def check_constants_def check_module_handles_def
    check_struct_handles_def check_function_handles_def check_field_handles_def
    check_friend_decls_def check_struct_instantiations_def check_function_instantiations_def
    check_field_instantiations_def check_struct_defs_def
  by (rule for_all_not_Panic, simp)+

lemma bounds_verify_impl_not_Panic: "bounds_verify_impl view \<noteq> Panic"
proof -
  have "check_function_defs view \<noteq> Panic" if "check_function_handles view = Ok u" for u
    unfolding check_function_defs_def
  proof (rule for_all_not_Panic)
    fix x assume "x \<in> set (enumerate_from_zero (opt_list (function_defs view)))"
    have "\<And>fh. fh \<in> set (function_handles view) \<Longrightarrow> in_pool (signatures view) (fh_parameters fh)"
      using that
      by (auto simp: check_function_handles_def for_all_eq_Ok check_function_handle_Ok function_handle_ok_def)
    then show "check_function_def view x \<noteq> Panic"
      by (cases x) (simp add: check_function_def_not_Panic)
  qed
  then show ?thesis
    by (simp add: bounds_verify_impl_def rbind_eq_Panic check_tables_not_Panic)
qed

section \<open>The pass\<close>

lemma bounds_verify_module_Ok: "bounds_verify_module m = Ok u \<longleftrightarrow> module_in_bounds m"
  by (simp add: bounds_verify_module_def module_in_bounds_def bounds_verify_impl_Ok module_handles_def)

lemmas view_tables = module_handles_def struct_handles_def function_handles_def identifiers_def
  address_identifiers_def constant_pool_def signatures_def function_instantiations_def
  field_handles_def friend_decls_def struct_instantiations_def field_instantiations_def
  struct_defs_def function_defs_def self_handle_idx_def opt_list_def

lemma script_instruction_view:
  "instruction_ok (ViewScript s) n locals_count code_len instr =
    script_instruction_ok s n locals_count code_len instr"
  by (cases instr)
     (auto simp: instruction_ok_def script_instruction_ok_def in_pool_opt_def arguments_ok_def
       struct_inst_operand_ok_def field_inst_operand_ok_def view_tables)

lemma script_in_bounds_view:
  "script_in_bounds s \<longleftrightarrow> tables_in_bounds (ViewScript s) \<and> in_pool (cs_signatures s) (cs_parameters s) \<and>
     signature_params_ok (ViewScript s) (length (cs_type_parameters s)) (cs_parameters s) \<and>
     body_ok (ViewScript s) (cs_code s) (length (cs_type_parameters s)) (cs_signatures s ! unat (cs_parameters s))"
  unfolding script_in_bounds_def body_ok_def script_instruction_view tables_in_bounds_def
  by (auto simp: view_tables signature_params_ok_def)

lemma bounds_verify_script_Ok: "bounds_verify_script s = Ok u \<longleftrightarrow> script_in_bounds s"
  by (auto simp: bounds_verify_script_def script_in_bounds_view Let_def rbind_eq_Ok bounds_verify_impl_Ok
      check_bounds_impl_Ok check_signature_parameters_Ok check_code_bounds_Ok unwrap_eq_Ok vec_get_eq_Some
      in_pool_def signatures_def)

lemma bounds_verify_module_not_Panic: "bounds_verify_module m \<noteq> Panic"
  by (simp add: bounds_verify_module_def bounds_verify_impl_not_Panic)

lemma bounds_verify_script_not_Panic: "bounds_verify_script s \<noteq> Panic"
  by (auto simp: bounds_verify_script_def Let_def rbind_eq_Panic
      bounds_verify_impl_not_Panic check_bounds_impl_Ok check_code_bounds_not_Panic unwrap_eq_Panic
      vec_get_def in_pool_def)


text \<open>C18: The bounds checker accepts a script exactly when every index into the tables that a script has is in
  bounds: in its types, handles and function instantiations, its parameters and locals, and the operands of the
  instructions that load constants, call functions, jump, use locals or vectors; type parameters are within their
  scope. Operands that name struct definitions, fields or their instantiations, for which a script has no tables,
  are not looked at.\<close>

theorem bounds_verify_script_iff: "bounds_verify_script s = Ok () \<longleftrightarrow> script_in_bounds s"
  by (rule bounds_verify_script_Ok)

text \<open>C19: The bounds checker, which runs before any other check has been made, never panics, whatever the
  module or script: each of its own direct accesses to a pool follows the check that makes it safe.\<close>

theorem bounds_verify_no_panic: "bounds_verify_module m \<noteq> Panic \<and> bounds_verify_script s \<noteq> Panic"
  by (simp add: bounds_verify_module_not_Panic bounds_verify_script_not_Panic)

end
