(* ===== verification/In_Bounds.thy ===== *)
theory In_Bounds
  imports Check_Bounds
begin

text \<open>
  What the later passes take from the bounds checker: on tables that are in bounds, an accessor of
  \<^verbatim>\<open>BinaryIndexedView\<close> applied to an index of a table or of an instruction does not panic, and the
  types found in the tables are in bounds. The lemmas of the collection \<open>resolves\<close> rewrite the
  accessors of a module to the entries they return.
\<close>

named_theorems resolves \<open>accessors on indices in bounds\<close>

section \<open>Accessors\<close>

lemma accessors_in_pool [resolves]:
  "in_pool (signatures view) sig \<Longrightarrow> signature_at view sig = Ok (signatures view ! unat sig)"
  "in_pool (struct_handles view) sh \<Longrightarrow> struct_handle_at view sh = Ok (struct_handles view ! unat sh)"
  "in_pool (function_handles view) fh \<Longrightarrow> function_handle_at view fh = Ok (function_handles view ! unat fh)"
  "in_pool (function_instantiations view) fi \<Longrightarrow>
     function_instantiation_at view fi = Ok (function_instantiations view ! unat fi)"
  "in_pool (module_handles view) mh \<Longrightarrow> module_handle_at view mh = Ok (module_handles view ! unat mh)"
  "in_pool (identifiers view) i \<Longrightarrow> identifier_at view i = Ok (identifiers view ! unat i)"
  "in_pool (address_identifiers view) a \<Longrightarrow>
     address_identifier_at view a = Ok (address_identifiers view ! unat a)"
  "in_pool (constant_pool view) c \<Longrightarrow> constant_at view c = Ok (constant_pool view ! unat c)"
  by (simp_all add: in_pool_def signature_at_def struct_handle_at_def function_handle_at_def
      function_instantiation_at_def module_handle_at_def identifier_at_def address_identifier_at_def
      constant_at_def)

lemma accessors_not_Panic [no_panic]:
  "in_pool (signatures view) sig \<Longrightarrow> signature_at view sig \<noteq> Panic"
  "in_pool (struct_handles view) sh \<Longrightarrow> struct_handle_at view sh \<noteq> Panic"
  "in_pool (function_handles view) fh \<Longrightarrow> function_handle_at view fh \<noteq> Panic"
  "in_pool (function_instantiations view) fi \<Longrightarrow> function_instantiation_at view fi \<noteq> Panic"
  "in_pool (constant_pool view) c \<Longrightarrow> constant_at view c \<noteq> Panic"
  by (simp_all add: accessors_in_pool)

text \<open>The tables that only modules have: an entry for a module, an error for a script.\<close>

lemma module_table_not_Panic:
  "in_pool_opt table idx \<Longrightarrow> module_table_at table (unat idx) \<noteq> Panic"
  by (auto simp: module_table_at_def in_pool_opt_def in_pool_def split: option.splits)

lemma module_accessors_not_Panic [no_panic]:
  "in_pool_opt (struct_defs view) sd \<Longrightarrow> struct_def_at view sd \<noteq> Panic"
  "in_pool_opt (struct_instantiations view) si \<Longrightarrow> struct_instantiation_at view si \<noteq> Panic"
  "in_pool_opt (field_handles view) flh \<Longrightarrow> field_handle_at view flh \<noteq> Panic"
  "in_pool_opt (field_instantiations view) fli \<Longrightarrow> field_instantiation_at view fli \<noteq> Panic"
  by (simp_all add: struct_def_at_def struct_instantiation_at_def field_handle_at_def
      field_instantiation_at_def module_table_not_Panic)

lemma module_table_entry: "module_table_at table i = Ok x \<Longrightarrow> x \<in> set (opt_list table)"
  by (auto simp: module_table_at_def opt_list_def vec_index_eq_Ok split: option.splits)

lemma accessor_entries:
  "signature_at view sig_idx = Ok sig \<Longrightarrow> sig \<in> set (signatures view)"
  "struct_handle_at view sh_idx = Ok sh \<Longrightarrow> sh \<in> set (struct_handles view)"
  "function_handle_at view fh_idx = Ok fh \<Longrightarrow> fh \<in> set (function_handles view)"
  "function_instantiation_at view fi_idx = Ok fi \<Longrightarrow> fi \<in> set (function_instantiations view)"
  "struct_def_at view sd_idx = Ok sd \<Longrightarrow> sd \<in> set (opt_list (struct_defs view))"
  "struct_instantiation_at view si_idx = Ok si \<Longrightarrow> si \<in> set (opt_list (struct_instantiations view))"
  "field_handle_at view flh_idx = Ok flh \<Longrightarrow> flh \<in> set (opt_list (field_handles view))"
  "field_instantiation_at view fli_idx = Ok fli \<Longrightarrow> fli \<in> set (opt_list (field_instantiations view))"
  by (auto simp: signature_at_def struct_handle_at_def function_handle_at_def
      function_instantiation_at_def struct_def_at_def struct_instantiation_at_def field_handle_at_def
      field_instantiation_at_def vec_index_eq_Ok dest: module_table_entry)

section \<open>Entries of tables in bounds\<close>

lemma function_handle_resolves [resolves]:
  assumes "tables_in_bounds view" "function_handle_at view idx = Ok fh"
  shows "in_pool (signatures view) (fh_parameters fh)" "in_pool (signatures view) (fh_return fh)"
    "in_pool (module_handles view) (fh_module fh)" "in_pool (identifiers view) (fh_name fh)"
  using assms accessor_entries(3)[OF assms(2)] by (auto simp: tables_in_bounds_def function_handle_ok_def)

lemma struct_handle_resolves [resolves]:
  assumes "tables_in_bounds view" "struct_handle_at view idx = Ok sh"
  shows "in_pool (module_handles view) (sh_module sh)" "in_pool (identifiers view) (sh_name sh)"
  using assms accessor_entries(2)[OF assms(2)] by (auto simp: tables_in_bounds_def struct_handle_ok_def)

lemma struct_def_resolves [resolves]:
  assumes "tables_in_bounds view" "struct_def_at view idx = Ok sd"
  shows "in_pool (struct_handles view) (sd_struct_handle sd)"
  using assms accessor_entries(5)[OF assms(2)] by (auto simp: tables_in_bounds_def struct_definition_ok_def)

lemma function_instantiation_resolves [resolves]:
  assumes "tables_in_bounds view" "function_instantiation_at view idx = Ok fi"
  shows "in_pool (function_handles view) (fi_handle fi)" "in_pool (signatures view) (fi_type_parameters fi)"
  using assms accessor_entries(4)[OF assms(2)] by (auto simp: tables_in_bounds_def)

lemma struct_instantiation_resolves [resolves]:
  assumes "tables_in_bounds view" "struct_instantiation_at view idx = Ok si"
  shows "in_pool_opt (struct_defs view) (sdi_def si)" "in_pool (signatures view) (sdi_type_parameters si)"
  using assms accessor_entries(6)[OF assms(2)] by (auto simp: tables_in_bounds_def)

lemma field_handle_resolves [resolves]:
  assumes "tables_in_bounds view" "field_handle_at view idx = Ok flh"
  shows "in_pool_opt (struct_defs view) (fdh_owner flh)"
  using assms accessor_entries(7)[OF assms(2)]
  by (auto simp: tables_in_bounds_def field_handle_ok_def in_pool_opt_def split: option.splits)

lemma field_instantiation_resolves [resolves]:
  assumes "tables_in_bounds view" "field_instantiation_at view idx = Ok fli"
  shows "in_pool_opt (field_handles view) (fdi_handle fli)" "in_pool (signatures view) (fdi_type_parameters fli)"
  using assms accessor_entries(8)[OF assms(2)] by (auto simp: tables_in_bounds_def)

text \<open>The field that a field handle names.\<close>

lemma field_handle_field:
  assumes "tables_in_bounds view" "field_handle_at view idx = Ok flh"
    and "struct_def_at view (fdh_owner flh) = Ok sd"
  shows "\<exists>f. field sd (unat (fdh_field flh)) = Some f"
  using assms accessor_entries(7)[OF assms(2)]
  by (auto simp: tables_in_bounds_def field_handle_ok_def struct_def_at_def module_table_at_def
      vec_index_eq_Ok field_def vec_get_def split: option.splits)

section \<open>Types\<close>

lemma token_in_bounds_iff: "token_in_bounds view n ty \<longleftrightarrow> type_ok view ty \<and> type_params_ok n ty"
proof -
  have "(case t of
        Struct idx \<Rightarrow> unat idx < length (struct_handles view) \<and>
          sh_type_parameters (struct_handles view ! unat idx) = []
      | StructInstantiation idx args \<Rightarrow> unat idx < length (struct_handles view) \<and>
          length (sh_type_parameters (struct_handles view ! unat idx)) = length args
      | TypeParameter idx \<Rightarrow> unat idx < n
      | _ \<Rightarrow> True) \<longleftrightarrow>
    (case t of
        Struct idx \<Rightarrow> in_pool (struct_handles view) idx \<and>
          sh_type_parameters (struct_handles view ! unat idx) = []
      | StructInstantiation idx args \<Rightarrow> in_pool (struct_handles view) idx \<and>
          length (sh_type_parameters (struct_handles view ! unat idx)) = length args
      | _ \<Rightarrow> True) \<and> (case t of TypeParameter idx \<Rightarrow> unat idx < n | _ \<Rightarrow> True)" for t
    by (cases t) (auto simp: in_pool_def)
  then show ?thesis
    unfolding token_in_bounds_def type_ok_def type_params_ok_def by auto
qed

lemma signature_tokens_in_bounds:
  assumes "tables_in_bounds view" "signature_at view idx = Ok sig" "signature_params_ok view n idx"
    and "ty \<in> set sig"
  shows "token_in_bounds view n ty"
  using assms accessor_entries(1)[OF assms(2)]
  by (auto simp: token_in_bounds_iff tables_in_bounds_def signature_params_ok_def in_pool_def
      signature_at_def vec_index_eq_Ok)

lemma function_handle_tokens:
  assumes "tables_in_bounds view" "function_handle_at view idx = Ok fh"
    and "sig_idx = fh_parameters fh \<or> sig_idx = fh_return fh"
    and "signature_at view sig_idx = Ok sig" "ty \<in> set sig"
  shows "token_in_bounds view (length (fh_type_parameters fh)) ty"
proof (rule signature_tokens_in_bounds[OF assms(1,4) _ assms(5)])
  show "signature_params_ok view (length (fh_type_parameters fh)) sig_idx"
    using assms(1,3) accessor_entries(3)[OF assms(2)]
    by (auto simp: tables_in_bounds_def function_handle_ok_def)
qed

lemma field_tokens:
  assumes "tables_in_bounds view" "sd \<in> set (opt_list (struct_defs view))"
    and "sd_field_information sd = Declared fs" "f \<in> set fs"
  shows "token_in_bounds view
    (length (sh_type_parameters (struct_handles view ! unat (sd_struct_handle sd)))) (fdd_signature f)"
  using assms
  by (auto simp: token_in_bounds_iff tables_in_bounds_def struct_definition_ok_def field_definition_ok_def)

section \<open>Bodies\<close>

lemma body_ok_instruction:
  "body_ok view code n parameters \<Longrightarrow> instr \<in> set (cu_code code) \<Longrightarrow>
     instruction_ok view n (length (signatures view ! unat (cu_locals code)) + length parameters)
       (length (cu_code code)) instr"
  by (simp add: body_ok_def)

lemma function_body_ok:
  assumes "tables_in_bounds view" "fd \<in> set (opt_list (function_defs view))" "fd_code fd = Some code"
    and "function_handle_at view (fd_function fd) = Ok fh" "signature_at view (fh_parameters fh) = Ok parameters"
  shows "body_ok view code (length (fh_type_parameters fh)) parameters"
    "length (signatures view ! unat (cu_locals code)) + length parameters \<le> 256"
  using assms
  by (auto simp: tables_in_bounds_def function_definition_ok_def function_handle_at_def signature_at_def
      vec_index_eq_Ok)

lemma function_def_resolves [resolves]:
  assumes "tables_in_bounds view" "fd \<in> set (opt_list (function_defs view))"
  shows "in_pool (function_handles view) (fd_function fd)"
    "\<And>idx. idx \<in> set (fd_acquires_global_resources fd) \<Longrightarrow> in_pool_opt (struct_defs view) idx"
  using assms by (auto simp: tables_in_bounds_def function_definition_ok_def)

section \<open>Accepted modules and scripts\<close>

lemma bounds_verify_tables: "bounds_verify_module m = Ok () \<Longrightarrow> tables_in_bounds (ViewModule m)"
  by (auto simp: bounds_verify_module_def bounds_verify_impl_Ok split: if_splits)

lemma bounds_verify_script_tables:
  assumes "bounds_verify_script s = Ok ()"
  shows "tables_in_bounds (ViewScript s)" "in_pool (signatures (ViewScript s)) (cs_parameters s)"
    "signature_params_ok (ViewScript s) (length (cs_type_parameters s)) (cs_parameters s)"
    "body_ok (ViewScript s) (cs_code s) (length (cs_type_parameters s))
       (signatures (ViewScript s) ! unat (cs_parameters s))"
  using assms
  by (auto simp: bounds_verify_script_def Let_def rbind_eq_Ok bounds_verify_impl_Ok check_bounds_impl_Ok
      check_signature_parameters_Ok check_code_bounds_Ok unwrap_eq_Ok vec_get_eq_Some)

end
