(* ===== verification/Example_Module.thy ===== *)
theory Example_Module
  imports In_Bounds
begin

text \<open>
  A small module on which the properties of the passes are instantiated. It declares
  \<^verbatim>\<open>struct Coin has store, key { value: u64 }\<close>, \<^verbatim>\<open>struct Box<T: store> has store { item: T }\<close>,
  \<^verbatim>\<open>fun balance(a: address): u64 acquires Coin\<close> and \<^verbatim>\<open>fun wrap(v: u64): Box<u64>\<close>.
\<close>

definition example_module :: compiled_module where
  "example_module = \<lparr>
     cm_version = 4, cm_self_module_handle_idx = 0,
     cm_module_handles = [\<lparr>mh_address = 0, mh_name = 0\<rparr>],
     cm_struct_handles =
       [\<lparr>sh_module = 0, sh_name = 1, sh_abilities = 0xC, sh_type_parameters = []\<rparr>,
        \<lparr>sh_module = 0, sh_name = 2, sh_abilities = 4,
         sh_type_parameters = [\<lparr>stp_constraints = 4, stp_is_phantom = False\<rparr>]\<rparr>],
     cm_function_handles =
       [\<lparr>fh_module = 0, fh_name = 3, fh_parameters = 1, fh_return = 2, fh_type_parameters = []\<rparr>,
        \<lparr>fh_module = 0, fh_name = 4, fh_parameters = 2, fh_return = 3, fh_type_parameters = []\<rparr>],
     cm_field_handles = [\<lparr>fdh_owner = 0, fdh_field = 0\<rparr>],
     cm_friend_decls = [],
     cm_struct_def_instantiations = [\<lparr>sdi_def = 1, sdi_type_parameters = 2\<rparr>],
     cm_function_instantiations = [], cm_field_instantiations = [],
     cm_signatures = [[], [Address], [U64], [StructInstantiation 1 [U64]]],
     cm_identifiers = [''M'', ''Coin'', ''Box'', ''balance'', ''wrap'', ''value'', ''item''],
     cm_address_identifiers = [replicate 15 0 @ [1]],
     cm_constant_pool = [],
     cm_struct_defs =
       [\<lparr>sd_struct_handle = 0, sd_field_information = Declared [\<lparr>fdd_name = 5, fdd_signature = U64\<rparr>]\<rparr>,
        \<lparr>sd_struct_handle = 1,
         sd_field_information = Declared [\<lparr>fdd_name = 6, fdd_signature = TypeParameter 0\<rparr>]\<rparr>],
     cm_function_defs =
       [\<lparr>fd_function = 0, fd_visibility = Public, fd_acquires_global_resources = [0],
         fd_code = Some \<lparr>cu_locals = 0,
           cu_code = [MoveLoc 0, ImmBorrowGlobal 0, ImmBorrowField 0, ReadRef, Ret]\<rparr>\<rparr>,
        \<lparr>fd_function = 1, fd_visibility = Public, fd_acquires_global_resources = [],
         fd_code = Some \<lparr>cu_locals = 0, cu_code = [MoveLoc 0, PackGeneric 0, Ret]\<rparr>\<rparr>]\<rparr>"

lemmas bounds_predicates = tables_in_bounds_def module_handle_ok_def struct_handle_ok_def
  function_handle_ok_def field_handle_ok_def struct_definition_ok_def field_definition_ok_def
  function_definition_ok_def body_ok_def instruction_ok_def type_ok_def type_params_ok_def
  signature_params_ok_def struct_inst_operand_ok_def field_inst_operand_ok_def arguments_ok_def
  vector_operand_ok_def in_pool_def in_pool_opt_def

lemma example_in_bounds: "tables_in_bounds (ViewModule example_module)"
  by (simp add: example_module_def bounds_predicates view_tables)

lemma example_bounds_accepted: "bounds_verify_module example_module = Ok ()"
  using example_in_bounds
  by (simp add: bounds_verify_module_def bounds_verify_impl_Ok module_handles_def)
     (simp add: example_module_def)

end
