(* ===== verification/Instruction_Consistency.thy ===== *)
theory Instruction_Consistency
  imports Example_Module
begin

text \<open>
  The pass \<^verbatim>\<open>move-bytecode-verifier/src/instruction_consistency.rs\<close>: an instruction in its generic
  form names a member with type parameters, one in its plain form a member without. The property
  states the pass on tables in bounds by the struct or function that each instruction names.
\<close>

section \<open>The pass\<close>

definition opcode_mismatch :: "nat option \<Rightarrow> nat \<Rightarrow> partial_vm_error" where
  "opcode_mismatch current_function off =
     at_code_offset (new_error GENERIC_MEMBER_OPCODE_MISMATCH)
       (case current_function of Some f \<Rightarrow> f | None \<Rightarrow> 0) (as_u16 off)"

definition check_type_op ::
  "binary_indexed_view \<Rightarrow> nat option \<Rightarrow> nat \<Rightarrow> struct_definition_index \<Rightarrow> bool \<Rightarrow> unit vm_result" where
  "check_type_op resolver current_function off idx generic =
     rbind (struct_def_at resolver idx) (\<lambda>struct_def.
     rbind (struct_handle_at resolver (sd_struct_handle struct_def)) (\<lambda>sh.
       if (sh_type_parameters sh = []) = generic then Err (opcode_mismatch current_function off)
       else Ok ()))"

definition check_field_op ::
  "binary_indexed_view \<Rightarrow> nat option \<Rightarrow> nat \<Rightarrow> field_handle_index \<Rightarrow> bool \<Rightarrow> unit vm_result" where
  "check_field_op resolver current_function off idx generic =
     rbind (field_handle_at resolver idx) (\<lambda>fh.
       check_type_op resolver current_function off (fdh_owner fh) generic)"

definition check_function_op ::
  "binary_indexed_view \<Rightarrow> nat option \<Rightarrow> nat \<Rightarrow> function_handle_index \<Rightarrow> bool \<Rightarrow> unit vm_result" where
  "check_function_op resolver current_function off idx generic =
     rbind (function_handle_at resolver idx) (\<lambda>fh.
       if (fh_type_parameters fh = []) = generic then Err (opcode_mismatch current_function off)
       else Ok ())"

definition check_generic_type_op ::
  "binary_indexed_view \<Rightarrow> nat option \<Rightarrow> nat \<Rightarrow> struct_def_instantiation_index \<Rightarrow> unit vm_result" where
  "check_generic_type_op resolver current_function off idx =
     rbind (struct_instantiation_at resolver idx) (\<lambda>si.
       check_type_op resolver current_function off (sdi_def si) True)"

definition check_generic_field_op ::
  "binary_indexed_view \<Rightarrow> nat option \<Rightarrow> nat \<Rightarrow> field_instantiation_index \<Rightarrow> unit vm_result" where
  "check_generic_field_op resolver current_function off idx =
     rbind (field_instantiation_at resolver idx) (\<lambda>fi.
       check_field_op resolver current_function off (fdi_handle fi) True)"

definition check_instruction_form ::
  "binary_indexed_view \<Rightarrow> nat option \<Rightarrow> nat \<times> bytecode \<Rightarrow> unit vm_result" where
  "check_instruction_form resolver current_function = (\<lambda>(off, instr).
     case instr of
       MutBorrowField idx \<Rightarrow> check_field_op resolver current_function off idx False
     | MutBorrowFieldGeneric idx \<Rightarrow> check_generic_field_op resolver current_function off idx
     | ImmBorrowField idx \<Rightarrow> check_field_op resolver current_function off idx False
     | ImmBorrowFieldGeneric idx \<Rightarrow> check_generic_field_op resolver current_function off idx
     | Call idx \<Rightarrow> check_function_op resolver current_function off idx False
     | CallGeneric idx \<Rightarrow>
         rbind (function_instantiation_at resolver idx) (\<lambda>fi.
           check_function_op resolver current_function off (fi_handle fi) True)
     | Pack idx \<Rightarrow> check_type_op resolver current_function off idx False
     | PackGeneric idx \<Rightarrow> check_generic_type_op resolver current_function off idx
     | Unpack idx \<Rightarrow> check_type_op resolver current_function off idx False
     | UnpackGeneric idx \<Rightarrow> check_generic_type_op resolver current_function off idx
     | MutBorrowGlobal idx \<Rightarrow> check_type_op resolver current_function off idx False
     | MutBorrowGlobalGeneric idx \<Rightarrow> check_generic_type_op resolver current_function off idx
     | ImmBorrowGlobal idx \<Rightarrow> check_type_op resolver current_function off idx False
     | ImmBorrowGlobalGeneric idx \<Rightarrow> check_generic_type_op resolver current_function off idx
     | Exists idx \<Rightarrow> check_type_op resolver current_function off idx False
     | ExistsGeneric idx \<Rightarrow> check_generic_type_op resolver current_function off idx
     | MoveFrom idx \<Rightarrow> check_type_op resolver current_function off idx False
     | MoveFromGeneric idx \<Rightarrow> check_generic_type_op resolver current_function off idx
     | MoveTo idx \<Rightarrow> check_type_op resolver current_function off idx False
     | MoveToGeneric idx \<Rightarrow> check_generic_type_op resolver current_function off idx
     | _ \<Rightarrow> Ok ())"

definition check_instructions ::
  "binary_indexed_view \<Rightarrow> nat option \<Rightarrow> code_unit \<Rightarrow> unit vm_result" where
  "check_instructions resolver current_function code =
     for_all (check_instruction_form resolver current_function) (enumerate_from_zero (cu_code code))"

definition instruction_consistency_module :: "compiled_module \<Rightarrow> unit vm_result" where
  "instruction_consistency_module module =
     for_all (\<lambda>(idx, fd). case fd_code fd of
         None \<Rightarrow> Ok ()
       | Some code \<Rightarrow> check_instructions (ViewModule module) (Some (as_u16 idx)) code)
       (enumerate_from_zero (cm_function_defs module))"

definition instruction_consistency_script :: "compiled_script \<Rightarrow> unit vm_result" where
  "instruction_consistency_script script = check_instructions (ViewScript script) None (cs_code script)"

section \<open>Members named by instructions\<close>

text \<open>The operand of an instruction that has a generic and a plain form.\<close>

datatype operand =
    StructOperand struct_definition_index
  | StructInstOperand struct_def_instantiation_index
  | FieldOperand field_handle_index
  | FieldInstOperand field_instantiation_index
  | FunctionOperand function_handle_index
  | FunctionInstOperand function_instantiation_index

definition operand_of :: "bytecode \<Rightarrow> operand option" where
  "operand_of instr =
     (case instr of
        MutBorrowField idx \<Rightarrow> Some (FieldOperand idx) | ImmBorrowField idx \<Rightarrow> Some (FieldOperand idx)
      | MutBorrowFieldGeneric idx \<Rightarrow> Some (FieldInstOperand idx)
      | ImmBorrowFieldGeneric idx \<Rightarrow> Some (FieldInstOperand idx)
      | Call idx \<Rightarrow> Some (FunctionOperand idx) | CallGeneric idx \<Rightarrow> Some (FunctionInstOperand idx)
      | Pack idx \<Rightarrow> Some (StructOperand idx) | PackGeneric idx \<Rightarrow> Some (StructInstOperand idx)
      | Unpack idx \<Rightarrow> Some (StructOperand idx) | UnpackGeneric idx \<Rightarrow> Some (StructInstOperand idx)
      | MutBorrowGlobal idx \<Rightarrow> Some (StructOperand idx)
      | MutBorrowGlobalGeneric idx \<Rightarrow> Some (StructInstOperand idx)
      | ImmBorrowGlobal idx \<Rightarrow> Some (StructOperand idx)
      | ImmBorrowGlobalGeneric idx \<Rightarrow> Some (StructInstOperand idx)
      | Exists idx \<Rightarrow> Some (StructOperand idx) | ExistsGeneric idx \<Rightarrow> Some (StructInstOperand idx)
      | MoveFrom idx \<Rightarrow> Some (StructOperand idx) | MoveFromGeneric idx \<Rightarrow> Some (StructInstOperand idx)
      | MoveTo idx \<Rightarrow> Some (StructOperand idx) | MoveToGeneric idx \<Rightarrow> Some (StructInstOperand idx)
      | _ \<Rightarrow> None)"

text \<open>The number of type parameters of the member that the operand resolves to.\<close>

definition struct_arity :: "compiled_module \<Rightarrow> struct_definition_index \<Rightarrow> nat" where
  "struct_arity m idx = length (sh_type_parameters
     (cm_struct_handles m ! unat (sd_struct_handle (cm_struct_defs m ! unat idx))))"

definition function_arity :: "function_handle list \<Rightarrow> function_handle_index \<Rightarrow> nat" where
  "function_arity handles idx = length (fh_type_parameters (handles ! unat idx))"

definition member_arity :: "compiled_module \<Rightarrow> operand \<Rightarrow> nat" where
  "member_arity m opd =
     (case opd of
        StructOperand idx \<Rightarrow> struct_arity m idx
      | StructInstOperand idx \<Rightarrow> struct_arity m (sdi_def (cm_struct_def_instantiations m ! unat idx))
      | FieldOperand idx \<Rightarrow> struct_arity m (fdh_owner (cm_field_handles m ! unat idx))
      | FieldInstOperand idx \<Rightarrow> struct_arity m (fdh_owner (cm_field_handles m !
          unat (fdi_handle (cm_field_instantiations m ! unat idx))))
      | FunctionOperand idx \<Rightarrow> function_arity (cm_function_handles m) idx
      | FunctionInstOperand idx \<Rightarrow> function_arity (cm_function_handles m)
          (fi_handle (cm_function_instantiations m ! unat idx)))"

definition generic_operand :: "operand \<Rightarrow> bool" where
  "generic_operand opd =
     (case opd of StructInstOperand _ \<Rightarrow> True | FieldInstOperand _ \<Rightarrow> True
      | FunctionInstOperand _ \<Rightarrow> True | _ \<Rightarrow> False)"

definition form_matches :: "compiled_module \<Rightarrow> bytecode \<Rightarrow> bool" where
  "form_matches m instr = (\<forall>opd. operand_of instr = Some opd \<longrightarrow> generic_operand opd = (0 < member_arity m opd))"

definition operand_ok :: "binary_indexed_view \<Rightarrow> operand \<Rightarrow> bool" where
  "operand_ok view opd =
     (case opd of
        StructOperand idx \<Rightarrow> in_pool_opt (struct_defs view) idx
      | StructInstOperand idx \<Rightarrow> in_pool_opt (struct_instantiations view) idx
      | FieldOperand idx \<Rightarrow> in_pool_opt (field_handles view) idx
      | FieldInstOperand idx \<Rightarrow> in_pool_opt (field_instantiations view) idx
      | FunctionOperand idx \<Rightarrow> in_pool (function_handles view) idx
      | FunctionInstOperand idx \<Rightarrow> in_pool (function_instantiations view) idx)"

lemma instruction_operand_ok:
  "instruction_ok view n locals_count code_len instr \<Longrightarrow> operand_of instr = Some opd \<Longrightarrow> operand_ok view opd"
  by (cases instr) (auto simp: operand_of_def operand_ok_def instruction_ok_def
      struct_inst_operand_ok_def field_inst_operand_ok_def)

text \<open>The pass, as one check of the operand.\<close>

definition check_operand_form ::
  "binary_indexed_view \<Rightarrow> nat option \<Rightarrow> nat \<Rightarrow> operand \<Rightarrow> unit vm_result" where
  "check_operand_form view f off opd =
     (case opd of
        StructOperand idx \<Rightarrow> check_type_op view f off idx False
      | StructInstOperand idx \<Rightarrow> check_generic_type_op view f off idx
      | FieldOperand idx \<Rightarrow> check_field_op view f off idx False
      | FieldInstOperand idx \<Rightarrow> check_generic_field_op view f off idx
      | FunctionOperand idx \<Rightarrow> check_function_op view f off idx False
      | FunctionInstOperand idx \<Rightarrow>
          rbind (function_instantiation_at view idx) (\<lambda>fi. check_function_op view f off (fi_handle fi) True))"

lemma check_instruction_form_operand:
  "check_instruction_form view f (off, instr) =
     (case operand_of instr of None \<Rightarrow> Ok () | Some opd \<Rightarrow> check_operand_form view f off opd)"
  by (cases instr) (simp_all add: check_instruction_form_def operand_of_def check_operand_form_def)

lemma check_type_op_not_Panic:
  assumes "tables_in_bounds view" "in_pool_opt (struct_defs view) idx"
  shows "check_type_op view f off idx generic \<noteq> Panic"
  using module_accessors_not_Panic(1)[OF assms(2)] struct_def_resolves[OF assms(1)]
  by (auto simp: check_type_op_def rbind_eq_Panic resolves split: if_splits)

lemma check_operand_form_not_Panic:
  assumes "tables_in_bounds view" "operand_ok view opd"
  shows "check_operand_form view f off opd \<noteq> Panic"
  using assms(2) struct_instantiation_resolves(1)[OF assms(1)] field_handle_resolves[OF assms(1)]
    field_instantiation_resolves(1)[OF assms(1)] function_instantiation_resolves(1)[OF assms(1)]
  by (cases opd)
     (auto simp: operand_ok_def check_operand_form_def check_field_op_def check_generic_type_op_def
       check_generic_field_op_def check_function_op_def rbind_eq_Panic check_type_op_not_Panic[OF assms(1)]
       accessors_not_Panic module_accessors_not_Panic split: if_splits)

lemma check_instructions_not_Panic:
  assumes "tables_in_bounds view"
    and "\<And>instr. instr \<in> set (cu_code code) \<Longrightarrow> instruction_ok view n locals_count code_len instr"
  shows "check_instructions view f code \<noteq> Panic"
  unfolding check_instructions_def
proof (rule for_all_not_Panic)
  fix x assume x: "x \<in> set (enumerate_from_zero (cu_code code))"
  obtain off instr where [simp]: "x = (off, instr)" by (cases x)
  from x have "instr \<in> set (cu_code code)" by auto
  from instruction_operand_ok[OF assms(2)[OF this]]
  show "check_instruction_form view f x \<noteq> Panic"
    by (auto simp: check_instruction_form_operand check_operand_form_not_Panic[OF assms(1)] split: option.splits)
qed

section \<open>The pass on modules\<close>

lemma check_type_op_Ok:
  assumes "tables_in_bounds (ViewModule m)" "in_pool_opt (struct_defs (ViewModule m)) idx"
  shows "check_type_op (ViewModule m) f off idx generic = Ok u \<longleftrightarrow> generic = (0 < struct_arity m idx)"
proof -
  have sd: "struct_def_at (ViewModule m) idx = Ok (cm_struct_defs m ! unat idx)"
    using assms(2) by (simp add: struct_def_at_def module_table_at_def struct_defs_def in_pool_opt_def in_pool_def)
  from struct_def_resolves[OF assms(1) sd] show ?thesis
    by (auto simp: check_type_op_def sd accessors_in_pool struct_arity_def struct_handles_def)
qed

lemma check_operand_form_Ok:
  assumes "tables_in_bounds (ViewModule m)" "operand_ok (ViewModule m) opd"
  shows "check_operand_form (ViewModule m) f off opd = Ok () \<longleftrightarrow> generic_operand opd = (0 < member_arity m opd)"
proof (cases opd)
  case (StructOperand idx)
  then show ?thesis
    using assms check_type_op_Ok[OF assms(1)]
    by (simp add: operand_ok_def check_operand_form_def generic_operand_def member_arity_def)
next
  case (StructInstOperand idx)
  then have si: "struct_instantiation_at (ViewModule m) idx = Ok (cm_struct_def_instantiations m ! unat idx)"
    using assms(2) by (simp add: operand_ok_def struct_instantiation_at_def module_table_at_def
        struct_instantiations_def in_pool_opt_def in_pool_def)
  from struct_instantiation_resolves(1)[OF assms(1) si] StructInstOperand show ?thesis
    using check_type_op_Ok[OF assms(1)]
    by (simp add: check_operand_form_def check_generic_type_op_def si generic_operand_def member_arity_def)
next
  case (FieldOperand idx)
  then have fh: "field_handle_at (ViewModule m) idx = Ok (cm_field_handles m ! unat idx)"
    using assms(2) by (simp add: operand_ok_def field_handle_at_def module_table_at_def field_handles_def
        in_pool_opt_def in_pool_def)
  from field_handle_resolves[OF assms(1) fh] FieldOperand show ?thesis
    using check_type_op_Ok[OF assms(1)]
    by (simp add: check_operand_form_def check_field_op_def fh generic_operand_def member_arity_def)
next
  case (FieldInstOperand idx)
  then have fi: "field_instantiation_at (ViewModule m) idx = Ok (cm_field_instantiations m ! unat idx)"
    using assms(2) by (simp add: operand_ok_def field_instantiation_at_def module_table_at_def
        field_instantiations_def in_pool_opt_def in_pool_def)
  let ?h = "fdi_handle (cm_field_instantiations m ! unat idx)"
  from field_instantiation_resolves(1)[OF assms(1) fi]
  have fh: "field_handle_at (ViewModule m) ?h = Ok (cm_field_handles m ! unat ?h)"
    by (simp add: field_handle_at_def module_table_at_def field_handles_def in_pool_opt_def in_pool_def)
  from field_handle_resolves[OF assms(1) fh] FieldInstOperand show ?thesis
    using check_type_op_Ok[OF assms(1)]
    by (simp add: check_operand_form_def check_generic_field_op_def check_field_op_def fi fh
        generic_operand_def member_arity_def)
next
  case (FunctionOperand idx)
  then show ?thesis
    using assms(2)
    by (auto simp: operand_ok_def check_operand_form_def check_function_op_def accessors_in_pool
        function_handles_def generic_operand_def member_arity_def function_arity_def)
next
  case (FunctionInstOperand idx)
  then have fi: "function_instantiation_at (ViewModule m) idx = Ok (cm_function_instantiations m ! unat idx)"
    using assms(2) by (simp add: operand_ok_def accessors_in_pool function_instantiations_def)
  from function_instantiation_resolves(1)[OF assms(1) fi] FunctionInstOperand show ?thesis
    by (auto simp: check_operand_form_def check_function_op_def fi accessors_in_pool
        function_handles_def generic_operand_def member_arity_def function_arity_def)
qed

lemma function_code_ok:
  assumes "tables_in_bounds (ViewModule m)" "fd \<in> set (cm_function_defs m)" "fd_code fd = Some code"
    and "instr \<in> set (cu_code code)"
  shows "\<exists>n locals_count code_len. instruction_ok (ViewModule m) n locals_count code_len instr"
proof -
  have fd: "fd \<in> set (opt_list (function_defs (ViewModule m)))"
    using assms(2) by (simp add: function_defs_def opt_list_def)
  then show ?thesis
    using assms(1,3,4) body_ok_instruction
    by (fastforce simp: tables_in_bounds_def function_definition_ok_def)
qed

lemma instruction_consistency_module_not_Panic:
  assumes "tables_in_bounds (ViewModule m)"
  shows "instruction_consistency_module m \<noteq> Panic"
  unfolding instruction_consistency_module_def
proof (rule for_all_not_Panic)
  fix x assume x: "x \<in> set (enumerate_from_zero (cm_function_defs m))"
  obtain i fd where [simp]: "x = (i, fd)" by (cases x)
  from x have fd: "fd \<in> set (cm_function_defs m)" by auto
  show "(case x of (idx, fd) \<Rightarrow> case fd_code fd of None \<Rightarrow> Ok ()
      | Some code \<Rightarrow> check_instructions (ViewModule m) (Some (as_u16 idx)) code) \<noteq> Panic"
  proof (cases "fd_code fd")
    case (Some code)
    have "for_all (check_instruction_form (ViewModule m) f) (enumerate_from_zero (cu_code code)) \<noteq> Panic" for f
    proof (rule for_all_not_Panic)
      fix y assume y: "y \<in> set (enumerate_from_zero (cu_code code))"
      obtain off instr where [simp]: "y = (off, instr)" by (cases y)
      from y have "instr \<in> set (cu_code code)" by auto
      from function_code_ok[OF assms fd Some this] instruction_operand_ok
      show "check_instruction_form (ViewModule m) f y \<noteq> Panic"
        by (auto simp: check_instruction_form_operand check_operand_form_not_Panic[OF assms] split: option.splits)
    qed
    then show ?thesis by (simp add: Some check_instructions_def)
  qed simp
qed

text \<open>C24: on a module that the bounds checker accepts the instruction consistency pass never panics, and it accepts
  exactly the modules in which every instruction that has a generic and a plain form is used in the
  generic form when the struct, field or function it names has type parameters and in the plain form
  otherwise.\<close>

theorem instruction_consistency_spec:
  assumes "bounds_verify_module m = Ok ()"
  shows "instruction_consistency_module m \<noteq> Panic \<and>
    (instruction_consistency_module m = Ok () \<longleftrightarrow>
      (\<forall>fd code instr. fd \<in> set (cm_function_defs m) \<and> fd_code fd = Some code \<and>
         instr \<in> set (cu_code code) \<longrightarrow> form_matches m instr))"
proof -
  note tables = bounds_verify_tables[OF assms]
  have instr: "check_instruction_form (ViewModule m) f (off, instr) = Ok () \<longleftrightarrow> form_matches m instr"
    if "fd \<in> set (cm_function_defs m)" "fd_code fd = Some code" "instr \<in> set (cu_code code)"
    for f off fd code instr
    using function_code_ok[OF tables that] instruction_operand_ok
    by (auto simp: check_instruction_form_operand form_matches_def check_operand_form_Ok[OF tables]
        split: option.splits)
  have "(case fd_code fd of None \<Rightarrow> Ok () | Some code \<Rightarrow> check_instructions (ViewModule m) f code) = Ok () \<longleftrightarrow>
      (\<forall>code instr. fd_code fd = Some code \<and> instr \<in> set (cu_code code) \<longrightarrow> form_matches m instr)"
    if fd: "fd \<in> set (cm_function_defs m)" for fd f
  proof (cases "fd_code fd")
    case (Some code)
    have "check_instruction_form (ViewModule m) f (i, cu_code code ! i) = Ok () \<longleftrightarrow>
        form_matches m (cu_code code ! i)" if "i < length (cu_code code)" for i
      by (rule instr[OF fd Some]) (simp add: that)
    then show ?thesis
      by (simp add: Some check_instructions_def for_all_enumerate Ball_def flip: all_set_conv_all_nth)
  qed simp
  then have "instruction_consistency_module m = Ok () \<longleftrightarrow> (\<forall>fd \<in> set (cm_function_defs m).
      \<forall>code instr. fd_code fd = Some code \<and> instr \<in> set (cu_code code) \<longrightarrow> form_matches m instr)"
    unfolding instruction_consistency_module_def for_all_enumerate
    by (simp add: all_set_conv_all_nth)
  with instruction_consistency_module_not_Panic[OF tables] show ?thesis by blast
qed

lemma example_forms:
  assumes "fd \<in> set (cm_function_defs example_module)" "fd_code fd = Some code" "instr \<in> set (cu_code code)"
  shows "form_matches example_module instr"
  using assms
  by (auto simp: example_module_def form_matches_def operand_of_def generic_operand_def member_arity_def
      struct_arity_def)

theorem instruction_consistency_spec_witness:
  "bounds_verify_module example_module = Ok () \<and> instruction_consistency_module example_module = Ok ()"
  using instruction_consistency_spec[OF example_bounds_accepted] example_forms example_bounds_accepted
  by blast

end
