(* ===== verification/Signature_Checker.thy ===== *)
theory Signature_Checker
  imports Example_Module
begin

text \<open>
  The pass \<^verbatim>\<open>move-bytecode-verifier/src/signature.rs\<close>: references occur only at the top level of
  parameters, returns and locals and not at all in fields and type arguments; type arguments satisfy
  the ability constraints of what they instantiate; phantom type parameters occur only in phantom
  positions. The properties state the pass by predicates on the types, without the order of the
  checks, and show that constraints are checked for the outermost instantiation of a type only.
\<close>

section \<open>Types\<close>

fun check_signature_token :: "signature_token \<Rightarrow> unit vm_result" where
  "check_signature_token (Reference _) = Err (new_error INVALID_SIGNATURE_TOKEN)"
| "check_signature_token (MutableReference _) = Err (new_error INVALID_SIGNATURE_TOKEN)"
| "check_signature_token (Vector ty) = check_signature_token ty"
| "check_signature_token (StructInstantiation _ type_arguments) =
     for_all check_signature_token type_arguments"
| "check_signature_token _ = Ok ()"

definition check_signature_tokens :: "signature_token list \<Rightarrow> unit vm_result" where
  "check_signature_tokens tys = for_all check_signature_token tys"

definition check_signature_at :: "binary_indexed_view \<Rightarrow> signature_index \<Rightarrow> unit vm_result" where
  "check_signature_at resolver idx =
     rbind (signature_at resolver idx) (\<lambda>sig.
       for_all (\<lambda>token. case token of
           Reference inner \<Rightarrow> check_signature_token inner
         | MutableReference inner \<Rightarrow> check_signature_token inner
         | _ \<Rightarrow> check_signature_token token) sig)"

definition check_generic_instance ::
  "binary_indexed_view \<Rightarrow> signature_token list \<Rightarrow> ability_set list \<Rightarrow> ability_set list \<Rightarrow> unit vm_result" where
  "check_generic_instance resolver type_arguments constraints global_abilities =
     (if length type_arguments \<noteq> length constraints
      then Err (new_error NUMBER_OF_TYPE_ARGUMENTS_MISMATCH)
      else for_all (\<lambda>(constraint, ty).
          rbind (token_abilities resolver ty global_abilities) (\<lambda>given.
            if \<not> ability_set_is_subset constraint given
            then Err (new_error CONSTRAINT_NOT_SATISFIED) else Ok ()))
        (zip constraints type_arguments))"

definition check_type_instantiation ::
  "binary_indexed_view \<Rightarrow> signature_token \<Rightarrow> ability_set list \<Rightarrow> unit vm_result" where
  "check_type_instantiation resolver ty type_parameters =
     (case ty of
        StructInstantiation idx type_arguments \<Rightarrow>
          rbind (struct_handle_at resolver idx) (\<lambda>sh.
            check_generic_instance resolver type_arguments (type_param_constraints sh) type_parameters)
      | _ \<Rightarrow> Ok ())"

definition check_instantiation ::
  "binary_indexed_view \<Rightarrow> signature_index \<Rightarrow> ability_set list \<Rightarrow> unit vm_result" where
  "check_instantiation resolver idx type_parameters =
     rbind (signature_at resolver idx) (\<lambda>sig.
       for_all (\<lambda>ty. check_type_instantiation resolver ty type_parameters) sig)"

lemma size_nth_less [termination_simp]: "i < length xs \<Longrightarrow> size (xs ! i) < Suc (size_list size xs)"
  by (metis less_Suc_eq_le nth_mem order_refl size_list_estimation')

fun check_phantom_params ::
  "binary_indexed_view \<Rightarrow> signature_token \<Rightarrow> bool \<Rightarrow> struct_type_parameter list \<Rightarrow> unit vm_result" where
  "check_phantom_params resolver (Vector ty) is_phantom_pos type_parameters =
     check_phantom_params resolver ty False type_parameters"
| "check_phantom_params resolver (StructInstantiation idx type_arguments) is_phantom_pos type_parameters =
     rbind (struct_handle_at resolver idx) (\<lambda>sh.
       for_all (\<lambda>(i, ty).
           rbind (vec_index (sh_type_parameters sh) i) (\<lambda>tp.
             check_phantom_params resolver ty (stp_is_phantom tp) type_parameters))
         (enumerate_from_zero type_arguments))"
| "check_phantom_params resolver (TypeParameter idx) is_phantom_pos type_parameters =
     rbind (vec_index type_parameters (unat idx)) (\<lambda>tp.
       if stp_is_phantom tp \<and> \<not> is_phantom_pos
       then Err (new_error INVALID_PHANTOM_TYPE_PARAM_POSITION) else Ok ())"
| "check_phantom_params resolver _ is_phantom_pos type_parameters = Ok ()"

section \<open>Tables and code\<close>

definition verify_signature_pool :: "binary_indexed_view \<Rightarrow> signature list \<Rightarrow> unit vm_result" where
  "verify_signature_pool resolver sigs =
     for_all (\<lambda>i. check_signature_at resolver (of_nat i)) [0..<length sigs]"

definition function_signature_error :: "nat \<Rightarrow> partial_vm_error \<Rightarrow> partial_vm_error" where
  "function_signature_error idx err =
     at_index (at_index err IK_Signature (as_u16 idx)) IK_FunctionHandle (as_u16 idx)"

definition verify_function_signatures ::
  "binary_indexed_view \<Rightarrow> function_handle list \<Rightarrow> unit vm_result" where
  "verify_function_signatures resolver handles =
     for_all (\<lambda>(idx, fh).
         rbind (map_err (function_signature_error idx) (check_signature_at resolver (fh_return fh))) (\<lambda>_.
         rbind (map_err (function_signature_error idx)
             (check_instantiation resolver (fh_return fh) (fh_type_parameters fh))) (\<lambda>_.
         rbind (map_err (function_signature_error idx) (check_signature_at resolver (fh_parameters fh))) (\<lambda>_.
           map_err (function_signature_error idx)
             (check_instantiation resolver (fh_parameters fh) (fh_type_parameters fh))))))
       (enumerate_from_zero handles)"

definition field_error :: "nat \<Rightarrow> nat \<Rightarrow> partial_vm_error \<Rightarrow> partial_vm_error" where
  "field_error struct_def_idx idx err =
     at_index (at_index err IK_FieldDefinition (as_u16 idx)) IK_StructDefinition (as_u16 struct_def_idx)"

definition verify_field ::
  "binary_indexed_view \<Rightarrow> nat \<Rightarrow> struct_handle \<Rightarrow> nat \<times> field_definition \<Rightarrow> unit vm_result" where
  "verify_field resolver struct_def_idx sh = (\<lambda>(field_offset, field_def).
     rbind (map_err (field_error struct_def_idx field_offset)
         (check_signature_token (fdd_signature field_def))) (\<lambda>_.
     rbind (map_err (field_error struct_def_idx field_offset)
         (check_type_instantiation resolver (fdd_signature field_def) (type_param_constraints sh))) (\<lambda>_.
       map_err (field_error struct_def_idx field_offset)
         (check_phantom_params resolver (fdd_signature field_def) False (sh_type_parameters sh)))))"

definition verify_fields :: "binary_indexed_view \<Rightarrow> struct_definition list \<Rightarrow> unit vm_result" where
  "verify_fields resolver defs =
     for_all (\<lambda>(struct_def_idx, struct_def). case sd_field_information struct_def of
         Native \<Rightarrow> Ok ()
       | Declared fs \<Rightarrow>
           rbind (struct_handle_at resolver (sd_struct_handle struct_def)) (\<lambda>sh.
             for_all (verify_field resolver struct_def_idx sh) (enumerate_from_zero fs)))
       (enumerate_from_zero defs)"

definition check_type_arguments ::
  "binary_indexed_view \<Rightarrow> signature_index \<Rightarrow> ability_set list \<Rightarrow> ability_set list \<Rightarrow> unit vm_result" where
  "check_type_arguments resolver idx constraints type_parameters =
     rbind (signature_at resolver idx) (\<lambda>type_arguments.
     rbind (check_signature_tokens type_arguments) (\<lambda>_.
       check_generic_instance resolver type_arguments constraints type_parameters))"

definition check_struct_arguments ::
  "binary_indexed_view \<Rightarrow> struct_def_instantiation_index \<Rightarrow> ability_set list \<Rightarrow> unit vm_result" where
  "check_struct_arguments resolver idx type_parameters =
     rbind (struct_instantiation_at resolver idx) (\<lambda>si.
     rbind (struct_def_at resolver (sdi_def si)) (\<lambda>sd.
     rbind (struct_handle_at resolver (sd_struct_handle sd)) (\<lambda>sh.
       check_type_arguments resolver (sdi_type_parameters si) (type_param_constraints sh) type_parameters)))"

definition check_field_arguments ::
  "binary_indexed_view \<Rightarrow> field_instantiation_index \<Rightarrow> ability_set list \<Rightarrow> unit vm_result" where
  "check_field_arguments resolver idx type_parameters =
     rbind (field_instantiation_at resolver idx) (\<lambda>fi.
     rbind (field_handle_at resolver (fdi_handle fi)) (\<lambda>fh.
     rbind (struct_def_at resolver (fdh_owner fh)) (\<lambda>sd.
     rbind (struct_handle_at resolver (sd_struct_handle sd)) (\<lambda>sh.
       check_type_arguments resolver (fdi_type_parameters fi) (type_param_constraints sh) type_parameters))))"

definition check_vector_argument :: "binary_indexed_view \<Rightarrow> signature_index \<Rightarrow> unit vm_result" where
  "check_vector_argument resolver idx =
     rbind (signature_at resolver idx) (\<lambda>type_arguments.
       if length type_arguments \<noteq> 1 then Err (new_error NUMBER_OF_TYPE_ARGUMENTS_MISMATCH)
       else check_signature_tokens type_arguments)"

definition check_instruction_types ::
  "binary_indexed_view \<Rightarrow> ability_set list \<Rightarrow> bytecode \<Rightarrow> unit vm_result" where
  "check_instruction_types resolver type_parameters instr =
     (case instr of
        CallGeneric idx \<Rightarrow>
          rbind (function_instantiation_at resolver idx) (\<lambda>fi.
          rbind (function_handle_at resolver (fi_handle fi)) (\<lambda>fh.
            check_type_arguments resolver (fi_type_parameters fi) (fh_type_parameters fh) type_parameters))
      | PackGeneric idx \<Rightarrow> check_struct_arguments resolver idx type_parameters
      | UnpackGeneric idx \<Rightarrow> check_struct_arguments resolver idx type_parameters
      | ExistsGeneric idx \<Rightarrow> check_struct_arguments resolver idx type_parameters
      | MoveFromGeneric idx \<Rightarrow> check_struct_arguments resolver idx type_parameters
      | MoveToGeneric idx \<Rightarrow> check_struct_arguments resolver idx type_parameters
      | ImmBorrowGlobalGeneric idx \<Rightarrow> check_struct_arguments resolver idx type_parameters
      | MutBorrowGlobalGeneric idx \<Rightarrow> check_struct_arguments resolver idx type_parameters
      | ImmBorrowFieldGeneric idx \<Rightarrow> check_field_arguments resolver idx type_parameters
      | MutBorrowFieldGeneric idx \<Rightarrow> check_field_arguments resolver idx type_parameters
      | VecPack idx _ \<Rightarrow> check_vector_argument resolver idx
      | VecLen idx \<Rightarrow> check_vector_argument resolver idx
      | VecImmBorrow idx \<Rightarrow> check_vector_argument resolver idx
      | VecMutBorrow idx \<Rightarrow> check_vector_argument resolver idx
      | VecPushBack idx \<Rightarrow> check_vector_argument resolver idx
      | VecPopBack idx \<Rightarrow> check_vector_argument resolver idx
      | VecUnpack idx _ \<Rightarrow> check_vector_argument resolver idx
      | VecSwap idx \<Rightarrow> check_vector_argument resolver idx
      | _ \<Rightarrow> Ok ())"

definition verify_code_types ::
  "binary_indexed_view \<Rightarrow> code_unit \<Rightarrow> ability_set list \<Rightarrow> unit vm_result" where
  "verify_code_types resolver code type_parameters =
     rbind (check_signature_at resolver (cu_locals code)) (\<lambda>_.
     rbind (check_instantiation resolver (cu_locals code) type_parameters) (\<lambda>_.
       for_all (check_instruction_types resolver type_parameters) (cu_code code)))"

definition code_unit_error :: "nat \<Rightarrow> code_unit \<Rightarrow> partial_vm_error \<Rightarrow> partial_vm_error" where
  "code_unit_error func_def_idx code err =
     at_index (at_index err IK_Signature (unat (cu_locals code))) IK_FunctionDefinition (as_u16 func_def_idx)"

definition verify_code_units :: "binary_indexed_view \<Rightarrow> function_definition list \<Rightarrow> unit vm_result" where
  "verify_code_units resolver defs =
     for_all (\<lambda>(func_def_idx, func_def). case fd_code func_def of
         None \<Rightarrow> Ok ()
       | Some code \<Rightarrow>
           rbind (function_handle_at resolver (fd_function func_def)) (\<lambda>fh.
             map_err (code_unit_error func_def_idx code)
               (verify_code_types resolver code (fh_type_parameters fh))))
       (enumerate_from_zero defs)"

definition signature_verify_module :: "compiled_module \<Rightarrow> unit vm_result" where
  "signature_verify_module module =
     (let resolver = ViewModule module in
      rbind (verify_signature_pool resolver (cm_signatures module)) (\<lambda>_.
      rbind (verify_function_signatures resolver (cm_function_handles module)) (\<lambda>_.
      rbind (verify_fields resolver (cm_struct_defs module)) (\<lambda>_.
        verify_code_units resolver (cm_function_defs module)))))"

definition signature_verify_script :: "compiled_script \<Rightarrow> unit vm_result" where
  "signature_verify_script script =
     (let resolver = ViewScript script in
      rbind (verify_signature_pool resolver (cs_signatures script)) (\<lambda>_.
      rbind (verify_function_signatures resolver (cs_function_handles script)) (\<lambda>_.
      rbind (check_instantiation resolver (cs_parameters script) (cs_type_parameters script)) (\<lambda>_.
        verify_code_types resolver (cs_code script) (cs_type_parameters script)))))"

section \<open>What is checked\<close>

definition ref_free :: "signature_token \<Rightarrow> bool" where
  "ref_free ty = (\<forall>t \<in> set (subtokens ty). \<not> is_reference t)"

definition refs_at_top :: "signature_token \<Rightarrow> bool" where
  "refs_at_top ty = (\<forall>t \<in> set (inner_tokens ty). ref_free t)"

text \<open>Arguments that satisfy ability constraints.\<close>

definition satisfies ::
  "binary_indexed_view \<Rightarrow> ability_set list \<Rightarrow> signature_token list \<Rightarrow> ability_set list \<Rightarrow> bool" where
  "satisfies view scope args constraints =
     list_all2 (\<lambda>constraint ty. \<exists>given. token_abilities view ty scope = Ok given \<and>
       ability_set_is_subset constraint given) constraints args"

definition outer_instance_ok :: "binary_indexed_view \<Rightarrow> ability_set list \<Rightarrow> signature_token \<Rightarrow> bool" where
  "outer_instance_ok view scope ty =
     (\<forall>idx args. ty = StructInstantiation idx args \<longrightarrow>
        satisfies view scope args (type_param_constraints (struct_handles view ! unat idx)))"

text \<open>\<open>strictly_occurs view i ty\<close>: the type parameter \<open>i\<close> occurs in \<open>ty\<close> elsewhere than as a phantom
  argument.\<close>

inductive strictly_occurs :: "binary_indexed_view \<Rightarrow> nat \<Rightarrow> signature_token \<Rightarrow> bool" for view i where
  here: "unat idx = i \<Longrightarrow> strictly_occurs view i (TypeParameter idx)"
| in_vector: "strictly_occurs view i ty \<Longrightarrow> strictly_occurs view i (Vector ty)"
| in_argument: "k < length args \<Longrightarrow> strictly_occurs view i (args ! k) \<Longrightarrow>
    \<not> (stp_is_phantom (sh_type_parameters (struct_handles view ! unat idx) ! k) \<and>
       (\<exists>j. args ! k = TypeParameter j)) \<Longrightarrow>
    strictly_occurs view i (StructInstantiation idx args)"

inductive_simps strictly_occurs_simps [simp]:
  "strictly_occurs view i (TypeParameter idx)" "strictly_occurs view i (Vector ty)"
  "strictly_occurs view i (StructInstantiation idx args)"

inductive_cases strictly_occursE: "strictly_occurs view i ty"

definition field_type_ok :: "binary_indexed_view \<Rightarrow> struct_handle \<Rightarrow> signature_token \<Rightarrow> bool" where
  "field_type_ok view sh ty =
     (ref_free ty \<and> outer_instance_ok view (type_param_constraints sh) ty \<and>
      (\<forall>i. strictly_occurs view i ty \<longrightarrow> \<not> stp_is_phantom (sh_type_parameters sh ! i)))"

definition signature_ok :: "binary_indexed_view \<Rightarrow> ability_set list \<Rightarrow> signature_index \<Rightarrow> bool" where
  "signature_ok view scope idx =
     (\<forall>ty \<in> set (signatures view ! unat idx). refs_at_top ty \<and> outer_instance_ok view scope ty)"

lemma check_signature_token_Ok [ok_iff]: "check_signature_token ty = Ok u \<longleftrightarrow> ref_free ty"
  by (induction ty rule: check_signature_token.induct)
     (auto simp: ref_free_def is_reference_def for_all_eq_Ok)

lemma check_signature_token_not_Panic [simp, no_panic]: "check_signature_token ty \<noteq> Panic"
  by (induction ty rule: check_signature_token.induct) (auto intro!: for_all_not_Panic)

lemma check_signature_token_all_not_Panic [simp]: "for_all check_signature_token tys \<noteq> Panic"
  by (rule for_all_not_Panic) simp

lemma check_signature_tokens_simps [simp]:
  "check_signature_tokens tys = Ok u \<longleftrightarrow> (\<forall>ty \<in> set tys. ref_free ty)"
  "check_signature_tokens tys \<noteq> Panic"
  by (auto simp: check_signature_tokens_def for_all_eq_Ok check_signature_token_Ok intro!: for_all_not_Panic)

lemma ref_free_inner: "ref_free ty \<longleftrightarrow> \<not> is_reference ty \<and> refs_at_top ty"
  unfolding ref_free_def refs_at_top_def by (subst subtokens_inner) (auto simp: ref_free_def)

lemma check_top_token_Ok:
  "(case token of Reference inner \<Rightarrow> check_signature_token inner
      | MutableReference inner \<Rightarrow> check_signature_token inner
      | _ \<Rightarrow> check_signature_token token) = Ok u \<longleftrightarrow> refs_at_top token"
proof (cases "is_reference token")
  case True
  then show ?thesis
    by (cases token) (auto simp: is_reference_def refs_at_top_def inner_tokens_def check_signature_token_Ok)
next
  case False
  then have "(case token of Reference inner \<Rightarrow> check_signature_token inner
      | MutableReference inner \<Rightarrow> check_signature_token inner
      | _ \<Rightarrow> check_signature_token token) = check_signature_token token"
    by (cases token) (simp_all add: is_reference_def)
  with False show ?thesis by (simp add: check_signature_token_Ok ref_free_inner)
qed

lemma check_signature_at_Ok:
  "in_pool (signatures view) idx \<Longrightarrow>
     check_signature_at view idx = Ok u \<longleftrightarrow> (\<forall>ty \<in> set (signatures view ! unat idx). refs_at_top ty)"
  by (simp add: check_signature_at_def accessors_in_pool for_all_eq_Ok check_top_token_Ok)

lemma check_signature_at_not_Panic:
  "in_pool (signatures view) idx \<Longrightarrow> check_signature_at view idx \<noteq> Panic"
  by (auto simp: check_signature_at_def accessors_in_pool intro!: for_all_not_Panic split: signature_token.splits)

subsection \<open>Instantiations\<close>

lemma check_generic_instance_Ok:
  "check_generic_instance view args constraints scope = Ok u \<longleftrightarrow> satisfies view scope args constraints"
  by (auto simp: check_generic_instance_def satisfies_def list_all2_iff for_all_eq_Ok rbind_eq_Ok
      split: if_splits)

lemma check_generic_instance_not_Panic:
  assumes "\<And>ty. ty \<in> set args \<Longrightarrow> token_in_bounds view (length scope) ty"
  shows "check_generic_instance view args constraints scope \<noteq> Panic"
proof -
  have "token_abilities view ty scope \<noteq> Panic" if "(c, ty) \<in> set (zip constraints args)" for c ty
    using token_abilities_Ok[OF assms[OF set_zip_rightD[OF that]]] by auto
  then show ?thesis
    by (auto simp: check_generic_instance_def rbind_eq_Panic intro!: for_all_not_Panic split: if_splits)
qed

lemma token_in_bounds_args:
  assumes "token_in_bounds view n (StructInstantiation idx args)"
  shows "in_pool (struct_handles view) idx"
    and "length (sh_type_parameters (struct_handles view ! unat idx)) = length args"
    and "\<And>ty. ty \<in> set args \<Longrightarrow> token_in_bounds view n ty"
  using assms token_in_bounds_inner[OF assms] by (auto simp: token_in_bounds_def in_pool_def inner_tokens_def)

lemma check_type_instantiation_Ok:
  assumes "token_in_bounds view (length scope) ty"
  shows "check_type_instantiation view ty scope = Ok u \<longleftrightarrow> outer_instance_ok view scope ty"
  using assms token_in_bounds_args(1)
  by (cases ty) (auto simp: check_type_instantiation_def outer_instance_ok_def accessors_in_pool check_generic_instance_Ok)

lemma check_type_instantiation_not_Panic:
  assumes "token_in_bounds view (length scope) ty"
  shows "check_type_instantiation view ty scope \<noteq> Panic"
  using assms token_in_bounds_args[of view "length scope"]
  by (cases ty) (auto simp: check_type_instantiation_def accessors_in_pool check_generic_instance_not_Panic)

subsection \<open>Phantom positions\<close>

lemma check_phantom_params_Ok:
  assumes "token_in_bounds view (length tps) ty"
  shows "check_phantom_params view ty pos tps = Ok u \<longleftrightarrow>
    (pos \<and> (\<exists>j. ty = TypeParameter j)) \<or> (\<forall>i. strictly_occurs view i ty \<longrightarrow> \<not> stp_is_phantom (tps ! i))"
  using assms
proof (induction view ty pos tps arbitrary: u rule: check_phantom_params.induct)
  case (1 resolver ty pos tps)
  then show ?case using token_in_bounds_inner[OF "1.prems", of ty]
    by (auto simp: inner_tokens_def)
next
  case (2 resolver idx args pos tps)
  let ?sh = "struct_handles resolver ! unat idx"
  note args = token_in_bounds_args[OF "2.prems"]
  have sh: "struct_handle_at resolver idx = Ok ?sh" using args(1) by (rule accessors_in_pool)
  have "check_phantom_params resolver (args ! k) (stp_is_phantom (sh_type_parameters ?sh ! k)) tps = Ok () \<longleftrightarrow>
      (stp_is_phantom (sh_type_parameters ?sh ! k) \<and> (\<exists>j. args ! k = TypeParameter j)) \<or>
      (\<forall>i. strictly_occurs resolver i (args ! k) \<longrightarrow> \<not> stp_is_phantom (tps ! i))"
    if "k < length args" for k
    using that args(2,3) by (intro "2.IH"[OF sh, of "(k, args ! k)"]) auto
  then show ?case
    using args(2) by (simp add: sh for_all_enumerate) blast
next
  case (3 resolver idx pos tps)
  then show ?case by (auto simp: token_in_bounds_def)
qed (auto elim: strictly_occursE)

lemma check_phantom_params_not_Panic:
  "token_in_bounds view (length tps) ty \<Longrightarrow> check_phantom_params view ty pos tps \<noteq> Panic"
proof (induction view ty pos tps rule: check_phantom_params.induct)
  case (1 resolver ty pos tps)
  then show ?case using token_in_bounds_inner[OF "1.prems", of ty] by (auto simp: inner_tokens_def)
next
  case (2 resolver idx args pos tps)
  note args = token_in_bounds_args[OF "2.prems"]
  have sh: "struct_handle_at resolver idx = Ok (struct_handles resolver ! unat idx)"
    using args(1) by (rule accessors_in_pool)
  have "check_phantom_params resolver (args ! k)
      (stp_is_phantom (sh_type_parameters (struct_handles resolver ! unat idx) ! k)) tps \<noteq> Panic"
    if "k < length args" for k
    using that args(2,3) by (intro "2.IH"[OF sh, of "(k, args ! k)"]) auto
  then show ?case
    using args(2) by (auto simp: sh intro!: for_all_not_Panic)
next
  case (3 resolver idx pos tps)
  then show ?case by (auto simp: token_in_bounds_def)
qed auto

section \<open>The pass on tables in bounds\<close>

lemma signature_check_Ok:
  assumes "tables_in_bounds view" "in_pool (signatures view) idx" "signature_params_ok view (length scope) idx"
  shows "check_signature_at view idx = Ok u \<and> check_instantiation view idx scope = Ok v \<longleftrightarrow>
      signature_ok view scope idx"
    and "check_instantiation view idx scope \<noteq> Panic"
proof -
  have "token_in_bounds view (length scope) ty" if "ty \<in> set (signatures view ! unat idx)" for ty
    using signature_tokens_in_bounds[OF assms(1) accessors_in_pool(1)[OF assms(2)] assms(3) that] .
  then show "check_signature_at view idx = Ok u \<and> check_instantiation view idx scope = Ok v \<longleftrightarrow>
      signature_ok view scope idx" and "check_instantiation view idx scope \<noteq> Panic"
    by (auto simp: check_signature_at_Ok[OF assms(2)] check_instantiation_def accessors_in_pool(1)[OF assms(2)]
        for_all_eq_Ok check_type_instantiation_Ok check_type_instantiation_not_Panic signature_ok_def
        intro!: for_all_not_Panic)
qed

lemma check_type_arguments_not_Panic:
  assumes "tables_in_bounds view" "in_pool (signatures view) idx" "signature_params_ok view (length scope) idx"
  shows "check_type_arguments view idx constraints scope \<noteq> Panic"
proof -
  have "token_in_bounds view (length scope) ty" if "ty \<in> set (signatures view ! unat idx)" for ty
    using signature_tokens_in_bounds[OF assms(1) accessors_in_pool(1)[OF assms(2)] assms(3) that] .
  then show ?thesis
    by (simp add: check_type_arguments_def accessors_in_pool(1)[OF assms(2)] rbind_eq_Panic
        check_generic_instance_not_Panic)
qed

lemma check_instruction_types_not_Panic:
  assumes tables: "tables_in_bounds view"
    and ok: "instruction_ok view (length scope) locals_count code_len instr"
  shows "check_instruction_types view scope instr \<noteq> Panic"
proof -
  have struct: "check_struct_arguments view idx scope \<noteq> Panic"
    if "struct_inst_operand_ok view (length scope) idx" for idx
  proof -
    have "signature_params_ok view (length scope) (sdi_type_parameters si)"
      if "struct_instantiation_at view idx = Ok si" for si
      using that \<open>struct_inst_operand_ok view (length scope) idx\<close>
      by (auto simp: struct_inst_operand_ok_def arguments_ok_def struct_instantiation_at_def
          module_table_at_def vec_index_eq_Ok in_pool_def split: option.splits)
    then show ?thesis
      using that struct_instantiation_resolves[OF tables] struct_def_resolves[OF tables]
      by (auto simp: check_struct_arguments_def struct_inst_operand_ok_def rbind_eq_Panic
          module_accessors_not_Panic accessors_in_pool check_type_arguments_not_Panic[OF tables])
  qed
  have fld: "check_field_arguments view idx scope \<noteq> Panic"
    if "field_inst_operand_ok view (length scope) idx" for idx
  proof -
    have "signature_params_ok view (length scope) (fdi_type_parameters fi)"
      if "field_instantiation_at view idx = Ok fi" for fi
      using that \<open>field_inst_operand_ok view (length scope) idx\<close>
      by (auto simp: field_inst_operand_ok_def arguments_ok_def field_instantiation_at_def
          module_table_at_def vec_index_eq_Ok in_pool_def split: option.splits)
    then show ?thesis
      using that field_instantiation_resolves[OF tables] field_handle_resolves[OF tables]
        struct_def_resolves[OF tables]
      by (auto simp: check_field_arguments_def field_inst_operand_ok_def rbind_eq_Panic
          module_accessors_not_Panic accessors_in_pool check_type_arguments_not_Panic[OF tables])
  qed
  have vec: "check_vector_argument view idx \<noteq> Panic"
    if "vector_operand_ok view (length scope) idx" for idx
    using that by (auto simp: check_vector_argument_def vector_operand_ok_def accessors_in_pool)
  show ?thesis
  proof (cases instr)
    case (CallGeneric idx)
    then have idx: "in_pool (function_instantiations view) idx"
      and args: "signature_params_ok view (length scope)
        (fi_type_parameters (function_instantiations view ! unat idx))"
      using ok by (auto simp: instruction_ok_def arguments_ok_def)
    from function_instantiation_resolves[OF tables accessors_in_pool(4)[OF idx]] args CallGeneric
    show ?thesis
      by (simp add: check_instruction_types_def accessors_in_pool(4)[OF idx] accessors_in_pool(3)
          check_type_arguments_not_Panic[OF tables])
  qed (use ok in \<open>simp_all add: check_instruction_types_def instruction_ok_def struct fld vec\<close>)
qed

lemma verify_code_types_not_Panic:
  assumes "tables_in_bounds view" "body_ok view code (length scope) parameters"
  shows "verify_code_types view code scope \<noteq> Panic"
proof -
  have locals: "in_pool (signatures view) (cu_locals code)" "signature_params_ok view (length scope) (cu_locals code)"
    using assms(2) by (simp_all add: body_ok_def signature_params_ok_def)
  have "for_all (check_instruction_types view scope) (cu_code code) \<noteq> Panic"
    using check_instruction_types_not_Panic[OF assms(1) body_ok_instruction[OF assms(2)]]
    by (rule for_all_not_Panic)
  then show ?thesis
    using check_signature_at_not_Panic[OF locals(1)] signature_check_Ok(2)[OF assms(1) locals]
    by (auto simp: verify_code_types_def rbind_eq_Panic)
qed

text \<open>The type arguments that an instruction of a module gives and the constraints on them.\<close>

definition generic_arguments :: "compiled_module \<Rightarrow> bytecode \<Rightarrow> (signature_index \<times> ability_set list) option" where
  "generic_arguments m instr =
     (let struct_constraints = (\<lambda>idx. type_param_constraints
            (cm_struct_handles m ! unat (sd_struct_handle (cm_struct_defs m ! unat idx))));
          struct_inst = (\<lambda>idx. let si = cm_struct_def_instantiations m ! unat idx
            in Some (sdi_type_parameters si, struct_constraints (sdi_def si)));
          field_inst = (\<lambda>idx. let fi = cm_field_instantiations m ! unat idx
            in Some (fdi_type_parameters fi, struct_constraints (fdh_owner (cm_field_handles m ! unat (fdi_handle fi)))))
      in case instr of
        CallGeneric idx \<Rightarrow> (let fi = cm_function_instantiations m ! unat idx
          in Some (fi_type_parameters fi, fh_type_parameters (cm_function_handles m ! unat (fi_handle fi))))
      | PackGeneric idx \<Rightarrow> struct_inst idx | UnpackGeneric idx \<Rightarrow> struct_inst idx
      | ExistsGeneric idx \<Rightarrow> struct_inst idx | MoveFromGeneric idx \<Rightarrow> struct_inst idx
      | MoveToGeneric idx \<Rightarrow> struct_inst idx | ImmBorrowGlobalGeneric idx \<Rightarrow> struct_inst idx
      | MutBorrowGlobalGeneric idx \<Rightarrow> struct_inst idx
      | ImmBorrowFieldGeneric idx \<Rightarrow> field_inst idx | MutBorrowFieldGeneric idx \<Rightarrow> field_inst idx
      | _ \<Rightarrow> None)"

definition vector_argument :: "bytecode \<Rightarrow> signature_index option" where
  "vector_argument instr =
     (case instr of VecPack idx _ \<Rightarrow> Some idx | VecLen idx \<Rightarrow> Some idx | VecImmBorrow idx \<Rightarrow> Some idx
      | VecMutBorrow idx \<Rightarrow> Some idx | VecPushBack idx \<Rightarrow> Some idx | VecPopBack idx \<Rightarrow> Some idx
      | VecUnpack idx _ \<Rightarrow> Some idx | VecSwap idx \<Rightarrow> Some idx | _ \<Rightarrow> None)"

definition instruction_types_ok :: "compiled_module \<Rightarrow> ability_set list \<Rightarrow> bytecode \<Rightarrow> bool" where
  "instruction_types_ok m scope instr =
     ((\<forall>idx constraints. generic_arguments m instr = Some (idx, constraints) \<longrightarrow>
         (\<forall>ty \<in> set (cm_signatures m ! unat idx). ref_free ty) \<and>
         satisfies (ViewModule m) scope (cm_signatures m ! unat idx) constraints) \<and>
      (\<forall>idx. vector_argument instr = Some idx \<longrightarrow>
         (\<exists>ty. cm_signatures m ! unat idx = [ty] \<and> ref_free ty)))"

definition module_signatures_ok :: "compiled_module \<Rightarrow> bool" where
  "module_signatures_ok m =
     ((\<forall>idx :: signature_index. in_pool (cm_signatures m) idx \<longrightarrow>
         (\<forall>ty \<in> set (cm_signatures m ! unat idx). refs_at_top ty)) \<and>
      (\<forall>fh \<in> set (cm_function_handles m). \<forall>idx \<in> {fh_parameters fh, fh_return fh}.
         \<forall>ty \<in> set (cm_signatures m ! unat idx). outer_instance_ok (ViewModule m) (fh_type_parameters fh) ty) \<and>
      (\<forall>sd fs f. sd \<in> set (cm_struct_defs m) \<and> sd_field_information sd = Declared fs \<and> f \<in> set fs \<longrightarrow>
         field_type_ok (ViewModule m) (cm_struct_handles m ! unat (sd_struct_handle sd)) (fdd_signature f)) \<and>
      (\<forall>fd code scope. fd \<in> set (cm_function_defs m) \<and> fd_code fd = Some code \<and>
         scope = fh_type_parameters (cm_function_handles m ! unat (fd_function fd)) \<longrightarrow>
         (\<forall>ty \<in> set (cm_signatures m ! unat (cu_locals code)). outer_instance_ok (ViewModule m) scope ty) \<and>
         (\<forall>instr \<in> set (cu_code code). instruction_types_ok m scope instr)))"

lemma check_type_arguments_Ok:
  "in_pool (signatures view) idx \<Longrightarrow> check_type_arguments view idx constraints scope = Ok u \<longleftrightarrow>
     (\<forall>ty \<in> set (signatures view ! unat idx). ref_free ty) \<and>
     satisfies view scope (signatures view ! unat idx) constraints"
  by (simp add: check_type_arguments_def accessors_in_pool rbind_eq_Ok check_generic_instance_Ok)

lemma module_accessors_in_pool:
  "in_pool_opt (struct_defs (ViewModule m)) sd \<Longrightarrow> struct_def_at (ViewModule m) sd = Ok (cm_struct_defs m ! unat sd)"
  "in_pool_opt (struct_instantiations (ViewModule m)) si \<Longrightarrow>
     struct_instantiation_at (ViewModule m) si = Ok (cm_struct_def_instantiations m ! unat si)"
  "in_pool_opt (field_handles (ViewModule m)) flh \<Longrightarrow> field_handle_at (ViewModule m) flh = Ok (cm_field_handles m ! unat flh)"
  "in_pool_opt (field_instantiations (ViewModule m)) fli \<Longrightarrow>
     field_instantiation_at (ViewModule m) fli = Ok (cm_field_instantiations m ! unat fli)"
  by (simp_all add: struct_def_at_def struct_instantiation_at_def field_handle_at_def field_instantiation_at_def
      module_table_at_def view_tables in_pool_opt_def in_pool_def)

lemma check_struct_arguments_Ok:
  assumes "tables_in_bounds (ViewModule m)" "in_pool_opt (struct_instantiations (ViewModule m)) idx"
    and "si = cm_struct_def_instantiations m ! unat idx"
    and "sh = cm_struct_handles m ! unat (sd_struct_handle (cm_struct_defs m ! unat (sdi_def si)))"
  shows "check_struct_arguments (ViewModule m) idx scope = Ok u \<longleftrightarrow>
    (\<forall>ty \<in> set (cm_signatures m ! unat (sdi_type_parameters si)). ref_free ty) \<and>
    satisfies (ViewModule m) scope (cm_signatures m ! unat (sdi_type_parameters si)) (type_param_constraints sh)"
proof -
  have si: "struct_instantiation_at (ViewModule m) idx = Ok si"
    using module_accessors_in_pool(2)[OF assms(2)] assms(3) by simp
  note inst = struct_instantiation_resolves[OF assms(1) si]
  note sd = module_accessors_in_pool(1)[OF inst(1)]
  from struct_def_resolves[OF assms(1) sd] inst(2) assms(4) show ?thesis
    by (simp add: check_struct_arguments_def si sd accessors_in_pool check_type_arguments_Ok view_tables)
qed

lemma check_field_arguments_Ok:
  assumes "tables_in_bounds (ViewModule m)" "in_pool_opt (field_instantiations (ViewModule m)) idx"
    and "fi = cm_field_instantiations m ! unat idx"
    and "sh = cm_struct_handles m ! unat (sd_struct_handle (cm_struct_defs m !
      unat (fdh_owner (cm_field_handles m ! unat (fdi_handle fi)))))"
  shows "check_field_arguments (ViewModule m) idx scope = Ok u \<longleftrightarrow>
    (\<forall>ty \<in> set (cm_signatures m ! unat (fdi_type_parameters fi)). ref_free ty) \<and>
    satisfies (ViewModule m) scope (cm_signatures m ! unat (fdi_type_parameters fi)) (type_param_constraints sh)"
proof -
  have fi: "field_instantiation_at (ViewModule m) idx = Ok fi"
    using module_accessors_in_pool(4)[OF assms(2)] assms(3) by simp
  note inst = field_instantiation_resolves[OF assms(1) fi]
  note fh = module_accessors_in_pool(3)[OF inst(1)]
  note sd = module_accessors_in_pool(1)[OF field_handle_resolves[OF assms(1) fh]]
  from struct_def_resolves[OF assms(1) sd] inst(2) assms(4) show ?thesis
    by (simp add: check_field_arguments_def fi fh sd accessors_in_pool check_type_arguments_Ok view_tables)
qed

lemma check_vector_argument_Ok:
  "in_pool (signatures view) idx \<Longrightarrow> check_vector_argument view idx = Ok u \<longleftrightarrow>
     (\<exists>ty. signatures view ! unat idx = [ty] \<and> ref_free ty)"
  by (auto simp: check_vector_argument_def accessors_in_pool length_Suc_conv)

lemma check_instruction_types_Ok:
  assumes tables: "tables_in_bounds (ViewModule m)"
    and ok: "instruction_ok (ViewModule m) (length scope) locals_count code_len instr"
  shows "check_instruction_types (ViewModule m) scope instr = Ok () \<longleftrightarrow> instruction_types_ok m scope instr"
proof (cases instr)
  case (CallGeneric idx)
  then have idx: "in_pool (function_instantiations (ViewModule m)) idx"
    using ok by (auto simp: instruction_ok_def)
  from function_instantiation_resolves[OF tables accessors_in_pool(4)[OF idx]] CallGeneric show ?thesis
    by (simp add: check_instruction_types_def accessors_in_pool(4)[OF idx] accessors_in_pool(3)
        check_type_arguments_Ok instruction_types_ok_def generic_arguments_def vector_argument_def Let_def view_tables)
qed (use ok in \<open>simp_all add: check_instruction_types_def instruction_ok_def instruction_types_ok_def
  generic_arguments_def vector_argument_def Let_def struct_inst_operand_ok_def field_inst_operand_ok_def
  vector_operand_ok_def check_struct_arguments_Ok[OF tables _ refl refl]
  check_field_arguments_Ok[OF tables _ refl refl] check_vector_argument_Ok signatures_def\<close>)

section \<open>The pass on modules\<close>

lemma verify_signature_pool_Ok:
  "verify_signature_pool (ViewModule m) (cm_signatures m) = Ok u \<longleftrightarrow>
     (\<forall>idx :: signature_index. in_pool (cm_signatures m) idx \<longrightarrow>
        (\<forall>ty \<in> set (cm_signatures m ! unat idx). refs_at_top ty))"
  (is "?pool \<longleftrightarrow> ?all")
proof
  assume ?pool
  show ?all
  proof (intro allI impI)
    fix idx :: signature_index
    assume idx: "in_pool (cm_signatures m) idx"
    have "check_signature_at (ViewModule m) (of_nat i) = Ok ()" if "i < length (cm_signatures m)" for i
      using that \<open>?pool\<close> by (simp add: verify_signature_pool_def for_all_eq_Ok)
    from this[of "unat idx"] idx show "\<forall>ty \<in> set (cm_signatures m ! unat idx). refs_at_top ty"
      using check_signature_at_Ok[of "ViewModule m" idx] by (simp add: signatures_def in_pool_def)
  qed
next
  assume all: ?all
  have "check_signature_at (ViewModule m) (of_nat i) = Ok ()" if "i < length (cm_signatures m)" for i
  proof -
    have "in_pool (cm_signatures m) (of_nat i :: signature_index)"
      using that by (simp add: in_pool_def unat_of_nat)
    with all show ?thesis using check_signature_at_Ok[of "ViewModule m" "of_nat i"] by (simp add: signatures_def)
  qed
  then show ?pool by (simp add: verify_signature_pool_def for_all_eq_Ok)
qed

lemma verify_signature_pool_not_Panic: "verify_signature_pool (ViewModule m) (cm_signatures m) \<noteq> Panic"
  unfolding verify_signature_pool_def
proof (rule for_all_not_Panic)
  fix i assume "i \<in> set [0..<length (cm_signatures m)]"
  then have "in_pool (signatures (ViewModule m)) (of_nat i :: signature_index)"
    by (simp add: in_pool_def unat_of_nat signatures_def le_less_trans[OF mod_less_eq_dividend])
  then show "check_signature_at (ViewModule m) (of_nat i) \<noteq> Panic" by (rule check_signature_at_not_Panic)
qed

lemma function_handle_signatures:
  assumes "tables_in_bounds view" "fh \<in> set (function_handles view)" "idx \<in> {fh_parameters fh, fh_return fh}"
  shows "in_pool (signatures view) idx" "signature_params_ok view (length (fh_type_parameters fh)) idx"
  using assms by (auto simp: tables_in_bounds_def function_handle_ok_def)

lemma verify_function_signatures_spec:
  assumes "tables_in_bounds view"
  shows "verify_function_signatures view (function_handles view) = Ok () \<longleftrightarrow>
      (\<forall>fh \<in> set (function_handles view). \<forall>idx \<in> {fh_parameters fh, fh_return fh}.
         signature_ok view (fh_type_parameters fh) idx)"
    and "verify_function_signatures view (function_handles view) \<noteq> Panic"
proof -
  have fh: "check_signature_at view idx = Ok () \<and> check_instantiation view idx (fh_type_parameters fh) = Ok () \<longleftrightarrow>
        signature_ok view (fh_type_parameters fh) idx"
    "check_signature_at view idx \<noteq> Panic" "check_instantiation view idx (fh_type_parameters fh) \<noteq> Panic"
    if "fh \<in> set (function_handles view)" "idx \<in> {fh_parameters fh, fh_return fh}" for fh idx
    using signature_check_Ok[OF assms function_handle_signatures[OF assms that]]
      check_signature_at_not_Panic[OF function_handle_signatures(1)[OF assms that]] by blast+
  have "verify_function_signatures view (function_handles view) = Ok () \<longleftrightarrow>
      (\<forall>fh \<in> set (function_handles view). \<forall>idx \<in> {fh_parameters fh, fh_return fh}.
         check_signature_at view idx = Ok () \<and> check_instantiation view idx (fh_type_parameters fh) = Ok ())"
    unfolding verify_function_signatures_def
    by (rule for_all_enumerate_iff) (auto simp: rbind_eq_Ok map_err_eq_Ok)
  with fh(1) show "verify_function_signatures view (function_handles view) = Ok () \<longleftrightarrow>
      (\<forall>fh \<in> set (function_handles view). \<forall>idx \<in> {fh_parameters fh, fh_return fh}.
         signature_ok view (fh_type_parameters fh) idx)"
    by blast
  show "verify_function_signatures view (function_handles view) \<noteq> Panic"
    unfolding verify_function_signatures_def
    by (rule for_all_enumerate_not_Panic) (simp add: rbind_eq_Panic map_err_eq_Panic fh(2,3))
qed

lemma verify_fields_spec:
  assumes "tables_in_bounds (ViewModule m)"
  shows "verify_fields (ViewModule m) (cm_struct_defs m) = Ok () \<longleftrightarrow>
      (\<forall>sd fs f. sd \<in> set (cm_struct_defs m) \<and> sd_field_information sd = Declared fs \<and> f \<in> set fs \<longrightarrow>
         field_type_ok (ViewModule m) (cm_struct_handles m ! unat (sd_struct_handle sd)) (fdd_signature f))"
    and "verify_fields (ViewModule m) (cm_struct_defs m) \<noteq> Panic"
proof -
  let ?view = "ViewModule m" and ?sh = "\<lambda>sd. cm_struct_handles m ! unat (sd_struct_handle sd)"
  have sh: "struct_handle_at ?view (sd_struct_handle sd) = Ok (?sh sd)" if "sd \<in> set (cm_struct_defs m)" for sd
    using assms that accessors_in_pool(2)[of ?view "sd_struct_handle sd"]
    by (auto simp: tables_in_bounds_def struct_definition_ok_def view_tables)
  have field: "(verify_field ?view i (?sh sd) (j, f) = Ok () \<longleftrightarrow> field_type_ok ?view (?sh sd) (fdd_signature f)) \<and>
      verify_field ?view i (?sh sd) (j, f) \<noteq> Panic"
    if "sd \<in> set (cm_struct_defs m)" "sd_field_information sd = Declared fs" "f \<in> set fs" for sd fs f i j
  proof -
    have "token_in_bounds ?view (length (sh_type_parameters (?sh sd))) (fdd_signature f)"
      using field_tokens[OF assms _ that(2,3)] that(1) by (simp add: view_tables)
    moreover have "token_in_bounds ?view (length (type_param_constraints (?sh sd))) (fdd_signature f)"
      using calculation by (simp add: type_param_constraints_def)
    ultimately show ?thesis
      by (auto simp: verify_field_def rbind_eq_Ok rbind_eq_Panic map_err_eq_Ok map_err_eq_Panic
          check_signature_token_Ok check_type_instantiation_Ok check_type_instantiation_not_Panic
          check_phantom_params_Ok check_phantom_params_not_Panic field_type_ok_def)
  qed
  have "(for_all (verify_field ?view i (?sh sd)) (enumerate_from_zero fs) = Ok () \<longleftrightarrow>
        (\<forall>f \<in> set fs. field_type_ok ?view (?sh sd) (fdd_signature f))) \<and>
      for_all (verify_field ?view i (?sh sd)) (enumerate_from_zero fs) \<noteq> Panic"
    if "sd \<in> set (cm_struct_defs m)" "sd_field_information sd = Declared fs" for sd fs i
  proof
    show "for_all (verify_field ?view i (?sh sd)) (enumerate_from_zero fs) = Ok () \<longleftrightarrow>
        (\<forall>f \<in> set fs. field_type_ok ?view (?sh sd) (fdd_signature f))"
      using field[OF that] by (intro for_all_enumerate_iff) simp
    show "for_all (verify_field ?view i (?sh sd)) (enumerate_from_zero fs) \<noteq> Panic"
      using field[OF that] by (intro for_all_enumerate_not_Panic) simp
  qed
  then have "(case sd_field_information sd of Native \<Rightarrow> Ok ()
       | Declared fs \<Rightarrow> rbind (struct_handle_at ?view (sd_struct_handle sd)) (\<lambda>sh.
             for_all (verify_field ?view i sh) (enumerate_from_zero fs))) = Ok () \<longleftrightarrow>
      (\<forall>fs f. sd_field_information sd = Declared fs \<and> f \<in> set fs \<longrightarrow> field_type_ok ?view (?sh sd) (fdd_signature f))"
    and "(case sd_field_information sd of Native \<Rightarrow> Ok ()
       | Declared fs \<Rightarrow> rbind (struct_handle_at ?view (sd_struct_handle sd)) (\<lambda>sh.
             for_all (verify_field ?view i sh) (enumerate_from_zero fs))) \<noteq> Panic"
    if "sd \<in> set (cm_struct_defs m)" for sd i
    using that sh[OF that] by (auto split: struct_field_information.splits)
  note defs = this
  have "verify_fields ?view (cm_struct_defs m) = Ok () \<longleftrightarrow> (\<forall>sd \<in> set (cm_struct_defs m).
      \<forall>fs f. sd_field_information sd = Declared fs \<and> f \<in> set fs \<longrightarrow> field_type_ok ?view (?sh sd) (fdd_signature f))"
    unfolding verify_fields_def by (rule for_all_enumerate_iff) (simp only: prod.case defs(1))
  then show "verify_fields ?view (cm_struct_defs m) = Ok () \<longleftrightarrow>
      (\<forall>sd fs f. sd \<in> set (cm_struct_defs m) \<and> sd_field_information sd = Declared fs \<and> f \<in> set fs \<longrightarrow>
         field_type_ok ?view (?sh sd) (fdd_signature f))"
    by blast
  show "verify_fields ?view (cm_struct_defs m) \<noteq> Panic"
    unfolding verify_fields_def by (rule for_all_enumerate_not_Panic) (simp only: prod.case defs(2) not_False_eq_True)
qed

lemma verify_code_units_spec:
  assumes tables: "tables_in_bounds (ViewModule m)"
    and pool: "\<And>idx :: signature_index. in_pool (cm_signatures m) idx \<Longrightarrow>
      \<forall>ty \<in> set (cm_signatures m ! unat idx). refs_at_top ty"
  shows "verify_code_units (ViewModule m) (cm_function_defs m) = Ok () \<longleftrightarrow>
      (\<forall>fd code scope. fd \<in> set (cm_function_defs m) \<and> fd_code fd = Some code \<and>
         scope = fh_type_parameters (cm_function_handles m ! unat (fd_function fd)) \<longrightarrow>
         (\<forall>ty \<in> set (cm_signatures m ! unat (cu_locals code)). outer_instance_ok (ViewModule m) scope ty) \<and>
         (\<forall>instr \<in> set (cu_code code). instruction_types_ok m scope instr))"
proof -
  let ?view = "ViewModule m" and ?scope = "\<lambda>fd. fh_type_parameters (cm_function_handles m ! unat (fd_function fd))"
  let ?body_ok = "\<lambda>fd code. (\<forall>ty \<in> set (cm_signatures m ! unat (cu_locals code)). outer_instance_ok ?view (?scope fd) ty) \<and>
         (\<forall>instr \<in> set (cu_code code). instruction_types_ok m (?scope fd) instr)"
  have code: "verify_code_types ?view code (?scope fd) = Ok () \<longleftrightarrow> ?body_ok fd code"
    if fd: "fd \<in> set (cm_function_defs m)" and some: "fd_code fd = Some code" for fd code
  proof -
    have "function_definition_ok ?view fd"
      using tables fd by (auto simp: tables_in_bounds_def function_defs_def opt_list_def)
    then obtain parameters where body: "body_ok ?view code (length (?scope fd)) parameters"
      using some by (auto simp: function_definition_ok_def function_handles_def)
    then have locals: "in_pool (signatures ?view) (cu_locals code)"
        "signature_params_ok ?view (length (?scope fd)) (cu_locals code)"
      by (simp_all add: body_ok_def signature_params_ok_def)
    have "signature_ok ?view (?scope fd) (cu_locals code) \<longleftrightarrow>
        (\<forall>ty \<in> set (cm_signatures m ! unat (cu_locals code)). outer_instance_ok ?view (?scope fd) ty)"
      using pool[of "cu_locals code"] locals(1) by (auto simp: signature_ok_def signatures_def)
    moreover have "check_signature_at ?view (cu_locals code) = Ok () \<and>
        check_instantiation ?view (cu_locals code) (?scope fd) = Ok () \<longleftrightarrow>
        signature_ok ?view (?scope fd) (cu_locals code)"
      by (rule signature_check_Ok(1)[OF tables locals])
    moreover have "check_instruction_types ?view (?scope fd) instr = Ok () \<longleftrightarrow> instruction_types_ok m (?scope fd) instr"
      if "instr \<in> set (cu_code code)" for instr
      by (rule check_instruction_types_Ok[OF tables body_ok_instruction[OF body that]])
    ultimately show ?thesis by (auto simp: verify_code_types_def rbind_eq_Ok for_all_eq_Ok)
  qed
  have handle: "function_handle_at ?view (fd_function fd) = Ok (cm_function_handles m ! unat (fd_function fd))"
    if "fd \<in> set (cm_function_defs m)" for fd
    using function_def_resolves(1)[OF tables, of fd] that accessors_in_pool(3)[of ?view "fd_function fd"]
    by (simp add: view_tables)
  have "verify_code_units ?view (cm_function_defs m) = Ok () \<longleftrightarrow>
      (\<forall>fd \<in> set (cm_function_defs m). \<forall>code. fd_code fd = Some code \<longrightarrow> ?body_ok fd code)"
    unfolding verify_code_units_def
    by (rule for_all_enumerate_iff) (auto simp: handle code map_err_eq_Ok split: option.splits)
  then show ?thesis by blast
qed

lemma verify_code_units_not_Panic:
  assumes "tables_in_bounds (ViewModule m)"
  shows "verify_code_units (ViewModule m) (cm_function_defs m) \<noteq> Panic"
  unfolding verify_code_units_def
proof (rule for_all_enumerate_not_Panic)
  fix i fd assume "fd \<in> set (cm_function_defs m)"
  then have fd: "fd \<in> set (opt_list (function_defs (ViewModule m)))" by (simp add: view_tables)
  obtain fh where fh: "function_handle_at (ViewModule m) (fd_function fd) = Ok fh"
    using function_def_resolves(1)[OF assms fd] accessors_in_pool(3) by blast
  obtain parameters where ps: "signature_at (ViewModule m) (fh_parameters fh) = Ok parameters"
    using function_handle_resolves(1)[OF assms fh] accessors_in_pool(1) by blast
  show "(case (i, fd) of (func_def_idx, func_def) \<Rightarrow> case fd_code func_def of None \<Rightarrow> Ok ()
      | Some code \<Rightarrow> rbind (function_handle_at (ViewModule m) (fd_function func_def)) (\<lambda>fh.
             map_err (code_unit_error func_def_idx code)
               (verify_code_types (ViewModule m) code (fh_type_parameters fh)))) \<noteq> Panic"
    using verify_code_types_not_Panic[OF assms function_body_ok(1)[OF assms fd _ fh ps]]
    by (auto simp: fh map_err_eq_Panic split: option.splits)
qed

lemma signature_verify_module_not_Panic:
  "tables_in_bounds (ViewModule m) \<Longrightarrow> signature_verify_module m \<noteq> Panic"
  using verify_function_signatures_spec(2)[of "ViewModule m"]
  by (simp add: signature_verify_module_def Let_def rbind_eq_Panic verify_signature_pool_not_Panic
      verify_fields_spec(2) verify_code_units_not_Panic function_handles_def)

lemma signature_verify_module_iff:
  assumes tables: "tables_in_bounds (ViewModule m)"
  shows "signature_verify_module m = Ok () \<longleftrightarrow> module_signatures_ok m"
proof -
  let ?view = "ViewModule m"
  let ?refs = "\<forall>idx :: signature_index. in_pool (cm_signatures m) idx \<longrightarrow>
      (\<forall>ty \<in> set (cm_signatures m ! unat idx). refs_at_top ty)"
  have handles: "signature_ok ?view (fh_type_parameters fh) idx \<longleftrightarrow>
      (\<forall>ty \<in> set (cm_signatures m ! unat idx). outer_instance_ok ?view (fh_type_parameters fh) ty)"
    if "?refs" "fh \<in> set (cm_function_handles m)" "idx \<in> {fh_parameters fh, fh_return fh}" for fh idx
    using that function_handle_signatures(1)[OF tables, of fh idx] by (auto simp: signature_ok_def view_tables)
  show ?thesis
  proof (cases "?refs")
    case True
    then show ?thesis
      using verify_function_signatures_spec(1)[OF tables] handles
      by (simp add: signature_verify_module_def Let_def rbind_eq_Ok verify_signature_pool_Ok function_handles_def
          verify_fields_spec(1)[OF tables] verify_code_units_spec[OF tables] module_signatures_ok_def)
  next
    case False
    moreover have "?refs" if "signature_verify_module m = Ok ()"
      using that by (auto simp: signature_verify_module_def Let_def rbind_eq_Ok verify_signature_pool_Ok)
    ultimately show ?thesis by (auto simp: module_signatures_ok_def)
  qed
qed

text \<open>C22: on a module that the bounds checker accepts the signature pass never panics, and it accepts exactly the
  modules in which references occur only at the top level of signatures and not at all in fields and
  type arguments, the arguments of the outermost instantiation of each type and of each generic
  instruction have the abilities that are asked of them, and phantom type parameters occur in field
  types only as phantom arguments.\<close>

theorem signature_verify_module_spec:
  assumes "bounds_verify_module m = Ok ()"
  shows "signature_verify_module m \<noteq> Panic \<and> (signature_verify_module m = Ok () \<longleftrightarrow> module_signatures_ok m)"
  using signature_verify_module_iff signature_verify_module_not_Panic bounds_verify_tables[OF assms] by blast

lemmas signature_exec = signature_verify_module_def verify_signature_pool_def verify_function_signatures_def
  verify_fields_def verify_field_def verify_code_units_def verify_code_types_def check_signature_at_def
  check_instantiation_def check_type_instantiation_def check_generic_instance_def check_instruction_types_def
  check_struct_arguments_def check_field_arguments_def check_vector_argument_def check_type_arguments_def
  check_signature_tokens_def type_param_constraints_def signature_at_def struct_handle_at_def
  function_handle_at_def struct_instantiation_at_def struct_def_at_def module_table_at_def vec_index_def
  enumerate_from_zero_def map_err_def ability_set_is_subset_def is_subset_bits_def ability_set_PRIMITIVES_def
  ability_bits_def

lemma example_signatures_accepted: "signature_verify_module example_module = Ok ()"
  by (simp add: signature_exec example_module_def view_tables)

theorem signature_verify_module_spec_witness:
  "bounds_verify_module example_module = Ok () \<and> module_signatures_ok example_module"
  using signature_verify_module_spec[OF example_bounds_accepted] example_bounds_accepted
    example_signatures_accepted by blast

text \<open>The example module with a function \<^verbatim>\<open>balance(a: vector<Box<signer>>): u64\<close>: \<^verbatim>\<open>Box\<close> asks \<^verbatim>\<open>store\<close> of its
  argument, which \<^verbatim>\<open>signer\<close> does not have.\<close>

definition nested_module :: compiled_module where
  "nested_module = example_module\<lparr>
     cm_signatures := [[], [Vector (StructInstantiation 1 [Signer])], [U64], [StructInstantiation 1 [U64]]],
     cm_function_defs := []\<rparr>"

text \<open>C26: ability constraints are checked for the outermost instantiation of a type only. The bounds and signature
  passes accept a module with a parameter of type \<^verbatim>\<open>vector<Box<signer>>\<close> although \<^verbatim>\<open>signer\<close> lacks the
  ability that \<^verbatim>\<open>Box\<close> requires; the same argument is rejected when the instantiation is outermost.\<close>

theorem nested_constraints_unchecked:
  "bounds_verify_module nested_module = Ok () \<and> signature_verify_module nested_module = Ok () \<and>
   check_type_instantiation (ViewModule nested_module) (StructInstantiation 1 [Signer]) [] =
     Err (new_error CONSTRAINT_NOT_SATISFIED)"
proof (intro conjI)
  show "bounds_verify_module nested_module = Ok ()"
    by (simp add: bounds_verify_module_def bounds_verify_impl_Ok nested_module_def example_module_def
        bounds_predicates view_tables)
  show "signature_verify_module nested_module = Ok ()"
    by (simp add: signature_exec nested_module_def example_module_def view_tables)
  show "check_type_instantiation (ViewModule nested_module) (StructInstantiation 1 [Signer]) [] =
      Err (new_error CONSTRAINT_NOT_SATISFIED)"
    by (simp add: signature_exec nested_module_def example_module_def view_tables ability_set_SIGNER_def)
qed

end
