(* ===== verification/Module_Access.thy ===== *)
theory Module_Access
  imports Example_Module
begin

text \<open>
  The accessors of a module (\<^verbatim>\<open>move-binary-format/src/access.rs\<close>) that the passes use besides those of the
  views, module ids, and the errors of \<^verbatim>\<open>errors.rs\<close> once they have a location. Indexing a table out of
  range panics.
\<close>

section \<open>Accessors\<close>

definition module_struct_def_at ::
  "compiled_module \<Rightarrow> struct_definition_index \<Rightarrow> (struct_definition, 'e) result" where
  "module_struct_def_at m idx = vec_index (cm_struct_defs m) (unat idx)"

definition module_function_def_at ::
  "compiled_module \<Rightarrow> function_definition_index \<Rightarrow> (function_definition, 'e) result" where
  "module_function_def_at m idx = vec_index (cm_function_defs m) (unat idx)"

definition module_struct_instantiation_at ::
  "compiled_module \<Rightarrow> struct_def_instantiation_index \<Rightarrow> (struct_def_instantiation, 'e) result" where
  "module_struct_instantiation_at m idx = vec_index (cm_struct_def_instantiations m) (unat idx)"

definition module_function_instantiation_at ::
  "compiled_module \<Rightarrow> function_instantiation_index \<Rightarrow> (function_instantiation, 'e) result" where
  "module_function_instantiation_at m idx = vec_index (cm_function_instantiations m) (unat idx)"

definition module_struct_handle_at ::
  "compiled_module \<Rightarrow> struct_handle_index \<Rightarrow> (struct_handle, 'e) result" where
  "module_struct_handle_at m idx = vec_index (cm_struct_handles m) (unat idx)"

definition module_function_handle_at ::
  "compiled_module \<Rightarrow> function_handle_index \<Rightarrow> (function_handle, 'e) result" where
  "module_function_handle_at m idx = vec_index (cm_function_handles m) (unat idx)"

definition module_module_handle_at ::
  "compiled_module \<Rightarrow> module_handle_index \<Rightarrow> (module_handle, 'e) result" where
  "module_module_handle_at m idx = vec_index (cm_module_handles m) (unat idx)"

definition module_identifier_at :: "compiled_module \<Rightarrow> identifier_index \<Rightarrow> (ident_str, 'e) result" where
  "module_identifier_at m idx = vec_index (cm_identifiers m) (unat idx)"

definition module_address_at ::
  "compiled_module \<Rightarrow> address_identifier_index \<Rightarrow> (account_address, 'e) result" where
  "module_address_at m idx = vec_index (cm_address_identifiers m) (unat idx)"

definition self_handle :: "compiled_module \<Rightarrow> (module_handle, 'e) result" where
  "self_handle m = module_module_handle_at m (cm_self_module_handle_idx m)"

lemmas module_access_defs = module_struct_def_at_def module_function_def_at_def
  module_struct_instantiation_at_def module_function_instantiation_at_def module_struct_handle_at_def
  module_function_handle_at_def module_module_handle_at_def module_identifier_at_def
  module_address_at_def

section \<open>Module ids\<close>

record module_id =
  mid_address :: account_address
  mid_name :: ident_str

definition module_id_for_handle :: "compiled_module \<Rightarrow> module_handle \<Rightarrow> (module_id, 'e) result" where
  "module_id_for_handle m mh =
     rbind (module_address_at m (mh_address mh)) (\<lambda>address.
     rbind (module_identifier_at m (mh_name mh)) (\<lambda>name.
       Ok \<lparr>mid_address = address, mid_name = name\<rparr>))"

definition self_id :: "compiled_module \<Rightarrow> (module_id, 'e) result" where
  "self_id m = rbind (self_handle m) (module_id_for_handle m)"

definition immediate_dependencies :: "compiled_module \<Rightarrow> (module_id list, 'e) result" where
  "immediate_dependencies m =
     rbind (self_handle m) (\<lambda>sh.
       rmap (module_id_for_handle m) (filter (\<lambda>handle. handle \<noteq> sh) (cm_module_handles m)))"

definition immediate_friends :: "compiled_module \<Rightarrow> (module_id list, 'e) result" where
  "immediate_friends m = rmap (module_id_for_handle m) (cm_friend_decls m)"

definition find_struct_def :: "compiled_module \<Rightarrow> struct_handle_index \<Rightarrow> struct_definition option" where
  "find_struct_def m idx = List.find (\<lambda>d. sd_struct_handle d = idx) (cm_struct_defs m)"

section \<open>Located errors\<close>

datatype location = LocUndefined | LocScript | LocModule module_id

record vm_error =
  vme_status :: status_code
  vme_sub_status :: "u64 option"
  vme_location :: location
  vme_indices :: "(index_kind \<times> nat) list"
  vme_offsets :: "(nat \<times> nat) list"

definition finish :: "partial_vm_error \<Rightarrow> location \<Rightarrow> vm_error" where
  "finish e loc = \<lparr>vme_status = major_status e, vme_sub_status = sub_status e, vme_location = loc,
     vme_indices = indices e, vme_offsets = offsets e\<rparr>"

text \<open>\<^verbatim>\<open>r.map_err(|e| e.finish(Location::Module(module.self_id())))\<close>: the id is computed, and may panic,
  only for an error.\<close>

definition finish_in_module :: "compiled_module \<Rightarrow> 'a vm_result \<Rightarrow> ('a, vm_error) result" where
  "finish_in_module m r =
     (case r of Ok x \<Rightarrow> Ok x
      | Err e \<Rightarrow> rbind (self_id m) (\<lambda>mid. Err (finish e (LocModule mid)))
      | Panic \<Rightarrow> Panic)"

lemma finish_in_module_Ok [ok_iff, simp]: "finish_in_module m r = Ok x \<longleftrightarrow> r = Ok x"
  by (cases r) (auto simp: finish_in_module_def rbind_eq_Ok)

section \<open>Tables in bounds\<close>

lemma module_handle_resolves:
  assumes "tables_in_bounds (ViewModule m)" "mh \<in> set (cm_module_handles m) \<union> set (cm_friend_decls m)"
  shows "module_id_for_handle m mh = Ok \<lparr>mid_address = cm_address_identifiers m ! unat (mh_address mh),
    mid_name = cm_identifiers m ! unat (mh_name mh)\<rparr>"
  using assms
  by (auto simp: tables_in_bounds_def module_handle_ok_def module_id_for_handle_def module_access_defs
      view_tables in_pool_def)

lemma self_handle_resolves:
  assumes "tables_in_bounds (ViewModule m)"
  shows "self_handle m = Ok (cm_module_handles m ! unat (cm_self_module_handle_idx m))"
    and "cm_module_handles m ! unat (cm_self_module_handle_idx m) \<in> set (cm_module_handles m)"
  using assms
  by (auto simp: tables_in_bounds_def self_handle_def module_access_defs view_tables in_pool_def)

definition self_module_id :: "compiled_module \<Rightarrow> module_id" where
  "self_module_id m = (let mh = cm_module_handles m ! unat (cm_self_module_handle_idx m)
     in \<lparr>mid_address = cm_address_identifiers m ! unat (mh_address mh), mid_name = cm_identifiers m ! unat (mh_name mh)\<rparr>)"

lemma self_id_resolves: "tables_in_bounds (ViewModule m) \<Longrightarrow> self_id m = Ok (self_module_id m)"
  by (simp add: self_id_def self_handle_resolves module_handle_resolves self_module_id_def Let_def)

lemma finish_in_module_not_Panic:
  "tables_in_bounds (ViewModule m) \<Longrightarrow> finish_in_module m r = Panic \<longleftrightarrow> r = Panic"
  by (cases r) (simp_all add: finish_in_module_def self_id_resolves)

end
