(* ===== verification/Acquires.thy ===== *)
theory Acquires
  imports Module_Access BTree
begin

text \<open>
  The pass \<^verbatim>\<open>move-bytecode-verifier/src/acquires_list_verifier.rs\<close>: the \<^verbatim>\<open>acquires\<close> annotation of a
  function names exactly the resources that its body borrows or moves out of global storage, directly
  or through the annotations of the functions of the module that it calls. The property shows that
  annotations which the pass accepts in a whole module cover the resources reached through any chain
  of calls within the module.
\<close>

section \<open>The pass\<close>

record acquires_verifier =
  av_module :: compiled_module
  av_current_function :: nat
  av_annotated :: "struct_definition_index btree_set"
  av_actual :: "struct_definition_index btree_set"
  av_handle_to_def :: "function_handle_index \<rightharpoonup> function_definition"

definition acquires_error :: "acquires_verifier \<Rightarrow> status_code \<Rightarrow> nat \<Rightarrow> partial_vm_error" where
  "acquires_error av status off = at_code_offset (new_error status) (av_current_function av) off"

definition function_acquired_resources ::
  "acquires_verifier \<Rightarrow> function_handle \<Rightarrow> function_handle_index \<Rightarrow> struct_definition_index btree_set" where
  "function_acquired_resources av fh fh_idx =
     (if fh_module fh \<noteq> cm_self_module_handle_idx (av_module av) then []
      else case av_handle_to_def av fh_idx of
          Some func_def \<Rightarrow> bs_from_list (fd_acquires_global_resources func_def)
        | None \<Rightarrow> [])"

definition struct_acquire ::
  "struct_definition_index \<Rightarrow> nat \<Rightarrow> acquires_verifier \<Rightarrow> acquires_verifier vm_result" where
  "struct_acquire sd_idx off av =
     (if sd_idx \<in> set (av_annotated av)
      then Ok (av\<lparr>av_actual := bs_insert sd_idx (av_actual av)\<rparr>)
      else Err (acquires_error av MISSING_ACQUIRES_ANNOTATION off))"

definition call_acquire ::
  "function_handle_index \<Rightarrow> nat \<Rightarrow> acquires_verifier \<Rightarrow> acquires_verifier vm_result" where
  "call_acquire fh_idx off av =
     rbind (module_function_handle_at (av_module av) fh_idx) (\<lambda>fh.
       let acquired = function_acquired_resources av fh fh_idx in
       rbind (for_all (\<lambda>r. if r \<notin> set (av_annotated av)
           then Err (acquires_error av MISSING_ACQUIRES_ANNOTATION off) else Ok ()) acquired) (\<lambda>_.
         Ok (av\<lparr>av_actual := fold bs_insert acquired (av_actual av)\<rparr>)))"

definition verify_acquires_instruction ::
  "nat \<times> bytecode \<Rightarrow> acquires_verifier \<Rightarrow> acquires_verifier vm_result" where
  "verify_acquires_instruction = (\<lambda>(off, instr) av.
     case instr of
       Call idx \<Rightarrow> call_acquire idx (as_u16 off) av
     | CallGeneric idx \<Rightarrow>
         rbind (module_function_instantiation_at (av_module av) idx) (\<lambda>fi.
           call_acquire (fi_handle fi) (as_u16 off) av)
     | MoveFrom idx \<Rightarrow> struct_acquire idx (as_u16 off) av
     | MutBorrowGlobal idx \<Rightarrow> struct_acquire idx (as_u16 off) av
     | ImmBorrowGlobal idx \<Rightarrow> struct_acquire idx (as_u16 off) av
     | MoveFromGeneric idx \<Rightarrow>
         rbind (module_struct_instantiation_at (av_module av) idx) (\<lambda>si.
           struct_acquire (sdi_def si) (as_u16 off) av)
     | MutBorrowGlobalGeneric idx \<Rightarrow>
         rbind (module_struct_instantiation_at (av_module av) idx) (\<lambda>si.
           struct_acquire (sdi_def si) (as_u16 off) av)
     | ImmBorrowGlobalGeneric idx \<Rightarrow>
         rbind (module_struct_instantiation_at (av_module av) idx) (\<lambda>si.
           struct_acquire (sdi_def si) (as_u16 off) av)
     | _ \<Rightarrow> Ok av)"

definition handle_to_def :: "function_definition list \<Rightarrow> function_handle_index \<rightharpoonup> function_definition" where
  "handle_to_def defs = fold (\<lambda>func_def m. m(fd_function func_def \<mapsto> func_def)) defs Map.empty"

definition check_annotation ::
  "compiled_module \<Rightarrow> acquires_verifier \<Rightarrow> struct_definition_index \<Rightarrow> unit vm_result" where
  "check_annotation m av annotation =
     (if annotation \<notin> set (av_actual av) then Err (new_error EXTRANEOUS_ACQUIRES_ANNOTATION)
      else rbind (unwrap (vec_get (cm_struct_defs m) (unat annotation))) (\<lambda>sd.
           rbind (module_struct_handle_at m (sd_struct_handle sd)) (\<lambda>sh.
             if \<not> has_key (sh_abilities sh) then Err (new_error INVALID_ACQUIRES_ANNOTATION) else Ok ())))"

definition acquires_verify :: "compiled_module \<Rightarrow> nat \<Rightarrow> function_definition \<Rightarrow> unit vm_result" where
  "acquires_verify m index fd =
     rbind (unwrap (fd_code fd)) (\<lambda>code.
     rbind (for_each verify_acquires_instruction (enumerate_from_zero (cu_code code))
         \<lparr>av_module = m, av_current_function = index,
          av_annotated = bs_from_list (fd_acquires_global_resources fd), av_actual = [],
          av_handle_to_def = handle_to_def (cm_function_defs m)\<rparr>) (\<lambda>av.
       for_all (check_annotation m av) (av_annotated av)))"

section \<open>Resources acquired by instructions\<close>

definition callee_of :: "compiled_module \<Rightarrow> bytecode \<Rightarrow> function_handle_index option" where
  "callee_of m instr =
     (case instr of Call idx \<Rightarrow> Some idx
      | CallGeneric idx \<Rightarrow> Some (fi_handle (cm_function_instantiations m ! unat idx))
      | _ \<Rightarrow> None)"

definition accessed_resource :: "compiled_module \<Rightarrow> bytecode \<Rightarrow> struct_definition_index option" where
  "accessed_resource m instr =
     (case instr of
        MoveFrom idx \<Rightarrow> Some idx | MutBorrowGlobal idx \<Rightarrow> Some idx | ImmBorrowGlobal idx \<Rightarrow> Some idx
      | MoveFromGeneric idx \<Rightarrow> Some (sdi_def (cm_struct_def_instantiations m ! unat idx))
      | MutBorrowGlobalGeneric idx \<Rightarrow> Some (sdi_def (cm_struct_def_instantiations m ! unat idx))
      | ImmBorrowGlobalGeneric idx \<Rightarrow> Some (sdi_def (cm_struct_def_instantiations m ! unat idx))
      | _ \<Rightarrow> None)"

text \<open>A function of the module that the handle names.\<close>

definition names_function :: "compiled_module \<Rightarrow> function_handle_index \<Rightarrow> function_definition \<Rightarrow> bool" where
  "names_function m idx fd =
     (fd \<in> set (cm_function_defs m) \<and> fd_function fd = idx \<and>
      fh_module (cm_function_handles m ! unat idx) = cm_self_module_handle_idx m)"

text \<open>The resources that running the function may access, through calls within the module included.\<close>

inductive acquires :: "compiled_module \<Rightarrow> function_definition \<Rightarrow> struct_definition_index \<Rightarrow> bool" for m where
  access: "fd_code fd = Some code \<Longrightarrow> instr \<in> set (cu_code code) \<Longrightarrow> accessed_resource m instr = Some r \<Longrightarrow>
    acquires m fd r"
| call: "fd_code fd = Some code \<Longrightarrow> instr \<in> set (cu_code code) \<Longrightarrow> callee_of m instr = Some idx \<Longrightarrow>
    names_function m idx callee \<Longrightarrow> acquires m callee r \<Longrightarrow> acquires m fd r"

text \<open>The resources that one instruction adds.\<close>

definition instruction_resources :: "compiled_module \<Rightarrow> bytecode \<Rightarrow> struct_definition_index set" where
  "instruction_resources m instr =
     set_option (accessed_resource m instr) \<union>
     {r. \<exists>idx fd. callee_of m instr = Some idx \<and> fh_module (cm_function_handles m ! unat idx) =
         cm_self_module_handle_idx m \<and> handle_to_def (cm_function_defs m) idx = Some fd \<and>
         r \<in> set (fd_acquires_global_resources fd)}"

lemma handle_to_def_Some:
  assumes "distinct (map fd_function defs)"
  shows "handle_to_def defs idx = Some fd \<longleftrightarrow> fd \<in> set defs \<and> fd_function fd = idx"
proof -
  have "fold (\<lambda>func_def m. m(fd_function func_def \<mapsto> func_def)) defs m0 idx = Some fd \<longleftrightarrow>
      (fd \<in> set defs \<and> fd_function fd = idx) \<or> (idx \<notin> fd_function ` set defs \<and> m0 idx = Some fd)" for m0
    using assms by (induction defs arbitrary: m0) (auto simp: rev_image_eqI)
  then show ?thesis by (simp add: handle_to_def_def)
qed

definition verifier_for :: "compiled_module \<Rightarrow> struct_definition_index list \<Rightarrow> acquires_verifier \<Rightarrow> bool" where
  "verifier_for m annotations av =
     (av_module av = m \<and> set (av_annotated av) = set annotations \<and>
      av_handle_to_def av = handle_to_def (cm_function_defs m))"

lemma set_fold_bs_insert [simp]: "set (fold bs_insert xs s) = set xs \<union> set s"
  by (induction xs arbitrary: s) auto

lemma verify_acquires_dispatch:
  assumes "verify_acquires_instruction (i, instr) av = Ok av'"
  shows "case callee_of (av_module av) instr of Some idx \<Rightarrow> call_acquire idx (as_u16 i) av = Ok av'
    | None \<Rightarrow> (case accessed_resource (av_module av) instr of
        Some idx \<Rightarrow> struct_acquire idx (as_u16 i) av = Ok av' | None \<Rightarrow> av' = av)"
  using assms
  by (cases instr) (simp_all add: verify_acquires_instruction_def callee_of_def accessed_resource_def
      rbind_eq_Ok module_access_defs vec_index_eq_Ok)

lemma callee_or_access: "callee_of m instr = Some idx \<Longrightarrow> accessed_resource m instr = None"
  by (cases instr) (simp_all add: callee_of_def accessed_resource_def)

lemma verify_acquires_instruction_Ok:
  assumes "verify_acquires_instruction (i, instr) av = Ok av'" "verifier_for m annotations av"
  shows "verifier_for m annotations av' \<and> set (av_actual av') = set (av_actual av) \<union> instruction_resources m instr \<and>
    instruction_resources m instr \<subseteq> set annotations"
proof -
  have struct: "verifier_for m annotations av' \<and> set (av_actual av') = insert idx (set (av_actual av)) \<and>
      idx \<in> set annotations" if "struct_acquire idx off av = Ok av'" for idx off
  proof -
    have "idx \<in> set annotations" "av' = av\<lparr>av_actual := bs_insert idx (av_actual av)\<rparr>"
      using that assms(2) by (simp_all add: struct_acquire_def verifier_for_def split: if_splits)
    then show ?thesis using assms(2) by (simp add: verifier_for_def)
  qed
  have call: "verifier_for m annotations av' \<and>
      set (av_actual av') = set (av_actual av) \<union> {r. \<exists>fd. fh_module (cm_function_handles m ! unat idx) =
         cm_self_module_handle_idx m \<and> handle_to_def (cm_function_defs m) idx = Some fd \<and>
         r \<in> set (fd_acquires_global_resources fd)} \<and>
      {r. \<exists>fd. fh_module (cm_function_handles m ! unat idx) =
         cm_self_module_handle_idx m \<and> handle_to_def (cm_function_defs m) idx = Some fd \<and>
         r \<in> set (fd_acquires_global_resources fd)} \<subseteq> set annotations"
    if "call_acquire idx off av = Ok av'" for idx off
    using that assms(2)
    by (auto simp: call_acquire_def verifier_for_def rbind_eq_Ok Let_def for_all_eq_Ok module_access_defs
        vec_index_eq_Ok function_acquired_resources_def split: if_splits option.splits)
  have m: "av_module av = m" using assms(2) by (simp add: verifier_for_def)
  show ?thesis
  proof (cases "callee_of m instr")
    case (Some idx)
    then have "call_acquire idx (as_u16 i) av = Ok av'"
      using verify_acquires_dispatch[OF assms(1)] by (simp add: m)
    from call[OF this] Some callee_or_access[OF Some] show ?thesis by (simp add: instruction_resources_def)
  next
    case no_call: None
    show ?thesis
    proof (cases "accessed_resource m instr")
      case (Some idx)
      then have "struct_acquire idx (as_u16 i) av = Ok av'"
        using verify_acquires_dispatch[OF assms(1)] no_call by (simp add: m)
      from struct[OF this] no_call Some show ?thesis by (simp add: instruction_resources_def)
    next
      case None
      then have "av' = av" using verify_acquires_dispatch[OF assms(1)] no_call by (simp add: m)
      with None no_call assms(2) show ?thesis by (simp add: instruction_resources_def)
    qed
  qed
qed

lemma check_annotation_Ok:
  "check_annotation m av r = Ok () \<longleftrightarrow> r \<in> set (av_actual av) \<and> unat r < length (cm_struct_defs m) \<and>
     unat (sd_struct_handle (cm_struct_defs m ! unat r)) < length (cm_struct_handles m) \<and>
     has_key (sh_abilities (cm_struct_handles m ! unat (sd_struct_handle (cm_struct_defs m ! unat r))))"
  by (simp add: check_annotation_def rbind_eq_Ok unwrap_eq_Ok vec_get_eq_Some module_access_defs vec_index_eq_Ok)

lemma acquires_verify_Ok:
  assumes "acquires_verify m i fd = Ok ()" "fd_code fd = Some code"
  shows "set (fd_acquires_global_resources fd) = (\<Union>instr \<in> set (cu_code code). instruction_resources m instr)"
    and "\<And>r. r \<in> set (fd_acquires_global_resources fd) \<Longrightarrow> unat r < length (cm_struct_defs m) \<and>
      has_key (sh_abilities (cm_struct_handles m ! unat (sd_struct_handle (cm_struct_defs m ! unat r))))"
proof -
  let ?annotations = "fd_acquires_global_resources fd"
  let ?start = "\<lparr>av_module = m, av_current_function = i, av_annotated = bs_from_list ?annotations, av_actual = [],
      av_handle_to_def = handle_to_def (cm_function_defs m)\<rparr>"
  obtain av where loop: "for_each verify_acquires_instruction (enumerate_from_zero (cu_code code)) ?start = Ok av"
    and annotations: "\<forall>r \<in> set (av_annotated av). check_annotation m av r = Ok ()"
    using assms by (auto simp: acquires_verify_def rbind_eq_Ok for_all_eq_Ok)
  let ?I = "\<lambda>n av. verifier_for m ?annotations av \<and>
    set (av_actual av) = (\<Union>instr \<in> set (take n (cu_code code)). instruction_resources m instr) \<and>
    set (av_actual av) \<subseteq> set ?annotations"
  have "?I (length (enumerate_from_zero (cu_code code))) av"
  proof (rule for_each_indexed[OF loop])
    show "?I 0 ?start" by (simp add: verifier_for_def)
  next
    fix n s s' assume n: "n < length (enumerate_from_zero (cu_code code))" and s: "?I n s"
      and turn: "verify_acquires_instruction (enumerate_from_zero (cu_code code) ! n) s = Ok s'"
    from turn n have "verify_acquires_instruction (n, cu_code code ! n) s = Ok s'"
      by (simp add: enumerate_from_zero_nth)
    from verify_acquires_instruction_Ok[OF this, of m ?annotations] s n show "?I (Suc n) s'"
      by (auto simp: take_Suc_conv_app_nth)
  qed
  then have actual: "set (av_annotated av) = set ?annotations"
    "set (av_actual av) = (\<Union>instr \<in> set (cu_code code). instruction_resources m instr)"
    "set (av_actual av) \<subseteq> set ?annotations"
    by (auto simp: verifier_for_def)
  have "set ?annotations \<subseteq> set (av_actual av)"
    using annotations actual(1) by (auto simp: check_annotation_Ok)
  with actual(2,3) show "set ?annotations = (\<Union>instr \<in> set (cu_code code). instruction_resources m instr)"
    by simp
  show "unat r < length (cm_struct_defs m) \<and>
      has_key (sh_abilities (cm_struct_handles m ! unat (sd_struct_handle (cm_struct_defs m ! unat r))))"
    if "r \<in> set ?annotations" for r
    using annotations that actual(1) by (simp add: check_annotation_Ok)
qed

text \<open>C23: soundness of the acquires annotations. When the pass accepts every function of a module in which no two
  definitions have the same handle, every resource that a run of a function may borrow or move out of
  global storage, directly or through any chain of calls within the module, is annotated at the
  function and has the key ability.\<close>

theorem acquires_sound:
  assumes "\<forall>i < length (cm_function_defs m). fd_code (cm_function_defs m ! i) \<noteq> None \<longrightarrow>
      acquires_verify m i (cm_function_defs m ! i) = Ok ()"
    and "distinct (map fd_function (cm_function_defs m))"
    and "acquires m fd r" "fd \<in> set (cm_function_defs m)"
  shows "r \<in> set (fd_acquires_global_resources fd) \<and> unat r < length (cm_struct_defs m) \<and>
    has_key (sh_abilities (cm_struct_handles m ! unat (sd_struct_handle (cm_struct_defs m ! unat r))))"
proof -
  have verified: "\<exists>i. acquires_verify m i fd = Ok ()" if "fd \<in> set (cm_function_defs m)" "fd_code fd = Some code" for fd code
    using assms(1) that by (auto simp: in_set_conv_nth)
  have annotated: "r \<in> set (fd_acquires_global_resources fd)"
    using assms(3,4)
  proof (induction)
    case (access fd code instr r)
    then obtain i where "acquires_verify m i fd = Ok ()" using verified by blast
    from acquires_verify_Ok(1)[OF this access(1)] access(2,3) show ?case
      by (auto simp: instruction_resources_def)
  next
    case (call fd code instr idx callee r)
    then obtain i where ok: "acquires_verify m i fd = Ok ()" using verified by blast
    have "r \<in> set (fd_acquires_global_resources callee)" using call by (simp add: names_function_def)
    moreover have "handle_to_def (cm_function_defs m) idx = Some callee"
      using call(4) by (simp add: handle_to_def_Some[OF assms(2)] names_function_def)
    ultimately have "r \<in> instruction_resources m instr"
      using call(3,4) by (auto simp: instruction_resources_def names_function_def)
    then show ?case using acquires_verify_Ok(1)[OF ok call(1)] call(2) by blast
  qed
  obtain code where "fd_code fd = Some code" using assms(3) by (auto elim: acquires.cases)
  with verified[OF assms(4)] obtain i where "acquires_verify m i fd = Ok ()" by blast
  from acquires_verify_Ok(2)[OF this \<open>fd_code fd = Some code\<close> annotated] annotated show ?thesis by simp
qed

text \<open>A module with a function that calls \<^verbatim>\<open>balance\<close>, which reads the resource \<^verbatim>\<open>Coin\<close>.\<close>

definition calling_module :: compiled_module where
  "calling_module = example_module\<lparr>cm_function_defs :=
     [\<lparr>fd_function = 0, fd_visibility = Public, fd_acquires_global_resources = [0],
       fd_code = Some \<lparr>cu_locals = 0,
         cu_code = [MoveLoc 0, ImmBorrowGlobal 0, ImmBorrowField 0, ReadRef, Ret]\<rparr>\<rparr>,
      \<lparr>fd_function = 1, fd_visibility = Public, fd_acquires_global_resources = [0],
       fd_code = Some \<lparr>cu_locals = 0, cu_code = [LdConst 0, Call 0, PackGeneric 0, Ret]\<rparr>\<rparr>]\<rparr>"

theorem acquires_sound_witness:
  "acquires calling_module (cm_function_defs calling_module ! 1) 0 \<and>
   0 \<in> set (fd_acquires_global_resources (cm_function_defs calling_module ! 1))"
proof -
  let ?defs = "cm_function_defs calling_module"
  note defs = calling_module_def example_module_def
  have pass: "acquires_verify calling_module i (?defs ! 0) = Ok ()" "acquires_verify calling_module i (?defs ! 1) = Ok ()" for i
    by (simp_all add: defs acquires_verify_def enumerate_from_zero_def verify_acquires_instruction_def
        call_acquire_def struct_acquire_def function_acquired_resources_def handle_to_def_def
        module_access_defs check_annotation_def vec_get_def has_key_def has_ability_def ability_bits_def
        bs_from_list_def bs_insert_def insort_insert_key_def unwrap_def Let_def)
  have direct: "acquires calling_module (?defs ! 0) 0"
    by (rule acquires.access[where instr = "ImmBorrowGlobal 0"]) (auto simp: defs accessed_resource_def)
  have reached: "acquires calling_module (?defs ! 1) 0"
    by (rule acquires.call[where instr = "Call 0" and callee = "?defs ! 0", OF _ _ _ _ direct])
       (auto simp: defs callee_of_def names_function_def)
  have all: "\<forall>i < length ?defs. fd_code (?defs ! i) \<noteq> None \<longrightarrow> acquires_verify calling_module i (?defs ! i) = Ok ()"
    using pass by (simp add: calling_module_def less_Suc_eq)
  have "distinct (map fd_function ?defs)" "?defs ! 1 \<in> set ?defs" by (simp_all add: defs)
  from acquires_sound[OF all this(1) reached this(2)] reached show ?thesis by blast
qed

end
