(* ===== verification/Check_Duplication.thy ===== *)
theory Check_Duplication
  imports Module_Access
begin

text \<open>
  The pass \<^verbatim>\<open>move-bytecode-verifier/src/check_duplication.rs\<close>: the tables of a module or script have no
  duplicates, the definitions of a module belong to it, and every handle that points to the module
  itself has a definition. The property states the pass by distinctness of the tables.
\<close>

section \<open>Searching\<close>

text \<open>\<^verbatim>\<open>first_duplicate_element\<close>, with the set of the elements seen so far.\<close>

fun first_duplicate_from :: "nat \<Rightarrow> 'a set \<Rightarrow> 'a list \<Rightarrow> nat option" where
  "first_duplicate_from i uniq [] = None"
| "first_duplicate_from i uniq (x # xs) =
     (if x \<in> uniq then Some (as_u16 i) else first_duplicate_from (Suc i) (insert x uniq) xs)"

definition first_duplicate_element :: "'a list \<Rightarrow> nat option" where
  "first_duplicate_element xs = first_duplicate_from 0 {} xs"

section \<open>The pass\<close>

definition check_unique :: "index_kind \<Rightarrow> 'a list \<Rightarrow> unit vm_result" where
  "check_unique kind xs =
     (case first_duplicate_element xs of
        Some idx \<Rightarrow> Err (verification_error DUPLICATE_ELEMENT kind idx)
      | None \<Rightarrow> Ok ())"

definition check_unique_struct_handles :: "struct_handle list \<Rightarrow> unit vm_result" where
  "check_unique_struct_handles shs = check_unique IK_StructHandle (map (\<lambda>x. (sh_module x, sh_name x)) shs)"

definition check_unique_function_handles :: "function_handle list \<Rightarrow> unit vm_result" where
  "check_unique_function_handles fhs =
     check_unique IK_FunctionHandle (map (\<lambda>x. (fh_module x, fh_name x)) fhs)"

definition check_field_names :: "nat \<times> struct_definition \<Rightarrow> unit vm_result" where
  "check_field_names = (\<lambda>(struct_idx, struct_def).
     case sd_field_information struct_def of
       Native \<Rightarrow> Ok ()
     | Declared fs \<Rightarrow>
         if fs = [] then Err (verification_error ZERO_SIZED_STRUCT IK_StructDefinition (as_u16 struct_idx))
         else check_unique IK_FieldDefinition (map fdd_name fs))"

definition check_struct_definitions :: "compiled_module \<Rightarrow> unit vm_result" where
  "check_struct_definitions m =
     rbind (check_unique IK_StructDefinition (map sd_struct_handle (cm_struct_defs m))) (\<lambda>_.
     rbind (for_all check_field_names (enumerate_from_zero (cm_struct_defs m))) (\<lambda>_.
     rbind (position (\<lambda>x. rbind (module_struct_handle_at m (sd_struct_handle x)) (\<lambda>sh.
         Ok (sh_module sh \<noteq> cm_self_module_handle_idx m))) (cm_struct_defs m)) (\<lambda>foreign.
     case foreign of
       Some idx \<Rightarrow> Err (verification_error INVALID_MODULE_HANDLE IK_StructDefinition (as_u16 idx))
     | None \<Rightarrow>
         let implemented = sd_struct_handle ` set (cm_struct_defs m) in
         rbind (position (\<lambda>x. let y = of_nat x :: struct_handle_index in
             rbind (module_struct_handle_at m y) (\<lambda>sh.
               Ok (sh_module sh = cm_self_module_handle_idx m \<and> y \<notin> implemented)))
           [0..<length (cm_struct_handles m)]) (\<lambda>unimplemented.
         case unimplemented of
           Some idx \<Rightarrow> Err (verification_error UNIMPLEMENTED_HANDLE IK_StructHandle (as_u16 idx))
         | None \<Rightarrow> Ok ()))))"

definition check_acquires_unique :: "nat \<times> function_definition \<Rightarrow> unit vm_result" where
  "check_acquires_unique = (\<lambda>(idx, function_def).
     if first_duplicate_element (fd_acquires_global_resources function_def) \<noteq> None
     then Err (verification_error DUPLICATE_ACQUIRES_ANNOTATION IK_FunctionDefinition (as_u16 idx))
     else Ok ())"

definition check_function_definitions :: "compiled_module \<Rightarrow> unit vm_result" where
  "check_function_definitions m =
     rbind (check_unique IK_FunctionDefinition (map fd_function (cm_function_defs m))) (\<lambda>_.
     rbind (for_all check_acquires_unique (enumerate_from_zero (cm_function_defs m))) (\<lambda>_.
     rbind (position (\<lambda>x. rbind (module_function_handle_at m (fd_function x)) (\<lambda>fh.
         Ok (fh_module fh \<noteq> cm_self_module_handle_idx m))) (cm_function_defs m)) (\<lambda>foreign.
     case foreign of
       Some idx \<Rightarrow> Err (verification_error INVALID_MODULE_HANDLE IK_FunctionDefinition (as_u16 idx))
     | None \<Rightarrow>
         let implemented = fd_function ` set (cm_function_defs m) in
         rbind (position (\<lambda>x. let y = of_nat x :: function_handle_index in
             rbind (module_function_handle_at m y) (\<lambda>fh.
               Ok (fh_module fh = cm_self_module_handle_idx m \<and> y \<notin> implemented)))
           [0..<length (cm_function_handles m)]) (\<lambda>unimplemented.
         case unimplemented of
           Some idx \<Rightarrow> Err (verification_error UNIMPLEMENTED_HANDLE IK_FunctionHandle (as_u16 idx))
         | None \<Rightarrow> Ok ()))))"

definition duplication_verify_module :: "compiled_module \<Rightarrow> unit vm_result" where
  "duplication_verify_module m =
     rbind (check_unique IK_Identifier (cm_identifiers m)) (\<lambda>_.
     rbind (check_unique IK_AddressIdentifier (cm_address_identifiers m)) (\<lambda>_.
     rbind (check_unique IK_ConstantPool (cm_constant_pool m)) (\<lambda>_.
     rbind (check_unique IK_Signature (cm_signatures m)) (\<lambda>_.
     rbind (check_unique IK_ModuleHandle (cm_module_handles m)) (\<lambda>_.
     rbind (check_unique IK_ModuleHandle (cm_friend_decls m)) (\<lambda>_.
     rbind (check_unique_struct_handles (cm_struct_handles m)) (\<lambda>_.
     rbind (check_unique_function_handles (cm_function_handles m)) (\<lambda>_.
     rbind (check_unique IK_FunctionInstantiation (cm_function_instantiations m)) (\<lambda>_.
     rbind (check_unique IK_FieldHandle (cm_field_handles m)) (\<lambda>_.
     rbind (check_unique IK_FieldInstantiation (cm_field_instantiations m)) (\<lambda>_.
     rbind (check_function_definitions m) (\<lambda>_.
     rbind (check_struct_definitions m) (\<lambda>_.
       check_unique IK_StructDefInstantiation (cm_struct_def_instantiations m))))))))))))))"

definition duplication_verify_script :: "compiled_script \<Rightarrow> unit vm_result" where
  "duplication_verify_script s =
     rbind (check_unique IK_Identifier (cs_identifiers s)) (\<lambda>_.
     rbind (check_unique IK_AddressIdentifier (cs_address_identifiers s)) (\<lambda>_.
     rbind (check_unique IK_ConstantPool (cs_constant_pool s)) (\<lambda>_.
     rbind (check_unique IK_Signature (cs_signatures s)) (\<lambda>_.
     rbind (check_unique IK_ModuleHandle (cs_module_handles s)) (\<lambda>_.
     rbind (check_unique_struct_handles (cs_struct_handles s)) (\<lambda>_.
     rbind (check_unique_function_handles (cs_function_handles s)) (\<lambda>_.
       check_unique IK_FunctionInstantiation (cs_function_instantiations s))))))))"

section \<open>What is checked\<close>

definition struct_definitions_unique :: "compiled_module \<Rightarrow> bool" where
  "struct_definitions_unique m =
     (distinct (map sd_struct_handle (cm_struct_defs m)) \<and>
      (\<forall>sd fs. sd \<in> set (cm_struct_defs m) \<and> sd_field_information sd = Declared fs \<longrightarrow>
         fs \<noteq> [] \<and> distinct (map fdd_name fs)) \<and>
      (\<forall>idx :: struct_handle_index. in_pool (cm_struct_handles m) idx \<longrightarrow>
         (idx \<in> sd_struct_handle ` set (cm_struct_defs m) \<longleftrightarrow>
          sh_module (cm_struct_handles m ! unat idx) = cm_self_module_handle_idx m)))"

definition function_definitions_unique :: "compiled_module \<Rightarrow> bool" where
  "function_definitions_unique m =
     (distinct (map fd_function (cm_function_defs m)) \<and>
      (\<forall>fd \<in> set (cm_function_defs m). distinct (fd_acquires_global_resources fd)) \<and>
      (\<forall>idx :: function_handle_index. in_pool (cm_function_handles m) idx \<longrightarrow>
         (idx \<in> fd_function ` set (cm_function_defs m) \<longleftrightarrow>
          fh_module (cm_function_handles m ! unat idx) = cm_self_module_handle_idx m)))"

definition module_unique :: "compiled_module \<Rightarrow> bool" where
  "module_unique m =
     (distinct (cm_identifiers m) \<and> distinct (cm_address_identifiers m) \<and>
      distinct (cm_constant_pool m) \<and> distinct (cm_signatures m) \<and>
      distinct (cm_module_handles m) \<and> distinct (cm_friend_decls m) \<and>
      distinct (map (\<lambda>x. (sh_module x, sh_name x)) (cm_struct_handles m)) \<and>
      distinct (map (\<lambda>x. (fh_module x, fh_name x)) (cm_function_handles m)) \<and>
      distinct (cm_function_instantiations m) \<and> distinct (cm_field_handles m) \<and>
      distinct (cm_field_instantiations m) \<and> distinct (cm_struct_def_instantiations m) \<and>
      function_definitions_unique m \<and> struct_definitions_unique m)"

section \<open>Correctness\<close>

lemma first_duplicate_element_None: "first_duplicate_element xs = None \<longleftrightarrow> distinct xs"
proof -
  have "first_duplicate_from i uniq xs = None \<longleftrightarrow> distinct xs \<and> set xs \<inter> uniq = {}" for i uniq
    by (induction xs arbitrary: i uniq) auto
  then show ?thesis by (simp add: first_duplicate_element_def)
qed

text \<open>The index reported is that of the first element that equals an earlier one.\<close>

lemma first_duplicate_element_Some:
  assumes "first_duplicate_element xs = Some j"
  shows "\<exists>i < length xs. j = as_u16 i \<and> xs ! i \<in> set (take i xs) \<and> distinct (take i xs)"
proof -
  have "\<exists>i < length xs. j = as_u16 (n + i) \<and> xs ! i \<in> uniq \<union> set (take i xs) \<and>
      distinct (take i xs) \<and> set (take i xs) \<inter> uniq = {}"
    if "first_duplicate_from n uniq xs = Some j" for n uniq
    using that
  proof (induction n uniq xs rule: first_duplicate_from.induct)
    case (2 n uniq x xs)
    show ?case
    proof (cases "x \<in> uniq")
      case True
      with 2(2) show ?thesis by (intro exI[of _ 0]) auto
    next
      case False
      with 2 obtain i where "i < length xs" "j = as_u16 (Suc n + i)" "xs ! i \<in> insert x uniq \<union> set (take i xs)"
        "distinct (take i xs)" "set (take i xs) \<inter> insert x uniq = {}" by auto
      with False show ?thesis by (intro exI[of _ "Suc i"]) auto
    qed
  qed simp
  from this[of 0 "{}"] assms show ?thesis by (auto simp: first_duplicate_element_def)
qed

lemma check_unique_simps [simp]:
  "check_unique kind xs = Ok u \<longleftrightarrow> distinct xs" "check_unique kind xs \<noteq> Panic"
  by (auto simp: check_unique_def simp flip: first_duplicate_element_None split: option.splits)

lemma addressable_handles:
  assumes "\<And>x. x < length hs \<Longrightarrow> P (of_nat x :: u16) = Q x"
  shows "(\<forall>x < length hs. \<not> Q x) \<longleftrightarrow> (\<forall>idx :: u16. in_pool hs idx \<longrightarrow> \<not> P idx)"
proof
  assume *: "\<forall>x < length hs. \<not> Q x"
  show "\<forall>idx :: u16. in_pool hs idx \<longrightarrow> \<not> P idx"
  proof (intro allI impI)
    fix idx :: u16 assume "in_pool hs idx"
    with * assms[of "unat idx"] show "\<not> P idx" by (simp add: in_pool_def)
  qed
next
  assume *: "\<forall>idx :: u16. in_pool hs idx \<longrightarrow> \<not> P idx"
  show "\<forall>x < length hs. \<not> Q x"
  proof (intro allI impI)
    fix x assume x: "x < length hs"
    then have "in_pool hs (of_nat x :: u16)"
      by (simp add: in_pool_def unat_of_nat le_less_trans[OF mod_less_eq_dividend])
    with * assms[OF x] show "\<not> Q x" by simp
  qed
qed

text \<open>The two searches that compare definitions with the handles of the module itself.\<close>

lemma definitions_search:
  fixes handle :: "'d \<Rightarrow> u16" and hs :: "'h list" and own :: "'h \<Rightarrow> u16"
  assumes "\<And>d. d \<in> set defs \<Longrightarrow> in_pool hs (handle d)"
    and foreign: "foreign = (\<lambda>x. rbind (vec_index hs (unat (handle x))) (\<lambda>h. Ok (own h \<noteq> self)) :: (bool, 'e) result)"
    and missing: "missing = (\<lambda>x. let y = of_nat x in rbind (vec_index hs (unat y)) (\<lambda>h.
        Ok (own h = self \<and> y \<notin> handle ` set defs)) :: (bool, 'e) result)"
  shows "position foreign defs = Ok None \<and> position missing [0..<length hs] = Ok None \<longleftrightarrow>
      (\<forall>idx :: u16. in_pool hs idx \<longrightarrow> (idx \<in> handle ` set defs \<longleftrightarrow> own (hs ! unat idx) = self))"
    and "position foreign defs \<noteq> Panic" "position missing [0..<length hs] \<noteq> Panic"
    and "position foreign defs \<noteq> Err e" "position missing [0..<length hs] \<noteq> Err e"
proof -
  let ?missing = "\<lambda>y :: u16. own (hs ! unat y) = self \<and> y \<notin> handle ` set defs"
  have 1: "foreign d = Ok (own (hs ! unat (handle d)) \<noteq> self)" if "d \<in> set defs" for d
    using assms(1)[OF that] by (simp add: foreign in_pool_def)
  have 2: "missing x = Ok (?missing (of_nat x))" if "x \<in> set [0..<length hs]" for x
  proof -
    have "unat (of_nat x :: u16) < length hs"
      using that by (simp add: unat_of_nat le_less_trans[OF mod_less_eq_dividend])
    then show ?thesis by (simp add: missing Let_def)
  qed
  have "position foreign defs = Ok None \<longleftrightarrow> (\<forall>d \<in> set defs. own (hs ! unat (handle d)) = self)"
    using position_None(1)[of defs foreign "\<lambda>d. own (hs ! unat (handle d)) \<noteq> self", OF 1] by simp
  moreover have "position missing [0..<length hs] = Ok None \<longleftrightarrow> (\<forall>x < length hs. \<not> ?missing (of_nat x))"
    using position_None(1)[of "[0..<length hs]" missing "\<lambda>x. ?missing (of_nat x)", OF 2] by auto
  moreover have "(\<forall>x < length hs. \<not> ?missing (of_nat x)) \<longleftrightarrow> (\<forall>idx :: u16. in_pool hs idx \<longrightarrow> \<not> ?missing idx)"
    by (rule addressable_handles) simp
  ultimately have "position foreign defs = Ok None \<and> position missing [0..<length hs] = Ok None \<longleftrightarrow>
      (\<forall>d \<in> set defs. own (hs ! unat (handle d)) = self) \<and>
      (\<forall>idx :: u16. in_pool hs idx \<longrightarrow> \<not> ?missing idx)"
    by simp
  moreover have "(\<forall>d \<in> set defs. own (hs ! unat (handle d)) = self) \<longleftrightarrow>
      (\<forall>idx :: u16. in_pool hs idx \<longrightarrow> idx \<in> handle ` set defs \<longrightarrow> own (hs ! unat idx) = self)"
    using assms(1) by blast
  ultimately show "position foreign defs = Ok None \<and> position missing [0..<length hs] = Ok None \<longleftrightarrow>
      (\<forall>idx :: u16. in_pool hs idx \<longrightarrow> (idx \<in> handle ` set defs \<longleftrightarrow> own (hs ! unat idx) = self))"
    by blast
  show "position foreign defs \<noteq> Panic" "position missing [0..<length hs] \<noteq> Panic"
    "position foreign defs \<noteq> Err e" "position missing [0..<length hs] \<noteq> Err e"
    using position_None(2,3)[of defs foreign "\<lambda>d. own (hs ! unat (handle d)) \<noteq> self", OF 1]
      position_None(2,3)[of "[0..<length hs]" missing "\<lambda>x. ?missing (of_nat x)", OF 2] by blast+
qed

lemma check_function_definitions_spec:
  assumes "tables_in_bounds (ViewModule m)"
  shows "check_function_definitions m = Ok () \<longleftrightarrow> function_definitions_unique m"
    and "check_function_definitions m \<noteq> Panic"
proof -
  have pool: "in_pool (cm_function_handles m) (fd_function fd)" if "fd \<in> set (cm_function_defs m)" for fd
    using function_def_resolves(1)[OF assms, of fd] that by (simp add: view_tables)
  note search = definitions_search[where ?'e = partial_vm_error, of "cm_function_defs m" "cm_function_handles m" fd_function
      _ fh_module "cm_self_module_handle_idx m", OF pool refl refl]
  have acquires: "for_all check_acquires_unique (enumerate_from_zero (cm_function_defs m)) = Ok u \<longleftrightarrow>
      (\<forall>fd \<in> set (cm_function_defs m). distinct (fd_acquires_global_resources fd))" for u
    by (rule for_all_enumerate_iff) (simp add: check_acquires_unique_def flip: first_duplicate_element_None)
  have acquires_panic: "for_all check_acquires_unique (enumerate_from_zero (cm_function_defs m)) \<noteq> Panic"
    by (rule for_all_enumerate_not_Panic) (simp add: check_acquires_unique_def)
  show "check_function_definitions m = Ok () \<longleftrightarrow> function_definitions_unique m"
    using search(1)
    by (auto simp: check_function_definitions_def function_definitions_unique_def rbind_eq_Ok acquires
        module_access_defs Let_def split: option.splits)
  show "check_function_definitions m \<noteq> Panic"
    using search(2,3) acquires_panic
    by (auto simp: check_function_definitions_def rbind_eq_Panic module_access_defs Let_def split: option.splits)
qed

lemma check_struct_definitions_spec:
  assumes "tables_in_bounds (ViewModule m)"
  shows "check_struct_definitions m = Ok () \<longleftrightarrow> struct_definitions_unique m"
    and "check_struct_definitions m \<noteq> Panic"
proof -
  have pool: "in_pool (cm_struct_handles m) (sd_struct_handle sd)" if "sd \<in> set (cm_struct_defs m)" for sd
    using assms that by (auto simp: tables_in_bounds_def struct_definition_ok_def view_tables)
  note search = definitions_search[where ?'e = partial_vm_error, of "cm_struct_defs m" "cm_struct_handles m" sd_struct_handle
      _ sh_module "cm_self_module_handle_idx m", OF pool refl refl]
  have names: "for_all check_field_names (enumerate_from_zero (cm_struct_defs m)) = Ok u \<longleftrightarrow>
      (\<forall>sd \<in> set (cm_struct_defs m). \<forall>fs. sd_field_information sd = Declared fs \<longrightarrow>
         fs \<noteq> [] \<and> distinct (map fdd_name fs))" for u
    by (rule for_all_enumerate_iff) (simp add: check_field_names_def split: struct_field_information.splits)
  have names_panic: "for_all check_field_names (enumerate_from_zero (cm_struct_defs m)) \<noteq> Panic"
    by (rule for_all_enumerate_not_Panic) (simp add: check_field_names_def split: struct_field_information.splits)
  show "check_struct_definitions m = Ok () \<longleftrightarrow> struct_definitions_unique m"
    using search(1)
    by (auto simp: check_struct_definitions_def struct_definitions_unique_def rbind_eq_Ok names
        module_access_defs Let_def split: option.splits)
  show "check_struct_definitions m \<noteq> Panic"
    using search(2,3) names_panic
    by (auto simp: check_struct_definitions_def rbind_eq_Panic module_access_defs Let_def split: option.splits)
qed

lemma duplication_verify_module_Ok:
  "tables_in_bounds (ViewModule m) \<Longrightarrow> duplication_verify_module m = Ok () \<longleftrightarrow> module_unique m"
  by (auto simp: duplication_verify_module_def module_unique_def rbind_eq_Ok check_unique_struct_handles_def
      check_unique_function_handles_def check_function_definitions_spec(1) check_struct_definitions_spec(1))

lemma duplication_verify_module_not_Panic:
  "tables_in_bounds (ViewModule m) \<Longrightarrow> duplication_verify_module m \<noteq> Panic"
  by (simp add: duplication_verify_module_def rbind_eq_Panic check_unique_struct_handles_def
      check_unique_function_handles_def check_function_definitions_spec(2) check_struct_definitions_spec(2))

text \<open>C25: on a module that the bounds checker accepts the duplication pass never panics, and it accepts exactly the
  modules whose tables have no duplicates (struct and function handles by module and name,
  definitions by handle, the resources that a function acquires), whose structs have at least one field and
  fields of different names, and in which the handles that have a definition are exactly those that point to the module itself.\<close>

theorem duplication_verify_module_spec:
  assumes "bounds_verify_module m = Ok ()"
  shows "duplication_verify_module m \<noteq> Panic \<and> (duplication_verify_module m = Ok () \<longleftrightarrow> module_unique m)"
  using duplication_verify_module_Ok duplication_verify_module_not_Panic bounds_verify_tables[OF assms] by blast

lemma example_unique: "module_unique example_module"
proof -
  have in2: "idx = 0 \<or> idx = 1" if "unat idx < Suc (Suc 0)" for idx :: u16
    using that by (metis less_2_cases numeral_2_eq_2 One_nat_def unat_1 unat_eq_0 word_unat_eq_iff)
  show ?thesis
    by (auto simp: module_unique_def function_definitions_unique_def struct_definitions_unique_def
        example_module_def in_pool_def dest!: in2)
qed

lemma example_duplication_accepted: "duplication_verify_module example_module = Ok ()"
  using example_unique duplication_verify_module_Ok[OF example_in_bounds] by simp

theorem duplication_verify_module_spec_witness:
  "bounds_verify_module example_module = Ok () \<and> duplication_verify_module example_module = Ok ()"
  using duplication_verify_module_spec[OF example_bounds_accepted] example_bounds_accepted example_unique by blast

end
