(* ===== verification/Type_Safety.thy ===== *)
theory Type_Safety
  imports Stack_Usage Instruction_Consistency Signature_Checker
begin

text \<open>
  The pass \<^verbatim>\<open>move-bytecode-verifier/src/type_safety.rs\<close>: an abstract execution of each block on the
  types of the operands. The state of the checker is its stack of types, top first; \<^verbatim>\<open>Vec::pop\<close> followed
  by \<^verbatim>\<open>unwrap\<close> panics on an empty stack. The properties show that on a body that the bounds, signature,
  instruction consistency and stack usage passes accept the checker does not panic, and that, when the
  counter of the stack usage pass does not wrap around, checking every block by itself covers every path
  through the body.
\<close>

section \<open>Types\<close>

definition materialize_type :: "struct_handle_index \<Rightarrow> signature \<Rightarrow> signature_token" where
  "materialize_type sh type_args =
     (if type_args = [] then Struct sh else StructInstantiation sh type_args)"

fun instantiate :: "signature_token \<Rightarrow> signature \<Rightarrow> signature_token vm_result" where
  "instantiate (Vector ty) subst = rbind (instantiate ty subst) (\<lambda>t. Ok (Vector t))"
| "instantiate (StructInstantiation idx struct_type_args) subst =
     rbind (rmap (\<lambda>ty. instantiate ty subst) struct_type_args) (\<lambda>ts. Ok (StructInstantiation idx ts))"
| "instantiate (Reference ty) subst = rbind (instantiate ty subst) (\<lambda>t. Ok (Reference t))"
| "instantiate (MutableReference ty) subst = rbind (instantiate ty subst) (\<lambda>t. Ok (MutableReference t))"
| "instantiate (TypeParameter idx) subst = vec_index subst (unat idx)"
| "instantiate tok subst = Ok tok"

definition get_vector_element_type :: "signature_token \<Rightarrow> bool \<Rightarrow> signature_token option" where
  "get_vector_element_type vector_ref_ty mut_ref_only =
     (case vector_ref_ty of
        Reference referred_type \<Rightarrow>
          (if mut_ref_only then None
           else case referred_type of Vector element_type \<Rightarrow> Some element_type | _ \<Rightarrow> None)
      | MutableReference referred_type \<Rightarrow>
          (case referred_type of Vector element_type \<Rightarrow> Some element_type | _ \<Rightarrow> None)
      | _ \<Rightarrow> None)"

section \<open>The checker\<close>

type_synonym type_stack = "signature_token list"

definition local_at :: "function_view \<Rightarrow> local_index \<Rightarrow> signature_token vm_result" where
  "local_at view i =
     (let idx = unat i; param_count = length (fv_parameters view)
      in if idx < param_count then vec_index (fv_parameters view) idx
         else vec_index (fv_locals view) (idx - param_count))"

definition type_abilities ::
  "binary_indexed_view \<Rightarrow> function_view \<Rightarrow> signature_token \<Rightarrow> ability_set vm_result" where
  "type_abilities resolver view t = token_abilities resolver t (fv_type_parameters view)"

definition type_error :: "function_view \<Rightarrow> status_code \<Rightarrow> nat \<Rightarrow> partial_vm_error" where
  "type_error view status off =
     at_code_offset (new_error status) (case fv_index view of Some f \<Rightarrow> f | None \<Rightarrow> 0) off"

definition pop_operand :: "type_stack \<Rightarrow> (signature_token \<times> type_stack) vm_result" where
  "pop_operand st = (case st of [] \<Rightarrow> Panic | t # st' \<Rightarrow> Ok (t, st'))"

fun pop_operands :: "nat \<Rightarrow> type_stack \<Rightarrow> type_stack vm_result" where
  "pop_operands n st = (if n = 0 then Ok st else rbind (pop_operand st) (\<lambda>(_, st'). pop_operands (n - 1) st'))"

text \<open>The loops that pop one operand for each type of a signature, from the last one on.\<close>

definition pop_types :: "partial_vm_error \<Rightarrow> signature \<Rightarrow> type_stack \<Rightarrow> type_stack vm_result" where
  "pop_types err sig st =
     for_each (\<lambda>ty st. rbind (pop_operand st) (\<lambda>(arg, st'). if arg \<noteq> ty then Err err else Ok st')) (rev sig) st"

definition borrow_field ::
  "binary_indexed_view \<Rightarrow> function_view \<Rightarrow> nat \<Rightarrow> bool \<Rightarrow> field_handle_index \<Rightarrow> signature \<Rightarrow> type_stack \<Rightarrow>
     type_stack vm_result" where
  "borrow_field resolver view off mut idx type_args st =
     rbind (pop_operand st) (\<lambda>(operand, st).
     if mut \<and> \<not> is_mutable_reference operand
     then Err (type_error view BORROWFIELD_TYPE_MISMATCH_ERROR off)
     else
     rbind (field_handle_at resolver idx) (\<lambda>fh.
     rbind (struct_def_at resolver (fdh_owner fh)) (\<lambda>struct_def.
       let expected_type = materialize_type (sd_struct_handle struct_def) type_args in
       if operand \<noteq> Reference expected_type \<and> operand \<noteq> MutableReference expected_type
       then Err (type_error view BORROWFIELD_TYPE_MISMATCH_ERROR off)
       else
       rbind (case sd_field_information struct_def of
           Native \<Rightarrow> Err (type_error view BORROWFIELD_BAD_FIELD_ERROR off)
         | Declared fs \<Rightarrow> vec_index fs (unat (fdh_field fh))) (\<lambda>field_def.
       rbind (instantiate (fdd_signature field_def) type_args) (\<lambda>field_type.
         Ok ((if mut then MutableReference field_type else Reference field_type) # st))))))"

definition borrow_loc ::
  "function_view \<Rightarrow> nat \<Rightarrow> bool \<Rightarrow> local_index \<Rightarrow> type_stack \<Rightarrow> type_stack vm_result" where
  "borrow_loc view off mut idx st =
     rbind (local_at view idx) (\<lambda>loc_signature.
       if is_reference loc_signature then Err (type_error view BORROWLOC_REFERENCE_ERROR off)
       else Ok ((if mut then MutableReference loc_signature else Reference loc_signature) # st))"

definition borrow_global ::
  "binary_indexed_view \<Rightarrow> function_view \<Rightarrow> nat \<Rightarrow> bool \<Rightarrow> struct_definition_index \<Rightarrow> signature \<Rightarrow>
     type_stack \<Rightarrow> type_stack vm_result" where
  "borrow_global resolver view off mut idx type_args st =
     rbind (pop_operand st) (\<lambda>(operand, st).
     if operand \<noteq> Address then Err (type_error view BORROWGLOBAL_TYPE_MISMATCH_ERROR off)
     else
     rbind (struct_def_at resolver idx) (\<lambda>struct_def.
       let struct_type = materialize_type (sd_struct_handle struct_def) type_args in
       rbind (type_abilities resolver view struct_type) (\<lambda>abilities.
         if \<not> has_key abilities then Err (type_error view BORROWGLOBAL_WITHOUT_KEY_ABILITY off)
         else Ok ((if mut then MutableReference struct_type else Reference struct_type) # st))))"

definition type_call ::
  "binary_indexed_view \<Rightarrow> function_view \<Rightarrow> nat \<Rightarrow> function_handle \<Rightarrow> signature \<Rightarrow> type_stack \<Rightarrow>
     type_stack vm_result" where
  "type_call resolver view off fh type_actuals st =
     rbind (signature_at resolver (fh_parameters fh)) (\<lambda>parameters.
     rbind (for_each (\<lambda>parameter st.
         rbind (pop_operand st) (\<lambda>(arg, st).
         rbind (instantiate parameter type_actuals) (\<lambda>ty.
           if arg \<noteq> ty then Err (type_error view CALL_TYPE_MISMATCH_ERROR off) else Ok st)))
       (rev parameters) st) (\<lambda>st.
     rbind (signature_at resolver (fh_return fh)) (\<lambda>return_sig.
     rbind (rmap (\<lambda>ty. instantiate ty type_actuals) return_sig) (\<lambda>return_types.
       Ok (rev return_types @ st)))))"

definition type_fields_signature ::
  "function_view \<Rightarrow> nat \<Rightarrow> struct_definition \<Rightarrow> signature \<Rightarrow> signature vm_result" where
  "type_fields_signature view off struct_def type_args =
     (case sd_field_information struct_def of
        Native \<Rightarrow> Err (type_error view PACK_TYPE_MISMATCH_ERROR off)
      | Declared fs \<Rightarrow> rmap (\<lambda>f. instantiate (fdd_signature f) type_args) fs)"

definition type_pack ::
  "function_view \<Rightarrow> nat \<Rightarrow> struct_definition \<Rightarrow> signature \<Rightarrow> type_stack \<Rightarrow> type_stack vm_result" where
  "type_pack view off struct_def type_args st =
     rbind (type_fields_signature view off struct_def type_args) (\<lambda>field_sig.
     rbind (pop_types (type_error view PACK_TYPE_MISMATCH_ERROR off) field_sig st) (\<lambda>st.
       Ok (materialize_type (sd_struct_handle struct_def) type_args # st)))"

definition type_unpack ::
  "function_view \<Rightarrow> nat \<Rightarrow> struct_definition \<Rightarrow> signature \<Rightarrow> type_stack \<Rightarrow> type_stack vm_result" where
  "type_unpack view off struct_def type_args st =
     rbind (pop_operand st) (\<lambda>(arg, st).
     if arg \<noteq> materialize_type (sd_struct_handle struct_def) type_args
     then Err (type_error view UNPACK_TYPE_MISMATCH_ERROR off)
     else rbind (type_fields_signature view off struct_def type_args) (\<lambda>field_sig. Ok (rev field_sig @ st)))"

definition type_exists ::
  "binary_indexed_view \<Rightarrow> function_view \<Rightarrow> nat \<Rightarrow> struct_definition \<Rightarrow> signature \<Rightarrow> type_stack \<Rightarrow>
     type_stack vm_result" where
  "type_exists resolver view off struct_def type_args st =
     rbind (type_abilities resolver view (materialize_type (sd_struct_handle struct_def) type_args)) (\<lambda>abilities.
     if \<not> has_key abilities
     then Err (type_error view EXISTS_WITHOUT_KEY_ABILITY_OR_BAD_ARGUMENT off)
     else rbind (pop_operand st) (\<lambda>(operand, st).
       if operand \<noteq> Address then Err (type_error view EXISTS_WITHOUT_KEY_ABILITY_OR_BAD_ARGUMENT off)
       else Ok (Bool # st)))"

definition type_move_from ::
  "binary_indexed_view \<Rightarrow> function_view \<Rightarrow> nat \<Rightarrow> struct_definition \<Rightarrow> signature \<Rightarrow> type_stack \<Rightarrow>
     type_stack vm_result" where
  "type_move_from resolver view off struct_def type_args st =
     (let struct_type = materialize_type (sd_struct_handle struct_def) type_args in
      rbind (type_abilities resolver view struct_type) (\<lambda>abilities.
      if \<not> has_key abilities then Err (type_error view MOVEFROM_WITHOUT_KEY_ABILITY off)
      else rbind (pop_operand st) (\<lambda>(operand, st).
        if operand \<noteq> Address then Err (type_error view MOVEFROM_TYPE_MISMATCH_ERROR off)
        else Ok (struct_type # st))))"

definition type_move_to ::
  "binary_indexed_view \<Rightarrow> function_view \<Rightarrow> nat \<Rightarrow> struct_definition \<Rightarrow> signature \<Rightarrow> type_stack \<Rightarrow>
     type_stack vm_result" where
  "type_move_to resolver view off struct_def type_args st =
     (let struct_type = materialize_type (sd_struct_handle struct_def) type_args in
      rbind (type_abilities resolver view struct_type) (\<lambda>abilities.
      if \<not> has_key abilities then Err (type_error view MOVETO_WITHOUT_KEY_ABILITY off)
      else
      rbind (pop_operand st) (\<lambda>(key_struct_operand, st).
      rbind (pop_operand st) (\<lambda>(signer_reference_operand, st).
        if key_struct_operand \<noteq> struct_type then Err (type_error view MOVETO_TYPE_MISMATCH_ERROR off)
        else if signer_reference_operand = Reference Signer then Ok st
        else Err (type_error view MOVETO_TYPE_MISMATCH_ERROR off)))))"

definition borrow_vector_element ::
  "function_view \<Rightarrow> signature_token \<Rightarrow> nat \<Rightarrow> bool \<Rightarrow> type_stack \<Rightarrow> type_stack vm_result" where
  "borrow_vector_element view declared_element_type off mut_ref_only st =
     rbind (pop_operand st) (\<lambda>(operand_idx, st).
     rbind (pop_operand st) (\<lambda>(operand_vec, st).
     if operand_idx \<noteq> U64 then Err (type_error view TYPE_MISMATCH off)
     else if get_vector_element_type operand_vec mut_ref_only \<noteq> Some declared_element_type
     then Err (type_error view TYPE_MISMATCH off)
     else Ok ((if mut_ref_only then MutableReference declared_element_type
               else Reference declared_element_type) # st)))"

section \<open>Instructions\<close>

text \<open>The arithmetic and comparison instructions on two operands of one type.\<close>

definition integer_op :: "function_view \<Rightarrow> nat \<Rightarrow> type_stack \<Rightarrow> type_stack vm_result" where
  "integer_op view off st =
     rbind (pop_operand st) (\<lambda>(operand1, st).
     rbind (pop_operand st) (\<lambda>(operand2, st).
       if is_integer operand1 \<and> operand1 = operand2 then Ok (operand1 # st)
       else Err (type_error view INTEGER_OP_TYPE_MISMATCH_ERROR off)))"

definition shift_op :: "function_view \<Rightarrow> nat \<Rightarrow> type_stack \<Rightarrow> type_stack vm_result" where
  "shift_op view off st =
     rbind (pop_operand st) (\<lambda>(operand1, st).
     rbind (pop_operand st) (\<lambda>(operand2, st).
       if is_integer operand2 \<and> operand1 = U8 then Ok (operand2 # st)
       else Err (type_error view INTEGER_OP_TYPE_MISMATCH_ERROR off)))"

definition boolean_op :: "function_view \<Rightarrow> nat \<Rightarrow> type_stack \<Rightarrow> type_stack vm_result" where
  "boolean_op view off st =
     rbind (pop_operand st) (\<lambda>(operand1, st).
     rbind (pop_operand st) (\<lambda>(operand2, st).
       if operand1 = Bool \<and> operand2 = Bool then Ok (Bool # st)
       else Err (type_error view BOOLEAN_OP_TYPE_MISMATCH_ERROR off)))"

definition equality_op ::
  "binary_indexed_view \<Rightarrow> function_view \<Rightarrow> nat \<Rightarrow> type_stack \<Rightarrow> type_stack vm_result" where
  "equality_op resolver view off st =
     rbind (pop_operand st) (\<lambda>(operand1, st).
     rbind (pop_operand st) (\<lambda>(operand2, st).
     rbind (type_abilities resolver view operand1) (\<lambda>abilities.
       if has_drop abilities \<and> operand1 = operand2 then Ok (Bool # st)
       else Err (type_error view EQUALITY_OP_TYPE_MISMATCH_ERROR off))))"

definition comparison_op :: "function_view \<Rightarrow> nat \<Rightarrow> type_stack \<Rightarrow> type_stack vm_result" where
  "comparison_op view off st =
     rbind (pop_operand st) (\<lambda>(operand1, st).
     rbind (pop_operand st) (\<lambda>(operand2, st).
       if is_integer operand1 \<and> operand1 = operand2 then Ok (Bool # st)
       else Err (type_error view INTEGER_OP_TYPE_MISMATCH_ERROR off)))"

definition cast_op :: "function_view \<Rightarrow> nat \<Rightarrow> signature_token \<Rightarrow> type_stack \<Rightarrow> type_stack vm_result" where
  "cast_op view off ty st =
     rbind (pop_operand st) (\<lambda>(operand, st).
       if \<not> is_integer operand then Err (type_error view INTEGER_OP_TYPE_MISMATCH_ERROR off)
       else Ok (ty # st))"

definition read_ref ::
  "binary_indexed_view \<Rightarrow> function_view \<Rightarrow> nat \<Rightarrow> type_stack \<Rightarrow> type_stack vm_result" where
  "read_ref resolver view off st =
     rbind (pop_operand st) (\<lambda>(operand, st).
     case (case operand of Reference inner \<Rightarrow> Some inner | MutableReference inner \<Rightarrow> Some inner | _ \<Rightarrow> None) of
       Some inner \<Rightarrow>
         rbind (type_abilities resolver view inner) (\<lambda>abilities.
           if \<not> has_copy abilities then Err (type_error view READREF_WITHOUT_COPY_ABILITY off)
           else Ok (inner # st))
     | None \<Rightarrow> Err (type_error view READREF_TYPE_MISMATCH_ERROR off))"

definition write_ref ::
  "binary_indexed_view \<Rightarrow> function_view \<Rightarrow> nat \<Rightarrow> type_stack \<Rightarrow> type_stack vm_result" where
  "write_ref resolver view off st =
     rbind (pop_operand st) (\<lambda>(ref_operand, st).
     rbind (pop_operand st) (\<lambda>(val_operand, st).
     case ref_operand of
       MutableReference ref_inner_signature \<Rightarrow>
         rbind (type_abilities resolver view ref_inner_signature) (\<lambda>abilities.
           if \<not> has_drop abilities then Err (type_error view WRITEREF_WITHOUT_DROP_ABILITY off)
           else if val_operand \<noteq> ref_inner_signature
           then Err (type_error view WRITEREF_TYPE_MISMATCH_ERROR off)
           else Ok st)
     | _ \<Rightarrow> Err (type_error view WRITEREF_NO_MUTABLE_REFERENCE_ERROR off)))"

text \<open>\<^verbatim>\<open>&verifier.resolver.signature_at(*idx).0[0]\<close>\<close>

definition declared_element ::
  "binary_indexed_view \<Rightarrow> signature_index \<Rightarrow> signature_token vm_result" where
  "declared_element resolver idx = rbind (signature_at resolver idx) (\<lambda>sig. vec_index sig 0)"

text \<open>A struct operation on the definition that an instantiation names.\<close>

definition with_struct_inst ::
  "binary_indexed_view \<Rightarrow> struct_def_instantiation_index \<Rightarrow>
     (struct_definition \<Rightarrow> signature \<Rightarrow> type_stack vm_result) \<Rightarrow> type_stack vm_result" where
  "with_struct_inst resolver idx f =
     rbind (struct_instantiation_at resolver idx) (\<lambda>si.
     rbind (struct_def_at resolver (sdi_def si)) (\<lambda>sd.
     rbind (signature_at resolver (sdi_type_parameters si)) (\<lambda>type_args. f sd type_args)))"

definition borrow_global_generic ::
  "binary_indexed_view \<Rightarrow> function_view \<Rightarrow> nat \<Rightarrow> bool \<Rightarrow> struct_def_instantiation_index \<Rightarrow>
     type_stack \<Rightarrow> type_stack vm_result" where
  "borrow_global_generic resolver view off mut idx st =
     rbind (struct_instantiation_at resolver idx) (\<lambda>si.
     rbind (signature_at resolver (sdi_type_parameters si)) (\<lambda>type_inst.
       borrow_global resolver view off mut (sdi_def si) type_inst st))"

definition borrow_field_generic ::
  "binary_indexed_view \<Rightarrow> function_view \<Rightarrow> nat \<Rightarrow> bool \<Rightarrow> field_instantiation_index \<Rightarrow>
     type_stack \<Rightarrow> type_stack vm_result" where
  "borrow_field_generic resolver view off mut idx st =
     rbind (field_instantiation_at resolver idx) (\<lambda>fi.
     rbind (signature_at resolver (fdi_type_parameters fi)) (\<lambda>type_inst.
       borrow_field resolver view off mut (fdi_handle fi) type_inst st))"

definition verify_instr ::
  "binary_indexed_view \<Rightarrow> function_view \<Rightarrow> bytecode \<Rightarrow> nat \<Rightarrow> type_stack \<Rightarrow> type_stack vm_result" where
  "verify_instr resolver view instr off st =
     (case instr of
        Pop \<Rightarrow>
          rbind (pop_operand st) (\<lambda>(operand, st).
          rbind (type_abilities resolver view operand) (\<lambda>abilities.
            if \<not> has_drop abilities then Err (type_error view POP_WITHOUT_DROP_ABILITY off) else Ok st))
      | BrTrue _ \<Rightarrow>
          rbind (pop_operand st) (\<lambda>(operand, st).
            if operand \<noteq> Bool then Err (type_error view BR_TYPE_MISMATCH_ERROR off) else Ok st)
      | BrFalse _ \<Rightarrow>
          rbind (pop_operand st) (\<lambda>(operand, st).
            if operand \<noteq> Bool then Err (type_error view BR_TYPE_MISMATCH_ERROR off) else Ok st)
      | StLoc idx \<Rightarrow>
          rbind (pop_operand st) (\<lambda>(operand, st).
          rbind (local_at view idx) (\<lambda>ty.
            if operand \<noteq> ty then Err (type_error view STLOC_TYPE_MISMATCH_ERROR off) else Ok st))
      | Abort \<Rightarrow>
          rbind (pop_operand st) (\<lambda>(operand, st).
            if operand \<noteq> U64 then Err (type_error view ABORT_TYPE_MISMATCH_ERROR off) else Ok st)
      | Ret \<Rightarrow> pop_types (type_error view RET_TYPE_MISMATCH_ERROR off) (fv_return view) st
      | Branch _ \<Rightarrow> Ok st
      | Nop \<Rightarrow> Ok st
      | FreezeRef \<Rightarrow>
          rbind (pop_operand st) (\<lambda>(operand, st). case operand of
              MutableReference inner \<Rightarrow> Ok (Reference inner # st)
            | _ \<Rightarrow> Err (type_error view FREEZEREF_TYPE_MISMATCH_ERROR off))
      | MutBorrowField idx \<Rightarrow> borrow_field resolver view off True idx [] st
      | MutBorrowFieldGeneric idx \<Rightarrow> borrow_field_generic resolver view off True idx st
      | ImmBorrowField idx \<Rightarrow> borrow_field resolver view off False idx [] st
      | ImmBorrowFieldGeneric idx \<Rightarrow> borrow_field_generic resolver view off False idx st
      | LdU8 _ \<Rightarrow> Ok (U8 # st)
      | LdU64 _ \<Rightarrow> Ok (U64 # st)
      | LdU128 _ \<Rightarrow> Ok (U128 # st)
      | LdConst idx \<Rightarrow> rbind (constant_at resolver idx) (\<lambda>c. Ok (const_type c # st))
      | LdTrue \<Rightarrow> Ok (Bool # st)
      | LdFalse \<Rightarrow> Ok (Bool # st)
      | CopyLoc idx \<Rightarrow>
          rbind (local_at view idx) (\<lambda>local_signature.
          rbind (type_abilities resolver view local_signature) (\<lambda>abilities.
            if \<not> has_copy abilities then Err (type_error view COPYLOC_WITHOUT_COPY_ABILITY off)
            else Ok (local_signature # st)))
      | MoveLoc idx \<Rightarrow> rbind (local_at view idx) (\<lambda>local_signature. Ok (local_signature # st))
      | MutBorrowLoc idx \<Rightarrow> borrow_loc view off True idx st
      | ImmBorrowLoc idx \<Rightarrow> borrow_loc view off False idx st
      | Call idx \<Rightarrow>
          rbind (function_handle_at resolver idx) (\<lambda>fh. type_call resolver view off fh [] st)
      | CallGeneric idx \<Rightarrow>
          rbind (function_instantiation_at resolver idx) (\<lambda>fi.
          rbind (function_handle_at resolver (fi_handle fi)) (\<lambda>fh.
          rbind (signature_at resolver (fi_type_parameters fi)) (\<lambda>type_args.
            type_call resolver view off fh type_args st)))
      | Pack idx \<Rightarrow> rbind (struct_def_at resolver idx) (\<lambda>sd. type_pack view off sd [] st)
      | PackGeneric idx \<Rightarrow> with_struct_inst resolver idx (\<lambda>sd args. type_pack view off sd args st)
      | Unpack idx \<Rightarrow> rbind (struct_def_at resolver idx) (\<lambda>sd. type_unpack view off sd [] st)
      | UnpackGeneric idx \<Rightarrow> with_struct_inst resolver idx (\<lambda>sd args. type_unpack view off sd args st)
      | ReadRef \<Rightarrow> read_ref resolver view off st
      | WriteRef \<Rightarrow> write_ref resolver view off st
      | CastU8 \<Rightarrow> cast_op view off U8 st
      | CastU64 \<Rightarrow> cast_op view off U64 st
      | CastU128 \<Rightarrow> cast_op view off U128 st
      | Add \<Rightarrow> integer_op view off st | Sub \<Rightarrow> integer_op view off st | Mul \<Rightarrow> integer_op view off st
      | Mod \<Rightarrow> integer_op view off st | Div \<Rightarrow> integer_op view off st | BitOr \<Rightarrow> integer_op view off st
      | BitAnd \<Rightarrow> integer_op view off st | Xor \<Rightarrow> integer_op view off st
      | Shl \<Rightarrow> shift_op view off st | Shr \<Rightarrow> shift_op view off st
      | OrOp \<Rightarrow> boolean_op view off st | AndOp \<Rightarrow> boolean_op view off st
      | NotOp \<Rightarrow>
          rbind (pop_operand st) (\<lambda>(operand, st).
            if operand = Bool then Ok (Bool # st)
            else Err (type_error view BOOLEAN_OP_TYPE_MISMATCH_ERROR off))
      | Eq \<Rightarrow> equality_op resolver view off st | Neq \<Rightarrow> equality_op resolver view off st
      | Lt \<Rightarrow> comparison_op view off st | Gt \<Rightarrow> comparison_op view off st
      | Le \<Rightarrow> comparison_op view off st | Ge \<Rightarrow> comparison_op view off st
      | MutBorrowGlobal idx \<Rightarrow> borrow_global resolver view off True idx [] st
      | MutBorrowGlobalGeneric idx \<Rightarrow> borrow_global_generic resolver view off True idx st
      | ImmBorrowGlobal idx \<Rightarrow> borrow_global resolver view off False idx [] st
      | ImmBorrowGlobalGeneric idx \<Rightarrow> borrow_global_generic resolver view off False idx st
      | Exists idx \<Rightarrow> rbind (struct_def_at resolver idx) (\<lambda>sd. type_exists resolver view off sd [] st)
      | ExistsGeneric idx \<Rightarrow> with_struct_inst resolver idx (\<lambda>sd args. type_exists resolver view off sd args st)
      | MoveFrom idx \<Rightarrow> rbind (struct_def_at resolver idx) (\<lambda>sd. type_move_from resolver view off sd [] st)
      | MoveFromGeneric idx \<Rightarrow>
          with_struct_inst resolver idx (\<lambda>sd args. type_move_from resolver view off sd args st)
      | MoveTo idx \<Rightarrow> rbind (struct_def_at resolver idx) (\<lambda>sd. type_move_to resolver view off sd [] st)
      | MoveToGeneric idx \<Rightarrow>
          with_struct_inst resolver idx (\<lambda>sd args. type_move_to resolver view off sd args st)
      | VecPack idx num \<Rightarrow>
          rbind (declared_element resolver idx) (\<lambda>element_type.
          rbind (pop_operands (unat num) st) (\<lambda>st. Ok (Vector element_type # st)))
      | VecLen idx \<Rightarrow>
          rbind (pop_operand st) (\<lambda>(operand, st).
          rbind (declared_element resolver idx) (\<lambda>ty.
            if get_vector_element_type operand False = Some ty then Ok (U64 # st)
            else Err (type_error view TYPE_MISMATCH off)))
      | VecImmBorrow idx \<Rightarrow>
          rbind (declared_element resolver idx) (\<lambda>ty. borrow_vector_element view ty off False st)
      | VecMutBorrow idx \<Rightarrow>
          rbind (declared_element resolver idx) (\<lambda>ty. borrow_vector_element view ty off True st)
      | VecPushBack idx \<Rightarrow>
          rbind (pop_operand st) (\<lambda>(operand_elem, st).
          rbind (pop_operand st) (\<lambda>(operand_vec, st).
          rbind (declared_element resolver idx) (\<lambda>ty.
            if ty \<noteq> operand_elem then Err (type_error view TYPE_MISMATCH off)
            else if get_vector_element_type operand_vec True = Some ty then Ok st
            else Err (type_error view TYPE_MISMATCH off))))
      | VecPopBack idx \<Rightarrow>
          rbind (pop_operand st) (\<lambda>(operand_vec, st).
          rbind (declared_element resolver idx) (\<lambda>ty.
            if get_vector_element_type operand_vec True = Some ty then Ok (ty # st)
            else Err (type_error view TYPE_MISMATCH off)))
      | VecUnpack idx num \<Rightarrow>
          rbind (pop_operand st) (\<lambda>(operand_vec, st).
          rbind (declared_element resolver idx) (\<lambda>ty.
            if operand_vec \<noteq> Vector ty then Err (type_error view TYPE_MISMATCH off)
            else Ok (replicate (unat num) ty @ st)))
      | VecSwap idx \<Rightarrow>
          rbind (pop_operand st) (\<lambda>(operand_idx2, st).
          rbind (pop_operand st) (\<lambda>(operand_idx1, st).
          rbind (pop_operand st) (\<lambda>(operand_vec, st).
            if operand_idx1 \<noteq> U64 \<or> operand_idx2 \<noteq> U64 then Err (type_error view TYPE_MISMATCH off)
            else rbind (declared_element resolver idx) (\<lambda>ty.
              if get_vector_element_type operand_vec True = Some ty then Ok st
              else Err (type_error view TYPE_MISMATCH off))))))"

definition type_turn ::
  "binary_indexed_view \<Rightarrow> function_view \<Rightarrow> nat \<Rightarrow> type_stack \<Rightarrow> type_stack vm_result" where
  "type_turn resolver view off st =
     rbind (vec_index (cu_code (fv_code view)) off) (\<lambda>instr. verify_instr resolver view instr off st)"

definition type_block :: "binary_indexed_view \<Rightarrow> function_view \<Rightarrow> nat \<Rightarrow> type_stack \<Rightarrow> type_stack vm_result" where
  "type_block resolver view block_id st =
     rbind (instr_indexes (fv_cfg view) block_id) (\<lambda>offsets. for_each (type_turn resolver view) offsets st)"

definition type_safety_verify :: "binary_indexed_view \<Rightarrow> function_view \<Rightarrow> unit vm_result" where
  "type_safety_verify resolver view =
     rbind (for_each (type_block resolver view) (blocks (fv_cfg view)) []) (\<lambda>_. Ok ())"

section \<open>Types in bounds\<close>

lemma token_in_bounds_simps [simp]:
  "token_in_bounds view n Bool" "token_in_bounds view n U8" "token_in_bounds view n U64"
  "token_in_bounds view n U128" "token_in_bounds view n Address" "token_in_bounds view n Signer"
  "token_in_bounds view n (Vector ty) \<longleftrightarrow> token_in_bounds view n ty"
  "token_in_bounds view n (Reference ty) \<longleftrightarrow> token_in_bounds view n ty"
  "token_in_bounds view n (MutableReference ty) \<longleftrightarrow> token_in_bounds view n ty"
  "token_in_bounds view n (TypeParameter idx) \<longleftrightarrow> unat idx < n"
  "token_in_bounds view n (Struct sh) \<longleftrightarrow> in_pool (struct_handles view) sh \<and>
     sh_type_parameters (struct_handles view ! unat sh) = []"
  "token_in_bounds view n (StructInstantiation sh args) \<longleftrightarrow> in_pool (struct_handles view) sh \<and>
     length (sh_type_parameters (struct_handles view ! unat sh)) = length args \<and>
     (\<forall>ty \<in> set args. token_in_bounds view n ty)"
  by (auto simp: token_in_bounds_def in_pool_def)

lemma instantiate_in_bounds:
  assumes "\<forall>t \<in> set subst. token_in_bounds view n t"
  shows "token_in_bounds view (length subst) ty \<Longrightarrow>
    \<exists>t. instantiate ty subst = Ok t \<and> token_in_bounds view n t"
  using assms
proof (induction ty subst rule: instantiate.induct)
  case (2 idx args subst)
  then have "\<forall>ty \<in> set args. \<exists>t. instantiate ty subst = Ok t \<and> token_in_bounds view n t" by simp
  then obtain f where f: "\<And>ty. ty \<in> set args \<Longrightarrow> instantiate ty subst = Ok (f ty) \<and> token_in_bounds view n (f ty)"
    by metis
  then have "rmap (\<lambda>ty. instantiate ty subst) args = Ok (map f args)" by (intro rmap_all_Ok) simp
  with f 2(2) show ?case by simp
qed auto

lemma instantiate_all_in_bounds:
  assumes "\<forall>t \<in> set subst. token_in_bounds view n t" "\<forall>ty \<in> set tys. token_in_bounds view (length subst) ty"
  shows "\<exists>ts. rmap (\<lambda>ty. instantiate ty subst) tys = Ok ts \<and> length ts = length tys \<and>
    (\<forall>t \<in> set ts. token_in_bounds view n t)"
proof -
  have "\<forall>ty \<in> set tys. \<exists>t. instantiate ty subst = Ok t \<and> token_in_bounds view n t"
    using instantiate_in_bounds[OF assms(1)] assms(2) by blast
  then obtain f where f: "\<And>ty. ty \<in> set tys \<Longrightarrow> instantiate ty subst = Ok (f ty) \<and> token_in_bounds view n (f ty)"
    by metis
  then have "rmap (\<lambda>ty. instantiate ty subst) tys = Ok (map f tys)" by (intro rmap_all_Ok) simp
  with f show ?thesis by auto
qed

text \<open>Arguments that fit a struct: none for a struct without type parameters, otherwise one for each.\<close>

definition args_fit :: "binary_indexed_view \<Rightarrow> nat \<Rightarrow> struct_handle_index \<Rightarrow> signature \<Rightarrow> bool" where
  "args_fit view n sh args =
     (in_pool (struct_handles view) sh \<and>
      length (sh_type_parameters (struct_handles view ! unat sh)) = length args \<and>
      (\<forall>ty \<in> set args. token_in_bounds view n ty))"

lemma materialize_in_bounds: "args_fit view n sh args \<Longrightarrow> token_in_bounds view n (materialize_type sh args)"
  by (auto simp: materialize_type_def args_fit_def)

section \<open>Outcomes of the checker\<close>

definition stack_ok :: "binary_indexed_view \<Rightarrow> nat \<Rightarrow> type_stack \<Rightarrow> bool" where
  "stack_ok resolver n st = (\<forall>t \<in> set st. token_in_bounds resolver n t)"

text \<open>\<open>yields resolver n h r\<close>: the outcome is an error or a stack of height \<open>h\<close> of types in bounds.\<close>

definition yields :: "binary_indexed_view \<Rightarrow> nat \<Rightarrow> nat \<Rightarrow> type_stack vm_result \<Rightarrow> bool" where
  "yields resolver n h r = (case r of Ok st \<Rightarrow> stack_ok resolver n st \<and> length st = h | Err _ \<Rightarrow> True | Panic \<Rightarrow> False)"

lemma stack_ok_simps [simp]:
  "stack_ok resolver n []"
  "stack_ok resolver n (t # st) \<longleftrightarrow> token_in_bounds resolver n t \<and> stack_ok resolver n st"
  "stack_ok resolver n (st @ st') \<longleftrightarrow> stack_ok resolver n st \<and> stack_ok resolver n st'"
  "stack_ok resolver n (rev st) \<longleftrightarrow> stack_ok resolver n st"
  "stack_ok resolver n (replicate k t) \<longleftrightarrow> k = 0 \<or> token_in_bounds resolver n t"
  by (auto simp: stack_ok_def)

lemma yields_simps [simp]:
  "yields resolver n h (Ok st) \<longleftrightarrow> stack_ok resolver n st \<and> length st = h"
  "yields resolver n h (Err e)"
  "\<not> yields resolver n h Panic"
  by (simp_all add: yields_def)

lemma yields_if [simp]:
  "yields resolver n h (if b then r else r') \<longleftrightarrow> (if b then yields resolver n h r else yields resolver n h r')"
  by simp

lemma yields_bind:
  assumes "r \<noteq> Panic" "\<And>x. r = Ok x \<Longrightarrow> yields resolver n h (f x)"
  shows "yields resolver n h (rbind r f)"
  using assms by (cases r) auto

lemma yields_pop:
  assumes "stack_ok resolver n st" "0 < length st"
    and "\<And>t st'. st = t # st' \<Longrightarrow> token_in_bounds resolver n t \<Longrightarrow> stack_ok resolver n st' \<Longrightarrow>
      yields resolver n h (f (t, st'))"
  shows "yields resolver n h (rbind (pop_operand st) f)"
  using assms by (cases st) (auto simp: pop_operand_def)

lemma yields_abilities:
  assumes "token_in_bounds resolver (length (fv_type_parameters view)) t" "\<And>a. yields resolver n h (f a)"
  shows "yields resolver n h (rbind (type_abilities resolver view t) f)"
  using assms token_abilities_Ok[of resolver "fv_type_parameters view" t] by (auto simp: type_abilities_def)

lemma yields_pop_operands:
  "stack_ok resolver n st \<Longrightarrow> k \<le> length st \<Longrightarrow> yields resolver n (length st - k) (pop_operands k st)"
proof (induction k arbitrary: st)
  case (Suc k)
  then show ?case by (cases st) (auto simp: pop_operand_def)
qed simp

declare pop_operands.simps [simp del]

lemma yields_pop_types:
  assumes "stack_ok resolver n st" "length sig \<le> length st"
  shows "yields resolver n (length st - length sig) (pop_types err sig st)"
proof -
  let ?f = "\<lambda>ty st. rbind (pop_operand st) (\<lambda>(arg, st'). if arg \<noteq> ty then Err err else Ok st')"
  have "yields resolver n (length st - length tys) (for_each ?f tys st)" if "length tys \<le> length st" "stack_ok resolver n st" for tys st
    using that
  proof (induction tys arbitrary: st)
    case (Cons ty tys)
    then show ?case by (cases st) (auto simp: pop_operand_def)
  qed simp
  from this[of "rev sig" st] assms show ?thesis by (simp add: pop_types_def)
qed

section \<open>Structs and functions that instructions name\<close>

definition struct_ready ::
  "binary_indexed_view \<Rightarrow> nat \<Rightarrow> struct_definition \<Rightarrow> signature \<Rightarrow> bool" where
  "struct_ready resolver n sd args =
     (sd \<in> set (opt_list (struct_defs resolver)) \<and> args_fit resolver n (sd_struct_handle sd) args)"

lemma plain_struct:
  assumes "tables_in_bounds resolver" "check_type_op resolver f off idx False = Ok ()"
  shows "\<exists>sd. struct_def_at resolver idx = Ok sd \<and> struct_ready resolver n sd []"
proof -
  obtain sd sh where sd: "struct_def_at resolver idx = Ok sd"
    and sh: "struct_handle_at resolver (sd_struct_handle sd) = Ok sh" "sh_type_parameters sh = []"
    using assms(2) by (auto simp: check_type_op_def rbind_eq_Ok split: if_splits)
  then show ?thesis
    using accessor_entries(5)[OF sd]
    by (auto simp: struct_ready_def args_fit_def in_pool_def struct_handle_at_def vec_index_eq_Ok)
qed

lemma generic_args:
  assumes "tables_in_bounds resolver" "signature_at resolver idx = Ok args"
    and "signature_params_ok resolver n idx" "check_type_arguments resolver idx constraints scope = Ok ()"
  shows "length args = length constraints" "\<forall>ty \<in> set args. token_in_bounds resolver n ty"
proof -
  show "length args = length constraints"
    using assms(2,4) by (auto simp: check_type_arguments_def rbind_eq_Ok check_generic_instance_def split: if_splits)
  show "\<forall>ty \<in> set args. token_in_bounds resolver n ty"
    using signature_tokens_in_bounds[OF assms(1-3)] by blast
qed

lemma generic_struct:
  assumes "tables_in_bounds resolver" "check_struct_arguments resolver idx scope = Ok ()"
    and "struct_inst_operand_ok resolver n idx"
  shows "\<exists>si sd args. struct_instantiation_at resolver idx = Ok si \<and> struct_def_at resolver (sdi_def si) = Ok sd \<and>
    signature_at resolver (sdi_type_parameters si) = Ok args \<and> struct_ready resolver n sd args"
proof -
  obtain si sd sh where si: "struct_instantiation_at resolver idx = Ok si"
    and sd: "struct_def_at resolver (sdi_def si) = Ok sd"
    and sh: "struct_handle_at resolver (sd_struct_handle sd) = Ok sh"
    and args: "check_type_arguments resolver (sdi_type_parameters si) (type_param_constraints sh) scope = Ok ()"
    using assms(2) by (auto simp: check_struct_arguments_def rbind_eq_Ok)
  obtain args where sig: "signature_at resolver (sdi_type_parameters si) = Ok args"
    using args by (auto simp: check_type_arguments_def rbind_eq_Ok)
  have "signature_params_ok resolver n (sdi_type_parameters si)"
    using si assms(3)
    by (auto simp: struct_inst_operand_ok_def arguments_ok_def struct_instantiation_at_def
        module_table_at_def vec_index_eq_Ok in_pool_def split: option.splits)
  from generic_args[OF assms(1) sig this args] sh accessor_entries(5)[OF sd] si sd sig show ?thesis
    by (auto simp: struct_ready_def args_fit_def in_pool_def struct_handle_at_def vec_index_eq_Ok
        type_param_constraints_def)
qed

lemma generic_field:
  assumes "tables_in_bounds resolver" "check_field_arguments resolver idx scope = Ok ()"
    and "field_inst_operand_ok resolver n idx"
  shows "\<exists>fi fh sd args. field_instantiation_at resolver idx = Ok fi \<and> field_handle_at resolver (fdi_handle fi) = Ok fh \<and>
    struct_def_at resolver (fdh_owner fh) = Ok sd \<and> signature_at resolver (fdi_type_parameters fi) = Ok args \<and>
    struct_ready resolver n sd args"
proof -
  obtain fi fh sd sh where fi: "field_instantiation_at resolver idx = Ok fi"
    and fh: "field_handle_at resolver (fdi_handle fi) = Ok fh"
    and sd: "struct_def_at resolver (fdh_owner fh) = Ok sd"
    and sh: "struct_handle_at resolver (sd_struct_handle sd) = Ok sh"
    and args: "check_type_arguments resolver (fdi_type_parameters fi) (type_param_constraints sh) scope = Ok ()"
    using assms(2) by (auto simp: check_field_arguments_def rbind_eq_Ok)
  obtain args where sig: "signature_at resolver (fdi_type_parameters fi) = Ok args"
    using args by (auto simp: check_type_arguments_def rbind_eq_Ok)
  have "signature_params_ok resolver n (fdi_type_parameters fi)"
    using fi assms(3)
    by (auto simp: field_inst_operand_ok_def arguments_ok_def field_instantiation_at_def
        module_table_at_def vec_index_eq_Ok in_pool_def split: option.splits)
  from generic_args[OF assms(1) sig this args] sh accessor_entries(5)[OF sd] fi fh sd sig show ?thesis
    by (auto simp: struct_ready_def args_fit_def in_pool_def struct_handle_at_def vec_index_eq_Ok
        type_param_constraints_def)
qed

lemma struct_ready_fields:
  assumes "tables_in_bounds resolver" "struct_ready resolver n sd args" "sd_field_information sd = Declared fs"
  shows "\<exists>ts. rmap (\<lambda>f. instantiate (fdd_signature f) args) fs = Ok ts \<and> length ts = length fs \<and> stack_ok resolver n ts"
    and "f \<in> set fs \<Longrightarrow> \<exists>t. instantiate (fdd_signature f) args = Ok t \<and> token_in_bounds resolver n t"
proof -
  have fields: "\<forall>f \<in> set fs. token_in_bounds resolver (length args) (fdd_signature f)"
    using field_tokens[OF assms(1) _ assms(3)] assms(2) by (auto simp: struct_ready_def args_fit_def)
  have args: "\<forall>t \<in> set args. token_in_bounds resolver n t" using assms(2) by (simp add: struct_ready_def args_fit_def)
  show one: "\<exists>t. instantiate (fdd_signature f) args = Ok t \<and> token_in_bounds resolver n t" if "f \<in> set fs" for f
    using instantiate_in_bounds[OF args] fields that by blast
  then obtain g where g: "\<And>f. f \<in> set fs \<Longrightarrow> instantiate (fdd_signature f) args = Ok (g f) \<and> token_in_bounds resolver n (g f)"
    by metis
  then have "rmap (\<lambda>f. instantiate (fdd_signature f) args) fs = Ok (map g fs)" by (intro rmap_all_Ok) simp
  with g show "\<exists>ts. rmap (\<lambda>f. instantiate (fdd_signature f) args) fs = Ok ts \<and> length ts = length fs \<and> stack_ok resolver n ts"
    by (auto simp: stack_ok_def)
qed

section \<open>Each operation\<close>

lemma yields_pack:
  assumes "tables_in_bounds resolver" "struct_ready resolver n sd args" "stack_ok resolver n st"
    and "field_count sd \<le> length st"
  shows "yields resolver n (length st - field_count sd + 1) (type_pack view off sd args st)"
proof (cases "sd_field_information sd")
  case (Declared fs)
  from struct_ready_fields(1)[OF assms(1,2) Declared] obtain ts where
    ts: "rmap (\<lambda>f. instantiate (fdd_signature f) args) fs = Ok ts" "length ts = length fs" by blast
  have "token_in_bounds resolver n (materialize_type (sd_struct_handle sd) args)"
    using assms(2) by (simp add: struct_ready_def materialize_in_bounds)
  moreover have "yields resolver n (length st - length ts) (pop_types err ts st)" for err
    using yields_pop_types[OF assms(3), of ts err] ts assms(4) Declared by (simp add: field_count_def)
  from this[of "type_error view PACK_TYPE_MISMATCH_ERROR off"] calculation show ?thesis
    using ts Declared
    by (cases "pop_types (type_error view PACK_TYPE_MISMATCH_ERROR off) ts st")
       (simp_all add: type_pack_def type_fields_signature_def field_count_def)
next
  case Native
  then show ?thesis by (simp add: type_pack_def type_fields_signature_def)
qed

lemma yields_unpack:
  assumes "tables_in_bounds resolver" "struct_ready resolver n sd args" "stack_ok resolver n st" "0 < length st"
  shows "yields resolver n (length st - 1 + field_count sd) (type_unpack view off sd args st)"
proof (cases "sd_field_information sd")
  case (Declared fs)
  from struct_ready_fields(1)[OF assms(1,2) Declared] obtain ts where
    "rmap (\<lambda>f. instantiate (fdd_signature f) args) fs = Ok ts" "length ts = length fs" "stack_ok resolver n ts" by blast
  then show ?thesis
    unfolding type_unpack_def
    by (intro yields_pop[OF assms(3,4)])
       (simp add: type_fields_signature_def field_count_def Declared)
next
  case Native
  then show ?thesis
    unfolding type_unpack_def
    by (intro yields_pop[OF assms(3,4)]) (simp add: type_fields_signature_def)
qed

lemma yields_global_ops:
  assumes "struct_ready resolver n sd args" "stack_ok resolver n st" "0 < length st"
    and n: "n = length (fv_type_parameters view)"
  shows "yields resolver n (length st) (type_exists resolver view off sd args st)"
    and "yields resolver n (length st) (type_move_from resolver view off sd args st)"
    and "1 < length st \<Longrightarrow> yields resolver n (length st - 2) (type_move_to resolver view off sd args st)"
    and "struct_def_at resolver idx = Ok sd \<Longrightarrow> yields resolver n (length st) (borrow_global resolver view off mut idx args st)"
proof -
  have ty: "token_in_bounds resolver n (materialize_type (sd_struct_handle sd) args)"
    using assms(1) by (simp add: struct_ready_def materialize_in_bounds)
  note ty' = ty[unfolded n]
  show "yields resolver n (length st) (type_exists resolver view off sd args st)"
    unfolding type_exists_def by (auto intro!: yields_abilities[OF ty'] yields_pop[OF assms(2,3)])
  show "yields resolver n (length st) (type_move_from resolver view off sd args st)"
    unfolding type_move_from_def Let_def using ty by (auto intro!: yields_abilities[OF ty'] yields_pop[OF assms(2,3)])
  show "yields resolver n (length st - 2) (type_move_to resolver view off sd args st)" if "1 < length st"
    unfolding type_move_to_def Let_def
    using that by (auto intro!: yields_abilities[OF ty'] yields_pop[OF assms(2,3)] yields_pop)
  show "yields resolver n (length st) (borrow_global resolver view off mut idx args st)"
    if "struct_def_at resolver idx = Ok sd"
    unfolding borrow_global_def Let_def that
    using ty by (auto simp: that intro!: yields_pop[OF assms(2,3)] yields_abilities[OF ty'])
qed

lemma yields_borrow_field:
  assumes tables: "tables_in_bounds resolver" and ready: "struct_ready resolver n sd args"
    and fh: "field_handle_at resolver idx = Ok fh" and sd: "struct_def_at resolver (fdh_owner fh) = Ok sd"
    and st: "stack_ok resolver n st" "0 < length st"
  shows "yields resolver n (length st) (borrow_field resolver view off mut idx args st)"
proof -
  obtain fs where fs: "sd_field_information sd = Declared fs" "unat (fdh_field fh) < length fs"
    using field_handle_field[OF tables fh sd]
    by (auto simp: field_def vec_get_def split: struct_field_information.splits if_splits)
  obtain t where "instantiate (fdd_signature (fs ! unat (fdh_field fh))) args = Ok t" "token_in_bounds resolver n t"
    using struct_ready_fields(2)[OF tables ready fs(1) nth_mem[OF fs(2)]] by blast
  then show ?thesis
    unfolding borrow_field_def using fh sd fs by (intro yields_pop[OF st]) (auto simp: Let_def)
qed

definition locals_ok :: "binary_indexed_view \<Rightarrow> function_view \<Rightarrow> bool" where
  "locals_ok resolver view =
     (\<forall>ty \<in> set (fv_parameters view) \<union> set (fv_locals view).
        token_in_bounds resolver (length (fv_type_parameters view)) ty)"

lemma local_at_Ok:
  assumes "locals_ok resolver view" "unat idx < length (fv_locals view) + length (fv_parameters view)"
  shows "\<exists>t. local_at view idx = Ok t \<and> token_in_bounds resolver (length (fv_type_parameters view)) t"
  using assms by (auto simp: local_at_def Let_def locals_ok_def)

lemma yields_type_call:
  assumes tables: "tables_in_bounds resolver" and fh: "function_handle_at resolver idx = Ok fh"
    and args: "length args = length (fh_type_parameters fh)" "\<forall>t \<in> set args. token_in_bounds resolver n t"
    and st: "stack_ok resolver n st"
    and sigs: "signature_at resolver (fh_parameters fh) = Ok parameters" "signature_at resolver (fh_return fh) = Ok returns"
    and pops: "length parameters \<le> length st"
  shows "yields resolver n (length st - length parameters + length returns) (type_call resolver view off fh args st)"
proof -
  have params: "\<forall>ty \<in> set parameters. token_in_bounds resolver (length args) ty"
    and rets: "\<forall>ty \<in> set returns. token_in_bounds resolver (length args) ty"
    using function_handle_tokens[OF tables fh] sigs args(1) by auto
  let ?f = "\<lambda>parameter st. rbind (pop_operand st) (\<lambda>(arg, st). rbind (instantiate parameter args) (\<lambda>ty.
      if arg \<noteq> ty then Err (type_error view CALL_TYPE_MISMATCH_ERROR off) else Ok st))"
  have pop: "yields resolver n (length st - length tys) (for_each ?f tys st)"
    if "length tys \<le> length st" "stack_ok resolver n st" "\<forall>ty \<in> set tys. token_in_bounds resolver (length args) ty" for tys st
    using that
  proof (induction tys arbitrary: st)
    case (Cons ty tys)
    obtain t where "instantiate ty args = Ok t" using instantiate_in_bounds[OF args(2)] Cons.prems(3) by auto
    then show ?case using Cons by (cases st) (auto simp: pop_operand_def)
  qed simp
  obtain ts where "rmap (\<lambda>ty. instantiate ty args) returns = Ok ts" "length ts = length returns" "stack_ok resolver n ts"
    using instantiate_all_in_bounds[OF args(2) rets] by (auto simp: stack_ok_def)
  then show ?thesis
    using pop[of "rev parameters" st] params pops st sigs
    by (cases "for_each ?f (rev parameters) st") (auto simp: type_call_def)
qed

lemma yields_two_operands:
  assumes "stack_ok resolver n st" "1 < length st"
  shows "yields resolver n (length st - 1) (integer_op view off st)"
    and "yields resolver n (length st - 1) (shift_op view off st)"
    and "yields resolver n (length st - 1) (boolean_op view off st)"
    and "yields resolver n (length st - 1) (comparison_op view off st)"
    and "n = length (fv_type_parameters view) \<Longrightarrow> yields resolver n (length st - 1) (equality_op resolver view off st)"
    and "token_in_bounds resolver n ty \<Longrightarrow> yields resolver n (length st - 1) (borrow_vector_element view ty off mut st)"
    and "n = length (fv_type_parameters view) \<Longrightarrow> yields resolver n (length st - 2) (write_ref resolver view off st)"
proof -
  obtain t u st' where [simp]: "st = t # u # st'" using assms(2) by (cases st; cases "tl st") auto
  have ok: "token_in_bounds resolver n t" "token_in_bounds resolver n u" "stack_ok resolver n st'" using assms(1) by simp_all
  then show "yields resolver n (length st - 1) (integer_op view off st)"
    "yields resolver n (length st - 1) (shift_op view off st)"
    "yields resolver n (length st - 1) (boolean_op view off st)"
    "yields resolver n (length st - 1) (comparison_op view off st)"
    "token_in_bounds resolver n ty \<Longrightarrow> yields resolver n (length st - 1) (borrow_vector_element view ty off mut st)"
    by (auto simp: integer_op_def shift_op_def boolean_op_def comparison_op_def borrow_vector_element_def pop_operand_def)
  show "yields resolver n (length st - 1) (equality_op resolver view off st)" if "n = length (fv_type_parameters view)"
    using ok that by (auto simp: equality_op_def pop_operand_def intro!: yields_abilities)
  show "yields resolver n (length st - 2) (write_ref resolver view off st)" if "n = length (fv_type_parameters view)"
    using ok that by (auto simp: write_ref_def pop_operand_def intro!: yields_abilities split: signature_token.splits)
qed

lemma yields_one_operand:
  assumes "stack_ok resolver n st" "0 < length st"
  shows "token_in_bounds resolver n ty \<Longrightarrow> yields resolver n (length st) (cast_op view off ty st)"
    and "n = length (fv_type_parameters view) \<Longrightarrow> yields resolver n (length st) (read_ref resolver view off st)"
proof -
  obtain t st' where [simp]: "st = t # st'" using assms(2) by (cases st) auto
  have ok: "token_in_bounds resolver n t" "stack_ok resolver n st'" using assms(1) by simp_all
  then show "yields resolver n (length st) (cast_op view off ty st)" if "token_in_bounds resolver n ty"
    using that by (simp add: cast_op_def pop_operand_def)
  show "yields resolver n (length st) (read_ref resolver view off st)" if "n = length (fv_type_parameters view)"
    using ok that
    by (cases t) (auto simp: read_ref_def pop_operand_def intro!: yields_abilities)
qed

section \<open>Every instruction\<close>

text \<open>What the earlier passes have established for an instruction of a body.\<close>

definition checked :: "binary_indexed_view \<Rightarrow> function_view \<Rightarrow> bytecode \<Rightarrow> bool" where
  "checked resolver view instr =
     (\<exists>f off. check_instruction_form resolver f (off, instr) = Ok () \<and>
        check_instruction_types resolver (fv_type_parameters view) instr = Ok () \<and>
        instruction_ok resolver (length (fv_type_parameters view))
          (length (fv_locals view) + length (fv_parameters view)) (length (cu_code (fv_code view))) instr)"

text \<open>Vectors have fewer than \<open>2 ^ 64\<close> elements, and the constants have passed the check of constants.\<close>

definition tables_fit :: "binary_indexed_view \<Rightarrow> bool" where
  "tables_fit resolver =
     ((\<forall>sig \<in> set (signatures resolver). length sig < 2 ^ 64) \<and>
      (\<forall>sd \<in> set (opt_list (struct_defs resolver)). field_count sd < 2 ^ 64) \<and>
      (\<forall>c \<in> set (constant_pool resolver). is_valid_for_constant (const_type c)))"

lemma is_valid_for_constant_in_bounds: "is_valid_for_constant ty \<Longrightarrow> token_in_bounds view n ty"
  by (induction ty rule: is_valid_for_constant.induct) simp_all

lemma unat_of_nat_fits: "k < 2 ^ 64 \<Longrightarrow> unat (of_nat k :: u64) = k"
  by (simp add: unat_of_nat)

lemma signature_fits: "tables_fit resolver \<Longrightarrow> signature_at resolver idx = Ok sig \<Longrightarrow> length sig < 2 ^ 64"
  using accessor_entries(1)[of resolver idx sig] by (auto simp: tables_fit_def)

lemma struct_fits:
  "tables_fit resolver \<Longrightarrow> struct_ready resolver n sd args \<Longrightarrow> unat (of_nat (field_count sd) :: u64) = field_count sd"
  by (auto simp: tables_fit_def struct_ready_def intro: unat_of_nat_fits)

lemma declared_element_Ok:
  assumes "tables_in_bounds resolver" "check_vector_argument resolver idx = Ok ()" "vector_operand_ok resolver n idx"
  shows "\<exists>ty. declared_element resolver idx = Ok ty \<and> token_in_bounds resolver n ty"
proof -
  obtain sig where sig: "signature_at resolver idx = Ok sig" "length sig = 1"
    using assms(2) by (auto simp: check_vector_argument_def rbind_eq_Ok split: if_splits)
  then have "token_in_bounds resolver n (sig ! 0)"
    using signature_tokens_in_bounds[OF assms(1) sig(1), of n "sig ! 0"] assms(3) by (auto simp: vector_operand_ok_def)
  with sig show ?thesis by (simp add: declared_element_def)
qed

lemma checked_vector:
  assumes "tables_in_bounds resolver" "checked resolver view instr" "vector_argument instr = Some idx"
  shows "\<exists>ty. declared_element resolver idx = Ok ty \<and>
    token_in_bounds resolver (length (fv_type_parameters view)) ty"
proof -
  have "check_vector_argument resolver idx = Ok ()"
    "vector_operand_ok resolver (length (fv_type_parameters view)) idx"
    using assms(2,3)
    by (auto simp: checked_def vector_argument_def check_instruction_types_def instruction_ok_def split: bytecode.splits)
  with declared_element_Ok[OF assms(1)] show ?thesis by blast
qed

text \<open>The operands, as \<open>operand_of\<close> gives them: the pass finds a struct or function that is ready.\<close>

lemma checked_struct:
  assumes "tables_in_bounds resolver" "checked resolver view instr" "operand_of instr = Some (StructOperand idx)"
  shows "\<exists>sd. struct_def_at resolver idx = Ok sd \<and> struct_ready resolver n sd []"
proof -
  obtain f off where "check_instruction_form resolver f (off, instr) = Ok ()" using assms(2) by (auto simp: checked_def)
  then have "check_type_op resolver f off idx False = Ok ()"
    using assms(3) by (simp add: check_instruction_form_operand check_operand_form_def)
  with plain_struct[OF assms(1)] show ?thesis by blast
qed

lemma checked_struct_inst:
  assumes "tables_in_bounds resolver" "checked resolver view instr" "operand_of instr = Some (StructInstOperand idx)"
  shows "\<exists>si sd args. struct_instantiation_at resolver idx = Ok si \<and> struct_def_at resolver (sdi_def si) = Ok sd \<and>
    signature_at resolver (sdi_type_parameters si) = Ok args \<and>
    struct_ready resolver (length (fv_type_parameters view)) sd args"
proof -
  have "check_struct_arguments resolver idx (fv_type_parameters view) = Ok ()"
    "struct_inst_operand_ok resolver (length (fv_type_parameters view)) idx"
    using assms(2,3)
    by (auto simp: checked_def operand_of_def check_instruction_types_def instruction_ok_def split: bytecode.splits)
  with generic_struct[OF assms(1)] show ?thesis by blast
qed

lemma checked_field:
  assumes "tables_in_bounds resolver" "checked resolver view instr" "operand_of instr = Some (FieldOperand idx)"
  shows "\<exists>fh sd. field_handle_at resolver idx = Ok fh \<and> struct_def_at resolver (fdh_owner fh) = Ok sd \<and>
    struct_ready resolver n sd []"
proof -
  obtain f off where "check_instruction_form resolver f (off, instr) = Ok ()" using assms(2) by (auto simp: checked_def)
  then obtain fh where "field_handle_at resolver idx = Ok fh" "check_type_op resolver f off (fdh_owner fh) False = Ok ()"
    using assms(3) by (auto simp: check_instruction_form_operand check_operand_form_def check_field_op_def rbind_eq_Ok)
  with plain_struct[OF assms(1)] show ?thesis by blast
qed

lemma checked_field_inst:
  assumes "tables_in_bounds resolver" "checked resolver view instr" "operand_of instr = Some (FieldInstOperand idx)"
  shows "\<exists>fi fh sd args. field_instantiation_at resolver idx = Ok fi \<and> field_handle_at resolver (fdi_handle fi) = Ok fh \<and>
    struct_def_at resolver (fdh_owner fh) = Ok sd \<and> signature_at resolver (fdi_type_parameters fi) = Ok args \<and>
    struct_ready resolver (length (fv_type_parameters view)) sd args"
proof -
  have "check_field_arguments resolver idx (fv_type_parameters view) = Ok ()"
    "field_inst_operand_ok resolver (length (fv_type_parameters view)) idx"
    using assms(2,3)
    by (auto simp: checked_def operand_of_def check_instruction_types_def instruction_ok_def split: bytecode.splits)
  with generic_field[OF assms(1)] show ?thesis by blast
qed

lemma checked_call:
  assumes "tables_in_bounds resolver" "checked resolver view (Call idx)"
  shows "\<exists>fh. function_handle_at resolver idx = Ok fh \<and> fh_type_parameters fh = []"
  using assms by (auto simp: checked_def check_instruction_form_def check_function_op_def rbind_eq_Ok split: if_splits)

lemma checked_call_generic:
  assumes "tables_in_bounds resolver" "checked resolver view (CallGeneric idx)"
  shows "\<exists>fi fh args. function_instantiation_at resolver idx = Ok fi \<and> function_handle_at resolver (fi_handle fi) = Ok fh \<and>
    signature_at resolver (fi_type_parameters fi) = Ok args \<and> length args = length (fh_type_parameters fh) \<and>
    (\<forall>ty \<in> set args. token_in_bounds resolver (length (fv_type_parameters view)) ty)"
proof -
  obtain fi fh where fi: "function_instantiation_at resolver idx = Ok fi"
    and fh: "function_handle_at resolver (fi_handle fi) = Ok fh"
    and args: "check_type_arguments resolver (fi_type_parameters fi) (fh_type_parameters fh) (fv_type_parameters view) = Ok ()"
    using assms(2) by (auto simp: checked_def check_instruction_types_def rbind_eq_Ok)
  obtain args where sig: "signature_at resolver (fi_type_parameters fi) = Ok args"
    using args by (auto simp: check_type_arguments_def rbind_eq_Ok)
  have "signature_params_ok resolver (length (fv_type_parameters view)) (fi_type_parameters fi)"
    using assms(2) fi
    by (auto simp: checked_def instruction_ok_def arguments_ok_def function_instantiation_at_def vec_index_eq_Ok)
  from generic_args[OF assms(1) sig this args] fi fh sig show ?thesis by blast
qed

text \<open>A local that the instruction names has a type in bounds.\<close>

lemma checked_local:
  assumes "locals_ok resolver view" "checked resolver view instr"
    and "instr \<in> {CopyLoc idx, MoveLoc idx, StLoc idx, MutBorrowLoc idx, ImmBorrowLoc idx}"
  shows "\<exists>t. local_at view idx = Ok t \<and> token_in_bounds resolver (length (fv_type_parameters view)) t"
  using assms(2,3) by (intro local_at_Ok[OF assms(1)]) (auto simp: checked_def instruction_ok_def)

lemma yields_locals:
  assumes locals: "locals_ok resolver view" and checked: "checked resolver view instr"
    and st: "stack_ok resolver (length (fv_type_parameters view)) st"
    and instr: "instr \<in> {CopyLoc idx, MoveLoc idx, MutBorrowLoc idx, ImmBorrowLoc idx}"
  shows "yields resolver (length (fv_type_parameters view)) (length st + 1) (verify_instr resolver view instr off st)"
proof -
  have "instr \<in> {CopyLoc idx, MoveLoc idx, StLoc idx, MutBorrowLoc idx, ImmBorrowLoc idx}" using instr by blast
  from checked_local[OF locals checked this] obtain t where
    t: "local_at view idx = Ok t" "token_in_bounds resolver (length (fv_type_parameters view)) t" by blast
  with st instr show ?thesis
    by (auto simp: verify_instr_def borrow_loc_def intro!: yields_abilities)
qed

lemma yields_vectors:
  assumes tables: "tables_in_bounds resolver" and checked: "checked resolver view instr"
    and st: "stack_ok resolver (length (fv_type_parameters view)) st"
    and arg: "vector_argument instr = Some idx"
    and effect: "instruction_effect resolver sig instr = Ok (p, q)" "unat p \<le> length st"
  shows "yields resolver (length (fv_type_parameters view)) (length st - unat p + unat q)
    (verify_instr resolver view instr off st)"
proof -
  obtain ty where ty: "declared_element resolver idx = Ok ty"
    "token_in_bounds resolver (length (fv_type_parameters view)) ty"
    using checked_vector[OF tables checked arg] by blast
  have pack: "yields resolver (length (fv_type_parameters view)) (length st - unat num + 1)
      (rbind (pop_operands (unat num) st) (\<lambda>st. Ok (Vector ty # st)))" if "unat num \<le> length st" for num :: u64
    using yields_pop_operands[OF st that] ty(2)
    by (cases "pop_operands (unat num) st") auto
  have borrow: "yields resolver (length (fv_type_parameters view)) (Suc (length st - 2))
      (borrow_vector_element view ty off mut st)" if "2 \<le> length st" for mut
  proof -
    have "1 < length st" "Suc (length st - 2) = length st - 1" using that by linarith+
    then show ?thesis using yields_two_operands(6)[OF st _ ty(2)] by simp
  qed
  have two: "\<exists>t u st'. st = t # u # st'" if "1 < length st" using that by (cases st; cases "tl st") auto
  have three: "\<exists>t u v st'. st = t # u # v # st'" if "2 < length st"
    using that by (cases st; cases "tl st"; cases "tl (tl st)") auto
  show ?thesis
    using arg
  proof (cases instr)
    case (VecPack i num)
    then show ?thesis using pack ty arg effect by (simp add: verify_instr_def vector_argument_def instruction_effect_def)
  next
    case (VecUnpack i num)
    then show ?thesis using ty arg effect st
      by (cases st) (auto simp: verify_instr_def vector_argument_def instruction_effect_def pop_operand_def)
  next
    case (VecLen i)
    then show ?thesis using ty arg effect st
      by (cases st) (auto simp: verify_instr_def vector_argument_def instruction_effect_def pop_operand_def)
  next
    case (VecPopBack i)
    then show ?thesis using ty arg effect st
      by (cases st) (auto simp: verify_instr_def vector_argument_def instruction_effect_def pop_operand_def)
  next
    case (VecPushBack i)
    then show ?thesis using two ty arg effect st
      by (auto simp: verify_instr_def vector_argument_def instruction_effect_def pop_operand_def)
  next
    case (VecSwap i)
    then show ?thesis using three ty arg effect st
      by (auto simp: verify_instr_def vector_argument_def instruction_effect_def pop_operand_def)
  next
    case (VecImmBorrow i)
    then show ?thesis using borrow ty(1) arg effect
      by (auto simp: verify_instr_def vector_argument_def instruction_effect_def)
  next
    case (VecMutBorrow i)
    then show ?thesis using borrow ty(1) arg effect
      by (auto simp: verify_instr_def vector_argument_def instruction_effect_def)
  qed (simp_all add: vector_argument_def)
qed

lemma yields_struct_inst:
  assumes "struct_instantiation_at resolver idx = Ok si" "struct_def_at resolver (sdi_def si) = Ok sd"
    and "signature_at resolver (sdi_type_parameters si) = Ok args"
  shows "with_struct_inst resolver idx f = f sd args"
  using assms by (simp add: with_struct_inst_def)

lemma yields_structs:
  assumes tables: "tables_in_bounds resolver" and fit: "tables_fit resolver"
    and checked: "checked resolver view instr" and st: "stack_ok resolver n st"
    and n: "n = length (fv_type_parameters view)"
    and operand: "operand_of instr = Some (StructOperand idx) \<or> operand_of instr = Some (StructInstOperand idx)"
    and effect: "instruction_effect resolver sig instr = Ok (p, q)" "unat p \<le> length st"
  shows "yields resolver n (length st - unat p + unat q) (verify_instr resolver view instr off st)"
proof -
  have ops: "yields resolver n (length st - field_count sd + 1) (type_pack view off sd args st)"
      if "struct_ready resolver n sd args" "field_count sd \<le> length st" for sd args
    using yields_pack[OF tables that(1) st that(2)] .
  have one: "yields resolver n (length st - Suc 0 + field_count sd) (type_unpack view off sd args st)"
    "yields resolver n (Suc (length st - Suc 0)) (type_exists resolver view off sd args st)"
    "yields resolver n (Suc (length st - Suc 0)) (type_move_from resolver view off sd args st)"
    "struct_def_at resolver i = Ok sd \<Longrightarrow>
       yields resolver n (Suc (length st - Suc 0)) (borrow_global resolver view off mut i args st)"
    if "struct_ready resolver n sd args" "Suc 0 \<le> length st" for sd args mut i
  proof -
    have pos: "0 < length st" and eq: "Suc (length st - Suc 0) = length st" using that(2) by linarith+
    show "yields resolver n (length st - Suc 0 + field_count sd) (type_unpack view off sd args st)"
      "yields resolver n (Suc (length st - Suc 0)) (type_exists resolver view off sd args st)"
      "yields resolver n (Suc (length st - Suc 0)) (type_move_from resolver view off sd args st)"
      "struct_def_at resolver i = Ok sd \<Longrightarrow>
         yields resolver n (Suc (length st - Suc 0)) (borrow_global resolver view off mut i args st)"
      unfolding eq
      using yields_unpack[OF tables that(1) st pos] yields_global_ops[OF that(1) st pos n] by simp_all
  qed
  have two: "yields resolver n (length st - 2) (type_move_to resolver view off sd args st)"
    if "struct_ready resolver n sd args" "2 \<le> length st" for sd args
    by (rule yields_global_ops(3)[OF that(1) st _ n]) (use that(2) in linarith)+
  show ?thesis
  proof (cases "operand_of instr = Some (StructOperand idx)")
    case True
    then obtain sd where sd: "struct_def_at resolver idx = Ok sd" "struct_ready resolver n sd []"
      using checked_struct[OF tables checked] by blast
    from True ops[OF sd(2)] one[OF sd(2)] two[OF sd(2)] struct_fits[OF fit sd(2)] sd(1) effect show ?thesis
      by (cases instr) (auto simp: operand_of_def verify_instr_def instruction_effect_def)
  next
    case False
    then have op: "operand_of instr = Some (StructInstOperand idx)" using operand by blast
    then obtain si sd args where si: "struct_instantiation_at resolver idx = Ok si"
      and sd: "struct_def_at resolver (sdi_def si) = Ok sd" "struct_ready resolver n sd args"
      and args: "signature_at resolver (sdi_type_parameters si) = Ok args"
      using checked_struct_inst[OF tables checked] n by blast
    from op ops[OF sd(2)] one[OF sd(2)] two[OF sd(2)] struct_fits[OF fit sd(2)] si sd(1) args effect show ?thesis
      by (cases instr) (auto simp: operand_of_def verify_instr_def instruction_effect_def
          yields_struct_inst[OF si sd(1) args] borrow_global_generic_def)
  qed
qed

lemma yields_fields:
  assumes tables: "tables_in_bounds resolver" and checked: "checked resolver view instr"
    and st: "stack_ok resolver n st" and n: "n = length (fv_type_parameters view)"
    and operand: "operand_of instr = Some (FieldOperand idx) \<or> operand_of instr = Some (FieldInstOperand idx)"
    and effect: "instruction_effect resolver sig instr = Ok (p, q)" "unat p \<le> length st"
  shows "yields resolver n (length st - unat p + unat q) (verify_instr resolver view instr off st)"
proof (cases "operand_of instr = Some (FieldOperand idx)")
  case True
  then obtain fh sd where fh: "field_handle_at resolver idx = Ok fh" "struct_def_at resolver (fdh_owner fh) = Ok sd"
    "struct_ready resolver n sd []"
    using checked_field[OF tables checked] by blast
  from True yields_borrow_field[OF tables fh(3,1,2) st] effect show ?thesis
    by (cases instr; cases st) (auto simp: operand_of_def verify_instr_def instruction_effect_def)
next
  case False
  then have op: "operand_of instr = Some (FieldInstOperand idx)" using operand by blast
  then obtain fi fh sd args where fi: "field_instantiation_at resolver idx = Ok fi"
    "signature_at resolver (fdi_type_parameters fi) = Ok args"
    and fh: "field_handle_at resolver (fdi_handle fi) = Ok fh" "struct_def_at resolver (fdh_owner fh) = Ok sd"
    "struct_ready resolver n sd args"
    using checked_field_inst[OF tables checked] n by blast
  from op yields_borrow_field[OF tables fh(3,1,2) st] fi effect show ?thesis
    by (cases instr; cases st) (auto simp: operand_of_def verify_instr_def instruction_effect_def borrow_field_generic_def)
qed

lemma yields_calls:
  assumes tables: "tables_in_bounds resolver" and fit: "tables_fit resolver"
    and checked: "checked resolver view instr"
    and st: "stack_ok resolver n st" and n: "n = length (fv_type_parameters view)"
    and operand: "operand_of instr = Some (FunctionOperand idx) \<or> operand_of instr = Some (FunctionInstOperand idx)"
    and effect: "instruction_effect resolver sig instr = Ok (p, q)" "unat p \<le> length st"
  shows "yields resolver n (length st - unat p + unat q) (verify_instr resolver view instr off st)"
proof -
  have call: "yields resolver n (length st - unat p + unat q) (type_call resolver view off fh args st)"
    if fh: "function_handle_at resolver i = Ok fh" and args: "length args = length (fh_type_parameters fh)"
      "\<forall>t \<in> set args. token_in_bounds resolver n t" and eff: "call_effect resolver i = Ok (p, q)" for i fh args
  proof -
    obtain parameters returns where sigs: "signature_at resolver (fh_parameters fh) = Ok parameters"
      "signature_at resolver (fh_return fh) = Ok returns" and pq: "p = of_nat (length parameters)" "q = of_nat (length returns)"
      using eff fh by (auto simp: call_effect_def rbind_eq_Ok)
    have lengths: "unat p = length parameters" "unat q = length returns"
      using signature_fits[OF fit sigs(1)] signature_fits[OF fit sigs(2)] pq by (simp_all add: unat_of_nat_fits)
    from yields_type_call[OF tables fh args st sigs] effect(2) lengths show ?thesis by simp
  qed
  show ?thesis
  proof (cases "operand_of instr = Some (FunctionOperand idx)")
    case True
    then have instr: "instr = Call idx" by (cases instr) (simp_all add: operand_of_def)
    from checked_call[OF tables checked[unfolded instr]] obtain fh where
      "function_handle_at resolver idx = Ok fh" "fh_type_parameters fh = []" by blast
    with call[of idx fh "[]"] effect show ?thesis by (simp add: instr verify_instr_def instruction_effect_def)
  next
    case False
    then have instr: "instr = CallGeneric idx" using operand by (cases instr) (simp_all add: operand_of_def)
    from checked_call_generic[OF tables checked[unfolded instr]] obtain fi fh args where
      fi: "function_instantiation_at resolver idx = Ok fi" and
      fh: "function_handle_at resolver (fi_handle fi) = Ok fh" "signature_at resolver (fi_type_parameters fi) = Ok args"
        "length args = length (fh_type_parameters fh)" "\<forall>ty \<in> set args. token_in_bounds resolver n ty"
      unfolding n by blast
    with call[OF fh(1,3,4)] effect show ?thesis by (simp add: instr verify_instr_def instruction_effect_def)
  qed
qed

lemma yields_instr:
  assumes tables: "tables_in_bounds resolver" and fit: "tables_fit resolver" "length (fv_return view) < 2 ^ 64"
    and checked: "checked resolver view instr" and locals: "locals_ok resolver view"
    and st: "stack_ok resolver n st" and n: "n = length (fv_type_parameters view)"
    and effect: "instruction_effect resolver (fv_return view) instr = Ok (p, q)" "unat p \<le> length st"
  shows "yields resolver n (length st - unat p + unat q) (verify_instr resolver view instr off st)"
proof (cases "operand_of instr")
  case (Some opd)
  then show ?thesis
    using yields_structs[OF tables fit(1) checked st n _ effect] yields_fields[OF tables checked st n _ effect]
      yields_calls[OF tables fit(1) checked st n _ effect]
    by (cases opd) blast+
next
  case no_operand: None
  show ?thesis
  proof (cases "vector_argument instr")
    case (Some idx)
    from yields_vectors[OF tables checked st[unfolded n] this effect] show ?thesis by (simp add: n)
  next
    case None
    note locals_case = yields_locals[OF locals checked st[unfolded n], folded n]
    have two: "yields resolver n (Suc (length st - 2)) (integer_op view off st)"
      "yields resolver n (Suc (length st - 2)) (shift_op view off st)"
      "yields resolver n (Suc (length st - 2)) (boolean_op view off st)"
      "yields resolver n (Suc (length st - 2)) (comparison_op view off st)"
      "yields resolver n (Suc (length st - 2)) (equality_op resolver view off st)"
      "yields resolver n (length st - 2) (write_ref resolver view off st)" if "2 \<le> length st"
    proof -
      have more: "1 < length st" and eq: "Suc (length st - 2) = length st - 1" using that by linarith+
      show "yields resolver n (Suc (length st - 2)) (integer_op view off st)"
        "yields resolver n (Suc (length st - 2)) (shift_op view off st)"
        "yields resolver n (Suc (length st - 2)) (boolean_op view off st)"
        "yields resolver n (Suc (length st - 2)) (comparison_op view off st)"
        "yields resolver n (Suc (length st - 2)) (equality_op resolver view off st)"
        "yields resolver n (length st - 2) (write_ref resolver view off st)"
        unfolding eq using yields_two_operands[OF st more] n by simp_all
    qed
    have cast: "yields resolver n (Suc (length st - Suc 0)) (read_ref resolver view off st)"
      "\<And>ty. token_in_bounds resolver n ty \<Longrightarrow> yields resolver n (Suc (length st - Suc 0)) (cast_op view off ty st)"
      if "Suc 0 \<le> length st"
    proof -
      have pos: "0 < length st" and eq: "Suc (length st - Suc 0) = length st" using that by linarith+
      show "yields resolver n (Suc (length st - Suc 0)) (read_ref resolver view off st)"
        "\<And>ty. token_in_bounds resolver n ty \<Longrightarrow> yields resolver n (Suc (length st - Suc 0)) (cast_op view off ty st)"
        unfolding eq using yields_one_operand[OF st pos] n by simp_all
    qed
    have top: "\<exists>t st'. st = t # st' \<and> token_in_bounds resolver n t \<and> stack_ok resolver n st'" if "Suc 0 \<le> length st"
      using that st by (cases st) auto
    have const: "yields resolver n (length st + 1) (rbind (constant_at resolver idx) (\<lambda>c. Ok (const_type c # st)))"
      if "instr = LdConst idx" for idx
    proof -
      have "in_pool (constant_pool resolver) idx" using checked that by (auto simp: checked_def instruction_ok_def)
      then have "constant_at resolver idx = Ok (constant_pool resolver ! unat idx)"
        "constant_pool resolver ! unat idx \<in> set (constant_pool resolver)"
        by (simp_all add: accessors_in_pool in_pool_def)
      then show ?thesis using fit(1) st by (simp add: tables_fit_def is_valid_for_constant_in_bounds)
    qed
    have stloc: "\<exists>t. local_at view idx = Ok t" if "instr = StLoc idx" for idx
      using checked_local[OF locals checked, of idx] that by auto
    have ret: "yields resolver n (length st - length (fv_return view)) (pop_types err (fv_return view) st)"
      if "length (fv_return view) \<le> length st" for err
      using yields_pop_types[OF st that] .
    have abilities: "yields resolver n h (rbind (type_abilities resolver view t) f)"
      if "token_in_bounds resolver n t" "\<And>a. yields resolver n h (f a)" for h t f
      using yields_abilities that n by blast
    have ret_len: "unat (of_nat (length (fv_return view)) :: u64) = length (fv_return view)"
      by (rule unat_of_nat_fits[OF fit(2)])
    show ?thesis
    proof (cases instr)
      case Pop
      with effect top show ?thesis
        by (auto simp: verify_instr_def instruction_effect_def pop_operand_def intro!: abilities)
    next
      case (BrTrue off')
      with effect top show ?thesis by (auto simp: verify_instr_def instruction_effect_def pop_operand_def)
    next
      case (BrFalse off')
      with effect top show ?thesis by (auto simp: verify_instr_def instruction_effect_def pop_operand_def)
    next
      case (StLoc idx)
      with effect top stloc show ?thesis by (auto simp: verify_instr_def instruction_effect_def pop_operand_def)
    next
      case Abort
      with effect top show ?thesis by (auto simp: verify_instr_def instruction_effect_def pop_operand_def)
    next
      case FreezeRef
      with effect top show ?thesis
        by (auto simp: verify_instr_def instruction_effect_def pop_operand_def split: signature_token.splits)
    next
      case NotOp
      with effect top show ?thesis by (auto simp: verify_instr_def instruction_effect_def pop_operand_def)
    next
      case Ret
      with effect ret ret_len show ?thesis by (auto simp: verify_instr_def instruction_effect_def)
    next
      case (LdConst idx)
      with effect const show ?thesis by (auto simp: verify_instr_def instruction_effect_def)
    next
      case (CopyLoc idx)
      with effect locals_case[of idx] show ?thesis by (auto simp: instruction_effect_def)
    next
      case (MoveLoc idx)
      with effect locals_case[of idx] show ?thesis by (auto simp: instruction_effect_def)
    next
      case (MutBorrowLoc idx)
      with effect locals_case[of idx] show ?thesis by (auto simp: instruction_effect_def)
    next
      case (ImmBorrowLoc idx)
      with effect locals_case[of idx] show ?thesis by (auto simp: instruction_effect_def)
    qed (use effect two cast no_operand None st in
      \<open>auto simp: verify_instr_def instruction_effect_def operand_of_def vector_argument_def\<close>)
  qed
qed

section \<open>Blocks\<close>

text \<open>
  A body with everything that the passes before this one have established; the tables and the return
  signature are vectors of Rust, shorter than \<open>2 ^ 64\<close>.
\<close>

definition body_passed :: "binary_indexed_view \<Rightarrow> function_view \<Rightarrow> bool" where
  "body_passed resolver view =
     (verified_view view \<and> stack_usage_verify resolver view = Ok () \<and>
      tables_in_bounds resolver \<and> tables_fit resolver \<and> length (fv_return view) < 2 ^ 64 \<and>
      locals_ok resolver view \<and> (\<forall>instr \<in> set (cu_code (fv_code view)). checked resolver view instr))"

lemma body_passedD:
  assumes "body_passed resolver view"
  shows "verified_view view" "stack_usage_verify resolver view = Ok ()"
    "tables_in_bounds resolver" "tables_fit resolver" "length (fv_return view) < 2 ^ 64" "locals_ok resolver view"
    "\<And>instr. instr \<in> set (cu_code (fv_code view)) \<Longrightarrow> checked resolver view instr"
  using assms by (simp_all add: body_passed_def)

lemma block_yields:
  assumes passed: "body_passed resolver view" and bounded: "pushes_bounded resolver view"
    and bb: "bt_get (cfg_blocks (fv_cfg view)) b = Some bb" "block_of (cu_code (fv_code view)) b bb"
    and i: "b \<le> i" "i \<le> Suc (bb_exit bb)"
    and w: "for_each (stack_turn resolver view b) [b..<i] 0 = Ok w"
  shows "yields resolver (length (fv_type_parameters view)) (unat w) (for_each (type_turn resolver view) [b..<i] []) \<and>
    unat w \<le> (i - b) * 2 ^ 48"
  using i w
proof (induction i arbitrary: w rule: dec_induct)
  case base
  then show ?case by simp
next
  case (step i)
  let ?code = "cu_code (fv_code view)" and ?n = "length (fv_type_parameters view)"
  note P = body_passedD[OF passed]
  have i: "i \<le> bb_exit bb" "i < length ?code" using step.prems(1) block_ofD(3)[OF bb(2)] by simp_all
  have "cfg_ready ?code" using P(1) by (simp add: verified_view_def graph_of_def)
  then have len: "i - b < 65534" using i by (auto simp: cfg_ready_def)
  obtain v where v: "for_each (stack_turn resolver view b) [b..<i] 0 = Ok v" "stack_turn resolver view b i v = Ok w"
    using step.prems(2) step.hyps(1) by (auto simp: for_each_append rbind_eq_Ok)
  have IH: "yields resolver ?n (unat v) (for_each (type_turn resolver view) [b..<i] [])" "unat v \<le> (i - b) * 2 ^ 48"
    using step.IH[OF _ v(1)] i by simp_all
  have "(i - b) * 2 ^ 48 \<le> (65533 :: nat) * 2 ^ 48" using len by (intro mult_right_mono) simp_all
  then have small: "unat v < 2 ^ 64 - 2 ^ 48" using IH(2) by simp
  obtain p q where eff: "instruction_effect resolver (fv_return view) (?code ! i) = Ok (p, q)" "unat p \<le> unat v"
    "unat w = unat v - unat p + unat q" "unat q < 2 ^ 48"
    using stack_turn_Ok[OF v(2) i(2) bounded small] by blast
  have "yields resolver ?n (unat w) (for_each (type_turn resolver view) [b..<Suc i] [])"
  proof (cases "for_each (type_turn resolver view) [b..<i] []")
    case (Ok st)
    then have st: "stack_ok resolver ?n st" "length st = unat v" using IH(1) by simp_all
    have "yields resolver ?n (length st - unat p + unat q) (verify_instr resolver view (?code ! i) i st)"
      by (rule yields_instr[OF P(3,4,5) P(7)[OF nth_mem[OF i(2)]] P(6) st(1) refl eff(1)]) (simp add: st eff(2))
    then have turn: "yields resolver ?n (unat w) (type_turn resolver view i st)"
      using eff(3) st(2) i(2) by (simp add: type_turn_def)
    have "for_each (type_turn resolver view) [b..<Suc i] [] = rbind (type_turn resolver view i st) Ok"
      using Ok step.hyps(1) by (cases "type_turn resolver view i st") (simp_all add: for_each_append)
    then show ?thesis using turn by (cases "type_turn resolver view i st") simp_all
  next
    case (Err e)
    then show ?thesis using step.hyps(1) by (simp add: for_each_append)
  next
    case Panic
    then show ?thesis using IH(1) by simp
  qed
  moreover have "unat w \<le> (Suc i - b) * 2 ^ 48"
    using eff IH(2) step.hyps(1) by (simp add: Suc_diff_le)
  ultimately show ?case by simp
qed

lemma whole_block_yields:
  assumes "body_passed resolver view" "pushes_bounded resolver view"
    and "bt_get (cfg_blocks (fv_cfg view)) b = Some bb" "block_of (cu_code (fv_code view)) b bb"
  shows "yields resolver (length (fv_type_parameters view)) 0
    (for_each (type_turn resolver view) [b..<Suc (bb_exit bb)] [])"
  using block_yields[OF assms _ order_refl verify_block_Ok[OF body_passedD(2)[OF assms(1)] assms(3)]]
    block_ofD(2)[OF assms(4)] by simp

lemma yields_zero: "yields resolver n 0 r \<Longrightarrow> r = Ok st \<Longrightarrow> st = []"
  by (simp add: yields_def)

lemma type_block_eq:
  assumes "bt_get (cfg_blocks (fv_cfg view)) b = Some bb"
  shows "type_block resolver view b st = for_each (type_turn resolver view) [b..<Suc (bb_exit bb)] st"
  using assms by (simp add: type_block_def instr_indexes_def block_end_def bt_index_def block_start_def)

lemma block_exists:
  assumes "verified_view view" "b \<in> set (blocks (fv_cfg view))"
  shows "\<exists>bb. bt_get (cfg_blocks (fv_cfg view)) b = Some bb \<and> block_of (cu_code (fv_code view)) b bb"
proof -
  obtain bb where bb: "bt_get (cfg_blocks (fv_cfg view)) b = Some bb"
    using assms(2) by (auto simp: blocks_def in_bt_keys)
  have "graph_of (fv_code view) (fv_cfg view)" using assms(1) by (simp add: verified_view_def)
  from graph_of_cases[OF this] bb show ?thesis unfolding blocks_ok_def by metis
qed

lemma type_block_yields:
  assumes "body_passed resolver view" "pushes_bounded resolver view" "b \<in> set (blocks (fv_cfg view))"
  shows "yields resolver (length (fv_type_parameters view)) 0 (type_block resolver view b [])"
  using block_exists[OF body_passedD(1)[OF assms(1)] assms(3)] whole_block_yields[OF assms(1,2)] type_block_eq by metis

section \<open>No panic\<close>

text \<open>
  The stack that the checker has at an instruction is at least as high as the counter of the stack usage
  pass, which starts at zero in every block and wraps around when more than \<open>2 ^ 64\<close> values are pushed.
\<close>

definition supplies :: "binary_indexed_view \<Rightarrow> nat \<Rightarrow> nat \<Rightarrow> type_stack vm_result \<Rightarrow> bool" where
  "supplies resolver n h r =
     (case r of Ok st \<Rightarrow> stack_ok resolver n st \<and> h \<le> length st | Err _ \<Rightarrow> True | Panic \<Rightarrow> False)"

lemma supplies_simps [simp]:
  "supplies resolver n h (Ok st) \<longleftrightarrow> stack_ok resolver n st \<and> h \<le> length st"
  "supplies resolver n h (Err e)" "\<not> supplies resolver n h Panic"
  by (simp_all add: supplies_def)

lemma supplies_yields: "yields resolver n k r \<Longrightarrow> h \<le> k \<Longrightarrow> supplies resolver n h r"
  by (cases r) simp_all

lemma turn_supplies:
  assumes passed: "body_passed resolver view" and i: "i < length (cu_code (fv_code view))"
    and turn: "stack_turn resolver view b i v = Ok w"
    and st: "stack_ok resolver (length (fv_type_parameters view)) st" "unat v \<le> length st"
  shows "supplies resolver (length (fv_type_parameters view)) (unat w) (type_turn resolver view i st)"
proof -
  let ?instr = "cu_code (fv_code view) ! i" and ?n = "length (fv_type_parameters view)"
  note P = body_passedD[OF passed]
  obtain p q where eff: "instruction_effect resolver (fv_return view) ?instr = Ok (p, q)"
    "unat p \<le> unat v" "unat w \<le> unat v - unat p + unat q"
    using stack_turn_counter[OF turn i] by blast
  have "yields resolver ?n (length st - unat p + unat q) (verify_instr resolver view ?instr i st)"
    by (rule yields_instr[OF P(3,4,5) P(7)[OF nth_mem[OF i]] P(6) st(1) refl eff(1)]) (use eff(2) st(2) in simp)
  then have "supplies resolver ?n (unat w) (verify_instr resolver view ?instr i st)"
    by (rule supplies_yields) (use eff(3) st(2) in simp)
  then show ?thesis using i by (simp add: type_turn_def)
qed

lemma block_supplies:
  assumes passed: "body_passed resolver view"
    and bb: "block_of (cu_code (fv_code view)) b bb" and i: "b \<le> i" "i \<le> Suc (bb_exit bb)"
    and st: "stack_ok resolver (length (fv_type_parameters view)) st"
    and w: "for_each (stack_turn resolver view b) [b..<i] 0 = Ok w"
  shows "supplies resolver (length (fv_type_parameters view)) (unat w) (for_each (type_turn resolver view) [b..<i] st)"
  using i w
proof (induction i arbitrary: w rule: dec_induct)
  case base
  then show ?case using st by simp
next
  case (step i)
  have i: "i < length (cu_code (fv_code view))" using step.prems(1) block_ofD(3)[OF bb] by simp
  obtain v where v: "for_each (stack_turn resolver view b) [b..<i] 0 = Ok v" "stack_turn resolver view b i v = Ok w"
    using step.prems(2) step.hyps(1) by (auto simp: for_each_append rbind_eq_Ok)
  have IH: "supplies resolver (length (fv_type_parameters view)) (unat v) (for_each (type_turn resolver view) [b..<i] st)"
    using step.IH[OF _ v(1)] step.prems(1) by simp
  show ?case
  proof (cases "for_each (type_turn resolver view) [b..<i] st")
    case (Ok st')
    have "for_each (type_turn resolver view) [b..<Suc i] st = rbind (type_turn resolver view i st') Ok"
      using Ok step.hyps(1) by (cases "type_turn resolver view i st'") (simp_all add: for_each_append)
    moreover have "supplies resolver (length (fv_type_parameters view)) (unat w) (type_turn resolver view i st')"
      by (rule turn_supplies[OF passed i v(2)]) (use IH Ok in simp_all)
    ultimately show ?thesis by (cases "type_turn resolver view i st'") simp_all
  next
    case (Err e)
    then show ?thesis using step.hyps(1) by (simp add: for_each_append)
  next
    case Panic
    then show ?thesis using IH by simp
  qed
qed

lemma type_block_supplies:
  assumes "body_passed resolver view" "b \<in> set (blocks (fv_cfg view))"
    and "stack_ok resolver (length (fv_type_parameters view)) st"
  shows "supplies resolver (length (fv_type_parameters view)) 0 (type_block resolver view b st)"
proof -
  obtain bb where bb: "bt_get (cfg_blocks (fv_cfg view)) b = Some bb" "block_of (cu_code (fv_code view)) b bb"
    using block_exists[OF body_passedD(1)[OF assms(1)] assms(2)] by blast
  show ?thesis
    using block_supplies[OF assms(1) bb(2) _ order_refl assms(3) verify_block_Ok[OF body_passedD(2)[OF assms(1)] bb(1)]]
      block_ofD(2)[OF bb(2)] by (simp add: type_block_eq[OF bb(1)])
qed

lemma type_safety_not_Panic:
  assumes "body_passed resolver view"
  shows "type_safety_verify resolver view \<noteq> Panic"
proof -
  have "for_each (type_block resolver view) (blocks (fv_cfg view)) [] \<noteq> Panic"
  proof (rule for_each_not_Panic[where I = "stack_ok resolver (length (fv_type_parameters view))"])
    fix b st assume "b \<in> set (blocks (fv_cfg view))" "stack_ok resolver (length (fv_type_parameters view)) st"
    with type_block_supplies[OF assms] show "type_block resolver view b st \<noteq> Panic" by fastforce
  next
    fix b st st'
    assume "b \<in> set (blocks (fv_cfg view))" "stack_ok resolver (length (fv_type_parameters view)) st"
      "type_block resolver view b st = Ok st'"
    with type_block_supplies[OF assms] show "stack_ok resolver (length (fv_type_parameters view)) st'"
      by (metis supplies_simps(1))
  qed simp
  then show ?thesis by (simp add: type_safety_verify_def rbind_eq_Panic)
qed

section \<open>Properties of the pass\<close>

lemma type_block_Ok:
  assumes "body_passed resolver view" "pushes_bounded resolver view"
    and "type_safety_verify resolver view = Ok ()" "b \<in> set (blocks (fv_cfg view))"
  shows "type_block resolver view b [] = Ok []"
proof -
  obtain i where i: "i < length (blocks (fv_cfg view))" "b = blocks (fv_cfg view) ! i"
    using assms(4) by (auto simp: in_set_conv_nth)
  obtain st where "for_each (type_block resolver view) (blocks (fv_cfg view)) [] = Ok st"
    using assms(3) by (auto simp: type_safety_verify_def rbind_eq_Ok)
  then have "\<exists>u u'. u = [] \<and> type_block resolver view (blocks (fv_cfg view) ! i) u = Ok u'"
  proof (rule for_each_turn[where I = "\<lambda>_ st. st = []"])
    fix j s s' assume "j < length (blocks (fv_cfg view))" "s = []"
      "type_block resolver view (blocks (fv_cfg view) ! j) s = Ok s'"
    with type_block_yields[OF assms(1,2)] yields_zero show "s' = []" by (metis nth_mem)
  qed (simp_all add: i(1))
  then show ?thesis
    using type_block_yields[OF assms(1,2,4)] yields_zero unfolding i(2) by blast
qed

text \<open>
  The typed paths through a body: the stacks of types with which the checker, were it to follow the
  jumps instead of the blocks, would arrive at an instruction.
\<close>

inductive typed_path ::
  "binary_indexed_view \<Rightarrow> function_view \<Rightarrow> nat \<Rightarrow> type_stack \<Rightarrow> bool" for resolver view where
  entry: "typed_path resolver view 0 []"
| move: "typed_path resolver view i st \<Longrightarrow> i < length (cu_code (fv_code view)) \<Longrightarrow>
    verify_instr resolver view (cu_code (fv_code view) ! i) i st = Ok st' \<Longrightarrow>
    flows_to (cu_code (fv_code view)) i j \<Longrightarrow> j < length (cu_code (fv_code view)) \<Longrightarrow>
    typed_path resolver view j st'"

definition at_types :: "binary_indexed_view \<Rightarrow> function_view \<Rightarrow> nat \<Rightarrow> type_stack \<Rightarrow> bool" where
  "at_types resolver view i st =
     (\<exists>b bb. bt_get (cfg_blocks (fv_cfg view)) b = Some bb \<and> block_of (cu_code (fv_code view)) b bb \<and>
        b \<le> i \<and> i \<le> bb_exit bb \<and> for_each (type_turn resolver view) [b..<i] [] = Ok st)"

lemma at_types_leader:
  assumes "verified_view view" "leader (cu_code (fv_code view)) j" "j < length (cu_code (fv_code view))"
  shows "at_types resolver view j []"
proof -
  have "graph_of (fv_code view) (fv_cfg view)" using assms(1) by (simp add: verified_view_def)
  then obtain jj where jj: "bt_get (cfg_blocks (fv_cfg view)) j = Some jj" "block_of (cu_code (fv_code view)) j jj"
    using graph_of_cases assms(2,3) unfolding blocks_ok_def by metis
  then show ?thesis unfolding at_types_def using block_ofD(2)[OF jj(2)] by (intro exI[of _ j] exI[of _ jj]) simp
qed

lemma at_types_step:
  assumes passed: "body_passed resolver view" "pushes_bounded resolver view"
    and verify: "type_safety_verify resolver view = Ok ()" and at: "at_types resolver view i st"
  shows "\<exists>st'. verify_instr resolver view (cu_code (fv_code view) ! i) i st = Ok st' \<and>
      (is_branch (cu_code (fv_code view) ! i) \<longrightarrow> st' = [])"
    and "verify_instr resolver view (cu_code (fv_code view) ! i) i st = Ok st' \<Longrightarrow>
      flows_to (cu_code (fv_code view)) i j \<Longrightarrow> j < length (cu_code (fv_code view)) \<Longrightarrow>
      at_types resolver view j st'"
proof -
  let ?code = "cu_code (fv_code view)"
  obtain b bb where bb: "bt_get (cfg_blocks (fv_cfg view)) b = Some bb" "block_of ?code b bb"
    and i: "b \<le> i" "i \<le> bb_exit bb" and upto: "for_each (type_turn resolver view) [b..<i] [] = Ok st"
    using at unfolding at_types_def by blast
  have view: "verified_view view" using body_passedD(1)[OF passed(1)] .
  then have ready: "cfg_ready ?code" by (simp add: verified_view_def graph_of_def)
  have len: "i < length ?code" using i block_ofD(3)[OF bb(2)] by simp
  have split: "[b..<Suc (bb_exit bb)] = [b..<i] @ i # [Suc i..<Suc (bb_exit bb)]"
    using i upt_add_eq_append[of b i "Suc (bb_exit bb) - i"] by (simp add: upt_conv_Cons)
  have "type_block resolver view b [] = Ok []"
    using type_block_Ok[OF passed verify] bb(1) by (simp add: blocks_def in_bt_keys)
  then obtain u where turn: "verify_instr resolver view (?code ! i) i st = Ok u"
    and rest: "for_each (type_turn resolver view) [Suc i..<Suc (bb_exit bb)] u = Ok []"
    using upto len unfolding type_block_eq[OF bb(1)] split
    by (auto simp: for_each_append rbind_eq_Ok type_turn_def)
  have exits: "u = []" if "i = bb_exit bb" using rest that by simp
  moreover have "i = bb_exit bb" if "is_branch (?code ! i)"
    using block_of_inner(1)[OF bb(2) i(1)] that i(2) by force
  ultimately show "\<exists>st'. verify_instr resolver view (?code ! i) i st = Ok st' \<and> (is_branch (?code ! i) \<longrightarrow> st' = [])"
    using turn by blast
  assume step: "verify_instr resolver view (?code ! i) i st = Ok st'" and flow: "flows_to ?code i j"
    and j: "j < length ?code"
  have st': "st' = u" using step turn by simp
  show "at_types resolver view j st'"
  proof (cases "i < bb_exit bb")
    case True
    then have "j = Suc i" using block_of_inner(2)[OF bb(2) i(1)] flow by blast
    moreover have "for_each (type_turn resolver view) [b..<Suc i] [] = Ok u"
      using upto turn i len by (simp add: for_each_append type_turn_def)
    ultimately show ?thesis unfolding at_types_def using bb i st' True by (metis Suc_leI le_SucI)
  next
    case False
    then have "leader ?code j" using flows_to_leader[OF ready flow j] block_ofD(4)[OF bb(2)] i by simp
    then show ?thesis using at_types_leader[OF view _ j] exits st' False i by simp
  qed
qed

text \<open>
  C27: soundness of type safety along paths. The pass looks at every block by itself and once. In a
  body that it accepts, that the passes before it accept, and whose instructions push fewer than
  \<open>2 ^ 48\<close> values each, a condition that no pass checks, the check of an instruction succeeds on every
  stack of types with which a path through the body arrives there, however the path loops; and a
  branch, a return or an abort leaves no operand behind.
\<close>

theorem type_safety_sound:
  assumes "body_passed resolver view" "pushes_bounded resolver view"
    and "type_safety_verify resolver view = Ok ()" "typed_path resolver view i st"
  shows "\<exists>st'. verify_instr resolver view (cu_code (fv_code view) ! i) i st = Ok st' \<and>
    (is_branch (cu_code (fv_code view) ! i) \<longrightarrow> st' = [])"
proof -
  have "at_types resolver view i st"
    using assms(4)
  proof (induction)
    case entry
    have "cfg_ready (cu_code (fv_code view))"
      using body_passedD(1)[OF assms(1)] by (simp add: verified_view_def graph_of_def)
    then show ?case
      by (intro at_types_leader[OF body_passedD(1)[OF assms(1)]]) (auto simp: leader_def cfg_ready_def)
  next
    case (move i st st' j)
    then show ?case using at_types_step(2)[OF assms(1-3)] by blast
  qed
  then show ?thesis by (rule at_types_step(1)[OF assms(1-3)])
qed

text \<open>
  C28: the type checker does not panic. On a body that the earlier passes accept, no operand is
  popped from an empty stack, no index is out of bounds, no type parameter is without its argument
  and the abilities of every type can be computed, whatever the types are and however many values
  the instructions push.
\<close>

theorem type_safety_no_panic:
  assumes "body_passed resolver view"
  shows "type_safety_verify resolver view \<noteq> Panic"
  using assms by (rule type_safety_not_Panic)

section \<open>An example\<close>

text \<open>The body of \<^verbatim>\<open>balance\<close> of the example module.\<close>

definition balance_view :: function_view where
  "balance_view =
     \<lparr>fv_index = Some 0,
      fv_code = \<lparr>cu_locals = 0, cu_code = [MoveLoc 0, ImmBorrowGlobal 0, ImmBorrowField 0, ReadRef, Ret]\<rparr>,
      fv_parameters = [Address], fv_return = [U64], fv_locals = [], fv_type_parameters = [],
      fv_cfg = \<lparr>cfg_blocks = [(0, \<lparr>bb_exit = 4, bb_successors = []\<rparr>)], cfg_traversal_successors = [],
        cfg_loop_heads = []\<rparr>\<rparr>"

lemmas accessor_exec = signature_at_def struct_def_at_def struct_handle_at_def field_handle_at_def
  function_handle_at_def struct_instantiation_at_def field_instantiation_at_def
  function_instantiation_at_def constant_at_def module_table_at_def vec_index_def

lemma balance_verified: "verified_view balance_view"
proof -
  have "cfg_ready (cu_code (fv_code balance_view))" "control_flow_verify (Some 0) (fv_code balance_view) = Ok ()"
    by (simp_all add: balance_view_def cfg_ready_def jumps_in_bounds_def offset_def control_flow_exec)
  moreover have "new_cfg (cu_code (fv_code balance_view)) = Ok (fv_cfg balance_view)"
    by (simp add: balance_view_def cfg_exec)
  ultimately show ?thesis by (auto simp: verified_view_def graph_of_def)
qed

lemma balance_passed: "body_passed (ViewModule example_module) balance_view"
proof -
  have "stack_usage_verify (ViewModule example_module) balance_view = Ok ()"
    by (simp add: balance_view_def stack_exec)
  moreover have "tables_fit (ViewModule example_module)"
    by (simp add: tables_fit_def example_module_def view_tables field_count_def)
  moreover have "locals_ok (ViewModule example_module) balance_view"
    by (simp add: locals_ok_def balance_view_def)
  moreover have "checked (ViewModule example_module) balance_view instr"
    if "instr \<in> set (cu_code (fv_code balance_view))" for instr
    unfolding checked_def using that
    by (auto simp: balance_view_def example_module_def signature_exec bounds_predicates view_tables
        accessor_exec check_instruction_form_def check_field_op_def check_type_op_def)
  ultimately show ?thesis
    using balance_verified example_in_bounds by (simp add: body_passed_def balance_view_def)
qed

lemmas type_safety_exec = type_safety_verify_def type_block_def type_turn_def verify_instr_def
  instr_indexes_def blocks_def bt_keys_def block_end_def block_start_def bt_index_def bt_get_def unwrap_def
  vec_index_def upt_rec pop_operand_def pop_types_def local_at_def type_abilities_def materialize_type_def
  accessor_exec

lemma balance_type_safe: "type_safety_verify (ViewModule example_module) balance_view = Ok ()"
  by (simp add: type_safety_exec balance_view_def example_module_def view_tables borrow_global_def
      borrow_field_def read_ref_def has_copy_def has_key_def has_ability_def
      ability_set_PRIMITIVES_def ability_bits_def Let_def)

lemma balance_bounded: "pushes_bounded (ViewModule example_module) balance_view"
  by (simp add: pushes_bounded_def balance_view_def instruction_effect_def)

theorem type_safety_sound_witness:
  "body_passed (ViewModule example_module) balance_view \<and>
   pushes_bounded (ViewModule example_module) balance_view \<and>
   type_safety_verify (ViewModule example_module) balance_view = Ok () \<and>
   (\<exists>st'. verify_instr (ViewModule example_module) balance_view (ImmBorrowGlobal 0) 1 [Address] = Ok st')"
proof -
  have "typed_path (ViewModule example_module) balance_view 1 [Address]"
    by (rule typed_path.move[OF typed_path.entry])
       (simp_all add: balance_view_def verify_instr_def local_at_def flows_to_def branch_defs vec_index_def)
  from type_safety_sound[OF balance_passed balance_bounded balance_type_safe this] show ?thesis
    using balance_passed balance_bounded balance_type_safe by (auto simp: balance_view_def)
qed

theorem type_safety_no_panic_witness:
  "body_passed (ViewModule example_module) balance_view \<and>
   type_safety_verify (ViewModule example_module) balance_view \<noteq> Panic"
  using type_safety_no_panic[OF balance_passed] balance_passed by blast

section \<open>Elements of packed vectors\<close>

text \<open>A function without parameters that returns a \<^verbatim>\<open>u64\<close>: it packs \<^verbatim>\<open>true\<close> into a \<^verbatim>\<open>vector<u64>\<close>.\<close>

definition packing_view :: function_view where
  "packing_view =
     \<lparr>fv_index = Some 0, fv_code = \<lparr>cu_locals = 0, cu_code = [LdTrue, VecPack 2 1, VecUnpack 2 1, Ret]\<rparr>,
      fv_parameters = [], fv_return = [U64], fv_locals = [], fv_type_parameters = [],
      fv_cfg = \<lparr>cfg_blocks = [(0, \<lparr>bb_exit = 3, bb_successors = []\<rparr>)], cfg_traversal_successors = [],
        cfg_loop_heads = []\<rparr>\<rparr>"

lemma packing_verified: "verified_view packing_view"
proof -
  have "cfg_ready (cu_code (fv_code packing_view))" "control_flow_verify (Some 0) (fv_code packing_view) = Ok ()"
    by (simp_all add: packing_view_def cfg_ready_def jumps_in_bounds_def offset_def control_flow_exec)
  moreover have "new_cfg (cu_code (fv_code packing_view)) = Ok (fv_cfg packing_view)"
    by (simp add: packing_view_def cfg_exec)
  ultimately show ?thesis by (auto simp: verified_view_def graph_of_def)
qed

lemma packing_passed: "body_passed (ViewModule example_module) packing_view"
proof -
  have "stack_usage_verify (ViewModule example_module) packing_view = Ok ()"
    by (simp add: packing_view_def stack_exec)
  moreover have "locals_ok (ViewModule example_module) packing_view"
    by (simp add: locals_ok_def packing_view_def)
  moreover have "checked (ViewModule example_module) packing_view instr"
    if "instr \<in> set (cu_code (fv_code packing_view))" for instr
    unfolding checked_def using that
    by (auto simp: packing_view_def example_module_def signature_exec bounds_predicates view_tables
        accessor_exec check_instruction_form_def)
  ultimately show ?thesis
    using packing_verified example_in_bounds balance_passed by (simp add: body_passed_def packing_view_def)
qed

text \<open>
  C29: the type checker does not look at the elements of \<^verbatim>\<open>VecPack\<close>. It accepts a function that
  packs a \<^verbatim>\<open>bool\<close> into a \<^verbatim>\<open>vector<u64>\<close>, unpacks it and returns it as a \<^verbatim>\<open>u64\<close>: the check of
  \<^verbatim>\<open>VecPack\<close> succeeds on a stack whose top is a \<^verbatim>\<open>bool\<close>, and the check of the return on a \<^verbatim>\<open>u64\<close>.
\<close>

theorem vec_pack_unchecked:
  "body_passed (ViewModule example_module) packing_view \<and>
   pushes_bounded (ViewModule example_module) packing_view \<and>
   type_safety_verify (ViewModule example_module) packing_view = Ok () \<and>
   signature_at (ViewModule example_module) 2 = Ok [U64] \<and>
   typed_path (ViewModule example_module) packing_view 1 [Bool] \<and>
   cu_code (fv_code packing_view) ! 1 = VecPack 2 1 \<and>
   typed_path (ViewModule example_module) packing_view 3 [U64] \<and>
   cu_code (fv_code packing_view) ! 3 = Ret \<and> fv_return packing_view = [U64]"
proof -
  let ?m = "ViewModule example_module"
  have sig: "signature_at ?m 2 = Ok [U64]"
    by (simp add: accessor_exec example_module_def view_tables)
  note defs = packing_view_def verify_instr_def pop_operand_def pop_operands.simps declared_element_def sig vec_index_def
    flows_to_def branch_defs
  have "pushes_bounded ?m packing_view"
    by (simp add: pushes_bounded_def packing_view_def instruction_effect_def)
  moreover have "type_safety_verify ?m packing_view = Ok ()"
    by (simp add: type_safety_exec pop_operands.simps packing_view_def declared_element_def example_module_def view_tables)
  moreover have first: "typed_path ?m packing_view 1 [Bool]"
    by (rule typed_path.move[OF typed_path.entry]) (simp_all add: defs)
  have "typed_path ?m packing_view 2 [Vector U64]"
    by (rule typed_path.move[OF first]) (simp_all add: defs)
  then have "typed_path ?m packing_view 3 [U64]"
    by (rule typed_path.move) (simp_all add: defs)
  ultimately show ?thesis using packing_passed sig first by (simp add: packing_view_def)
qed

end
