(* ===== verification/Field_Abilities.thy ===== *)
theory Field_Abilities
  imports Type_Safety Module_Access
begin

text \<open>
  The pass \<^verbatim>\<open>move-bytecode-verifier/src/ability_field_requirements.rs\<close>: the fields of a struct have the
  abilities that the abilities of the struct require, when its type parameters have all of them. The
  property carries this over to instantiations, where the computed abilities of the struct stand for
  the abilities of its fields at the same type arguments.
\<close>

section \<open>The pass\<close>

definition required_abilities :: "struct_handle \<Rightarrow> ability_set" where
  "required_abilities sh =
     fold (\<lambda>required acc. ability_set_add acc required)
       (map ability_requires (ability_set_into_iter (sh_abilities sh))) ability_set_EMPTY"

definition check_field_abilities ::
  "binary_indexed_view \<Rightarrow> nat \<Rightarrow> struct_handle \<Rightarrow> field_definition \<Rightarrow> unit vm_result" where
  "check_field_abilities view idx sh field_def =
     rbind (token_abilities view (fdd_signature field_def)
         (map (\<lambda>_. ability_set_ALL) (sh_type_parameters sh))) (\<lambda>field_abilities.
       if \<not> ability_set_is_subset (required_abilities sh) field_abilities
       then Err (verification_error FIELD_MISSING_TYPE_ABILITY IK_StructDefinition (as_u16 idx))
       else Ok ())"

definition field_requirements_verify :: "compiled_module \<Rightarrow> unit vm_result" where
  "field_requirements_verify m =
     for_all (\<lambda>(idx, struct_def).
         rbind (module_struct_handle_at m (sd_struct_handle struct_def)) (\<lambda>sh.
         case sd_field_information struct_def of
           Native \<Rightarrow> Ok ()
         | Declared fs \<Rightarrow> for_all (check_field_abilities (ViewModule m) idx sh) fs))
       (enumerate_from_zero (cm_struct_defs m))"

section \<open>Abilities of types\<close>

text \<open>\<open>ty_has view scope ty a\<close>: the type has the ability, where \<open>scope\<close> holds the abilities of the type
  parameters.\<close>

definition ty_has :: "binary_indexed_view \<Rightarrow> ability_set list \<Rightarrow> signature_token \<Rightarrow> ability \<Rightarrow> bool" where
  "ty_has view scope ty a = (\<exists>s. token_abilities view ty scope = Ok s \<and> has_ability s a)"

lemma ty_has_iff: "token_abilities view ty scope = Ok s \<Longrightarrow> ty_has view scope ty a \<longleftrightarrow> has_ability s a"
  by (simp add: ty_has_def)

lemma requires_requires [simp]: "ability_requires (ability_requires a) = ability_requires a"
  by (cases a) (simp_all add: ability_requires_def)

lemma polymorphic_has:
  assumes "length phantoms = length args" "polymorphic_abilities declared phantoms args = Ok r"
  shows "has_ability r a \<longleftrightarrow> has_ability declared a \<and>
    (\<forall>i < length args. \<not> phantoms ! i \<longrightarrow> has_ability (args ! i) (ability_requires a))"
  using polymorphic_abilities_of[OF assms(1), of declared] assms(2) by (auto simp flip: in_abilities_of)

lemma ty_has_Vector:
  assumes "token_in_bounds view (length scope) ty"
  shows "ty_has view scope (Vector ty) a \<longleftrightarrow>
    has_ability ability_set_VECTOR a \<and> ty_has view scope ty (ability_requires a)"
proof -
  obtain s where s: "token_abilities view ty scope = Ok s" using token_abilities_Ok[OF assms] by blast
  obtain r where r: "polymorphic_abilities ability_set_VECTOR [False] [s] = Ok r"
    using polymorphic_abilities_Ok[of "[False]" "[s]"] by auto
  then show ?thesis using s polymorphic_has[OF _ r, of a] by (simp add: ty_has_def)
qed

lemma ty_has_StructInstantiation:
  assumes bounds: "token_in_bounds view (length scope) (StructInstantiation idx args)"
  shows "ty_has view scope (StructInstantiation idx args) a \<longleftrightarrow>
    has_ability (sh_abilities (struct_handles view ! unat idx)) a \<and>
    (\<forall>k < length args. \<not> stp_is_phantom (sh_type_parameters (struct_handles view ! unat idx) ! k) \<longrightarrow>
       ty_has view scope (args ! k) (ability_requires a))"
proof -
  let ?sh = "struct_handles view ! unat idx"
  have sh: "struct_handle_at view idx = Ok ?sh" and len: "length (sh_type_parameters ?sh) = length args"
    using bounds by (simp_all add: accessors_in_pool)
  have "\<exists>s. token_abilities view t scope = Ok s" if "t \<in> set args" for t
    using token_abilities_Ok[of view scope t] bounds that by simp
  then obtain f where f: "\<And>t. t \<in> set args \<Longrightarrow> token_abilities view t scope = Ok (f t)" by metis
  then have "rmap (\<lambda>t. token_abilities view t scope) args = Ok (map f args)" by (intro rmap_all_Ok) simp
  moreover obtain r where r: "polymorphic_abilities (sh_abilities ?sh) (map stp_is_phantom (sh_type_parameters ?sh))
      (map f args) = Ok r"
    using polymorphic_abilities_Ok[of "map stp_is_phantom (sh_type_parameters ?sh)" "map f args"] len by auto
  ultimately have "ty_has view scope (StructInstantiation idx args) a \<longleftrightarrow> has_ability r a"
    using sh by (simp add: ty_has_def)
  also have "\<dots> \<longleftrightarrow> has_ability (sh_abilities ?sh) a \<and> (\<forall>k < length args.
      \<not> stp_is_phantom (sh_type_parameters ?sh ! k) \<longrightarrow> ty_has view scope (args ! k) (ability_requires a))"
    using polymorphic_has[OF _ r, of a] len f by (simp add: ty_has_def)
  finally show ?thesis .
qed

lemma strictly_occurs_in_bounds:
  "strictly_occurs view i ty \<Longrightarrow> token_in_bounds view n ty \<Longrightarrow> i < n"
  by (induction rule: strictly_occurs.induct) auto

text \<open>
  Substitution: an ability that requires itself, and that a type has when its parameters have
  everything, is kept by arguments that have it wherever the type uses them strictly.
\<close>

lemma ty_has_instantiate:
  assumes r: "ability_requires a = a"
  shows "\<forall>t \<in> set args. token_in_bounds view (length scope) t \<Longrightarrow> token_in_bounds view (length args) ty \<Longrightarrow> ref_free ty \<Longrightarrow>
    ty_has view (map (\<lambda>_. ability_set_ALL) args) ty a \<Longrightarrow>
    (\<And>i. strictly_occurs view i ty \<Longrightarrow> ty_has view scope (args ! i) a) \<Longrightarrow>
    instantiate ty args = Ok t \<Longrightarrow> ty_has view scope t a"
proof (induction ty args arbitrary: t rule: instantiate.induct)
  case (1 ty args)
  then obtain t' where t': "instantiate ty args = Ok t'" "t = Vector t'" by (auto simp: rbind_eq_Ok)
  have "ty_has view scope t' a"
    by (rule "1.IH") (use 1 r t' in \<open>auto simp: ty_has_Vector ref_free_def\<close>)
  moreover have "token_in_bounds view (length scope) t'"
    using instantiate_in_bounds[OF "1.prems"(1), of ty] "1.prems"(2) t' by auto
  ultimately show ?case using "1.prems"(2,4) r t' by (simp add: ty_has_Vector)
next
  case (2 idx tys args)
  obtain ts where ts: "rmap (\<lambda>ty. instantiate ty args) tys = Ok ts" "t = StructInstantiation idx ts"
    using "2.prems"(6) by (auto simp: rbind_eq_Ok)
  have nth: "length ts = length tys" "\<And>k. k < length tys \<Longrightarrow> instantiate (tys ! k) args = Ok (ts ! k)"
    using ts(1) by (auto simp: rmap_eq_Ok list_all2_conv_all_nth)
  have bounds: "token_in_bounds view (length scope) t"
    using instantiate_in_bounds[OF "2.prems"(1,2)] "2.prems"(6) by auto
  have all: "token_in_bounds view (length (map (\<lambda>_. ability_set_ALL) args)) (StructInstantiation idx tys)"
    using "2.prems"(2) by simp
  note had = "2.prems"(4)[unfolded ty_has_StructInstantiation[OF all] r]
  have "ty_has view scope (ts ! k) a"
    if k: "k < length tys" "\<not> stp_is_phantom (sh_type_parameters (struct_handles view ! unat idx) ! k)" for k
  proof (rule "2.IH"[of "tys ! k"])
    show "\<And>i. strictly_occurs view i (tys ! k) \<Longrightarrow> ty_has view scope (args ! i) a"
      using "2.prems"(5) k by (auto intro: strictly_occurs.in_argument)
    show "ref_free (tys ! k)" using "2.prems"(3) k(1) by (auto simp: ref_free_def)
  qed (use 2 k nth had in simp_all)
  then show ?case
    using had bounds nth(1) unfolding ts(2) by (simp add: ty_has_StructInstantiation r del: token_in_bounds_simps)
qed (auto simp: ref_free_def is_reference_def ty_has_def)

section \<open>The pass on tables in bounds\<close>

lemma abilities_of_required: "abilities_of (required_abilities sh) = ability_requires ` abilities_of (sh_abilities sh)"
proof -
  have "abilities_of (fold (\<lambda>required acc. ability_set_add acc required) xs s) = set xs \<union> abilities_of s" for xs s
    by (induction xs arbitrary: s) auto
  then show ?thesis by (simp add: required_abilities_def)
qed

lemma is_subset_has:
  "ability_set_is_subset s t \<Longrightarrow> has_ability s a \<Longrightarrow> has_ability t a"
  by (metis ability_set_is_subset_def bit_and_iff has_ability_iff_bit is_subset_bits_def)

lemma field_requirements_field:
  assumes tables: "tables_in_bounds (ViewModule m)" and verify: "field_requirements_verify m = Ok ()"
    and sd: "sd \<in> set (cm_struct_defs m)" "sd_field_information sd = Declared fs" and f: "f \<in> set fs"
    and sh: "sh = cm_struct_handles m ! unat (sd_struct_handle sd)" and a: "has_ability (sh_abilities sh) a"
  shows "ty_has (ViewModule m) (map (\<lambda>_. ability_set_ALL) (sh_type_parameters sh)) (fdd_signature f) (ability_requires a)"
proof -
  obtain i where i: "i < length (cm_struct_defs m)" "cm_struct_defs m ! i = sd"
    using sd(1) by (auto simp: in_set_conv_nth)
  have "in_pool (cm_struct_handles m) (sd_struct_handle sd)"
    using tables sd(1) by (auto simp: tables_in_bounds_def struct_definition_ok_def view_tables)
  then have "module_struct_handle_at m (sd_struct_handle sd) = (Ok sh :: struct_handle vm_result)"
    by (simp add: module_struct_handle_at_def sh in_pool_def)
  then have "check_field_abilities (ViewModule m) i sh f = Ok ()"
    using verify i sd f unfolding field_requirements_verify_def for_all_enumerate
    by (auto simp: for_all_eq_Ok)
  then obtain s where s: "token_abilities (ViewModule m) (fdd_signature f)
      (map (\<lambda>_. ability_set_ALL) (sh_type_parameters sh)) = Ok s" "ability_set_is_subset (required_abilities sh) s"
    by (auto simp: check_field_abilities_def rbind_eq_Ok split: if_splits)
  have "has_ability (required_abilities sh) (ability_requires a)"
    using abilities_of_required[of sh] a by (auto simp flip: in_abilities_of)
  then show ?thesis using s is_subset_has by (auto simp: ty_has_def)
qed

section \<open>Properties of the pass\<close>

lemma materialize_has:
  assumes "args_fit view (length scope) idx args" "ty_has view scope (materialize_type idx args) a"
  shows "has_ability (sh_abilities (struct_handles view ! unat idx)) a"
    "\<And>k. k < length args \<Longrightarrow> \<not> stp_is_phantom (sh_type_parameters (struct_handles view ! unat idx) ! k) \<Longrightarrow>
       ty_has view scope (args ! k) (ability_requires a)"
proof -
  have inst: "ty_has view scope (StructInstantiation idx args) a" if "args \<noteq> []"
    using that assms(2) by (simp add: materialize_type_def)
  have bounds: "token_in_bounds view (length scope) (StructInstantiation idx args)"
    using assms(1) by (simp add: args_fit_def)
  show "has_ability (sh_abilities (struct_handles view ! unat idx)) a"
  proof (cases "args = []")
    case True
    then show ?thesis
      using assms by (simp add: materialize_type_def ty_has_def args_fit_def accessors_in_pool)
  qed (use inst ty_has_StructInstantiation[OF bounds] in blast)
  show "\<And>k. k < length args \<Longrightarrow> \<not> stp_is_phantom (sh_type_parameters (struct_handles view ! unat idx) ! k) \<Longrightarrow>
      ty_has view scope (args ! k) (ability_requires a)"
    using inst ty_has_StructInstantiation[OF bounds] by fastforce
qed

text \<open>
  C30: the abilities that are computed for a struct type are backed by its fields. In a module that
  the bounds, signature and field requirement passes accept, when a struct type with type arguments
  has an ability, the type of every field, at these arguments, can be computed and has the ability
  that the former requires (itself for copy, drop and store, and store for key): copying, dropping or
  storing a value never copies, drops or stores a part that must not be.
\<close>

theorem field_abilities_sound:
  assumes "bounds_verify_module m = Ok ()" "signature_verify_module m = Ok ()" "field_requirements_verify m = Ok ()"
    and "sd \<in> set (cm_struct_defs m)" "sd_field_information sd = Declared fs" "f \<in> set fs"
    and "args_fit (ViewModule m) (length scope) (sd_struct_handle sd) args"
    and "ty_has (ViewModule m) scope (materialize_type (sd_struct_handle sd) args) a"
  shows "\<exists>ty. instantiate (fdd_signature f) args = Ok ty \<and> ty_has (ViewModule m) scope ty (ability_requires a)"
proof -
  let ?v = "ViewModule m" and ?sh = "cm_struct_handles m ! unat (sd_struct_handle sd)"
  note tables = bounds_verify_tables[OF assms(1)]
  note has = materialize_has[OF assms(7,8), unfolded struct_handles_def binary_indexed_view.case]
  have len: "length (sh_type_parameters ?sh) = length args"
    and args: "\<forall>t \<in> set args. token_in_bounds ?v (length scope) t"
    using assms(7) by (simp_all add: args_fit_def struct_handles_def)
  have bounds: "token_in_bounds ?v (length args) (fdd_signature f)"
    using field_tokens[OF tables _ assms(5,6)] assms(4) len by (simp add: view_tables)
  then obtain ty where ty: "instantiate (fdd_signature f) args = Ok ty"
    using instantiate_in_bounds[OF args] by blast
  have "field_type_ok ?v ?sh (fdd_signature f)"
    using assms(2,4,5,6) signature_verify_module_iff[OF tables] by (simp add: module_signatures_ok_def)
  then have ok: "ref_free (fdd_signature f)"
    "\<And>i. strictly_occurs ?v i (fdd_signature f) \<Longrightarrow> \<not> stp_is_phantom (sh_type_parameters ?sh ! i)"
    by (simp_all add: field_type_ok_def)
  have "map (\<lambda>_. ability_set_ALL) (sh_type_parameters ?sh) = map (\<lambda>_. ability_set_ALL) args"
    using len by (simp add: list_eq_iff_nth_eq)
  then have all: "ty_has ?v (map (\<lambda>_. ability_set_ALL) args) (fdd_signature f) (ability_requires a)"
    using field_requirements_field[OF tables assms(3-6) refl has(1)] by simp
  have "ty_has ?v scope ty (ability_requires a)"
  proof (rule ty_has_instantiate[OF requires_requires args bounds ok(1) all _ ty])
    fix i assume i: "strictly_occurs ?v i (fdd_signature f)"
    then have "i < length args" using strictly_occurs_in_bounds[OF i bounds] by simp
    then show "ty_has ?v scope (args ! i) (ability_requires a)" using has(2) ok(2)[OF i] by blast
  qed
  with ty show ?thesis by blast
qed

lemma example_fields_accepted: "field_requirements_verify example_module = Ok ()"
  by (simp add: field_requirements_verify_def enumerate_from_zero_def module_struct_handle_at_def vec_index_def
      check_field_abilities_def required_abilities_def ability_set_into_iter_def map_filter_simps
      example_module_def ability_from_u8_def ability_requires_def ability_set_add_def ability_set_EMPTY_def
      ability_bits_def ability_set_is_subset_def is_subset_bits_def ability_set_ALL_def ability_set_PRIMITIVES_def)

theorem field_abilities_sound_witness:
  "field_requirements_verify example_module = Ok () \<and>
   ty_has (ViewModule example_module) [] (StructInstantiation 1 [U64]) Store \<and>
   (\<exists>ty. instantiate (TypeParameter 0) [U64] = Ok ty \<and> ty_has (ViewModule example_module) [] ty Store)"
proof -
  let ?v = "ViewModule example_module"
  let ?sd = "\<lparr>sd_struct_handle = 1,
    sd_field_information = Declared [\<lparr>fdd_name = 6, fdd_signature = TypeParameter 0\<rparr>]\<rparr>"
  have fit: "args_fit ?v (length ([] :: ability_set list)) (sd_struct_handle ?sd) [U64]"
    by (simp add: args_fit_def example_module_def view_tables in_pool_def)
  then have bounds: "token_in_bounds ?v (length ([] :: ability_set list)) (StructInstantiation 1 [U64])"
    by (simp add: args_fit_def)
  have prim: "ty_has ?v [] U64 Store"
    by (simp add: ty_has_def has_ability_def ability_set_PRIMITIVES_def ability_bits_def)
  have "has_ability (sh_abilities (struct_handles ?v ! unat (1 :: struct_handle_index))) Store"
    by (simp add: example_module_def view_tables has_ability_def ability_bits_def)
  then have has: "ty_has ?v [] (materialize_type (sd_struct_handle ?sd) [U64]) Store"
    using prim by (simp add: ty_has_StructInstantiation[OF bounds] materialize_type_def ability_requires_def)
  have sd: "?sd \<in> set (cm_struct_defs example_module)" by (simp add: example_module_def)
  have f: "\<lparr>fdd_name = 6, fdd_signature = TypeParameter 0\<rparr> \<in> set [\<lparr>fdd_name = 6, fdd_signature = TypeParameter 0\<rparr>]"
    by simp
  have "sd_field_information ?sd = Declared [\<lparr>fdd_name = 6, fdd_signature = TypeParameter 0\<rparr>]" by simp
  from field_abilities_sound[OF example_bounds_accepted example_signatures_accepted example_fields_accepted
      sd this f fit has]
  show ?thesis using has example_fields_accepted by (simp add: ability_requires_def materialize_type_def)
qed

end
