(* ===== verification/Module_Rules.thy ===== *)
theory Module_Rules
  imports Module_Access
begin

text \<open>
  Three short passes of \<^verbatim>\<open>move-bytecode-verifier/src\<close>: the constant pool (\<^verbatim>\<open>constants.rs\<close>, with
  \<^verbatim>\<open>move-binary-format/src/constant.rs\<close>), friend declarations (\<^verbatim>\<open>friends.rs\<close>) and the signatures of entry
  points (\<^verbatim>\<open>script_signature.rs\<close>). The data of a constant is decoded by the \<^verbatim>\<open>bcs\<close> library, which is
  the parameter \<open>from_bytes\<close> of the definitions. The lemmas state when each pass accepts.
\<close>

section \<open>Layouts\<close>

datatype type_tag =
    TagBool | TagU8 | TagU64 | TagU128 | TagAddress | TagSigner | TagVector type_tag | TagStruct struct_tag
and struct_tag = StructTag account_address ident_str ident_str "type_tag list"

datatype move_type_layout =
    LayoutBool | LayoutU8 | LayoutU64 | LayoutU128 | LayoutAddress | LayoutVector move_type_layout
  | LayoutStruct move_struct_layout | LayoutSigner
and move_struct_layout =
    LayoutRuntime "move_type_layout list"
  | LayoutWithFields "(ident_str \<times> move_type_layout) list"
  | LayoutWithTypes struct_tag "(ident_str \<times> move_type_layout) list"

fun sig_to_ty :: "signature_token \<Rightarrow> move_type_layout option" where
  "sig_to_ty Signer = Some LayoutSigner"
| "sig_to_ty Address = Some LayoutAddress"
| "sig_to_ty Bool = Some LayoutBool"
| "sig_to_ty U8 = Some LayoutU8"
| "sig_to_ty U64 = Some LayoutU64"
| "sig_to_ty U128 = Some LayoutU128"
| "sig_to_ty (Vector v) = map_option LayoutVector (sig_to_ty v)"
| "sig_to_ty _ = None"

fun ty_to_sig :: "move_type_layout \<Rightarrow> signature_token option" where
  "ty_to_sig LayoutAddress = Some Address"
| "ty_to_sig LayoutSigner = Some Signer"
| "ty_to_sig LayoutU8 = Some U8"
| "ty_to_sig LayoutU64 = Some U64"
| "ty_to_sig LayoutU128 = Some U128"
| "ty_to_sig (LayoutVector v) = map_option Vector (ty_to_sig v)"
| "ty_to_sig (LayoutStruct _) = None"
| "ty_to_sig LayoutBool = Some Bool"

lemma sig_ty_round_trip: "sig_to_ty s = Some t \<longleftrightarrow> ty_to_sig t = Some s"
proof
  show "sig_to_ty s = Some t \<Longrightarrow> ty_to_sig t = Some s"
    by (induction s arbitrary: t rule: sig_to_ty.induct) auto
  show "ty_to_sig t = Some s \<Longrightarrow> sig_to_ty s = Some t"
    by (induction t arbitrary: s rule: ty_to_sig.induct) auto
qed

lemma valid_for_constant_layout: "is_valid_for_constant s \<Longrightarrow> \<exists>t. sig_to_ty s = Some t"
  by (induction s rule: is_valid_for_constant.induct) auto

section \<open>Constants\<close>

type_synonym 'v from_bytes = "move_type_layout \<Rightarrow> u8 list \<Rightarrow> 'v option"

definition deserialize_constant :: "'v from_bytes \<Rightarrow> pool_constant \<Rightarrow> 'v option" where
  "deserialize_constant from_bytes c =
     (case sig_to_ty (const_type c) of None \<Rightarrow> None | Some ty \<Rightarrow> from_bytes ty (const_data c))"

definition verify_constant_type :: "nat \<Rightarrow> signature_token \<Rightarrow> unit vm_result" where
  "verify_constant_type idx type' =
     (if is_valid_for_constant type' then Ok ()
      else Err (verification_error INVALID_CONSTANT_TYPE IK_ConstantPool (as_u16 idx)))"

definition verify_constant_data :: "'v from_bytes \<Rightarrow> nat \<Rightarrow> pool_constant \<Rightarrow> unit vm_result" where
  "verify_constant_data from_bytes idx c =
     (case deserialize_constant from_bytes c of
        Some _ \<Rightarrow> Ok ()
      | None \<Rightarrow> Err (verification_error MALFORMED_CONSTANT_DATA IK_ConstantPool (as_u16 idx)))"

definition verify_constant :: "'v from_bytes \<Rightarrow> nat \<times> pool_constant \<Rightarrow> unit vm_result" where
  "verify_constant from_bytes = (\<lambda>(idx, c).
     rbind (verify_constant_type idx (const_type c)) (\<lambda>_. verify_constant_data from_bytes idx c))"

definition constants_verify_module :: "'v from_bytes \<Rightarrow> compiled_module \<Rightarrow> unit vm_result" where
  "constants_verify_module from_bytes m =
     for_all (verify_constant from_bytes) (enumerate_from_zero (cm_constant_pool m))"

definition constants_verify_script :: "'v from_bytes \<Rightarrow> compiled_script \<Rightarrow> unit vm_result" where
  "constants_verify_script from_bytes s =
     for_all (verify_constant from_bytes) (enumerate_from_zero (cs_constant_pool s))"

definition constant_ok :: "'v from_bytes \<Rightarrow> pool_constant \<Rightarrow> bool" where
  "constant_ok from_bytes c =
     (is_valid_for_constant (const_type c) \<and> deserialize_constant from_bytes c \<noteq> None)"

lemma verify_constant_Ok [ok_iff]: "verify_constant from_bytes (idx, c) = Ok u \<longleftrightarrow> constant_ok from_bytes c"
  by (auto simp: verify_constant_def verify_constant_type_def verify_constant_data_def constant_ok_def
      split: option.splits)

lemma verify_constant_not_Panic [simp, no_panic]: "verify_constant from_bytes x \<noteq> Panic"
  by (cases x) (auto simp: verify_constant_def verify_constant_type_def verify_constant_data_def split: option.splits)

lemma constants_verify_Ok [ok_iff]:
  "constants_verify_module from_bytes m = Ok u \<longleftrightarrow> (\<forall>c \<in> set (cm_constant_pool m). constant_ok from_bytes c)"
  "constants_verify_script from_bytes s = Ok u \<longleftrightarrow> (\<forall>c \<in> set (cs_constant_pool s). constant_ok from_bytes c)"
  unfolding constants_verify_module_def constants_verify_script_def
  by (rule for_all_enumerate_iff, simp add: verify_constant_Ok)+

lemma constants_verify_not_Panic [simp, no_panic]:
  "constants_verify_module from_bytes m \<noteq> Panic" "constants_verify_script from_bytes s \<noteq> Panic"
  by (auto simp: constants_verify_module_def constants_verify_script_def intro!: for_all_not_Panic)

section \<open>Friends\<close>

definition friends_verify_module :: "compiled_module \<Rightarrow> unit vm_result" where
  "friends_verify_module m =
     rbind (self_handle m) (\<lambda>self_handle.
     if self_handle \<in> set (cm_friend_decls m) then Err (new_error INVALID_FRIEND_DECL_WITH_SELF)
     else
     rbind (module_module_handle_at m (cm_self_module_handle_idx m)) (\<lambda>mh.
     rbind (module_address_at m (mh_address mh)) (\<lambda>self_address.
     rbind (position (\<lambda>handle. rbind (module_address_at m (mh_address handle)) (\<lambda>address.
         Ok (address \<noteq> self_address))) (cm_friend_decls m)) (\<lambda>external.
       if external \<noteq> None
       then Err (new_error INVALID_FRIEND_DECL_WITH_MODULES_OUTSIDE_ACCOUNT_ADDRESS)
       else Ok ()))))"

lemma friends_verify_spec:
  assumes "tables_in_bounds (ViewModule m)"
  defines "self \<equiv> cm_module_handles m ! unat (cm_self_module_handle_idx m)"
  shows "friends_verify_module m \<noteq> Panic"
    and "friends_verify_module m = Ok () \<longleftrightarrow> self \<notin> set (cm_friend_decls m) \<and>
      (\<forall>mh \<in> set (cm_friend_decls m).
         cm_address_identifiers m ! unat (mh_address mh) = cm_address_identifiers m ! unat (mh_address self))"
proof -
  let ?addr = "\<lambda>mh. cm_address_identifiers m ! unat (mh_address mh)"
  note sh = self_handle_resolves[OF assms(1), folded self_def]
  have addr: "module_address_at m (mh_address mh) = (Ok (?addr mh) :: account_address vm_result)"
    if "mh \<in> set (cm_module_handles m) \<union> set (cm_friend_decls m)" for mh
    using assms(1) that
    by (auto simp: tables_in_bounds_def module_handle_ok_def module_address_at_def view_tables in_pool_def)
  have self_at: "module_module_handle_at m (cm_self_module_handle_idx m) = (Ok self :: module_handle vm_result)"
    using sh(1) by (simp add: self_handle_def)
  have at: "rbind (module_address_at m (mh_address mh)) (\<lambda>a. Ok (a \<noteq> ?addr self)) =
      (Ok (?addr mh \<noteq> ?addr self) :: bool vm_result)"
    if "mh \<in> set (cm_friend_decls m)" for mh using addr[of mh] that by simp
  note pos = position_None[of "cm_friend_decls m" "\<lambda>mh. rbind (module_address_at m (mh_address mh)) (\<lambda>a. Ok (a \<noteq> ?addr self))"
      "\<lambda>mh. ?addr mh \<noteq> ?addr self", OF at]
  obtain r where r: "position (\<lambda>mh. rbind (module_address_at m (mh_address mh)) (\<lambda>a. Ok (a \<noteq> ?addr self)))
      (cm_friend_decls m) = (Ok r :: nat option vm_result)"
    using pos(2,3) by (metis result.exhaust)
  then have none: "r = None \<longleftrightarrow> (\<forall>mh \<in> set (cm_friend_decls m). ?addr mh = ?addr self)"
    using pos(1) by simp
  show "friends_verify_module m \<noteq> Panic"
    using sh(2) addr[of self] r by (simp add: friends_verify_module_def self_at sh(1))
  show "friends_verify_module m = Ok () \<longleftrightarrow> self \<notin> set (cm_friend_decls m) \<and>
      (\<forall>mh \<in> set (cm_friend_decls m). ?addr mh = ?addr self)"
    using sh(2) addr[of self] r none by (cases r) (simp_all add: friends_verify_module_def self_at sh(1))
qed

section \<open>Signatures of entry points\<close>

definition view_version :: "binary_indexed_view \<Rightarrow> u32" where
  "view_version view = (case view of ViewModule m \<Rightarrow> cm_version m | ViewScript s \<Rightarrow> cs_version s)"

type_synonym check_script_signature =
  "binary_indexed_view \<Rightarrow> visibility \<Rightarrow> signature_index \<Rightarrow> signature_index option \<Rightarrow> unit vm_result"

definition no_additional_script_signature_checks :: check_script_signature where
  "no_additional_script_signature_checks resolver vis parameters return_type = Ok ()"

definition legacy_script_signature_checks :: check_script_signature where
  "legacy_script_signature_checks resolver vis parameters_idx return_idx =
     rbind (signature_at resolver parameters_idx) (\<lambda>parameters.
     rbind (case return_idx of None \<Rightarrow> Ok [] | Some idx \<Rightarrow> signature_at resolver idx) (\<lambda>return_types.
       let is_signer = (if view_version resolver \<le> 1 then (\<lambda>typ. typ = Reference Signer) else (\<lambda>typ. typ = Signer));
           all_args_have_valid_type = list_all is_valid_for_constant (dropWhile is_signer parameters);
           has_valid_return_type = (return_types = [])
       in if \<not> all_args_have_valid_type \<or> \<not> has_valid_return_type
          then Err (new_error INVALID_MAIN_FUNCTION_SIGNATURE) else Ok ()))"

definition verify_main_signature :: "check_script_signature \<Rightarrow> check_script_signature" where
  "verify_main_signature check_sig resolver vis parameters_idx return_idx =
     rbind (if view_version resolver < 5 \<and> vis = VScript
            then legacy_script_signature_checks resolver vis parameters_idx return_idx else Ok ()) (\<lambda>_.
       check_sig resolver vis parameters_idx return_idx)"

definition entry_verify_script :: "check_script_signature \<Rightarrow> compiled_script \<Rightarrow> unit vm_result" where
  "entry_verify_script check_sig s =
     (if cs_version s \<ge> 5 then Ok ()
      else verify_main_signature check_sig (ViewScript s) VScript (cs_parameters s) None)"

definition verify_module_function_signature ::
  "check_script_signature \<Rightarrow> compiled_module \<Rightarrow> function_definition_index \<Rightarrow> unit vm_result" where
  "verify_module_function_signature check_sig m idx =
     rbind (module_function_def_at m idx) (\<lambda>fdef.
     rbind (module_function_handle_at m (fd_function fdef)) (\<lambda>fhandle.
       map_err (\<lambda>e. at_index e IK_FunctionDefinition (unat idx))
         (verify_main_signature check_sig (ViewModule m) (fd_visibility fdef) (fh_parameters fhandle)
            (Some (fh_return fhandle)))))"

definition entry_verify_module :: "check_script_signature \<Rightarrow> compiled_module \<Rightarrow> unit vm_result" where
  "entry_verify_module check_sig m =
     (if cm_version m < 5 then Ok ()
      else for_all (\<lambda>(idx, _). verify_module_function_signature check_sig m (of_nat idx))
        (filter (\<lambda>(_, fdef). fd_visibility fdef = VScript) (enumerate_from_zero (cm_function_defs m))))"

definition verify_module_function_signature_by_name ::
  "check_script_signature \<Rightarrow> compiled_module \<Rightarrow> ident_str \<Rightarrow> unit vm_result" where
  "verify_module_function_signature_by_name check_sig m name =
     rbind (position (\<lambda>fdef.
         rbind (module_function_handle_at m (fd_function fdef)) (\<lambda>fh.
         rbind (module_identifier_at m (fh_name fh)) (\<lambda>n. Ok (n = name)))) (cm_function_defs m)) (\<lambda>fdef_opt.
     case fdef_opt of
       None \<Rightarrow> Err (new_error VERIFICATION_ERROR)
     | Some idx \<Rightarrow> verify_module_function_signature check_sig m (of_nat (as_u16 idx)))"

text \<open>With the default check, modules of any version pass and scripts of version 4 or less need a signature
  of the old form.\<close>

lemma entry_verify_module_default:
  assumes "tables_in_bounds (ViewModule m)" "length (cm_function_defs m) \<le> 65536"
  shows "entry_verify_module no_additional_script_signature_checks m = Ok ()"
proof -
  have "verify_module_function_signature no_additional_script_signature_checks m (of_nat i) = Ok ()"
    if i: "i < length (cm_function_defs m)" "\<not> cm_version m < 5" for i
  proof -
    have n: "unat (of_nat i :: u16) = i" using i assms(2) by (simp add: unat_of_nat)
    have "cm_function_defs m ! i \<in> set (cm_function_defs m)" using i by simp
    then have "in_pool (cm_function_handles m) (fd_function (cm_function_defs m ! i))"
      using function_def_resolves(1)[OF assms(1)] by (simp add: view_tables)
    then show ?thesis
      using i n by (simp add: verify_module_function_signature_def module_access_defs in_pool_def
          verify_main_signature_def view_version_def no_additional_script_signature_checks_def map_err_def)
  qed
  then show ?thesis by (auto simp: entry_verify_module_def for_all_eq_Ok)
qed

lemma list_all_dropWhile_eq:
  "list_all P (dropWhile (\<lambda>t. t = x) sig) \<longleftrightarrow>
     (\<exists>signers args. sig = signers @ args \<and> set signers \<subseteq> {x} \<and> list_all P args)" (is "?L \<longleftrightarrow> ?R")
proof
  assume ?L
  then show ?R
    by (intro exI[of _ "takeWhile (\<lambda>t. t = x) sig"] exI[of _ "dropWhile (\<lambda>t. t = x) sig"])
       (auto dest: set_takeWhileD)
next
  assume ?R
  then obtain signers args where sa: "sig = signers @ args" "set signers \<subseteq> {x}" "list_all P args" by blast
  then have "dropWhile (\<lambda>t. t = x) sig = dropWhile (\<lambda>t. t = x) args"
    by (auto intro: dropWhile_append2)
  moreover have "set (dropWhile (\<lambda>t. t = x) args) \<subseteq> set args" by (auto dest: set_dropWhileD)
  ultimately show ?L using sa(3) by (auto simp: list_all_iff)
qed

lemma entry_verify_script_default:
  assumes "in_pool (cs_signatures s) (cs_parameters s)"
  defines "signer \<equiv> if cs_version s \<le> 1 then Reference Signer else Signer"
  shows "entry_verify_script no_additional_script_signature_checks s \<noteq> Panic"
    and "entry_verify_script no_additional_script_signature_checks s = Ok () \<longleftrightarrow> cs_version s \<ge> 5 \<or>
      (\<exists>signers args. cs_signatures s ! unat (cs_parameters s) = signers @ args \<and> set signers \<subseteq> {signer} \<and>
         list_all is_valid_for_constant args)"
proof -
  let ?sig = "cs_signatures s ! unat (cs_parameters s)"
  have at: "signature_at (ViewScript s) (cs_parameters s) = Ok ?sig"
    using assms(1) by (simp add: signature_at_def signatures_def in_pool_def)
  have "(if view_version (ViewScript s) \<le> 1 then (\<lambda>typ. typ = Reference Signer) else (\<lambda>typ. typ = Signer)) =
      (\<lambda>t. t = signer)" by (simp add: view_version_def signer_def)
  then have legacy: "legacy_script_signature_checks (ViewScript s) VScript (cs_parameters s) None =
      (if list_all is_valid_for_constant (dropWhile (\<lambda>t. t = signer) ?sig) then Ok ()
       else Err (new_error INVALID_MAIN_FUNCTION_SIGNATURE))"
    by (simp only: legacy_script_signature_checks_def Let_def at rbind_simps option.case simp_thms if_not_P) simp
  show "entry_verify_script no_additional_script_signature_checks s \<noteq> Panic"
    by (simp add: entry_verify_script_def verify_main_signature_def legacy no_additional_script_signature_checks_def)
  show "entry_verify_script no_additional_script_signature_checks s = Ok () \<longleftrightarrow> cs_version s \<ge> 5 \<or>
      (\<exists>signers args. ?sig = signers @ args \<and> set signers \<subseteq> {signer} \<and> list_all is_valid_for_constant args)"
    unfolding list_all_dropWhile_eq[symmetric]
    by (simp add: entry_verify_script_def verify_main_signature_def legacy no_additional_script_signature_checks_def
        view_version_def not_le)
qed

end
