(* ===== verification/Struct_Defs.thy ===== *)
theory Struct_Defs
  imports Check_Duplication Signature_Checker BTree
begin

text \<open>
  The pass \<^verbatim>\<open>move-bytecode-verifier/src/struct_defs.rs\<close>: no struct of a module contains itself. The pass
  builds the graph of the struct definitions and asks the library \<^verbatim>\<open>petgraph\<close> for a topological order;
  \<^verbatim>\<open>toposort\<close> is a parameter here, whose documented behaviour is \<open>toposort_law\<close>. The property states the
  pass by the relation between a struct and the structs that its fields mention.
\<close>

section \<open>The graph\<close>

type_synonym struct_neighbors = "(struct_definition_index, struct_definition_index btree_set) btree_map"

definition struct_handle_to_def ::
  "compiled_module \<Rightarrow> (struct_handle_index, struct_definition_index) btree_map" where
  "struct_handle_to_def m =
     fold (\<lambda>x handles. bt_insert (sd_struct_handle (snd x)) (of_nat (fst x)) handles)
       (enumerate_from_zero (cm_struct_defs m)) []"

text \<open>\<^verbatim>\<open>neighbors.entry(cur_idx).or_insert_with(BTreeSet::new).insert(struct_def_idx)\<close>, when the handle has a
  definition.\<close>

definition add_neighbor ::
  "(struct_handle_index, struct_definition_index) btree_map \<Rightarrow> struct_definition_index \<Rightarrow>
     struct_handle_index \<Rightarrow> struct_neighbors \<Rightarrow> struct_neighbors" where
  "add_neighbor handles cur_idx sh_idx neighbors =
     (case bt_get handles sh_idx of
        None \<Rightarrow> neighbors
      | Some struct_def_idx \<Rightarrow>
          bt_insert cur_idx
            (bs_insert struct_def_idx (case bt_get neighbors cur_idx of None \<Rightarrow> [] | Some s \<Rightarrow> s)) neighbors)"

fun add_signature_token ::
  "(struct_handle_index, struct_definition_index) btree_map \<Rightarrow> struct_definition_index \<Rightarrow>
     signature_token \<Rightarrow> struct_neighbors \<Rightarrow> struct_neighbors vm_result" where
  "add_signature_token handles cur_idx (Reference _) neighbors =
     Err (new_error UNKNOWN_INVARIANT_VIOLATION_ERROR)"
| "add_signature_token handles cur_idx (MutableReference _) neighbors =
     Err (new_error UNKNOWN_INVARIANT_VIOLATION_ERROR)"
| "add_signature_token handles cur_idx (Vector inner) neighbors =
     add_signature_token handles cur_idx inner neighbors"
| "add_signature_token handles cur_idx (Struct sh_idx) neighbors =
     Ok (add_neighbor handles cur_idx sh_idx neighbors)"
| "add_signature_token handles cur_idx (StructInstantiation sh_idx inners) neighbors =
     for_each (\<lambda>t neighbors. add_signature_token handles cur_idx t neighbors) inners
       (add_neighbor handles cur_idx sh_idx neighbors)"
| "add_signature_token handles cur_idx _ neighbors = Ok neighbors"

definition add_struct_defs ::
  "compiled_module \<Rightarrow> struct_definition_index \<Rightarrow> struct_neighbors \<Rightarrow> struct_neighbors vm_result" where
  "add_struct_defs m idx neighbors =
     rbind (module_struct_def_at m idx) (\<lambda>struct_def.
     rbind (module_struct_handle_at m (sd_struct_handle struct_def)) (\<lambda>_.
     case sd_field_information struct_def of
       Native \<Rightarrow> Ok neighbors
     | Declared fs \<Rightarrow>
         for_each (\<lambda>f. add_signature_token (struct_handle_to_def m) idx (fdd_signature f)) fs neighbors))"

definition build_struct_graph ::
  "compiled_module \<Rightarrow> (struct_definition_index \<times> struct_definition_index) list vm_result" where
  "build_struct_graph m =
     rbind (for_each (\<lambda>idx. add_struct_defs m (of_nat idx)) [0..<length (cm_struct_defs m)] []) (\<lambda>neighbors.
       Ok (concat (map (\<lambda>(parent, children). map (\<lambda>child. (parent, child)) children) neighbors)))"

section \<open>The pass\<close>

text \<open>\<^verbatim>\<open>toposort(&graph, None)\<close> of the graph with the given edges: an order of the nodes, or a node of a
  cycle.\<close>

type_synonym 'n toposort = "('n \<times> 'n) list \<Rightarrow> 'n list + 'n"

definition toposort_law :: "'n toposort \<Rightarrow> bool" where
  "toposort_law toposort =
     (\<forall>edges. case toposort edges of
        Inl order \<Rightarrow> acyclic (set edges)
      | Inr node \<Rightarrow> (node, node) \<in> (set edges)\<^sup>+)"

definition struct_defs_verify :: "struct_definition_index toposort \<Rightarrow> compiled_module \<Rightarrow> unit vm_result" where
  "struct_defs_verify toposort m =
     rbind (build_struct_graph m) (\<lambda>graph.
     case toposort graph of
       Inl _ \<Rightarrow> Ok ()
     | Inr node \<Rightarrow> Err (verification_error RECURSIVE_STRUCT_DEFINITION IK_StructDefinition (unat node)))"

section \<open>The edges\<close>

text \<open>A struct definition mentions another one in the type of a field, possibly below vectors and type
  arguments.\<close>

definition token_structs :: "signature_token \<Rightarrow> struct_handle_index set" where
  "token_structs ty = {sh. Struct sh \<in> set (subtokens ty) \<or> (\<exists>args. StructInstantiation sh args \<in> set (subtokens ty))}"

definition contains_struct :: "compiled_module \<Rightarrow> (struct_definition_index \<times> struct_definition_index) set" where
  "contains_struct m =
     {(i, j). in_pool (cm_struct_defs m) i \<and> in_pool (cm_struct_defs m) j \<and>
        (\<exists>fs f. sd_field_information (cm_struct_defs m ! unat i) = Declared fs \<and> f \<in> set fs \<and>
           sd_struct_handle (cm_struct_defs m ! unat j) \<in> token_structs (fdd_signature f))}"

lemma token_structs_simps [simp]:
  "token_structs (Vector t) = token_structs t"
  "token_structs (Struct sh) = {sh}"
  "token_structs (StructInstantiation sh args) = insert sh (\<Union>t \<in> set args. token_structs t)"
  "token_structs Bool = {}" "token_structs U8 = {}" "token_structs U64 = {}" "token_structs U128 = {}"
  "token_structs Address = {}" "token_structs Signer = {}" "token_structs (TypeParameter i) = {}"
  by (auto simp: token_structs_def)

definition edges_of :: "struct_neighbors \<Rightarrow> (struct_definition_index \<times> struct_definition_index) set" where
  "edges_of neighbors = {(p, c). \<exists>cs. bt_get neighbors p = Some cs \<and> c \<in> set cs}"

definition edges_to ::
  "(struct_handle_index, struct_definition_index) btree_map \<Rightarrow> struct_definition_index \<Rightarrow>
     struct_handle_index set \<Rightarrow> (struct_definition_index \<times> struct_definition_index) set" where
  "edges_to handles cur shs = {(p, d). p = cur \<and> (\<exists>sh \<in> shs. bt_get handles sh = Some d)}"

lemma edges_to_simps [simp]:
  "edges_to handles cur {} = {}"
  "edges_to handles cur (A \<union> B) = edges_to handles cur A \<union> edges_to handles cur B"
  by (auto simp: edges_to_def)

lemma edges_to_insert: "edges_to handles cur (insert sh A) = edges_to handles cur {sh} \<union> edges_to handles cur A"
  by (auto simp: edges_to_def)

lemma add_neighbor_edges:
  assumes "bt_wf nb"
  shows "bt_wf (add_neighbor handles cur sh nb)"
    and "edges_of (add_neighbor handles cur sh nb) = edges_of nb \<union> edges_to handles cur {sh}"
  using assms
  by (auto simp: add_neighbor_def btm.wf_insert edges_of_def edges_to_def btm.get_insert split: option.splits if_splits)

lemma for_each_edges:
  assumes "\<And>x nb. x \<in> set xs \<Longrightarrow> bt_wf nb \<Longrightarrow>
      \<exists>nb'. f x nb = Ok nb' \<and> bt_wf nb' \<and> edges_of nb' = edges_of nb \<union> edges_to handles cur (g x)"
    and "bt_wf nb"
  shows "\<exists>nb'. for_each f xs nb = Ok nb' \<and> bt_wf nb' \<and>
    edges_of nb' = edges_of nb \<union> edges_to handles cur (\<Union>x \<in> set xs. g x)"
  using assms
proof (induction xs arbitrary: nb)
  case (Cons x xs)
  obtain nb' where nb': "f x nb = Ok nb'" "bt_wf nb'" "edges_of nb' = edges_of nb \<union> edges_to handles cur (g x)"
    using Cons.prems(1)[of x nb] Cons.prems(2) by auto
  obtain nb'' where "for_each f xs nb' = Ok nb''" "bt_wf nb''"
    "edges_of nb'' = edges_of nb' \<union> edges_to handles cur (\<Union>x \<in> set xs. g x)"
    using Cons.IH[OF _ nb'(2)] Cons.prems(1) by (metis list.set_intros(2))
  with nb' show ?case by (simp add: Un_assoc)
qed simp

lemma add_signature_token_edges:
  assumes "ref_free ty" "bt_wf nb"
  shows "\<exists>nb'. add_signature_token handles cur ty nb = Ok nb' \<and> bt_wf nb' \<and>
    edges_of nb' = edges_of nb \<union> edges_to handles cur (token_structs ty)"
  using assms
proof (induction handles cur ty nb rule: add_signature_token.induct)
  case (5 handles cur sh inners nb)
  have "\<exists>nb'. for_each (\<lambda>t nb. add_signature_token handles cur t nb) inners (add_neighbor handles cur sh nb) = Ok nb' \<and>
      bt_wf nb' \<and> edges_of nb' = edges_of (add_neighbor handles cur sh nb) \<union>
        edges_to handles cur (\<Union>t \<in> set inners. token_structs t)"
  proof (rule for_each_edges)
    fix t and nb' :: struct_neighbors assume t: "t \<in> set inners" "bt_wf nb'"
    then have "ref_free t" using "5.prems"(1) by (auto simp: ref_free_def)
    then show "\<exists>nb''. add_signature_token handles cur t nb' = Ok nb'' \<and> bt_wf nb'' \<and>
        edges_of nb'' = edges_of nb' \<union> edges_to handles cur (token_structs t)" using "5.IH" t by blast
  qed (use add_neighbor_edges "5.prems" in blast)
  then show ?case using add_neighbor_edges(2)[OF "5.prems"(2)] 
      edges_to_insert[of handles cur sh "\<Union>t \<in> set inners. token_structs t"] by (simp add: Un_assoc)
qed (auto simp: ref_free_def is_reference_def add_neighbor_edges)

lemma struct_handle_to_def_get:
  assumes "distinct (map sd_struct_handle (cm_struct_defs m))"
  shows "bt_get (struct_handle_to_def m) sh = Some d \<longleftrightarrow>
    in_pool (cm_struct_defs m) d \<and> sd_struct_handle (cm_struct_defs m ! unat d) = sh"
proof -
  let ?xs = "enumerate_from_zero (cm_struct_defs m)"
  have "map (\<lambda>x. sd_struct_handle (snd x)) ?xs = map sd_struct_handle (cm_struct_defs m)"
    by (simp add: enumerate_from_zero_def list_eq_iff_nth_eq nth_enumerate_eq)
  then have keys: "distinct (map (\<lambda>x. sd_struct_handle (snd x)) ?xs)" using assms by simp
  have "bt_get (struct_handle_to_def m) sh = Some d \<longleftrightarrow> (\<exists>x \<in> set ?xs. sd_struct_handle (snd x) = sh \<and> of_nat (fst x) = d)"
    unfolding struct_handle_to_def_def bt_fold_insert(2)[OF btm.wf_empty] fold_map_upd_Some[OF keys]
    by (simp add: bt_get_def)
  also have "\<dots> \<longleftrightarrow> (\<exists>j < length (cm_struct_defs m). sd_struct_handle (cm_struct_defs m ! j) = sh \<and> of_nat j = d)"
    by (force simp: Bex_def)
  also have "\<dots> \<longleftrightarrow> in_pool (cm_struct_defs m) d \<and> sd_struct_handle (cm_struct_defs m ! unat d) = sh"
    using distinct_u16_length[OF assms] by (auto simp: in_pool_def unat_of_nat_u16 intro!: exI[of _ "unat d"])
  finally show ?thesis .
qed

definition fields_ref_free :: "compiled_module \<Rightarrow> bool" where
  "fields_ref_free m =
     (\<forall>sd \<in> set (cm_struct_defs m). \<forall>fs f. sd_field_information sd = Declared fs \<and> f \<in> set fs \<longrightarrow>
        ref_free (fdd_signature f))"

lemma add_struct_defs_edges:
  assumes "tables_in_bounds (ViewModule m)" "distinct (map sd_struct_handle (cm_struct_defs m))"
    and refs: "fields_ref_free m"
    and idx: "in_pool (cm_struct_defs m) idx" and wf: "bt_wf nb"
  shows "\<exists>nb'. add_struct_defs m idx nb = Ok nb' \<and> bt_wf nb' \<and>
    edges_of nb' = edges_of nb \<union> {(i, j) \<in> contains_struct m. i = idx}"
proof -
  let ?sd = "cm_struct_defs m ! unat idx"
  have sd: "?sd \<in> set (cm_struct_defs m)" "module_struct_def_at m idx = (Ok ?sd :: struct_definition vm_result)"
    using idx by (simp_all add: in_pool_def module_struct_def_at_def)
  then have sh: "\<exists>sh. module_struct_handle_at m (sd_struct_handle ?sd) = (Ok sh :: struct_handle vm_result)"
    using assms(1) by (auto simp: tables_in_bounds_def struct_definition_ok_def view_tables in_pool_def module_struct_handle_at_def)
  show ?thesis
  proof (cases "sd_field_information ?sd")
    case Native
    then show ?thesis using sd sh wf by (auto simp: add_struct_defs_def contains_struct_def)
  next
    case (Declared fs)
    have "\<exists>nb'. for_each (\<lambda>f. add_signature_token (struct_handle_to_def m) idx (fdd_signature f)) fs nb = Ok nb' \<and>
        bt_wf nb' \<and> edges_of nb' = edges_of nb \<union>
          edges_to (struct_handle_to_def m) idx (\<Union>f \<in> set fs. token_structs (fdd_signature f))"
      by (rule for_each_edges[OF add_signature_token_edges wf])
         (use refs sd(1) Declared in \<open>auto simp: fields_ref_free_def\<close>)
    moreover have "edges_to (struct_handle_to_def m) idx (\<Union>f \<in> set fs. token_structs (fdd_signature f)) =
        {(i, j) \<in> contains_struct m. i = idx}"
      using Declared idx by (auto simp: edges_to_def struct_handle_to_def_get[OF assms(2)] contains_struct_def)
    ultimately show ?thesis using sd sh Declared by (auto simp: add_struct_defs_def)
  qed
qed

lemma build_struct_graph_edges:
  assumes "tables_in_bounds (ViewModule m)" "distinct (map sd_struct_handle (cm_struct_defs m))"
    and "fields_ref_free m"
  shows "\<exists>g. build_struct_graph m = Ok g \<and> set g = contains_struct m"
proof -
  let ?n = "length (cm_struct_defs m)"
  let ?I = "\<lambda>i nb. bt_wf nb \<and> edges_of nb = {(p, c) \<in> contains_struct m. unat p < i}"
  have n: "?n \<le> 65536" using distinct_u16_length[OF assms(2)] by simp
  have "\<exists>t. for_each (\<lambda>idx. add_struct_defs m (of_nat idx)) [0..<?n] [] = Ok t \<and> ?I (length [0..<?n]) t"
  proof (rule for_each_total[where I = ?I])
    show "?I 0 []" by (simp add: btm.wf_empty edges_of_def bt_get_def)
  next
    fix i nb assume i: "i < length [0..<?n]" "?I i nb"
    then have u: "unat (of_nat i :: u16) = i" using n by (simp add: unat_of_nat_u16)
    then have "in_pool (cm_struct_defs m) (of_nat i :: u16)" using i by (simp add: in_pool_def)
    then obtain nb' where nb': "add_struct_defs m (of_nat i) nb = Ok nb'" "bt_wf nb'"
      "edges_of nb' = edges_of nb \<union> {(p, c) \<in> contains_struct m. p = of_nat i}"
      using add_struct_defs_edges[OF assms] i(2) by blast
    moreover have "p = of_nat i \<or> unat p < i \<longleftrightarrow> unat p < Suc i" for p :: u16
      using u by (auto simp: less_Suc_eq)
    then have "edges_of nb' = {(p, c) \<in> contains_struct m. unat p < Suc i}" using nb'(3) i(2) by auto
    ultimately show "\<exists>s'. add_struct_defs m (of_nat ([0..<?n] ! i)) nb = Ok s' \<and> ?I (Suc i) s'" using i(1) by simp
  qed
  then obtain nb where nb: "for_each (\<lambda>idx. add_struct_defs m (of_nat idx)) [0..<?n] [] = Ok nb"
    "bt_wf nb" "edges_of nb = {(p, c) \<in> contains_struct m. unat p < ?n}"
    by auto
  have "edges_of nb = contains_struct m" unfolding nb(3) by (auto simp: contains_struct_def in_pool_def)
  have "set (concat (map (\<lambda>(parent, children). map (\<lambda>child. (parent, child)) children) nb)) = edges_of nb"
    using nb(2) by (force simp: edges_of_def btm.in_entries[symmetric])
  with nb \<open>edges_of nb = contains_struct m\<close> show ?thesis by (simp add: build_struct_graph_def)
qed

section \<open>Properties of the pass\<close>

lemma finite_contains_struct: "finite (contains_struct m)"
  by (rule finite_subset[of _ "UNIV \<times> UNIV"]) auto

text \<open>
  C31: the pass decides whether structs are finite. On a module that the bounds, duplication and
  signature passes accept, and with a library that finds a cycle exactly when there is one, the pass
  does not panic, and it accepts the module exactly when the relation between a struct and the
  structs that its fields mention, below vectors and type arguments too, is well-founded; a rejection
  names a struct that contains itself.
\<close>

theorem struct_defs_well_founded:
  assumes "toposort_law toposort" "bounds_verify_module m = Ok ()" "duplication_verify_module m = Ok ()"
    and "signature_verify_module m = Ok ()"
  shows "struct_defs_verify toposort m \<noteq> Panic \<and>
    (struct_defs_verify toposort m = Ok () \<longleftrightarrow> wf ((contains_struct m)\<inverse>)) \<and>
    (\<forall>e. struct_defs_verify toposort m = Err e \<longrightarrow>
       (\<exists>idx. e = verification_error RECURSIVE_STRUCT_DEFINITION IK_StructDefinition (unat idx) \<and>
          (idx, idx) \<in> (contains_struct m)\<^sup>+))"
proof -
  note tables = bounds_verify_tables[OF assms(2)]
  have distinct: "distinct (map sd_struct_handle (cm_struct_defs m))"
    using assms(3) duplication_verify_module_Ok[OF tables] by (simp add: module_unique_def struct_definitions_unique_def)
  have refs: "fields_ref_free m"
    using assms(4) signature_verify_module_iff[OF tables]
    by (auto simp: fields_ref_free_def module_signatures_ok_def field_type_ok_def)
  obtain g where g: "build_struct_graph m = Ok g" "set g = contains_struct m"
    using build_struct_graph_edges[OF tables distinct refs] by blast
  have wf: "wf ((contains_struct m)\<inverse>) \<longleftrightarrow> acyclic (contains_struct m)"
    using finite_acyclic_wf_converse[OF finite_contains_struct] wf_acyclic[of "(contains_struct m)\<inverse>"]
    by (auto simp only: acyclic_converse)
  show ?thesis
  proof (cases "toposort g")
    case (Inl order)
    then have "acyclic (contains_struct m)" using assms(1) g(2) by (force simp: toposort_law_def split: sum.splits)
    then show ?thesis using Inl g wf by (simp add: struct_defs_verify_def)
  next
    case (Inr node)
    then have cycle: "(node, node) \<in> (contains_struct m)\<^sup>+" using assms(1) g(2) by (force simp: toposort_law_def split: sum.splits)
    then have "\<not> acyclic (contains_struct m)" by (auto simp: acyclic_def)
    then show ?thesis using Inr g wf cycle by (auto simp: struct_defs_verify_def)
  qed
qed

text \<open>A library function with the documented behaviour: it looks for a source of an edge that reaches
  itself.\<close>

definition find_cycle :: "'n toposort" where
  "find_cycle edges =
     (case List.find (\<lambda>n. (n, n) \<in> (set edges)\<^sup>+) (map fst edges) of
        Some n \<Rightarrow> Inr n | None \<Rightarrow> Inl (remdups (map fst edges @ map snd edges)))"

lemma find_cycle_law: "toposort_law find_cycle"
proof -
  have "acyclic (set edges)" if "List.find (\<lambda>n. (n, n) \<in> (set edges)\<^sup>+) (map fst edges) = None"
    for edges :: "('n \<times> 'n) list"
  proof (rule acyclicI, intro allI notI)
    fix n assume n: "(n, n) \<in> (set edges)\<^sup>+"
    then have "n \<in> set (map fst edges)" by (metis tranclD fst_conv image_eqI list.set_map)
    with n that show False by (auto simp: find_None_iff)
  qed
  then show ?thesis
    by (auto simp: toposort_law_def find_cycle_def find_Some_iff split: option.splits)
qed

theorem struct_defs_well_founded_witness:
  "toposort_law (find_cycle :: struct_definition_index toposort) \<and>
   struct_defs_verify find_cycle example_module = Ok () \<and> wf ((contains_struct example_module)\<inverse>)"
proof -
  have "token_structs (fdd_signature f) = {}"
    if "sd \<in> set (cm_struct_defs example_module)" "sd_field_information sd = Declared fs" "f \<in> set fs" for sd fs f
    using that by (auto simp: example_module_def)
  then have "contains_struct example_module = {}"
    unfolding contains_struct_def in_pool_def using nth_mem by blast
  then show ?thesis
    using struct_defs_well_founded[OF find_cycle_law example_bounds_accepted example_duplication_accepted
        example_signatures_accepted] find_cycle_law by simp
qed

end
