(* ===== verification/Instantiation_Loops.thy ===== *)
theory Instantiation_Loops
  imports Check_Duplication Type_Safety
begin

text \<open>
  The pass \<^verbatim>\<open>move-bytecode-verifier/src/instantiation_loops.rs\<close>: calls between generic functions of a
  module do not build ever larger types. The strongly connected components come from the library
  \<^verbatim>\<open>petgraph\<close>: \<^verbatim>\<open>tarjan_scc\<close> is a parameter, whose documented behaviour is \<open>tarjan_law\<close>. The
  properties show that the functions of an accepted module are instantiated at finitely many types
  when native functions come last, and that the pass misses loops when they do not.
\<close>

section \<open>The graph\<close>

type_synonym inst_node = "function_definition_index \<times> type_parameter_index"

datatype inst_edge = Identity | TyConApp signature_token

record inst_graph =
  ig_nodes :: "inst_node list"
  ig_edges :: "(nat \<times> nat \<times> inst_edge) list"
  ig_node_map :: "inst_node \<rightharpoonup> nat"

definition empty_inst_graph :: inst_graph where
  "empty_inst_graph = \<lparr>ig_nodes = [], ig_edges = [], ig_node_map = Map.empty\<rparr>"

definition func_handle_def_map :: "compiled_module \<Rightarrow> function_handle_index \<rightharpoonup> function_definition_index" where
  "func_handle_def_map m =
     fold (\<lambda>x handles. handles(fd_function (snd x) \<mapsto> of_nat (fst x)))
       (enumerate_from_zero (cm_function_defs m)) Map.empty"

definition get_or_add_node :: "inst_node \<Rightarrow> inst_graph \<Rightarrow> nat \<times> inst_graph" where
  "get_or_add_node node g =
     (case ig_node_map g node of
        Some idx \<Rightarrow> (idx, g)
      | None \<Rightarrow>
          let idx = length (ig_nodes g)
          in (idx, g\<lparr>ig_nodes := ig_nodes g @ [node], ig_node_map := (ig_node_map g)(node \<mapsto> idx)\<rparr>))"

definition add_inst_edge :: "inst_node \<Rightarrow> inst_node \<Rightarrow> inst_edge \<Rightarrow> inst_graph \<Rightarrow> inst_graph" where
  "add_inst_edge node_from node_to label g =
     (let (node_from_idx, g) = get_or_add_node node_from g;
          (node_to_idx, g) = get_or_add_node node_to g
      in g\<lparr>ig_edges := ig_edges g @ [(node_from_idx, node_to_idx, label)]\<rparr>)"

text \<open>\<^verbatim>\<open>extract_type_parameters\<close>: the elements of the hash set, in the order of their first occurrence.\<close>

fun extract_rec :: "signature_token \<Rightarrow> type_parameter_index list \<Rightarrow> type_parameter_index list" where
  "extract_rec (TypeParameter idx) type_params = List.insert idx type_params"
| "extract_rec (Vector ty) type_params = extract_rec ty type_params"
| "extract_rec (Reference ty) type_params = extract_rec ty type_params"
| "extract_rec (MutableReference ty) type_params = extract_rec ty type_params"
| "extract_rec (StructInstantiation _ tys) type_params = fold (\<lambda>ty acc. extract_rec ty acc) tys type_params"
| "extract_rec _ type_params = type_params"

definition extract_type_parameters :: "signature_token \<Rightarrow> type_parameter_index list" where
  "extract_type_parameters ty = extract_rec ty []"

definition add_type_actual ::
  "function_definition_index \<Rightarrow> function_definition_index \<Rightarrow> nat \<times> signature_token \<Rightarrow> inst_graph \<Rightarrow> inst_graph" where
  "add_type_actual caller_idx callee_idx = (\<lambda>(formal_idx, ty) g.
     let formal_idx = of_nat formal_idx in
     case ty of
       TypeParameter actual_idx \<Rightarrow> add_inst_edge (caller_idx, actual_idx) (callee_idx, formal_idx) Identity g
     | _ \<Rightarrow> fold (\<lambda>type_param. add_inst_edge (caller_idx, type_param) (callee_idx, formal_idx) (TyConApp ty))
         (extract_type_parameters ty) g)"

definition build_graph_call ::
  "compiled_module \<Rightarrow> function_definition_index \<Rightarrow> function_definition_index \<Rightarrow> signature_index \<Rightarrow>
     inst_graph \<Rightarrow> inst_graph vm_result" where
  "build_graph_call m caller_idx callee_idx type_actuals_idx g =
     rbind (signature_at (ViewModule m) type_actuals_idx) (\<lambda>type_actuals.
       Ok (fold (add_type_actual caller_idx callee_idx) (enumerate_from_zero type_actuals) g))"

definition build_graph_instr ::
  "compiled_module \<Rightarrow> function_definition_index \<Rightarrow> bytecode \<Rightarrow> inst_graph \<Rightarrow> inst_graph vm_result" where
  "build_graph_instr m caller_idx instr g =
     (case instr of
        CallGeneric callee_inst_idx \<Rightarrow>
          rbind (module_function_instantiation_at m callee_inst_idx) (\<lambda>callee_si.
          case func_handle_def_map m (fi_handle callee_si) of
            Some callee_idx \<Rightarrow> build_graph_call m caller_idx callee_idx (fi_type_parameters callee_si) g
          | None \<Rightarrow> Ok g)
      | _ \<Rightarrow> Ok g)"

definition build_graph_function_def ::
  "compiled_module \<Rightarrow> nat \<times> function_definition \<Rightarrow> inst_graph \<Rightarrow> inst_graph vm_result" where
  "build_graph_function_def m = (\<lambda>(def_idx, caller_def) g.
     case fd_code caller_def of
       None \<Rightarrow> Ok g
     | Some code \<Rightarrow> for_each (build_graph_instr m (of_nat def_idx)) (cu_code code) g)"

text \<open>The functions are numbered after the native ones have been filtered out, as in the source.\<close>

definition build_graph :: "compiled_module \<Rightarrow> inst_graph vm_result" where
  "build_graph m =
     for_each (build_graph_function_def m)
       (enumerate_from_zero (filter (\<lambda>d. \<not> is_native d) (cm_function_defs m))) empty_inst_graph"

section \<open>The pass\<close>

text \<open>\<^verbatim>\<open>tarjan_scc\<close> of the graph with the given number of nodes and edges: the strongly connected
  components.\<close>

type_synonym tarjan_scc = "nat \<Rightarrow> (nat \<times> nat) list \<Rightarrow> nat list list"

definition tarjan_law :: "tarjan_scc \<Rightarrow> bool" where
  "tarjan_law tarjan =
     (\<forall>n edges. set edges \<subseteq> {..<n} \<times> {..<n} \<longrightarrow>
        set (concat (tarjan n edges)) = {..<n} \<and>
        (\<forall>c \<in> set (tarjan n edges). \<forall>i \<in> set c. \<forall>j < n.
           j \<in> set c \<longleftrightarrow> (i, j) \<in> (set edges)\<^sup>* \<and> (j, i) \<in> (set edges)\<^sup>*))"

definition find_non_trivial_components ::
  "tarjan_scc \<Rightarrow> inst_graph \<Rightarrow> (nat list \<times> (nat \<times> nat \<times> inst_edge) list) list" where
  "find_non_trivial_components tarjan g =
     List.map_filter (\<lambda>nodes.
         let edges = concat (map (\<lambda>node_idx.
               filter (\<lambda>(source, target, _). source = node_idx \<and> target \<in> set nodes) (ig_edges g)) nodes)
         in if list_ex (\<lambda>(_, _, label). label \<noteq> Identity) edges then Some (nodes, edges) else None)
       (tarjan (length (ig_nodes g)) (map (\<lambda>(source, target, _). (source, target)) (ig_edges g)))"

definition instantiation_loops_verify :: "tarjan_scc \<Rightarrow> compiled_module \<Rightarrow> unit vm_result" where
  "instantiation_loops_verify tarjan m =
     rbind (build_graph m) (\<lambda>g.
       if find_non_trivial_components tarjan g = [] then Ok ()
       else Err (new_error LOOP_IN_INSTANTIATION_GRAPH))"

section \<open>The edges of the graph\<close>

text \<open>The edges between type parameters, with whether a type constructor is applied on the way.\<close>

definition ig_ok :: "inst_graph \<Rightarrow> bool" where
  "ig_ok g =
     (distinct (ig_nodes g) \<and> (\<forall>n i. ig_node_map g n = Some i \<longleftrightarrow> i < length (ig_nodes g) \<and> ig_nodes g ! i = n) \<and>
      (\<forall>(a, b, e) \<in> set (ig_edges g). a < length (ig_nodes g) \<and> b < length (ig_nodes g)))"

definition node_edges :: "inst_graph \<Rightarrow> (inst_node \<times> inst_node \<times> bool) set" where
  "node_edges g = (\<lambda>(a, b, e). (ig_nodes g ! a, ig_nodes g ! b, e \<noteq> Identity)) ` set (ig_edges g)"

lemma ig_node_map_iff:
  "ig_ok g \<Longrightarrow> ig_node_map g n = Some i \<longleftrightarrow> i < length (ig_nodes g) \<and> ig_nodes g ! i = n"
  unfolding ig_ok_def by blast

lemma ig_ok_empty: "ig_ok empty_inst_graph" "node_edges empty_inst_graph = {}"
  by (simp_all add: ig_ok_def empty_inst_graph_def node_edges_def)

lemma get_or_add_node_ok:
  assumes "ig_ok g" "get_or_add_node n g = (i, g')"
  shows "ig_ok g'" "i < length (ig_nodes g')" "ig_nodes g' ! i = n" "node_edges g' = node_edges g"
    "ig_edges g' = ig_edges g" "\<And>k. k < length (ig_nodes g) \<Longrightarrow> k < length (ig_nodes g') \<and> ig_nodes g' ! k = ig_nodes g ! k"
proof -
  have "ig_ok g' \<and> i < length (ig_nodes g') \<and> ig_nodes g' ! i = n \<and> node_edges g' = node_edges g \<and>
      ig_edges g' = ig_edges g \<and>
      (\<forall>k < length (ig_nodes g). k < length (ig_nodes g') \<and> ig_nodes g' ! k = ig_nodes g ! k)"
  proof (cases "ig_node_map g n")
    case None
    then have new: "n \<notin> set (ig_nodes g)"
      using ig_node_map_iff[OF assms(1), of n] by (auto simp: in_set_conv_nth)
    have g': "g' = g\<lparr>ig_nodes := ig_nodes g @ [n], ig_node_map := (ig_node_map g)(n \<mapsto> length (ig_nodes g))\<rparr>"
      "i = length (ig_nodes g)" using assms(2) None by (auto simp: get_or_add_node_def Let_def)
    have edges: "a < length (ig_nodes g)" "b < length (ig_nodes g)" if "(a, b, e) \<in> set (ig_edges g)" for a b e
      using assms(1) that by (auto simp: ig_ok_def)
    have "ig_node_map g' k = Some a \<longleftrightarrow> a < length (ig_nodes g') \<and> ig_nodes g' ! a = k" for k a
      using new ig_node_map_iff[OF assms(1), of k a] nth_mem[of a "ig_nodes g"]
      unfolding g' by (auto simp: nth_append less_Suc_eq)
    then have "ig_ok g'"
      using assms(1) new edges unfolding ig_ok_def[of g'] by (fastforce simp: g' ig_ok_def)
    moreover have "node_edges g' = node_edges g"
      unfolding node_edges_def g' by (intro image_cong) (auto simp: nth_append dest: edges)
    ultimately show ?thesis unfolding g' by (simp add: nth_append)
  next
    case (Some j)
    then show ?thesis using assms ig_node_map_iff[OF assms(1), of n j] by (simp add: get_or_add_node_def)
  qed
  then show "ig_ok g'" "i < length (ig_nodes g')" "ig_nodes g' ! i = n" "node_edges g' = node_edges g"
    "ig_edges g' = ig_edges g" "\<And>k. k < length (ig_nodes g) \<Longrightarrow> k < length (ig_nodes g') \<and> ig_nodes g' ! k = ig_nodes g ! k"
    by simp_all
qed

lemma add_inst_edge_ok:
  assumes "ig_ok g"
  shows "ig_ok (add_inst_edge n n' e g)" "node_edges (add_inst_edge n n' e g) = insert (n, n', e \<noteq> Identity) (node_edges g)"
proof -
  obtain i g1 where g1: "get_or_add_node n g = (i, g1)" by fastforce
  obtain j g2 where g2: "get_or_add_node n' g1 = (j, g2)" by fastforce
  note ok1 = get_or_add_node_ok[OF assms g1] and ok2 = get_or_add_node_ok[OF get_or_add_node_ok(1)[OF assms g1] g2]
  have add: "add_inst_edge n n' e g = g2\<lparr>ig_edges := ig_edges g2 @ [(i, j, e)]\<rparr>"
    by (simp add: add_inst_edge_def g1 g2)
  show "ig_ok (add_inst_edge n n' e g)"
    using ok2(1,2) ok2(6)[OF ok1(2)] by (auto simp: add ig_ok_def)
  have "node_edges (add_inst_edge n n' e g) = insert (n, n', e \<noteq> Identity) (node_edges g2)"
    using ok1(3) ok2(3) ok2(6)[OF ok1(2)] by (simp add: add node_edges_def)
  then show "node_edges (add_inst_edge n n' e g) = insert (n, n', e \<noteq> Identity) (node_edges g)"
    using ok1(4) ok2(4) by simp
qed

definition type_params_of :: "signature_token \<Rightarrow> type_parameter_index set" where
  "type_params_of ty = {p. TypeParameter p \<in> set (subtokens ty)}"

lemma type_params_of_simps [simp]:
  "type_params_of (TypeParameter p) = {p}" "type_params_of (Vector t) = type_params_of t"
  "type_params_of (Reference t) = type_params_of t" "type_params_of (MutableReference t) = type_params_of t"
  "type_params_of (StructInstantiation sh ts) = (\<Union>t \<in> set ts. type_params_of t)"
  "type_params_of Bool = {}" "type_params_of U8 = {}" "type_params_of U64 = {}" "type_params_of U128 = {}"
  "type_params_of Address = {}" "type_params_of Signer = {}" "type_params_of (Struct sh) = {}"
  by (auto simp: type_params_of_def)

lemma set_extract_rec: "set (extract_rec ty acc) = type_params_of ty \<union> set acc"
proof (induction ty acc rule: extract_rec.induct)
  case (5 sh tys acc)
  have "set (fold (\<lambda>ty acc. extract_rec ty acc) ts acc) = (\<Union>t \<in> set ts. type_params_of t) \<union> set acc"
    if "set ts \<subseteq> set tys" for ts acc
    using that
  proof (induction ts arbitrary: acc)
    case (Cons t ts)
    then show ?case using "5.IH"[of t acc] by auto
  qed simp
  then show ?case by simp
qed auto

definition actual_edges ::
  "function_definition_index \<Rightarrow> function_definition_index \<Rightarrow> nat \<times> signature_token \<Rightarrow> (inst_node \<times> inst_node \<times> bool) set" where
  "actual_edges caller callee = (\<lambda>(u, ty).
     {((caller, p), (callee, of_nat u), \<forall>q. ty \<noteq> TypeParameter q) |p. p \<in> type_params_of ty})"

definition call_edges ::
  "compiled_module \<Rightarrow> function_definition_index \<Rightarrow> bytecode \<Rightarrow> (inst_node \<times> inst_node \<times> bool) set" where
  "call_edges m caller instr =
     (case instr of
        CallGeneric idx \<Rightarrow>
          let fi = cm_function_instantiations m ! unat idx in
          (case func_handle_def_map m (fi_handle fi) of
             Some callee \<Rightarrow> \<Union> (actual_edges caller callee ` set (enumerate_from_zero (cm_signatures m ! unat (fi_type_parameters fi))))
           | None \<Rightarrow> {})
      | _ \<Rightarrow> {})"

lemma fold_graph_edges:
  assumes "\<And>x g. ig_ok g \<Longrightarrow> ig_ok (f x g) \<and> node_edges (f x g) = h x \<union> node_edges g" "ig_ok g"
  shows "ig_ok (fold f xs g) \<and> node_edges (fold f xs g) = \<Union> (h ` set xs) \<union> node_edges g"
  using assms(2)
proof (induction xs arbitrary: g)
  case (Cons x xs)
  then show ?case using assms(1)[of g x] Cons.IH[of "f x g"] by auto
qed simp

lemma for_each_graph_edges:
  assumes "\<And>x g. x \<in> set xs \<Longrightarrow> ig_ok g \<Longrightarrow> \<exists>g'. f x g = Ok g' \<and> ig_ok g' \<and> node_edges g' = h x \<union> node_edges g" "ig_ok g"
  shows "\<exists>g'. for_each f xs g = Ok g' \<and> ig_ok g' \<and> node_edges g' = \<Union> (h ` set xs) \<union> node_edges g"
  using assms
proof (induction xs arbitrary: g)
  case (Cons x xs)
  obtain g' where g': "f x g = Ok g'" "ig_ok g'" "node_edges g' = h x \<union> node_edges g"
    using Cons.prems(1)[of x g] Cons.prems(2) by auto
  obtain g'' where "for_each f xs g' = Ok g''" "ig_ok g''" "node_edges g'' = \<Union> (h ` set xs) \<union> node_edges g'"
    using Cons.IH[OF _ g'(2)] Cons.prems(1) by (metis list.set_intros(2))
  with g' show ?case by auto
qed simp

lemma add_type_actual_ok:
  assumes "ig_ok g"
  shows "ig_ok (add_type_actual caller callee x g) \<and>
    node_edges (add_type_actual caller callee x g) = actual_edges caller callee x \<union> node_edges g"
proof -
  obtain u ty where x: "x = (u, ty)" by (cases x)
  show ?thesis
  proof (cases "\<exists>q. ty = TypeParameter q")
    case True
    then obtain q where "ty = TypeParameter q" by blast
    then show ?thesis using add_inst_edge_ok[OF assms] by (auto simp: x add_type_actual_def actual_edges_def)
  next
    case False
    let ?f = "\<lambda>p. add_inst_edge (caller, p) (callee, of_nat u) (TyConApp ty)"
    have add: "add_type_actual caller callee x g = fold ?f (extract_type_parameters ty) g"
      using False by (cases ty) (simp_all add: x add_type_actual_def)
    have "ig_ok (fold ?f ps g) \<and> node_edges (fold ?f ps g) =
        \<Union> ((\<lambda>p. {((caller, p), (callee, of_nat u), True)}) ` set ps) \<union> node_edges g" for ps
      by (rule fold_graph_edges[OF _ assms]) (simp add: add_inst_edge_ok)
    then show ?thesis
      using False unfolding add by (auto simp: x actual_edges_def extract_type_parameters_def set_extract_rec)
  qed
qed

lemma build_graph_instr_ok:
  assumes tables: "tables_in_bounds (ViewModule m)" and ok: "ig_ok g"
    and fi: "\<And>idx. instr = CallGeneric idx \<Longrightarrow> in_pool (cm_function_instantiations m) idx"
  shows "\<exists>g'. build_graph_instr m caller instr g = Ok g' \<and> ig_ok g' \<and> node_edges g' = call_edges m caller instr \<union> node_edges g"
proof (cases "\<exists>idx. instr = CallGeneric idx")
  case True
  then obtain idx where idx: "instr = CallGeneric idx" by blast
  let ?fi = "cm_function_instantiations m ! unat idx"
  have at: "module_function_instantiation_at m idx = (Ok ?fi :: function_instantiation vm_result)"
    using fi[OF idx] by (simp add: module_function_instantiation_at_def in_pool_def)
  have "in_pool (cm_signatures m) (fi_type_parameters ?fi)"
    using tables fi[OF idx] by (auto simp: tables_in_bounds_def view_tables in_pool_def)
  then have sig: "signature_at (ViewModule m) (fi_type_parameters ?fi) = Ok (cm_signatures m ! unat (fi_type_parameters ?fi))"
    by (simp add: signature_at_def signatures_def in_pool_def)
  show ?thesis
  proof (cases "func_handle_def_map m (fi_handle ?fi)")
    case (Some callee)
    with fold_graph_edges[of "add_type_actual caller callee", OF add_type_actual_ok ok] show ?thesis
      by (simp add: idx build_graph_instr_def at build_graph_call_def sig call_edges_def)
  qed (use ok in \<open>simp add: idx build_graph_instr_def at call_edges_def\<close>)
next
  case False
  then show ?thesis using ok by (cases instr) (simp_all add: build_graph_instr_def call_edges_def)
qed

definition function_edges ::
  "compiled_module \<Rightarrow> nat \<times> function_definition \<Rightarrow> (inst_node \<times> inst_node \<times> bool) set" where
  "function_edges m = (\<lambda>(i, fd). \<Union>code \<in> set_option (fd_code fd). \<Union> (call_edges m (of_nat i) ` set (cu_code code)))"

lemma call_generic_in_pool:
  assumes "tables_in_bounds (ViewModule m)" "fd \<in> set (cm_function_defs m)" "fd_code fd = Some code"
    and "CallGeneric idx \<in> set (cu_code code)"
  shows "in_pool (cm_function_instantiations m) idx"
  using function_code_ok[OF assms(1-3), of "CallGeneric idx"] assms(4) by (auto simp: instruction_ok_def view_tables)

lemma build_graph_ok:
  assumes "tables_in_bounds (ViewModule m)"
  shows "\<exists>g. build_graph m = Ok g \<and> ig_ok g \<and>
    node_edges g = \<Union> (function_edges m ` set (enumerate_from_zero (filter (\<lambda>d. \<not> is_native d) (cm_function_defs m))))"
proof -
  have "\<exists>g'. build_graph_function_def m x g = Ok g' \<and> ig_ok g' \<and> node_edges g' = function_edges m x \<union> node_edges g"
    if x: "x \<in> set (enumerate_from_zero (filter (\<lambda>d. \<not> is_native d) (cm_function_defs m)))" and g: "ig_ok g" for x g
  proof -
    obtain i fd where [simp]: "x = (i, fd)" by (cases x)
    have "fd \<in> set (filter (\<lambda>d. \<not> is_native d) (cm_function_defs m))"
      using x by (metis \<open>x = (i, fd)\<close> nth_mem set_enumerate_from_zero)
    then have fd: "fd \<in> set (cm_function_defs m)" by simp
    show ?thesis
    proof (cases "fd_code fd")
      case (Some code)
      have "\<exists>g'. for_each (build_graph_instr m (of_nat i)) (cu_code code) g = Ok g' \<and> ig_ok g' \<and>
          node_edges g' = \<Union> (call_edges m (of_nat i) ` set (cu_code code)) \<union> node_edges g"
        by (rule for_each_graph_edges[OF build_graph_instr_ok[OF assms] g])
           (use call_generic_in_pool[OF assms fd Some] in auto)
      then show ?thesis using Some by (simp add: build_graph_function_def_def function_edges_def)
    qed (use g in \<open>simp add: build_graph_function_def_def function_edges_def\<close>)
  qed
  from for_each_graph_edges[OF this ig_ok_empty(1)] show ?thesis by (simp add: build_graph_def ig_ok_empty)
qed

section \<open>Accepted graphs\<close>

text \<open>A type parameter depends on another one when the types bound to it are built from the types bound to
  the other.\<close>

definition depends :: "(inst_node \<times> inst_node \<times> bool) set \<Rightarrow> (inst_node \<times> inst_node) set" where
  "depends E = {(a, b). \<exists>big. (a, b, big) \<in> E}"

definition grows_forever :: "(inst_node \<times> inst_node \<times> bool) set \<Rightarrow> bool" where
  "grows_forever E = (\<exists>a b. (a, b, True) \<in> E \<and> (b, a) \<in> (depends E)\<^sup>*)"

lemma index_path:
  assumes "ig_ok g" "a < length (ig_nodes g)" "(ig_nodes g ! a, x) \<in> (depends (node_edges g))\<^sup>*"
  shows "\<exists>b < length (ig_nodes g). x = ig_nodes g ! b \<and>
    (a, b) \<in> (set (map (\<lambda>(source, target, _). (source, target)) (ig_edges g)))\<^sup>*"
  using assms(3)
proof (induction rule: rtrancl_induct)
  case (step x y)
  then obtain b where b: "b < length (ig_nodes g)" "x = ig_nodes g ! b"
    "(a, b) \<in> (set (map (\<lambda>(source, target, _). (source, target)) (ig_edges g)))\<^sup>*" by blast
  obtain i j e where e: "(i, j, e) \<in> set (ig_edges g)" "ig_nodes g ! i = x" "ig_nodes g ! j = y"
    using step(2) by (auto simp: depends_def node_edges_def)
  have ij: "i < length (ig_nodes g)" "j < length (ig_nodes g)" "distinct (ig_nodes g)"
    using assms(1) e(1) by (auto simp: ig_ok_def)
  then have "i = b" using b e(2) by (simp add: nth_eq_iff_index_eq)
  then have "(b, j) \<in> set (map (\<lambda>(source, target, _). (source, target)) (ig_edges g))"
    using e(1) by force
  with b(3) have "(a, j) \<in> (set (map (\<lambda>(source, target, _). (source, target)) (ig_edges g)))\<^sup>*"
    by (rule rtrancl_into_rtrancl)
  with e(3) ij show ?case by blast
qed (use assms(2) in blast)

lemma non_trivial_component:
  assumes law: "tarjan_law tarjan" and ok: "ig_ok g"
    and e: "(i, j, e) \<in> set (ig_edges g)" "e \<noteq> Identity"
    and cycle: "(j, i) \<in> (set (map (\<lambda>(source, target, _). (source, target)) (ig_edges g)))\<^sup>*"
  shows "find_non_trivial_components tarjan g \<noteq> []"
proof -
  let ?es = "map (\<lambda>(source, target, _). (source, target)) (ig_edges g)" and ?n = "length (ig_nodes g)"
  have sub: "set ?es \<subseteq> {..<?n} \<times> {..<?n}" using ok by (auto simp: ig_ok_def)
  have ij: "i < ?n" "j < ?n" using ok e(1) by (auto simp: ig_ok_def)
  have "(i, j) \<in> (set ?es)\<^sup>*" using e(1) by (intro r_into_rtrancl) force
  moreover have "i \<in> set (concat (tarjan ?n ?es))" using law sub ij by (simp add: tarjan_law_def)
  then obtain c where c: "c \<in> set (tarjan ?n ?es)" "i \<in> set c" by auto
  ultimately have "j \<in> set c" using law sub ij cycle unfolding tarjan_law_def by blast
  then have "list_ex (\<lambda>(_, _, label). label \<noteq> Identity) (concat (map (\<lambda>node_idx.
      filter (\<lambda>(source, target, _). source = node_idx \<and> target \<in> set c) (ig_edges g)) c))"
    using c(2) e by (auto simp: list_ex_iff intro!: bexI[of _ "(i, j, e)"])
  then show ?thesis
    using c(1) by (auto simp: find_non_trivial_components_def map_filter_def Let_def filter_empty_conv)
qed

lemma accepted_not_growing:
  assumes "tarjan_law tarjan" "instantiation_loops_verify tarjan m = Ok ()" "build_graph m = Ok g" "ig_ok g"
  shows "\<not> grows_forever (node_edges g)"
proof
  assume "grows_forever (node_edges g)"
  then obtain a b where ab: "(a, b, True) \<in> node_edges g" "(b, a) \<in> (depends (node_edges g))\<^sup>*"
    by (auto simp: grows_forever_def)
  then obtain i j e where e: "(i, j, e) \<in> set (ig_edges g)" "e \<noteq> Identity" "ig_nodes g ! i = a" "ig_nodes g ! j = b"
    by (auto simp: node_edges_def)
  have ij: "i < length (ig_nodes g)" "j < length (ig_nodes g)" "distinct (ig_nodes g)"
    using assms(4) e(1) by (auto simp: ig_ok_def)
  obtain k where k: "k < length (ig_nodes g)" "a = ig_nodes g ! k"
    "(j, k) \<in> (set (map (\<lambda>(source, target, _). (source, target)) (ig_edges g)))\<^sup>*"
    using index_path[OF assms(4) ij(2)] ab(2) e(4) by blast
  then have "k = i" using e(3) ij by (simp add: nth_eq_iff_index_eq)
  from non_trivial_component[OF assms(1,4) e(1,2)] k(3) this assms(2,3) show False
    by (simp add: instantiation_loops_verify_def)
qed

section \<open>Instantiations of functions\<close>

text \<open>A call within the module instantiates a function: the caller's type arguments are substituted in the
  type arguments of the call.\<close>

inductive instantiates ::
  "compiled_module \<Rightarrow> nat \<times> signature_token list \<Rightarrow> nat \<times> signature_token list \<Rightarrow> bool" for m where
  generic: "f < length (cm_function_defs m) \<Longrightarrow> fd_code (cm_function_defs m ! f) = Some code \<Longrightarrow>
    CallGeneric idx \<in> set (cu_code code) \<Longrightarrow> fi = cm_function_instantiations m ! unat idx \<Longrightarrow>
    g < length (cm_function_defs m) \<Longrightarrow> fd_function (cm_function_defs m ! g) = fi_handle fi \<Longrightarrow>
    rmap (\<lambda>t. instantiate t args) (cm_signatures m ! unat (fi_type_parameters fi)) = (Ok args' :: _ vm_result) \<Longrightarrow>
    instantiates m (f, args) (g, args')"
| plain: "f < length (cm_function_defs m) \<Longrightarrow> fd_code (cm_function_defs m ! f) = Some code \<Longrightarrow>
    Call idx \<in> set (cu_code code) \<Longrightarrow>
    g < length (cm_function_defs m) \<Longrightarrow> fd_function (cm_function_defs m ! g) = idx \<Longrightarrow>
    instantiates m (f, args) (g, [])"

fun depth :: "signature_token \<Rightarrow> nat" where
  "depth (Vector t) = Suc (depth t)"
| "depth (Reference t) = Suc (depth t)"
| "depth (MutableReference t) = Suc (depth t)"
| "depth (StructInstantiation sh ts) = Suc (Max (insert 0 (set (map depth ts))))"
| "depth _ = 1"

lemma depth_le_StructInstantiation:
  "depth (StructInstantiation sh ts) \<le> n \<longleftrightarrow> 0 < n \<and> (\<forall>t \<in> set ts. depth t \<le> n - 1)"
  by (cases n) auto

lemma depth_instantiate:
  assumes "instantiate ty args = (Ok t :: _ vm_result)"
    and "\<And>p. p \<in> type_params_of ty \<Longrightarrow> unat p < length args \<Longrightarrow> depth (args ! unat p) \<le> d"
  shows "depth t \<le> depth ty + d"
  using assms
proof (induction ty args arbitrary: t rule: instantiate.induct)
  case (2 sh ts args)
  then obtain us where us: "rmap (\<lambda>ty. instantiate ty args) ts = (Ok us :: _ vm_result)" "t = StructInstantiation sh us"
    by (auto simp: rbind_eq_Ok)
  have "depth u \<le> Max (insert 0 (set (map depth ts))) + d" if "u \<in> set us" for u
  proof -
    obtain k where k: "k < length ts" "instantiate (ts ! k) args = (Ok u :: _ vm_result)"
      using us(1) \<open>u \<in> set us\<close> by (auto simp: rmap_eq_Ok list_all2_conv_all_nth in_set_conv_nth)
    have "depth u \<le> depth (ts ! k) + d" 
      by (rule "2.IH"[OF nth_mem[OF k(1)] k(2)]) (use nth_mem[OF k(1)] "2.prems"(2) in force)
    moreover have "depth (ts ! k) \<le> Max (insert 0 (set (map depth ts)))" using k(1) by (intro Max_ge) auto
    ultimately show ?thesis by simp
  qed
  then show ?case unfolding us(2) depth_le_StructInstantiation by simp
qed (auto simp: rbind_eq_Ok vec_index_eq_Ok le_SucI)

lemma finite_types: "finite {t. token_in_bounds view n t \<and> depth t \<le> k}"
proof (induction k)
  case 0
  have "0 < depth t" for t by (cases t) simp_all
  then have "{t. token_in_bounds view n t \<and> depth t \<le> 0} = {}" by (simp add: not_le)
  then show ?case by (simp only: finite.emptyI)
next
  case (Suc k)
  let ?S = "{t. token_in_bounds view n t \<and> depth t \<le> k}"
  let ?args = "\<lambda>sh. {ts. set ts \<subseteq> ?S \<and> length ts = length (sh_type_parameters (struct_handles view ! unat sh))}"
  have "{t. token_in_bounds view n t \<and> depth t \<le> Suc k} \<subseteq>
      {Bool, U8, U64, U128, Address, Signer} \<union> range TypeParameter \<union> range Struct \<union> Vector ` ?S \<union> Reference ` ?S \<union>
      MutableReference ` ?S \<union> (\<Union>sh. StructInstantiation sh ` ?args sh)" (is "_ \<subseteq> ?T")
  proof
    fix t assume t: "t \<in> {t. token_in_bounds view n t \<and> depth t \<le> Suc k}"
    show "t \<in> ?T"
    proof (cases t)
      case (StructInstantiation sh ts)
      with t have "ts \<in> ?args sh" by (auto simp del: depth.simps simp: depth_le_StructInstantiation)
      with StructInstantiation show ?thesis by blast
    qed (use t in auto)
  qed
  moreover have "finite ?T" using Suc by (intro finite_UnI finite_imageI finite_UN_I finite_lists_length_eq) auto
  ultimately show ?case by (rule finite_subset)
qed

text \<open>The type parameters on which one depends, itself included.\<close>

definition below :: "(inst_node \<times> inst_node \<times> bool) set \<Rightarrow> inst_node \<Rightarrow> inst_node set" where
  "below E n = {a. (a, n) \<in> (depends E)\<^sup>*}"

lemma card_below:
  "(a, b) \<in> depends E \<Longrightarrow> card (below E a) \<le> card (below E b)"
  "\<not> grows_forever E \<Longrightarrow> (a, b, True) \<in> E \<Longrightarrow> card (below E a) < card (below E b)"
  "0 < card (below E n)"
proof -
  have sub: "below E a \<subseteq> below E b" if "(a, b) \<in> depends E" for a b
    using that by (auto simp: below_def intro: rtrancl_into_rtrancl)
  show "(a, b) \<in> depends E \<Longrightarrow> card (below E a) \<le> card (below E b)" using sub by (intro card_mono) auto
  have "n \<in> below E n" by (simp add: below_def)
  then show "0 < card (below E n)" by (auto simp: card_gt_0_iff)
  assume "\<not> grows_forever E" "(a, b, True) \<in> E"
  then have "b \<notin> below E a" unfolding grows_forever_def below_def by blast
  moreover have "(a, b) \<in> depends E" using \<open>(a, b, True) \<in> E\<close> by (auto simp: depends_def)
  ultimately have "below E a \<subset> below E b" using sub by (auto simp: below_def)
  then show "card (below E a) < card (below E b)" by (intro psubset_card_mono) auto
qed

lemma instantiate_keeps_bounds:
  assumes "instantiate ty args = (Ok t :: _ vm_result)" "token_in_bounds view 65536 ty"
    and "\<forall>t \<in> set args. token_in_bounds view 65536 t"
  shows "token_in_bounds view 65536 t"
  using assms
proof (induction ty args arbitrary: t rule: instantiate.induct)
  case (2 sh ts args)
  then obtain us where us: "rmap (\<lambda>ty. instantiate ty args) ts = (Ok us :: _ vm_result)" "t = StructInstantiation sh us"
    by (auto simp: rbind_eq_Ok)
  have "length us = length ts" using rmap_length[OF us(1)] .
  moreover have "token_in_bounds view 65536 u" if "u \<in> set us" for u
  proof -
    obtain k where k: "k < length ts" "instantiate (ts ! k) args = (Ok u :: _ vm_result)"
      using us(1) \<open>u \<in> set us\<close> by (auto simp: rmap_eq_Ok list_all2_conv_all_nth in_set_conv_nth)
    show ?thesis by (rule "2.IH"[OF nth_mem[OF k(1)] k(2)]) (use k(1) "2.prems" in auto)
  qed
  ultimately show ?case using "2.prems"(2) us(2) by simp
qed (auto simp: rbind_eq_Ok vec_index_eq_Ok)

section \<open>Modules with native functions last\<close>

definition natives_last :: "compiled_module \<Rightarrow> bool" where
  "natives_last m = sorted_wrt (\<lambda>a b. is_native a \<longrightarrow> is_native b) (cm_function_defs m)"

lemma filter_nth_sorted:
  assumes "sorted_wrt (\<lambda>a b. \<not> P a \<longrightarrow> \<not> P b) xs" "f < length xs" "P (xs ! f)"
  shows "f < length (filter P xs) \<and> filter P xs ! f = xs ! f"
  using assms
proof (induction xs arbitrary: f)
  case (Cons x xs)
  show ?case
  proof (cases f)
    case (Suc k)
    then have "P x" using Cons.prems by (auto dest: nth_mem)
    then show ?thesis using Cons Suc by simp
  qed (use Cons.prems in simp)
qed simp

lemma func_handle_def_map_get:
  assumes "distinct (map fd_function (cm_function_defs m))" "g < length (cm_function_defs m)"
  shows "func_handle_def_map m (fd_function (cm_function_defs m ! g)) = Some (of_nat g)"
proof -
  let ?xs = "enumerate_from_zero (cm_function_defs m)"
  have "map (\<lambda>x. fd_function (snd x)) ?xs = map fd_function (cm_function_defs m)"
    by (simp add: enumerate_from_zero_def list_eq_iff_nth_eq nth_enumerate_eq)
  then have keys: "distinct (map (\<lambda>x. fd_function (snd x)) ?xs)" using assms(1) by simp
  have "(g, cm_function_defs m ! g) \<in> set ?xs" using assms(2) by simp
  then show ?thesis
    unfolding func_handle_def_map_def fold_map_upd_Some[OF keys]
    by (intro disjI1 bexI[of _ "(g, cm_function_defs m ! g)"]) simp_all
qed

lemma call_edges_in_graph:
  assumes "natives_last m" "f < length (cm_function_defs m)" "fd_code (cm_function_defs m ! f) = Some code"
    and "instr \<in> set (cu_code code)"
  shows "call_edges m (of_nat f) instr \<subseteq>
    \<Union> (function_edges m ` set (enumerate_from_zero (filter (\<lambda>d. \<not> is_native d) (cm_function_defs m))))"
proof -
  have "(f, cm_function_defs m ! f) \<in> set (enumerate_from_zero (filter (\<lambda>d. \<not> is_native d) (cm_function_defs m)))"
    using filter_nth_sorted[of "\<lambda>d. \<not> is_native d" "cm_function_defs m" f] assms(1-3)
    by (simp add: natives_last_def is_native_def)
  moreover have "call_edges m (of_nat f) instr \<subseteq> function_edges m (f, cm_function_defs m ! f)"
    using assms(3,4) by (auto simp: function_edges_def)
  ultimately show ?thesis by blast
qed

text \<open>What the types of a reachable instantiation satisfy; \<open>d\<close> bounds the depth of the types at the
  start, \<open>k\<close> that of the types in the signatures.\<close>

definition instance_bounded ::
  "compiled_module \<Rightarrow> (inst_node \<times> inst_node \<times> bool) set \<Rightarrow> nat \<Rightarrow> nat \<Rightarrow> nat \<Rightarrow> nat \<times> signature_token list \<Rightarrow> bool" where
  "instance_bounded m E l d k = (\<lambda>(f, args).
     length args \<le> l \<and> (\<forall>t \<in> set args. token_in_bounds (ViewModule m) 65536 t) \<and>
     (\<forall>u < length args. depth (args ! u) \<le> d + k * card (below E (of_nat f, of_nat u))))"

lemma instance_bounded_step:
  assumes tables: "tables_in_bounds (ViewModule m)" and distinct: "distinct (map fd_function (cm_function_defs m))"
    and last: "natives_last m" and E: "E = \<Union> (function_edges m `
      set (enumerate_from_zero (filter (\<lambda>d. \<not> is_native d) (cm_function_defs m))))"
    and not_growing: "\<not> grows_forever E"
    and sigs: "\<And>sig t. sig \<in> set (cm_signatures m) \<Longrightarrow> length sig \<le> l \<and> (t \<in> set sig \<longrightarrow> depth t \<le> k)"
    and step: "instantiates m c c'" and bounded: "instance_bounded m E l d k c"
  shows "instance_bounded m E l d k c'"
  using step
proof cases
  case (generic f code idx fi g args args')
  let ?ts = "cm_signatures m ! unat (fi_type_parameters fi)"
  note c = bounded[unfolded generic(1) instance_bounded_def, simplified]
  have at: "depth (args ! unat p) \<le> d + k * card (below E (of_nat f, p))" if "unat p < length args" for p :: u16
  proof -
    have "depth (args ! unat p) \<le> d + k * card (below E (of_nat f, of_nat (unat p)))" using c that by blast
    then show ?thesis by simp
  qed
  have "in_pool (cm_function_instantiations m) idx"
    using call_generic_in_pool[OF tables nth_mem[OF generic(3)] generic(4,5)] .
  then have sig: "?ts \<in> set (cm_signatures m)"
    using tables generic(6) by (auto simp: tables_in_bounds_def view_tables in_pool_def)
  have ts: "token_in_bounds (ViewModule m) 65536 t" if "t \<in> set ?ts" for t
    using tables sig that
    by (auto simp: tables_in_bounds_def view_tables token_in_bounds_iff type_params_ok_def split: signature_token.splits)
  have len: "length args' = length ?ts" using rmap_length[OF generic(9)] .
  have nth: "instantiate (?ts ! u) args = (Ok (args' ! u) :: _ vm_result)" if "u < length args'" for u
    using generic(9) that len by (auto simp: rmap_eq_Ok list_all2_conv_all_nth)
  have edge: "((of_nat f, p), (of_nat g, of_nat u), \<forall>q. ?ts ! u \<noteq> TypeParameter q) \<in> E"
    if "u < length args'" "p \<in> type_params_of (?ts ! u)" for u p
  proof -
    have "((of_nat f, p), (of_nat g, of_nat u), \<forall>q. ?ts ! u \<noteq> TypeParameter q) \<in> actual_edges (of_nat f) (of_nat g) (u, ?ts ! u)"
      using that(2) by (auto simp: actual_edges_def)
    moreover have "(u, ?ts ! u) \<in> set (enumerate_from_zero ?ts)" using that(1) len by simp
    ultimately have "((of_nat f, p), (of_nat g, of_nat u), \<forall>q. ?ts ! u \<noteq> TypeParameter q) \<in>
        call_edges m (of_nat f) (CallGeneric idx)"
      using func_handle_def_map_get[OF distinct generic(7)] generic(6,8) by (auto simp: call_edges_def Let_def)
    then show ?thesis using call_edges_in_graph[OF last generic(3,4,5)] E by blast
  qed
  have "depth (args' ! u) \<le> d + k * card (below E (of_nat g, of_nat u))" if u: "u < length args'" for u
  proof (cases "\<exists>q. ?ts ! u = TypeParameter q")
    case True
    then obtain q where q: "?ts ! u = TypeParameter q" by blast
    then have "unat q < length args" "args' ! u = args ! unat q" using nth[OF u] by (simp_all add: vec_index_eq_Ok)
    then have "depth (args' ! u) \<le> d + k * card (below E (of_nat f, q))" using at by simp
    also have "\<dots> \<le> d + k * card (below E (of_nat g, of_nat u))"
      using edge[OF u, of q] q by (intro add_left_mono mult_left_mono card_below(1)) (auto simp: depends_def)
    finally show ?thesis .
  next
    case False
    let ?c = "card (below E (of_nat g, of_nat u))"
    have "depth (args ! unat p) \<le> d + k * (?c - 1)" if p: "p \<in> type_params_of (?ts ! u)" "unat p < length args" for p
    proof -
      have "depth (args ! unat p) \<le> d + k * card (below E (of_nat f, p))" using at[OF p(2)] .
      moreover have "card (below E (of_nat f, p)) < ?c"
        using card_below(2)[OF not_growing] edge[OF u p(1)] False by auto
      then have "k * card (below E (of_nat f, p)) \<le> k * (?c - 1)" by (intro mult_left_mono) auto
      ultimately show ?thesis by linarith
    qed
    then have "depth (args' ! u) \<le> depth (?ts ! u) + (d + k * (?c - 1))" by (rule depth_instantiate[OF nth[OF u]])
    also have "depth (?ts ! u) \<le> k" using sigs[OF sig] u len by simp
    also have "k + (d + k * (?c - 1)) = d + k * ?c" 
      using card_below(3)[of E "(of_nat g, of_nat u)"] by (cases ?c) simp_all
    finally show ?thesis by simp
  qed
  moreover have "token_in_bounds (ViewModule m) 65536 t" if "t \<in> set args'" for t
    using instantiate_keeps_bounds[OF nth ts] c that len by (auto simp: in_set_conv_nth)
  ultimately show ?thesis unfolding generic(2) instance_bounded_def using len sigs[OF sig] by auto
next
  case (plain f code idx g args)
  then show ?thesis by (simp add: instance_bounded_def)
qed

lemma instance_bounded_types:
  assumes "instance_bounded m E l d k c"
  shows "snd c \<in> {ts. set ts \<subseteq> {t. token_in_bounds (ViewModule m) 65536 t \<and> depth t \<le> d + k * CARD(inst_node)} \<and>
    length ts \<le> l}"
proof -
  obtain g ts where c: "c = (g, ts)" by (cases c)
  have "depth t \<le> d + k * CARD(inst_node)" if t: "t \<in> set ts" for t
  proof -
    obtain u where u: "u < length ts" "t = ts ! u" using t by (auto simp: in_set_conv_nth)
    have "card (below E (of_nat g, of_nat u)) \<le> CARD(inst_node)" by (intro card_mono) auto
    then have "d + k * card (below E (of_nat g, of_nat u)) \<le> d + k * CARD(inst_node)" by simp
    moreover have "depth t \<le> d + k * card (below E (of_nat g, of_nat u))"
      using u assms unfolding c instance_bounded_def by blast
    ultimately show ?thesis by (rule order_trans[rotated])
  qed
  then show ?thesis using assms unfolding c instance_bounded_def by auto
qed

text \<open>
  C32: the pass guarantees that a module has finitely many instances of its functions. In a module that
  the bounds, duplication and instantiation loop passes accept, whose native functions come after the
  others, and with a library that finds the strongly connected components, calls within the module
  reach finitely many pairs of a function and type arguments from any function at any type arguments
  that are in bounds.
\<close>

theorem instantiations_finite:
  assumes "tarjan_law tarjan" "bounds_verify_module m = Ok ()" "duplication_verify_module m = Ok ()"
    and "instantiation_loops_verify tarjan m = Ok ()" "natives_last m"
    and "\<forall>t \<in> set args. token_in_bounds (ViewModule m) n t"
  shows "finite {c. (instantiates m)\<^sup>*\<^sup>* (f, args) c}"
proof -
  note tables = bounds_verify_tables[OF assms(2)]
  have distinct: "distinct (map fd_function (cm_function_defs m))"
    using assms(3) duplication_verify_module_Ok[OF tables] by (simp add: module_unique_def function_definitions_unique_def)
  define E where "E = \<Union> (function_edges m ` set (enumerate_from_zero (filter (\<lambda>d. \<not> is_native d) (cm_function_defs m))))"
  have not_growing: "\<not> grows_forever E"
    using build_graph_ok[OF tables] accepted_not_growing[OF assms(1,4)] by (auto simp: E_def)
  define l where "l = Max (insert (length args) (length ` set (cm_signatures m)))"
  define k where "k = Max (insert 0 (depth ` (\<Union> (set ` set (cm_signatures m)))))"
  define d where "d = Max (insert 0 (depth ` set args))"
  have sigs: "length sig \<le> l \<and> (t \<in> set sig \<longrightarrow> depth t \<le> k)" if "sig \<in> set (cm_signatures m)" for sig t
    using that unfolding l_def k_def by (auto intro!: Max_ge)
  have "depth t \<le> d" if "t \<in> set args" for t using that unfolding d_def by (auto intro!: Max_ge)
  then have "depth (args ! u) \<le> d + k * card (below E (of_nat f, of_nat u))" if "u < length args" for u
    using that nth_mem trans_le_add1 by blast
  moreover have "token_in_bounds (ViewModule m) 65536 t" if "t \<in> set args" for t
    using assms(6) that by (auto simp: token_in_bounds_iff type_params_ok_def split: signature_token.splits)
  ultimately have start: "instance_bounded m E l d k (f, args)"
    by (auto simp: instance_bounded_def l_def intro!: Max_ge)
  have bounded: "instance_bounded m E l d k c \<and> (fst c = f \<or> fst c < length (cm_function_defs m))"
    if "(instantiates m)\<^sup>*\<^sup>* (f, args) c" for c
    using that
  proof (induction)
    case (step c c')
    then have "instance_bounded m E l d k c'"
      using instance_bounded_step[OF tables distinct assms(5) E_def not_growing sigs] by blast
    then show ?case using step(2) by (auto elim: instantiates.cases)
  qed (use start in simp)
  let ?T = "{t. token_in_bounds (ViewModule m) 65536 t \<and> depth t \<le> d + k * CARD(inst_node)}"
  note inside = instance_bounded_types[of m E l d k]
  have "{c. (instantiates m)\<^sup>*\<^sup>* (f, args) c} \<subseteq>
      insert f {..<length (cm_function_defs m)} \<times> {ts. set ts \<subseteq> ?T \<and> length ts \<le> l}"
  proof
    fix c assume "c \<in> {c. (instantiates m)\<^sup>*\<^sup>* (f, args) c}"
    then have "instance_bounded m E l d k c" "fst c \<in> insert f {..<length (cm_function_defs m)}" using bounded by auto
    with inside show "c \<in> insert f {..<length (cm_function_defs m)} \<times> {ts. set ts \<subseteq> ?T \<and> length ts \<le> l}"
      unfolding mem_Times_iff by blast
  qed
  then show ?thesis by (rule finite_subset) (intro finite_cartesian_product finite_lists_length_le finite_types, simp)
qed

section \<open>Native functions first\<close>

text \<open>A module with \<^verbatim>\<open>fun f<T>() { f<vector<T>>() }\<close>, and the same module with a native function
  before it.\<close>

definition looping_function :: function_definition where
  "looping_function = \<lparr>fd_function = 0, fd_visibility = Private, fd_acquires_global_resources = [],
     fd_code = Some \<lparr>cu_locals = 0, cu_code = [CallGeneric 0, Ret]\<rparr>\<rparr>"

definition looping_module :: compiled_module where
  "looping_module = \<lparr>
     cm_version = 4, cm_self_module_handle_idx = 0,
     cm_module_handles = [\<lparr>mh_address = 0, mh_name = 0\<rparr>], cm_struct_handles = [],
     cm_function_handles =
       [\<lparr>fh_module = 0, fh_name = 1, fh_parameters = 0, fh_return = 0, fh_type_parameters = [0]\<rparr>],
     cm_field_handles = [], cm_friend_decls = [], cm_struct_def_instantiations = [],
     cm_function_instantiations = [\<lparr>fi_handle = 0, fi_type_parameters = 1\<rparr>], cm_field_instantiations = [],
     cm_signatures = [[], [Vector (TypeParameter 0)]],
     cm_identifiers = [''M'', ''f''], cm_address_identifiers = [replicate 16 0], cm_constant_pool = [],
     cm_struct_defs = [], cm_function_defs = [looping_function]\<rparr>"

definition native_first_module :: compiled_module where
  "native_first_module = looping_module\<lparr>
     cm_function_handles := cm_function_handles looping_module @
       [\<lparr>fh_module = 0, fh_name = 2, fh_parameters = 0, fh_return = 0, fh_type_parameters = []\<rparr>],
     cm_identifiers := [''M'', ''f'', ''g''],
     cm_function_defs :=
       [\<lparr>fd_function = 1, fd_visibility = Private, fd_acquires_global_resources = [], fd_code = None\<rparr>,
        looping_function]\<rparr>"

lemmas inst_exec = build_graph_def enumerate_from_zero_def is_native_def build_graph_function_def_def
  build_graph_instr_def module_function_instantiation_at_def vec_index_def func_handle_def_map_def
  build_graph_call_def signature_at_def signatures_def add_type_actual_def extract_type_parameters_def
  add_inst_edge_def get_or_add_node_def empty_inst_graph_def looping_function_def

lemma looping_graph:
  "build_graph looping_module =
     Ok \<lparr>ig_nodes = [(0, 0)], ig_edges = [(0, 0, TyConApp (Vector (TypeParameter 0)))], ig_node_map = [(0, 0) \<mapsto> 0]\<rparr>"
  by (simp add: inst_exec looping_module_def)

lemma native_first_graph:
  "build_graph native_first_module =
     Ok \<lparr>ig_nodes = [(0, 0), (1, 0)], ig_edges = [(0, 1, TyConApp (Vector (TypeParameter 0)))],
       ig_node_map = [(0, 0) \<mapsto> 0, (1, 0) \<mapsto> 1]\<rparr>"
  by (simp add: inst_exec looping_module_def native_first_module_def)

text \<open>A library function with the documented behaviour.\<close>

definition scc_classes :: tarjan_scc where
  "scc_classes n edges =
     map (\<lambda>i. filter (\<lambda>j. (i, j) \<in> (set edges)\<^sup>* \<and> (j, i) \<in> (set edges)\<^sup>*) [0..<n]) [0..<n]"

lemma scc_classes_law: "tarjan_law scc_classes"
  unfolding tarjan_law_def
proof (intro allI impI conjI ballI)
  fix n and edges :: "(nat \<times> nat) list"
  show "set (concat (scc_classes n edges)) = {..<n}" by (auto simp: scc_classes_def)
  fix c i j assume "c \<in> set (scc_classes n edges)" "i \<in> set c" "j < n"
  then obtain k where "c = filter (\<lambda>j. (k, j) \<in> (set edges)\<^sup>* \<and> (j, k) \<in> (set edges)\<^sup>*) [0..<n]" "i \<in> set c"
    by (auto simp: scc_classes_def)
  with \<open>j < n\<close> show "j \<in> set c \<longleftrightarrow> (i, j) \<in> (set edges)\<^sup>* \<and> (j, i) \<in> (set edges)\<^sup>*"
    by (auto intro: rtrancl_trans)
qed

text \<open>A module with a generic function that calls itself at its own type parameter.\<close>

definition recursive_module :: compiled_module where
  "recursive_module = looping_module\<lparr>cm_signatures := [[], [TypeParameter 0]]\<rparr>"

lemma recursive_in_bounds: "bounds_verify_module recursive_module = Ok ()"
  by (simp add: bounds_verify_module_def bounds_verify_impl_Ok recursive_module_def looping_module_def
      looping_function_def bounds_predicates view_tables)

lemma recursive_duplication_accepted: "duplication_verify_module recursive_module = Ok ()"
proof -
  have "module_unique recursive_module"
    by (auto simp: module_unique_def function_definitions_unique_def struct_definitions_unique_def
        recursive_module_def looping_module_def looping_function_def in_pool_def unat_eq_0)
  then show ?thesis
    using duplication_verify_module_Ok[OF bounds_verify_tables[OF recursive_in_bounds]] by simp
qed

lemma recursive_instantiations_accepted: "instantiation_loops_verify scc_classes recursive_module = Ok ()"
proof -
  have "build_graph recursive_module =
      Ok \<lparr>ig_nodes = [(0, 0)], ig_edges = [(0, 0, Identity)], ig_node_map = [(0, 0) \<mapsto> 0]\<rparr>"
    by (simp add: inst_exec recursive_module_def looping_module_def)
  then show ?thesis
    by (simp add: instantiation_loops_verify_def find_non_trivial_components_def scc_classes_def map_filter_simps)
qed

lemma recursive_call: "instantiates recursive_module (0, [U64]) (0, [U64])"
  by (rule instantiates.generic[where idx = 0 and fi = "\<lparr>fi_handle = 0, fi_type_parameters = 1\<rparr>" and
        code = "\<lparr>cu_locals = 0, cu_code = [CallGeneric 0, Ret]\<rparr>"])
     (simp_all add: recursive_module_def looping_module_def looping_function_def vec_index_def)

theorem instantiations_finite_witness:
  "tarjan_law scc_classes \<and> instantiation_loops_verify scc_classes recursive_module = Ok () \<and>
   natives_last recursive_module \<and> instantiates recursive_module (0, [U64]) (0, [U64]) \<and>
   finite {c. (instantiates recursive_module)\<^sup>*\<^sup>* (0, [U64]) c}"
proof -
  have last: "natives_last recursive_module"
    by (simp add: natives_last_def is_native_def recursive_module_def looping_module_def looping_function_def)
  have "\<forall>t \<in> set [U64]. token_in_bounds (ViewModule recursive_module) 0 t" by simp
  from instantiations_finite[OF scc_classes_law recursive_in_bounds recursive_duplication_accepted
      recursive_instantiations_accepted last this, of 0]
  show ?thesis using scc_classes_law recursive_instantiations_accepted last recursive_call by blast
qed

lemma looping_instances:
  "(instantiates native_first_module)\<^sup>*\<^sup>* (1, [U64]) (1, [(Vector ^^ n) U64])"
proof (induction n)
  case (Suc n)
  have "instantiates native_first_module (1, [(Vector ^^ n) U64]) (1, [(Vector ^^ Suc n) U64])"
    by (rule instantiates.generic[where idx = 0 and fi = "\<lparr>fi_handle = 0, fi_type_parameters = 1\<rparr>" and
          code = "\<lparr>cu_locals = 0, cu_code = [CallGeneric 0, Ret]\<rparr>"])
       (simp_all add: native_first_module_def looping_module_def looping_function_def vec_index_def)
  with Suc show ?case by (rule rtranclp.rtrancl_into_rtrancl)
qed simp

lemma one_of_two: "tarjan_law tarjan \<Longrightarrow> c \<in> set (tarjan 2 [(0, 1)]) \<Longrightarrow> 0 \<in> set c \<Longrightarrow> 1 \<notin> set c"
proof
  assume law: "tarjan_law tarjan" and c: "c \<in> set (tarjan 2 [(0, 1)])" "0 \<in> set c" "1 \<in> set c"
  have "(1 :: nat, 0 :: nat) \<in> (set [(0, 1)])\<^sup>*"
    using law[unfolded tarjan_law_def, rule_format, of "[(0, 1)]" 2] c by force
  then show False by (auto elim: converse_rtranclE)
qed

text \<open>
  C33: the pass misses loops in modules in which a native function precedes others. It numbers the
  functions of the module after the native ones have been taken out, while the targets of calls are
  numbered with them, so that an edge of the graph starts at the wrong function. A function that calls
  itself with \<^verbatim>\<open>vector<T>\<close> for its type parameter is rejected when it is the only function, and
  accepted, although it has infinitely many instances, when a native function comes before it.
\<close>

theorem native_functions_hide_loops:
  assumes "tarjan_law tarjan"
  shows "instantiation_loops_verify tarjan looping_module = Err (new_error LOOP_IN_INSTANTIATION_GRAPH) \<and>
    bounds_verify_module native_first_module = Ok () \<and> signature_verify_module native_first_module = Ok () \<and>
    instantiation_loops_verify tarjan native_first_module = Ok () \<and>
    infinite {c. (instantiates native_first_module)\<^sup>*\<^sup>* (1, [U64]) c}"
proof (intro conjI)
  show "instantiation_loops_verify tarjan looping_module = Err (new_error LOOP_IN_INSTANTIATION_GRAPH)"
  proof -
    have ok: "ig_ok \<lparr>ig_nodes = [(0, 0)], ig_edges = [(0, 0, TyConApp (Vector (TypeParameter 0)))], ig_node_map = [(0, 0) \<mapsto> 0]\<rparr>"
      by (auto simp: ig_ok_def)
    show ?thesis
      using non_trivial_component[OF assms ok, of 0 0 "TyConApp (Vector (TypeParameter 0))"]
      by (simp add: instantiation_loops_verify_def looping_graph)
  qed
  show "bounds_verify_module native_first_module = Ok ()"
    by (simp add: bounds_verify_module_def bounds_verify_impl_Ok native_first_module_def looping_module_def
        looping_function_def bounds_predicates view_tables)
  show "signature_verify_module native_first_module = Ok ()"
    by (simp add: signature_exec function_instantiation_at_def polymorphic_abilities_def native_first_module_def looping_module_def looping_function_def view_tables)
  show "instantiation_loops_verify tarjan native_first_module = Ok ()"
    using one_of_two[OF assms]
    by (auto simp: instantiation_loops_verify_def native_first_graph find_non_trivial_components_def map_filter_def
        Let_def filter_empty_conv list_ex_iff numeral_2_eq_2)
  have "inj (\<lambda>n. (1 :: nat, [(Vector ^^ n) U64]))"
  proof (rule injI)
    fix i j assume "(1 :: nat, [(Vector ^^ i) U64]) = (1, [(Vector ^^ j) U64])"
    moreover have "depth ((Vector ^^ n) U64) = Suc n" for n by (induction n) simp_all
    ultimately show "i = j" by (metis list.inject nat.inject prod.inject)
  qed
  then have "infinite (range (\<lambda>n. (1 :: nat, [(Vector ^^ n) U64])))" using finite_imageD by blast
  then show "infinite {c. (instantiates native_first_module)\<^sup>*\<^sup>* (1, [U64]) c}"
    by (rule contrapos_nn) (rule finite_subset, use looping_instances in auto)
qed

theorem native_functions_hide_loops_witness:
  "tarjan_law scc_classes \<and> instantiation_loops_verify scc_classes native_first_module = Ok () \<and>
   infinite {c. (instantiates native_first_module)\<^sup>*\<^sup>* (1, [U64]) c}"
  using native_functions_hide_loops[OF scc_classes_law] scc_classes_law by blast

end
