(* ===== verification/Binary_Format.thy ===== *)
theory Binary_Format
  imports File_Format
begin

text \<open>
  The layer that the serializer and the deserializer share
  (\<^verbatim>\<open>move-binary-format/src/file_format_common.rs\<close>): the limits of the format, the numbers of
  tables, types and opcodes, the growing binary with its overflow check, little endian and
  ULEB128 integers, the header and the cursors on a binary of a known version.

  An \<^verbatim>\<open>anyhow::Result\<close> carries only a message, so its error is \<open>()\<close>. A cursor is the version, the
  position and the bytes that are not read yet. A \<^verbatim>\<open>usize\<close> is a natural number; a length that
  reaches \<^verbatim>\<open>2^64\<close> is refused where the code checks for it.
\<close>

section \<open>Limits\<close>

abbreviation TABLE_COUNT_MAX :: nat where
  "TABLE_COUNT_MAX \<equiv> 255"

abbreviation TABLE_OFFSET_MAX :: nat where
  "TABLE_OFFSET_MAX \<equiv> 0xffffffff"

abbreviation TABLE_SIZE_MAX :: nat where
  "TABLE_SIZE_MAX \<equiv> 0xffffffff"

abbreviation TABLE_CONTENT_SIZE_MAX :: nat where
  "TABLE_CONTENT_SIZE_MAX \<equiv> 0xffffffff"

text \<open>The limits of all the indices into tables are \<^verbatim>\<open>TABLE_INDEX_MAX\<close>.\<close>

abbreviation TABLE_INDEX_MAX :: nat where
  "TABLE_INDEX_MAX \<equiv> 65535"

abbreviation BYTECODE_COUNT_MAX :: nat where
  "BYTECODE_COUNT_MAX \<equiv> 65535"

abbreviation BYTECODE_INDEX_MAX :: nat where
  "BYTECODE_INDEX_MAX \<equiv> 65535"

abbreviation LOCAL_INDEX_MAX :: nat where
  "LOCAL_INDEX_MAX \<equiv> 255"

abbreviation IDENTIFIER_SIZE_MAX :: nat where
  "IDENTIFIER_SIZE_MAX \<equiv> 65535"

abbreviation CONSTANT_SIZE_MAX :: nat where
  "CONSTANT_SIZE_MAX \<equiv> 65535"

abbreviation SIGNATURE_SIZE_MAX :: nat where
  "SIGNATURE_SIZE_MAX \<equiv> 255"

abbreviation ACQUIRES_COUNT_MAX :: nat where
  "ACQUIRES_COUNT_MAX \<equiv> 255"

abbreviation FIELD_COUNT_MAX :: nat where
  "FIELD_COUNT_MAX \<equiv> 255"

abbreviation FIELD_OFFSET_MAX :: nat where
  "FIELD_OFFSET_MAX \<equiv> 255"

abbreviation TYPE_PARAMETER_COUNT_MAX :: nat where
  "TYPE_PARAMETER_COUNT_MAX \<equiv> 255"

abbreviation TYPE_PARAMETER_INDEX_MAX :: nat where
  "TYPE_PARAMETER_INDEX_MAX \<equiv> 65536"

abbreviation SIGNATURE_TOKEN_DEPTH_MAX :: nat where
  "SIGNATURE_TOKEN_DEPTH_MAX \<equiv> 256"

abbreviation VERSION_1 :: u32 where "VERSION_1 \<equiv> 1"
abbreviation VERSION_2 :: u32 where "VERSION_2 \<equiv> 2"
abbreviation VERSION_3 :: u32 where "VERSION_3 \<equiv> 3"
abbreviation VERSION_4 :: u32 where "VERSION_4 \<equiv> 4"
abbreviation VERSION_5 :: u32 where "VERSION_5 \<equiv> 5"

abbreviation VERSION_MAX :: u32 where
  "VERSION_MAX \<equiv> VERSION_5"

definition DIEM_MAGIC :: "u8 list" where
  "DIEM_MAGIC = [0xA1, 0x1C, 0xEB, 0x0B]"

text \<open>\<^verbatim>\<open>AccountAddress::LENGTH\<close> without the features that change it.\<close>

abbreviation ADDRESS_LENGTH :: nat where
  "ADDRESS_LENGTH \<equiv> 16"

section \<open>Numbers of tables, types and opcodes\<close>

datatype table_type =
    MODULE_HANDLES
  | STRUCT_HANDLES
  | FUNCTION_HANDLES
  | FUNCTION_INST
  | SIGNATURES
  | CONSTANT_POOL
  | IDENTIFIERS
  | ADDRESS_IDENTIFIERS
  | STRUCT_DEFS
  | STRUCT_DEF_INST
  | FUNCTION_DEFS
  | FIELD_HANDLE
  | FIELD_INST
  | FRIEND_DECLS

definition table_type_as_u8 :: "table_type \<Rightarrow> u8" where
  "table_type_as_u8 kind =
     (case kind of
        MODULE_HANDLES \<Rightarrow> 0x1
      | STRUCT_HANDLES \<Rightarrow> 0x2
      | FUNCTION_HANDLES \<Rightarrow> 0x3
      | FUNCTION_INST \<Rightarrow> 0x4
      | SIGNATURES \<Rightarrow> 0x5
      | CONSTANT_POOL \<Rightarrow> 0x6
      | IDENTIFIERS \<Rightarrow> 0x7
      | ADDRESS_IDENTIFIERS \<Rightarrow> 0x8
      | STRUCT_DEFS \<Rightarrow> 0xA
      | STRUCT_DEF_INST \<Rightarrow> 0xB
      | FUNCTION_DEFS \<Rightarrow> 0xC
      | FIELD_HANDLE \<Rightarrow> 0xD
      | FIELD_INST \<Rightarrow> 0xE
      | FRIEND_DECLS \<Rightarrow> 0xF)"

datatype serialized_type =
    ST_BOOL
  | ST_U8
  | ST_U64
  | ST_U128
  | ST_ADDRESS
  | ST_REFERENCE
  | ST_MUTABLE_REFERENCE
  | ST_STRUCT
  | ST_TYPE_PARAMETER
  | ST_VECTOR
  | ST_STRUCT_INST
  | ST_SIGNER

definition serialized_type_as_u8 :: "serialized_type \<Rightarrow> u8" where
  "serialized_type_as_u8 t =
     (case t of
        ST_BOOL \<Rightarrow> 0x1
      | ST_U8 \<Rightarrow> 0x2
      | ST_U64 \<Rightarrow> 0x3
      | ST_U128 \<Rightarrow> 0x4
      | ST_ADDRESS \<Rightarrow> 0x5
      | ST_REFERENCE \<Rightarrow> 0x6
      | ST_MUTABLE_REFERENCE \<Rightarrow> 0x7
      | ST_STRUCT \<Rightarrow> 0x8
      | ST_TYPE_PARAMETER \<Rightarrow> 0x9
      | ST_VECTOR \<Rightarrow> 0xA
      | ST_STRUCT_INST \<Rightarrow> 0xB
      | ST_SIGNER \<Rightarrow> 0xC)"

datatype serialized_native_struct_flag = NSF_NATIVE | NSF_DECLARED

definition native_struct_flag_as_u8 :: "serialized_native_struct_flag \<Rightarrow> u8" where
  "native_struct_flag_as_u8 flag = (case flag of NSF_NATIVE \<Rightarrow> 0x1 | NSF_DECLARED \<Rightarrow> 0x2)"

datatype (plugins only: code size) opcodes =
    OP_POP
  | OP_RET
  | OP_BR_TRUE
  | OP_BR_FALSE
  | OP_BRANCH
  | OP_LD_U64
  | OP_LD_CONST
  | OP_LD_TRUE
  | OP_LD_FALSE
  | OP_COPY_LOC
  | OP_MOVE_LOC
  | OP_ST_LOC
  | OP_MUT_BORROW_LOC
  | OP_IMM_BORROW_LOC
  | OP_MUT_BORROW_FIELD
  | OP_IMM_BORROW_FIELD
  | OP_CALL
  | OP_PACK
  | OP_UNPACK
  | OP_READ_REF
  | OP_WRITE_REF
  | OP_ADD
  | OP_SUB
  | OP_MUL
  | OP_MOD
  | OP_DIV
  | OP_BIT_OR
  | OP_BIT_AND
  | OP_XOR
  | OP_OR
  | OP_AND
  | OP_NOT
  | OP_EQ
  | OP_NEQ
  | OP_LT
  | OP_GT
  | OP_LE
  | OP_GE
  | OP_ABORT
  | OP_NOP
  | OP_EXISTS
  | OP_MUT_BORROW_GLOBAL
  | OP_IMM_BORROW_GLOBAL
  | OP_MOVE_FROM
  | OP_MOVE_TO
  | OP_FREEZE_REF
  | OP_SHL
  | OP_SHR
  | OP_LD_U8
  | OP_LD_U128
  | OP_CAST_U8
  | OP_CAST_U64
  | OP_CAST_U128
  | OP_MUT_BORROW_FIELD_GENERIC
  | OP_IMM_BORROW_FIELD_GENERIC
  | OP_CALL_GENERIC
  | OP_PACK_GENERIC
  | OP_UNPACK_GENERIC
  | OP_EXISTS_GENERIC
  | OP_MUT_BORROW_GLOBAL_GENERIC
  | OP_IMM_BORROW_GLOBAL_GENERIC
  | OP_MOVE_FROM_GENERIC
  | OP_MOVE_TO_GENERIC
  | OP_VEC_PACK
  | OP_VEC_LEN
  | OP_VEC_IMM_BORROW
  | OP_VEC_MUT_BORROW
  | OP_VEC_PUSH_BACK
  | OP_VEC_POP_BACK
  | OP_VEC_UNPACK
  | OP_VEC_SWAP

definition opcode_as_u8 :: "opcodes \<Rightarrow> u8" where
  "opcode_as_u8 opcode =
     (case opcode of
        OP_POP \<Rightarrow> 0x01
      | OP_RET \<Rightarrow> 0x02
      | OP_BR_TRUE \<Rightarrow> 0x03
      | OP_BR_FALSE \<Rightarrow> 0x04
      | OP_BRANCH \<Rightarrow> 0x05
      | OP_LD_U64 \<Rightarrow> 0x06
      | OP_LD_CONST \<Rightarrow> 0x07
      | OP_LD_TRUE \<Rightarrow> 0x08
      | OP_LD_FALSE \<Rightarrow> 0x09
      | OP_COPY_LOC \<Rightarrow> 0x0A
      | OP_MOVE_LOC \<Rightarrow> 0x0B
      | OP_ST_LOC \<Rightarrow> 0x0C
      | OP_MUT_BORROW_LOC \<Rightarrow> 0x0D
      | OP_IMM_BORROW_LOC \<Rightarrow> 0x0E
      | OP_MUT_BORROW_FIELD \<Rightarrow> 0x0F
      | OP_IMM_BORROW_FIELD \<Rightarrow> 0x10
      | OP_CALL \<Rightarrow> 0x11
      | OP_PACK \<Rightarrow> 0x12
      | OP_UNPACK \<Rightarrow> 0x13
      | OP_READ_REF \<Rightarrow> 0x14
      | OP_WRITE_REF \<Rightarrow> 0x15
      | OP_ADD \<Rightarrow> 0x16
      | OP_SUB \<Rightarrow> 0x17
      | OP_MUL \<Rightarrow> 0x18
      | OP_MOD \<Rightarrow> 0x19
      | OP_DIV \<Rightarrow> 0x1A
      | OP_BIT_OR \<Rightarrow> 0x1B
      | OP_BIT_AND \<Rightarrow> 0x1C
      | OP_XOR \<Rightarrow> 0x1D
      | OP_OR \<Rightarrow> 0x1E
      | OP_AND \<Rightarrow> 0x1F
      | OP_NOT \<Rightarrow> 0x20
      | OP_EQ \<Rightarrow> 0x21
      | OP_NEQ \<Rightarrow> 0x22
      | OP_LT \<Rightarrow> 0x23
      | OP_GT \<Rightarrow> 0x24
      | OP_LE \<Rightarrow> 0x25
      | OP_GE \<Rightarrow> 0x26
      | OP_ABORT \<Rightarrow> 0x27
      | OP_NOP \<Rightarrow> 0x28
      | OP_EXISTS \<Rightarrow> 0x29
      | OP_MUT_BORROW_GLOBAL \<Rightarrow> 0x2A
      | OP_IMM_BORROW_GLOBAL \<Rightarrow> 0x2B
      | OP_MOVE_FROM \<Rightarrow> 0x2C
      | OP_MOVE_TO \<Rightarrow> 0x2D
      | OP_FREEZE_REF \<Rightarrow> 0x2E
      | OP_SHL \<Rightarrow> 0x2F
      | OP_SHR \<Rightarrow> 0x30
      | OP_LD_U8 \<Rightarrow> 0x31
      | OP_LD_U128 \<Rightarrow> 0x32
      | OP_CAST_U8 \<Rightarrow> 0x33
      | OP_CAST_U64 \<Rightarrow> 0x34
      | OP_CAST_U128 \<Rightarrow> 0x35
      | OP_MUT_BORROW_FIELD_GENERIC \<Rightarrow> 0x36
      | OP_IMM_BORROW_FIELD_GENERIC \<Rightarrow> 0x37
      | OP_CALL_GENERIC \<Rightarrow> 0x38
      | OP_PACK_GENERIC \<Rightarrow> 0x39
      | OP_UNPACK_GENERIC \<Rightarrow> 0x3A
      | OP_EXISTS_GENERIC \<Rightarrow> 0x3B
      | OP_MUT_BORROW_GLOBAL_GENERIC \<Rightarrow> 0x3C
      | OP_IMM_BORROW_GLOBAL_GENERIC \<Rightarrow> 0x3D
      | OP_MOVE_FROM_GENERIC \<Rightarrow> 0x3E
      | OP_MOVE_TO_GENERIC \<Rightarrow> 0x3F
      | OP_VEC_PACK \<Rightarrow> 0x40
      | OP_VEC_LEN \<Rightarrow> 0x41
      | OP_VEC_IMM_BORROW \<Rightarrow> 0x42
      | OP_VEC_MUT_BORROW \<Rightarrow> 0x43
      | OP_VEC_PUSH_BACK \<Rightarrow> 0x44
      | OP_VEC_POP_BACK \<Rightarrow> 0x45
      | OP_VEC_UNPACK \<Rightarrow> 0x46
      | OP_VEC_SWAP \<Rightarrow> 0x47)"

definition instruction_key :: "bytecode \<Rightarrow> u8" where
  "instruction_key instruction =
     opcode_as_u8 (case instruction of
        Pop \<Rightarrow> OP_POP
      | Ret \<Rightarrow> OP_RET
      | BrTrue _ \<Rightarrow> OP_BR_TRUE
      | BrFalse _ \<Rightarrow> OP_BR_FALSE
      | Branch _ \<Rightarrow> OP_BRANCH
      | LdU8 _ \<Rightarrow> OP_LD_U8
      | LdU64 _ \<Rightarrow> OP_LD_U64
      | LdU128 _ \<Rightarrow> OP_LD_U128
      | CastU8 \<Rightarrow> OP_CAST_U8
      | CastU64 \<Rightarrow> OP_CAST_U64
      | CastU128 \<Rightarrow> OP_CAST_U128
      | LdConst _ \<Rightarrow> OP_LD_CONST
      | LdTrue \<Rightarrow> OP_LD_TRUE
      | LdFalse \<Rightarrow> OP_LD_FALSE
      | CopyLoc _ \<Rightarrow> OP_COPY_LOC
      | MoveLoc _ \<Rightarrow> OP_MOVE_LOC
      | StLoc _ \<Rightarrow> OP_ST_LOC
      | Call _ \<Rightarrow> OP_CALL
      | CallGeneric _ \<Rightarrow> OP_CALL_GENERIC
      | Pack _ \<Rightarrow> OP_PACK
      | PackGeneric _ \<Rightarrow> OP_PACK_GENERIC
      | Unpack _ \<Rightarrow> OP_UNPACK
      | UnpackGeneric _ \<Rightarrow> OP_UNPACK_GENERIC
      | ReadRef \<Rightarrow> OP_READ_REF
      | WriteRef \<Rightarrow> OP_WRITE_REF
      | FreezeRef \<Rightarrow> OP_FREEZE_REF
      | MutBorrowLoc _ \<Rightarrow> OP_MUT_BORROW_LOC
      | ImmBorrowLoc _ \<Rightarrow> OP_IMM_BORROW_LOC
      | MutBorrowField _ \<Rightarrow> OP_MUT_BORROW_FIELD
      | MutBorrowFieldGeneric _ \<Rightarrow> OP_MUT_BORROW_FIELD_GENERIC
      | ImmBorrowField _ \<Rightarrow> OP_IMM_BORROW_FIELD
      | ImmBorrowFieldGeneric _ \<Rightarrow> OP_IMM_BORROW_FIELD_GENERIC
      | MutBorrowGlobal _ \<Rightarrow> OP_MUT_BORROW_GLOBAL
      | MutBorrowGlobalGeneric _ \<Rightarrow> OP_MUT_BORROW_GLOBAL_GENERIC
      | ImmBorrowGlobal _ \<Rightarrow> OP_IMM_BORROW_GLOBAL
      | ImmBorrowGlobalGeneric _ \<Rightarrow> OP_IMM_BORROW_GLOBAL_GENERIC
      | Add \<Rightarrow> OP_ADD
      | Sub \<Rightarrow> OP_SUB
      | Mul \<Rightarrow> OP_MUL
      | Mod \<Rightarrow> OP_MOD
      | Div \<Rightarrow> OP_DIV
      | BitOr \<Rightarrow> OP_BIT_OR
      | BitAnd \<Rightarrow> OP_BIT_AND
      | Xor \<Rightarrow> OP_XOR
      | Shl \<Rightarrow> OP_SHL
      | Shr \<Rightarrow> OP_SHR
      | OrOp \<Rightarrow> OP_OR
      | AndOp \<Rightarrow> OP_AND
      | NotOp \<Rightarrow> OP_NOT
      | Eq \<Rightarrow> OP_EQ
      | Neq \<Rightarrow> OP_NEQ
      | Lt \<Rightarrow> OP_LT
      | Gt \<Rightarrow> OP_GT
      | Le \<Rightarrow> OP_LE
      | Ge \<Rightarrow> OP_GE
      | Abort \<Rightarrow> OP_ABORT
      | Nop \<Rightarrow> OP_NOP
      | Exists _ \<Rightarrow> OP_EXISTS
      | ExistsGeneric _ \<Rightarrow> OP_EXISTS_GENERIC
      | MoveFrom _ \<Rightarrow> OP_MOVE_FROM
      | MoveFromGeneric _ \<Rightarrow> OP_MOVE_FROM_GENERIC
      | MoveTo _ \<Rightarrow> OP_MOVE_TO
      | MoveToGeneric _ \<Rightarrow> OP_MOVE_TO_GENERIC
      | VecPack _ _ \<Rightarrow> OP_VEC_PACK
      | VecLen _ \<Rightarrow> OP_VEC_LEN
      | VecImmBorrow _ \<Rightarrow> OP_VEC_IMM_BORROW
      | VecMutBorrow _ \<Rightarrow> OP_VEC_MUT_BORROW
      | VecPushBack _ \<Rightarrow> OP_VEC_PUSH_BACK
      | VecPopBack _ \<Rightarrow> OP_VEC_POP_BACK
      | VecUnpack _ _ \<Rightarrow> OP_VEC_UNPACK
      | VecSwap _ \<Rightarrow> OP_VEC_SWAP)"

section \<open>The growing binary\<close>

type_synonym 'a anyhow_result = "('a, unit) result"
type_synonym binary_data = "u8 list"
type_synonym writer = "binary_data \<Rightarrow> binary_data anyhow_result"

abbreviation BINARY_SIZE_LIMIT :: nat where
  "BINARY_SIZE_LIMIT \<equiv> 2 ^ 64 - 1"

definition binary_push :: "u8 \<Rightarrow> writer" where
  "binary_push item binary =
     (if length binary + 1 \<le> BINARY_SIZE_LIMIT then Ok (binary @ [item]) else Err ())"

definition binary_extend :: "u8 list \<Rightarrow> writer" where
  "binary_extend vec binary =
     (if length binary + length vec \<le> BINARY_SIZE_LIMIT then Ok (binary @ vec) else Err ())"

section \<open>Integers\<close>

text \<open>\<^verbatim>\<open>to_le_bytes\<close> and \<^verbatim>\<open>from_le_bytes\<close> of an integer of \<open>n\<close> bytes.\<close>

primrec to_le_bytes :: "nat \<Rightarrow> 'a::len word \<Rightarrow> u8 list" where
  "to_le_bytes 0 val = []"
| "to_le_bytes (Suc n) val = ucast val # to_le_bytes n (drop_bit 8 val)"

primrec from_le_bytes :: "u8 list \<Rightarrow> 'a::len word" where
  "from_le_bytes [] = 0"
| "from_le_bytes (byte # bytes) = ucast byte OR push_bit 8 (from_le_bytes bytes)"

definition write_u32 :: "u32 \<Rightarrow> writer" where
  "write_u32 val = binary_extend (to_le_bytes 4 val)"

definition write_u64 :: "u64 \<Rightarrow> writer" where
  "write_u64 val = binary_extend (to_le_bytes 8 val)"

definition write_u128 :: "u128 \<Rightarrow> writer" where
  "write_u128 val = binary_extend (to_le_bytes 16 val)"

lemma and_7f: "(v :: 'a::len word) AND 0x7f = take_bit 7 v"
  by (simp add: take_bit_eq_mask mask_eq_exp_minus_1)

lemma uleb_step: 
  assumes "(v :: u64) AND 0x7f \<noteq> v"
  shows "unat (drop_bit 7 v) < unat v"
proof -
  have "unat v \<noteq> 0" using assms by (metis unat_eq_zero and_zero_eq bit.conj_zero_left)
  then show ?thesis by (simp add: drop_bit_eq_div unat_div)
qed

function write_u64_as_uleb128 :: "u64 \<Rightarrow> writer" where
  "write_u64_as_uleb128 val binary =
     (let cur = val AND 0x7f in
      if cur \<noteq> val
      then rbind (binary_push (ucast (cur OR 0x80)) binary)
             (\<lambda>binary. write_u64_as_uleb128 (drop_bit 7 val) binary)
      else binary_push (ucast cur) binary)"
  by pat_completeness auto
termination
  by (relation "measure (\<lambda>(val, _). unat val)") (simp_all add: uleb_step)

declare write_u64_as_uleb128.simps [simp del]

section \<open>Cursors\<close>

record versioned_cursor =
  vc_version :: u32
  vc_position :: nat
  vc_rest :: "u8 list"

record versioned_binary =
  vb_version :: u32
  vb_binary :: "u8 list"

type_synonym 'a io_reader = "versioned_cursor \<Rightarrow> ('a \<times> versioned_cursor) anyhow_result"
type_synonym 'a reader = "versioned_cursor \<Rightarrow> ('a \<times> versioned_cursor) vm_result"

definition advance :: "nat \<Rightarrow> versioned_cursor \<Rightarrow> versioned_cursor" where
  "advance n c = c\<lparr>vc_position := vc_position c + n, vc_rest := drop n (vc_rest c)\<rparr>"

text \<open>
  \<^verbatim>\<open>Read::read\<close> and \<^verbatim>\<open>Read::read_exact\<close> of a \<^verbatim>\<open>Cursor\<close> into a buffer of \<open>n\<close> bytes: the first reads
  as many bytes as there are, the second fails when there are fewer than \<open>n\<close>.
\<close>

definition cursor_read :: "nat \<Rightarrow> u8 list io_reader" where
  "cursor_read n c =
     (let count = min n (length (vc_rest c)) in Ok (take count (vc_rest c), advance count c))"

definition read_exact :: "nat \<Rightarrow> u8 list io_reader" where
  "read_exact n c =
     (if n \<le> length (vc_rest c) then Ok (take n (vc_rest c), advance n c) else Err ())"

definition read_u8 :: "u8 io_reader" where
  "read_u8 c = rbind (read_exact 1 c) (\<lambda>(buf, c). rbind (vec_index buf 0) (\<lambda>byte. Ok (byte, c)))"

definition read_u32 :: "u32 io_reader" where
  "read_u32 c = rbind (read_exact 4 c) (\<lambda>(buf, c). Ok (from_le_bytes buf, c))"

text \<open>
  \<^verbatim>\<open>read_uleb128_as_u64\<close>: the loop reads a byte as long as there is one; \<open>shift\<close> is at most 63
  whenever the loop body runs.
\<close>

lemma read_u8_cases:
  "read_u8 c = (case vc_rest c of [] \<Rightarrow> Err () | byte # _ \<Rightarrow> Ok (byte, advance 1 c))"
  by (cases "vc_rest c") (simp_all add: read_u8_def read_exact_def)

function read_uleb128_loop :: "u64 \<Rightarrow> nat \<Rightarrow> u64 io_reader" where
  "read_uleb128_loop val shift c =
     (case read_u8 c of
        Ok (byte, c) \<Rightarrow>
          (let cur = ucast (byte AND 0x7f) :: u64 in
           if drop_bit shift (push_bit shift cur) \<noteq> cur then Err ()
           else
             let val = val OR push_bit shift cur in
             if byte AND 0x80 = 0
             then (if shift > 0 \<and> cur = 0 then Err () else Ok (val, c))
             else
               let shift = shift + 7 in
               if shift > 64 then Err () else read_uleb128_loop val shift c)
      | _ \<Rightarrow> Err ())"
  by pat_completeness auto
termination
  by (relation "measure (\<lambda>(_, _, c). length (vc_rest c))")
     (auto simp: read_u8_cases advance_def split: list.splits)

declare read_uleb128_loop.simps [simp del]

definition read_uleb128_as_u64 :: "u64 io_reader" where
  "read_uleb128_as_u64 = read_uleb128_loop 0 0"

section \<open>The header and tables of a binary\<close>

definition versioned_binary_new :: "u8 list \<Rightarrow> (versioned_binary \<times> versioned_cursor) vm_result" where
  "versioned_binary_new binary =
     (let cursor = \<lparr>vc_version = 0, vc_position = 0, vc_rest = binary\<rparr> in
      case cursor_read 4 cursor of
        Ok (magic, cursor) \<Rightarrow>
          if length magic \<noteq> 4 \<or> magic \<noteq> DIEM_MAGIC then Err (new_error BAD_MAGIC)
          else
            (case read_u32 cursor of
               Ok (version, cursor) \<Rightarrow>
                 if version = 0 \<or> VERSION_MAX < version then Err (new_error UNKNOWN_VERSION)
                 else Ok (\<lparr>vb_version = version, vb_binary = binary\<rparr>, cursor)
             | _ \<Rightarrow> Err (new_error MALFORMED))
      | _ \<Rightarrow> Err (new_error MALFORMED))"

definition versioned_cursor_new :: "u8 list \<Rightarrow> versioned_cursor vm_result" where
  "versioned_cursor_new binary =
     rbind (versioned_binary_new binary) (\<lambda>(binary, cursor). Ok (cursor\<lparr>vc_version := vb_version binary\<rparr>))"

text \<open>Slicing \<^verbatim>\<open>&binary[start..end]\<close> panics out of range.\<close>

definition binary_slice :: "versioned_binary \<Rightarrow> nat \<Rightarrow> nat \<Rightarrow> u8 list vm_result" where
  "binary_slice binary start stop =
     (if start \<le> stop \<and> stop \<le> length (vb_binary binary)
      then Ok (take (stop - start) (drop start (vb_binary binary))) else Panic)"

definition new_cursor :: "versioned_binary \<Rightarrow> nat \<Rightarrow> nat \<Rightarrow> versioned_cursor vm_result" where
  "new_cursor binary start stop =
     rbind (binary_slice binary start stop)
       (\<lambda>slice. Ok \<lparr>vc_version = vb_version binary, vc_position = 0, vc_rest = slice\<rparr>)"

definition read_new_binary :: "nat \<Rightarrow> versioned_binary reader" where
  "read_new_binary n c =
     (case read_exact n c of
        Ok (buffer, c) \<Rightarrow> Ok (\<lparr>vb_version = vc_version c, vb_binary = buffer\<rparr>, c)
      | _ \<Rightarrow> Err (new_error MALFORMED))"

end
