(* ===== verification/Uleb128.thy ===== *)
theory Uleb128
  imports Binary_Format
begin

text \<open>
  The integers of the binary format are read back: little endian words, and ULEB128 integers, for
  which the reader accepts the output of the writer and nothing else.
\<close>

section \<open>Integers are read back\<close>

lemma length_to_le_bytes [simp]: "length (to_le_bytes n val) = n"
  by (induction n arbitrary: val) simp_all

lemma from_to_le_bytes: "from_le_bytes (to_le_bytes n val) = take_bit (8 * n) (val :: 'a::len word)"
proof (induction n arbitrary: val)
  case 0
  then show ?case by simp
next
  case (Suc n)
  have "ucast (ucast val :: u8) OR push_bit 8 (take_bit (8 * n) (drop_bit 8 val))
      = take_bit (8 * Suc n) val"
    by (rule bit_word_eqI)
       (auto simp: bit_or_iff bit_ucast_iff bit_push_bit_iff bit_take_bit_iff bit_drop_bit_eq)
  then show ?case by (simp add: Suc.IH)
qed

text \<open>The bytes of a ULEB128 integer.\<close>

function uleb128 :: "u64 \<Rightarrow> u8 list" where
  "uleb128 val =
     (if val AND 0x7f \<noteq> val then ucast (val AND 0x7f OR 0x80) # uleb128 (drop_bit 7 val)
      else [ucast val])"
  by pat_completeness auto
termination
  by (relation "measure unat") (simp_all add: uleb_step)

declare uleb128.simps [simp del]

lemma uleb128_nonempty [simp]: "uleb128 val \<noteq> []"
  by (simp add: uleb128.simps)

lemma write_uleb128_Ok:
  "write_u64_as_uleb128 val binary = Ok binary' \<longleftrightarrow>
     binary' = binary @ uleb128 val \<and> length binary' \<le> BINARY_SIZE_LIMIT"
proof (induction val arbitrary: binary rule: uleb128.induct)
  case (1 val)
  show ?case
  proof (cases "val AND 0x7f = val")
    case True
    then show ?thesis
      by (auto simp: write_u64_as_uleb128.simps uleb128.simps binary_push_def)
  next
    case False
    then show ?thesis
      using 1 by (auto simp: write_u64_as_uleb128.simps[of val] uleb128.simps[of val]
          binary_push_def ok_iff)
  qed
qed

lemma write_uleb128_not_Panic [no_panic]: "write_u64_as_uleb128 val binary \<noteq> Panic"
proof (induction val arbitrary: binary rule: uleb128.induct)
  case (1 val)
  then show ?case
    by (auto simp: write_u64_as_uleb128.simps[of val] binary_push_def no_panic Let_def
        split: if_splits)
qed

lemma bit_80: "bit (0x80 :: int) n \<longleftrightarrow> n = 7" "bit (0x80 :: nat) n \<longleftrightarrow> n = 7"
proof -
  have "(0x80 :: int) = 2 ^ 7" "(0x80 :: nat) = 2 ^ 7" by simp_all
  then show "bit (0x80 :: int) n \<longleftrightarrow> n = 7" "bit (0x80 :: nat) n \<longleftrightarrow> n = 7"
    by (auto simp only: bit_exp_iff possible_bit_int possible_bit_nat)
qed

text \<open>The low seven bits of a byte and its continuation bit.\<close>

lemma uleb_byte_last:
  assumes "(v :: u64) AND 0x7f = v"
  shows "ucast ((ucast v :: u8) AND 0x7f) = v" "(ucast v :: u8) AND 0x80 = 0"
proof -
  have bits: "bit v n \<Longrightarrow> n < 7" for n
    using assms by (metis and_7f bit_take_bit_iff)
  show "ucast ((ucast v :: u8) AND 0x7f) = v"
    unfolding and_7f by (rule bit_word_eqI) (auto simp: bit_ucast_iff bit_take_bit_iff dest: bits)
  show "(ucast v :: u8) AND 0x80 = 0"
    by (rule bit_word_eqI) (auto simp: bit_and_iff bit_ucast_iff bit_80 dest: bits)
qed

lemma uleb_byte_more:
  "ucast ((ucast (v AND 0x7f OR 0x80) :: u8) AND 0x7f) = (v :: u64) AND 0x7f"
  "(ucast ((v :: u64) AND 0x7f OR 0x80) :: u8) AND 0x80 \<noteq> 0"
proof -
  show "ucast ((ucast (v AND 0x7f OR 0x80) :: u8) AND 0x7f) = v AND 0x7f"
    unfolding and_7f
    by (rule bit_word_eqI) (auto simp: bit_ucast_iff bit_take_bit_iff bit_or_iff bit_80)
  have "bit ((ucast (v AND 0x7f OR 0x80) :: u8) AND 0x80) 7"
    by (simp add: bit_and_iff bit_ucast_iff bit_or_iff bit_80)
  then show "(ucast (v AND 0x7f OR 0x80) :: u8) AND 0x80 \<noteq> 0" by auto
qed

lemma advance_advance [simp]: "advance m (advance n c) = advance (n + m) c"
  by (simp add: advance_def add.commute add.left_commute)

lemma vc_rest_advance [simp]: "vc_rest (advance n c) = drop n (vc_rest c)"
  by (simp add: advance_def)

lemma vc_version_advance [simp]: "vc_version (advance n c) = vc_version c"
  by (simp add: advance_def)

lemma advance_0 [simp]: "advance 0 c = c"
  by (simp add: advance_def)

text \<open>A number \<open>v\<close> shifted by \<open>s\<close> does not lose bits.\<close>

definition shift_fits :: "nat \<Rightarrow> u64 \<Rightarrow> bool" where
  "shift_fits s v \<longleftrightarrow> drop_bit s (push_bit s v) = v"

lemma shift_fits_bits: "shift_fits s v \<longleftrightarrow> (\<forall>n. bit v n \<longrightarrow> n + s < 64)"
proof
  assume fits: "shift_fits s v"
  show "\<forall>n. bit v n \<longrightarrow> n + s < 64"
  proof (intro allI impI)
    fix n
    assume "bit v n"
    then have "bit (drop_bit s (push_bit s v)) n"
      using fits by (simp add: shift_fits_def)
    then show "n + s < 64"
      by (auto simp: bit_drop_bit_eq bit_push_bit_iff dest: bit_imp_le_length)
  qed
next
  assume "\<forall>n. bit v n \<longrightarrow> n + s < 64"
  then show "shift_fits s v"
    unfolding shift_fits_def
    by (intro bit_word_eqI) (auto simp: bit_drop_bit_eq bit_push_bit_iff)
qed

lemma uleb_split_bits: "push_bit s (v AND 0x7f) OR push_bit (s + 7) (drop_bit 7 v) = push_bit s (v :: u64)"
  unfolding and_7f
  by (rule bit_word_eqI)
     (auto simp: bit_or_iff bit_push_bit_iff bit_take_bit_iff bit_drop_bit_eq not_less
        intro: ccontr[where P = "_ < (7 :: nat)"])

lemma uleb_more_bits:
  assumes "(v :: u64) AND 0x7f \<noteq> v"
  obtains n where "bit v n" "7 \<le> n"
proof -
  have "\<exists>n. bit v n \<and> 7 \<le> n"
  proof (rule ccontr)
    assume none: "\<not> (\<exists>n. bit v n \<and> 7 \<le> n)"
    have "v AND 0x7f = v"
      unfolding and_7f by (rule bit_word_eqI) (use none in \<open>auto simp: bit_take_bit_iff not_le\<close>)
    with assms show False ..
  qed
  then show ?thesis using that by blast
qed

lemma read_uleb128_loop_written:
  assumes "shift_fits s v" "s > 0 \<Longrightarrow> v \<noteq> 0" "vc_rest c = uleb128 v @ rest"
  shows "read_uleb128_loop val s c = Ok (val OR push_bit s v, advance (length (uleb128 v)) c)"
  using assms
proof (induction v arbitrary: val s c rule: uleb128.induct)
  case (1 v)
  show ?case
  proof (cases "v AND 0x7f = v")
    case True
    then show ?thesis
      using 1(2-4)
      by (cases "s = 0") (simp_all add: read_uleb128_loop.simps read_u8_cases uleb128.simps uleb_byte_last Let_def
          shift_fits_def)
  next
    case False
    obtain n where n: "bit v n" "7 \<le> n"
      using False by (rule uleb_more_bits)
    have bits: "\<And>n. bit v n \<Longrightarrow> n + s < 64"
      using 1(2) by (simp add: shift_fits_bits)
    have fits: "shift_fits s (v AND 0x7f)"
      unfolding shift_fits_bits by (auto simp: bit_and_iff dest: bits)
    have fits': "shift_fits (s + 7) (drop_bit 7 v)"
      unfolding shift_fits_bits by (auto simp: bit_drop_bit_eq dest: bits)
    have "bit (drop_bit 7 v) (n - 7)"
      using n by (simp add: bit_drop_bit_eq)
    then have nonzero: "drop_bit 7 v \<noteq> 0" by auto
    have small: "\<not> s + 7 > 64" using bits[OF n(1)] n(2) by simp
    have rest: "vc_rest c = ucast (v AND 0x7f OR 0x80) # uleb128 (drop_bit 7 v) @ rest"
      using 1(4) False by (simp add: uleb128.simps[of v])
    have "read_uleb128_loop val s c
        = read_uleb128_loop (val OR push_bit s (v AND 0x7f)) (s + 7) (advance 1 c)"
      using fits small
      by (simp add: read_uleb128_loop.simps[of val] read_u8_cases rest uleb_byte_more Let_def
          shift_fits_def)
    also have "\<dots> = Ok ((val OR push_bit s (v AND 0x7f)) OR push_bit (s + 7) (drop_bit 7 v),
        advance (length (uleb128 (drop_bit 7 v))) (advance 1 c))"
      using False fits' nonzero rest by (intro 1(1)) simp_all
    finally show ?thesis
      using False by (simp add: uleb128.simps[of v] or.assoc uleb_split_bits del: push_bit_and)
  qed
qed

lemma read_uleb128_written:
  "vc_rest c = uleb128 v @ rest \<Longrightarrow>
     read_uleb128_as_u64 c = Ok (v, advance (length (uleb128 v)) c)"
  using read_uleb128_loop_written[of 0 v c rest 0]
  by (simp add: read_uleb128_as_u64_def shift_fits_def)

text \<open>Conversely, the reader only accepts what the writer produces.\<close>

lemma uleb_byte_read:
  fixes byte :: u8
  defines "cur \<equiv> ucast (byte AND 0x7f) :: u64"
  shows "cur AND 0x7f = cur"
    and "byte AND 0x80 = 0 \<Longrightarrow> ucast cur = byte"
    and "byte AND 0x80 \<noteq> 0 \<Longrightarrow> ucast (cur OR 0x80) = byte"
proof -
  show "cur AND 0x7f = cur"
    unfolding cur_def and_7f
    by (rule bit_word_eqI) (auto simp: bit_ucast_iff bit_take_bit_iff)
  have bit7: "bit byte 7 \<longleftrightarrow> byte AND 0x80 \<noteq> 0"
  proof -
    have "bit (byte AND 0x80) n \<longleftrightarrow> n = 7 \<and> bit byte 7" for n
      by (auto simp: bit_and_iff bit_80)
    then show ?thesis by (metis bit_0_eq bot_apply bot_bool_def bit_word_eqI)
  qed
  have less8: "n < 8 \<Longrightarrow> n = 7 \<or> n < 7" for n :: nat by auto
  show "byte AND 0x80 = 0 \<Longrightarrow> ucast cur = byte"
    unfolding cur_def and_7f using bit7
    by (intro bit_word_eqI) (auto simp: bit_ucast_iff bit_take_bit_iff dest!: less8)
  show "byte AND 0x80 \<noteq> 0 \<Longrightarrow> ucast (cur OR 0x80) = byte"
    unfolding cur_def and_7f using bit7
    by (intro bit_word_eqI)
       (auto simp: bit_ucast_iff bit_take_bit_iff bit_or_iff bit_80 dest!: less8)
qed

lemma uleb_join_bits:
  assumes cur: "(cur :: u64) AND 0x7f = cur" and fits: "shift_fits (s + 7) v" and "v \<noteq> 0"
  shows "(cur OR push_bit 7 v) AND 0x7f = cur" "drop_bit 7 (cur OR push_bit 7 v) = v"
    "(cur OR push_bit 7 v) AND 0x7f \<noteq> cur OR push_bit 7 v"
    "shift_fits s cur \<Longrightarrow> shift_fits s (cur OR push_bit 7 v)"
proof -
  have low: "bit cur n \<Longrightarrow> n < 7" for n using cur by (metis and_7f bit_take_bit_iff)
  have high: "bit v n \<Longrightarrow> n + s + 7 < 64" for n using fits by (simp add: shift_fits_bits add.assoc)
  show eq: "(cur OR push_bit 7 v) AND 0x7f = cur"
    unfolding and_7f
    by (rule bit_word_eqI) (auto simp: bit_take_bit_iff bit_or_iff bit_push_bit_iff dest: low)
  show v: "drop_bit 7 (cur OR push_bit 7 v) = v"
    by (rule bit_word_eqI)
       (auto simp: bit_drop_bit_eq bit_or_iff bit_push_bit_iff dest: low high)
  have "drop_bit 7 cur = 0"
    by (rule bit_word_eqI) (auto simp: bit_drop_bit_eq dest: low)
  then show "(cur OR push_bit 7 v) AND 0x7f \<noteq> cur OR push_bit 7 v"
    using eq v \<open>v \<noteq> 0\<close> by metis
  assume "shift_fits s cur"
  then have "bit cur n \<Longrightarrow> n + s < 64" for n by (simp add: shift_fits_bits)
  moreover have "bit v (n - 7) \<Longrightarrow> 7 \<le> n \<Longrightarrow> n + s < 64" for n using high[of "n - 7"] by simp
  ultimately show "shift_fits s (cur OR push_bit 7 v)"
    unfolding shift_fits_bits by (auto simp: bit_or_iff bit_push_bit_iff)
qed

lemma read_uleb128_loop_Ok:
  assumes "read_uleb128_loop val s c = Ok (x, c')" "s \<le> 63" "7 dvd s"
  shows "\<exists>v. x = val OR push_bit s v \<and> shift_fits s v \<and> (s > 0 \<longrightarrow> v \<noteq> 0) \<and>
    (\<exists>rest. vc_rest c = uleb128 v @ rest) \<and> c' = advance (length (uleb128 v)) c"
  using assms
proof (induction "vc_rest c" arbitrary: val s c)
  case Nil
  then show ?case by (simp add: read_uleb128_loop.simps[of val] read_u8_cases flip: Nil.hyps)
next
  case (Cons byte rest)
  note read = Cons.prems(1) and rest = Cons.hyps(2)[symmetric]
  define cur :: u64 where "cur = ucast (byte AND 0x7f)"
  have fits: "shift_fits s cur"
    using read by (auto simp: read_uleb128_loop.simps[of val] read_u8_cases rest Let_def cur_def
        shift_fits_def split: if_splits)
  have cur: "cur AND 0x7f = cur" by (simp add: cur_def uleb_byte_read)
  show ?case
  proof (cases "byte AND 0x80 = 0")
    case True
    then have "ucast cur = byte" by (simp add: cur_def uleb_byte_read)
    then have "uleb128 cur = [byte]" using cur by (simp add: uleb128.simps[of cur])
    moreover have "x = val OR push_bit s cur" "c' = advance 1 c" "s > 0 \<longrightarrow> cur \<noteq> 0"
      using read True by (auto simp: read_uleb128_loop.simps[of val] read_u8_cases rest Let_def
          cur_def split: if_splits)
    ultimately show ?thesis using fits rest by auto
  next
    case False
    have more: "s + 7 \<le> 64" "read_uleb128_loop (val OR push_bit s cur) (s + 7) (advance 1 c) = Ok (x, c')"
      using read False by (auto simp: read_uleb128_loop.simps[of val] read_u8_cases rest Let_def
          cur_def split: if_splits)
    have s: "s + 7 \<le> 63" "7 dvd s + 7" using more(1) Cons.prems(3) by (auto elim!: dvdE)
    have "\<exists>v. x = (val OR push_bit s cur) OR push_bit (s + 7) v \<and> shift_fits (s + 7) v \<and>
        (s + 7 > 0 \<longrightarrow> v \<noteq> 0) \<and> (\<exists>rest. vc_rest (advance 1 c) = uleb128 v @ rest) \<and>
        c' = advance (length (uleb128 v)) (advance 1 c)"
      by (rule Cons.hyps(1)[OF _ more(2) s]) (simp add: rest)
    then obtain v rest' where v: "x = (val OR push_bit s cur) OR push_bit (s + 7) v"
        "shift_fits (s + 7) v" "v \<noteq> 0" "rest = uleb128 v @ rest'"
        "c' = advance (Suc (length (uleb128 v))) c"
      using rest by auto
    define joined where "joined = cur OR push_bit 7 v"
    note join = uleb_join_bits[OF cur v(2,3), folded joined_def]
    have "uleb128 joined = byte # uleb128 v"
      using join(1-3) uleb_byte_read(3)[OF False] by (simp add: uleb128.simps[of joined] cur_def)
    moreover have "x = val OR push_bit s joined"
      using v(1) by (simp add: joined_def push_bit_or or.assoc add.commute)
    moreover have "joined \<noteq> 0" using join(1,3) by auto
    ultimately show ?thesis
      using join(4)[OF fits] rest v(4,5) by (intro exI[of _ joined]) simp
  qed
qed

lemma length_uleb128_bits:
  "(\<And>n. bit v n \<Longrightarrow> n < 7 * k) \<Longrightarrow> 0 < k \<Longrightarrow> length (uleb128 v) \<le> k"
proof (induction v arbitrary: k rule: uleb128.induct)
  case (1 v)
  show ?case
  proof (cases "v AND 0x7f = v")
    case True
    then show ?thesis using 1(3) by (simp add: uleb128.simps[of v])
  next
    case False
    obtain n where n: "bit v n" "7 \<le> n" using False by (rule uleb_more_bits)
    have "length (uleb128 (drop_bit 7 v)) \<le> k - 1"
    proof (rule 1(1)[OF False])
      show "n < 7 * (k - 1)" if "bit (drop_bit 7 v) n" for n
        using 1(2)[of "7 + n"] that by (simp add: bit_drop_bit_eq diff_mult_distrib2)
      show "0 < k - 1" using 1(2)[OF n(1)] n(2) by simp
    qed
    then show ?thesis using False 1(3) by (simp add: uleb128.simps[of v])
  qed
qed

lemma length_uleb128: "length (uleb128 v) \<le> 10"
  by (rule length_uleb128_bits) (auto dest: bit_imp_le_length)

lemma write_uleb128_empty [simp]: "write_u64_as_uleb128 v [] = Ok (uleb128 v)"
  using length_uleb128[of v] by (simp add: write_uleb128_Ok)

lemma read_uleb128_Ok:
  "read_uleb128_as_u64 c = Ok (v, c') \<longleftrightarrow>
     (\<exists>rest. vc_rest c = uleb128 v @ rest) \<and> c' = advance (length (uleb128 v)) c"
proof
  assume "read_uleb128_as_u64 c = Ok (v, c')"
  then show "(\<exists>rest. vc_rest c = uleb128 v @ rest) \<and> c' = advance (length (uleb128 v)) c"
    using read_uleb128_loop_Ok[of 0 0 c v c'] by (auto simp: read_uleb128_as_u64_def)
next
  assume "(\<exists>rest. vc_rest c = uleb128 v @ rest) \<and> c' = advance (length (uleb128 v)) c"
  then show "read_uleb128_as_u64 c = Ok (v, c')" using read_uleb128_written by blast
qed

lemma read_uleb128_not_Panic [simp, no_panic]: "read_uleb128_as_u64 c \<noteq> Panic"
proof -
  have "read_uleb128_loop val s c \<noteq> Panic" for val s
  proof (induction "vc_rest c" arbitrary: val s c)
    case Nil
    then show ?case by (subst read_uleb128_loop.simps) (simp add: read_u8_cases flip: Nil.hyps)
  next
    case (Cons byte rest)
    have "read_uleb128_loop val s (advance 1 c) \<noteq> Panic" for val s
      by (rule Cons.hyps(1)) (simp flip: Cons.hyps(2))
    then show ?case
      by (subst read_uleb128_loop.simps) (simp add: read_u8_cases Let_def flip: Cons.hyps(2))
  qed
  then show ?thesis by (simp add: read_uleb128_as_u64_def)
qed

text \<open>
  C9: Integers have one encoding. Reading a ULEB128 integer succeeds with \<open>v\<close> exactly when the
  bytes at the cursor start with what the writer produces for \<open>v\<close>, and the cursor then moves past
  these bytes: the writer's output is read back, and padded, truncated or oversized encodings are
  refused.
\<close>

theorem uleb128_canonical:
  "read_uleb128_as_u64 c = Ok (v, c') \<longleftrightarrow>
     (\<exists>bytes rest. write_u64_as_uleb128 v [] = Ok bytes \<and> vc_rest c = bytes @ rest \<and>
        c' = advance (length bytes) c)"
  by (auto simp: read_uleb128_Ok)

end
