(* ===== verification/Serializer.thy ===== *)
theory Serializer
  imports Uleb128
begin

text \<open>
  The serializer of modules and scripts (\<^verbatim>\<open>move-binary-format/src/serializer.rs\<close>). A writer takes
  the binary and returns it extended, or the error of a val that is over its limit. The tables
  are first written to a binary of their own, while \<open>common_serializer\<close> and \<open>module_serializer\<close>
  record where each of them starts and how long it is; then the header, the table of contents, the
  tables and the rest are put together.
\<close>

section \<open>Indices, counts and sizes\<close>

text \<open>
  \<^verbatim>\<open>write_as_uleb128\<close> converts both of its arguments to \<^verbatim>\<open>u64\<close>; the conversion keeps the number.
\<close>

definition write_as_uleb128 :: "nat \<Rightarrow> nat \<Rightarrow> writer" where
  "write_as_uleb128 x bound binary =
     (if x > bound then Err () else write_u64_as_uleb128 (of_nat x) binary)"

text \<open>The functions that write an index into a table all have the same body.\<close>

definition serialize_table_entry_index :: "u16 \<Rightarrow> writer" where
  "serialize_table_entry_index idx = write_as_uleb128 (unat idx) TABLE_INDEX_MAX"

abbreviation serialize_signature_index :: "signature_index \<Rightarrow> writer" where
  "serialize_signature_index \<equiv> serialize_table_entry_index"

abbreviation serialize_module_handle_index :: "module_handle_index \<Rightarrow> writer" where
  "serialize_module_handle_index \<equiv> serialize_table_entry_index"

abbreviation serialize_identifier_index :: "identifier_index \<Rightarrow> writer" where
  "serialize_identifier_index \<equiv> serialize_table_entry_index"

abbreviation serialize_struct_handle_index :: "struct_handle_index \<Rightarrow> writer" where
  "serialize_struct_handle_index \<equiv> serialize_table_entry_index"

abbreviation serialize_address_identifier_index :: "address_identifier_index \<Rightarrow> writer" where
  "serialize_address_identifier_index \<equiv> serialize_table_entry_index"

abbreviation serialize_struct_def_index :: "struct_definition_index \<Rightarrow> writer" where
  "serialize_struct_def_index \<equiv> serialize_table_entry_index"

abbreviation serialize_function_handle_index :: "function_handle_index \<Rightarrow> writer" where
  "serialize_function_handle_index \<equiv> serialize_table_entry_index"

abbreviation serialize_field_handle_index :: "field_handle_index \<Rightarrow> writer" where
  "serialize_field_handle_index \<equiv> serialize_table_entry_index"

abbreviation serialize_field_inst_index :: "field_instantiation_index \<Rightarrow> writer" where
  "serialize_field_inst_index \<equiv> serialize_table_entry_index"

abbreviation serialize_function_inst_index :: "function_instantiation_index \<Rightarrow> writer" where
  "serialize_function_inst_index \<equiv> serialize_table_entry_index"

abbreviation serialize_struct_def_inst_index :: "struct_def_instantiation_index \<Rightarrow> writer" where
  "serialize_struct_def_inst_index \<equiv> serialize_table_entry_index"

abbreviation serialize_constant_pool_index :: "constant_pool_index \<Rightarrow> writer" where
  "serialize_constant_pool_index \<equiv> serialize_table_entry_index"

abbreviation seiralize_table_offset :: "u32 \<Rightarrow> writer" where
  "seiralize_table_offset off \<equiv> write_as_uleb128 (unat off) TABLE_OFFSET_MAX"

abbreviation serialize_table_size :: "u32 \<Rightarrow> writer" where
  "serialize_table_size sz \<equiv> write_as_uleb128 (unat sz) TABLE_SIZE_MAX"

abbreviation serialize_bytecode_count :: "nat \<Rightarrow> writer" where
  "serialize_bytecode_count len \<equiv> write_as_uleb128 len BYTECODE_COUNT_MAX"

abbreviation serialize_identifier_size :: "nat \<Rightarrow> writer" where
  "serialize_identifier_size len \<equiv> write_as_uleb128 len IDENTIFIER_SIZE_MAX"

abbreviation serialize_constant_size :: "nat \<Rightarrow> writer" where
  "serialize_constant_size len \<equiv> write_as_uleb128 len CONSTANT_SIZE_MAX"

abbreviation serialize_field_count :: "nat \<Rightarrow> writer" where
  "serialize_field_count len \<equiv> write_as_uleb128 len FIELD_COUNT_MAX"

abbreviation serialize_field_offset :: "u16 \<Rightarrow> writer" where
  "serialize_field_offset off \<equiv> write_as_uleb128 (unat off) FIELD_OFFSET_MAX"

abbreviation serialize_acquires_count :: "nat \<Rightarrow> writer" where
  "serialize_acquires_count len \<equiv> write_as_uleb128 len ACQUIRES_COUNT_MAX"

abbreviation serialize_signature_size :: "nat \<Rightarrow> writer" where
  "serialize_signature_size len \<equiv> write_as_uleb128 len SIGNATURE_SIZE_MAX"

abbreviation serialize_type_parameter_index :: "u16 \<Rightarrow> writer" where
  "serialize_type_parameter_index idx \<equiv> write_as_uleb128 (unat idx) TYPE_PARAMETER_INDEX_MAX"

abbreviation serialize_type_parameter_count :: "nat \<Rightarrow> writer" where
  "serialize_type_parameter_count len \<equiv> write_as_uleb128 len TYPE_PARAMETER_COUNT_MAX"

abbreviation serialize_bytecode_offset :: "u16 \<Rightarrow> writer" where
  "serialize_bytecode_offset off \<equiv> write_as_uleb128 (unat off) BYTECODE_INDEX_MAX"

abbreviation serialize_table_count :: "u8 \<Rightarrow> writer" where
  "serialize_table_count len \<equiv> write_as_uleb128 (unat len) TABLE_COUNT_MAX"

abbreviation serialize_local_index :: "u8 \<Rightarrow> writer" where
  "serialize_local_index idx \<equiv> write_as_uleb128 (unat idx) LOCAL_INDEX_MAX"

section \<open>Types and abilities\<close>

definition serialize_ability_set :: "ability_set \<Rightarrow> writer" where
  "serialize_ability_set abilities =
     write_as_uleb128 (unat (ability_set_into_u8 abilities)) (unat (ability_set_into_u8 ability_set_ALL))"

definition serialize_ability_sets :: "ability_set list \<Rightarrow> writer" where
  "serialize_ability_sets sets binary =
     rbind (serialize_type_parameter_count (length sets) binary) (for_each serialize_ability_set sets)"

definition serialize_type_parameter :: "struct_type_parameter \<Rightarrow> writer" where
  "serialize_type_parameter type_param binary =
     rbind (serialize_ability_set (stp_constraints type_param) binary)
       (write_as_uleb128 (if stp_is_phantom type_param then 1 else 0) 1)"

definition serialize_type_parameters :: "struct_type_parameter list \<Rightarrow> writer" where
  "serialize_type_parameters type_parameters binary =
     rbind (serialize_type_parameter_count (length type_parameters) binary)
       (for_each serialize_type_parameter type_parameters)"

definition serialize_signature_token_single_node_impl :: "signature_token \<Rightarrow> writer" where
  "serialize_signature_token_single_node_impl token binary =
     (case token of
        Bool \<Rightarrow> binary_push (serialized_type_as_u8 ST_BOOL) binary
      | U8 \<Rightarrow> binary_push (serialized_type_as_u8 ST_U8) binary
      | U64 \<Rightarrow> binary_push (serialized_type_as_u8 ST_U64) binary
      | U128 \<Rightarrow> binary_push (serialized_type_as_u8 ST_U128) binary
      | Address \<Rightarrow> binary_push (serialized_type_as_u8 ST_ADDRESS) binary
      | Signer \<Rightarrow> binary_push (serialized_type_as_u8 ST_SIGNER) binary
      | Vector _ \<Rightarrow> binary_push (serialized_type_as_u8 ST_VECTOR) binary
      | Struct idx \<Rightarrow>
          rbind (binary_push (serialized_type_as_u8 ST_STRUCT) binary)
            (serialize_struct_handle_index idx)
      | StructInstantiation idx type_params \<Rightarrow>
          rbind (binary_push (serialized_type_as_u8 ST_STRUCT_INST) binary) (\<lambda>binary.
          rbind (serialize_struct_handle_index idx binary)
            (serialize_signature_size (length type_params)))
      | Reference _ \<Rightarrow> binary_push (serialized_type_as_u8 ST_REFERENCE) binary
      | MutableReference _ \<Rightarrow> binary_push (serialized_type_as_u8 ST_MUTABLE_REFERENCE) binary
      | TypeParameter idx \<Rightarrow>
          rbind (binary_push (serialized_type_as_u8 ST_TYPE_PARAMETER) binary)
            (serialize_type_parameter_index idx))"

definition serialize_signature_token :: "signature_token \<Rightarrow> writer" where
  "serialize_signature_token token =
     for_each (\<lambda>(token, depth) binary.
         if depth > SIGNATURE_TOKEN_DEPTH_MAX then Err ()
         else serialize_signature_token_single_node_impl token binary)
       (preorder_traversal_with_depth token)"

definition serialize_signature_tokens :: "signature_token list \<Rightarrow> writer" where
  "serialize_signature_tokens tokens binary =
     rbind (serialize_signature_size (length tokens) binary) (for_each serialize_signature_token tokens)"

definition serialize_signature :: "signature \<Rightarrow> writer" where
  "serialize_signature sig = serialize_signature_tokens sig"

section \<open>Handles, instantiations and definitions\<close>

definition serialize_module_handle :: "module_handle \<Rightarrow> writer" where
  "serialize_module_handle module_handle binary =
     rbind (serialize_address_identifier_index (mh_address module_handle) binary)
       (serialize_identifier_index (mh_name module_handle))"

definition serialize_struct_handle :: "struct_handle \<Rightarrow> writer" where
  "serialize_struct_handle struct_handle binary =
     rbind (serialize_module_handle_index (sh_module struct_handle) binary) (\<lambda>binary.
     rbind (serialize_identifier_index (sh_name struct_handle) binary) (\<lambda>binary.
     rbind (serialize_ability_set (sh_abilities struct_handle) binary)
       (serialize_type_parameters (sh_type_parameters struct_handle))))"

definition serialize_function_handle :: "function_handle \<Rightarrow> writer" where
  "serialize_function_handle function_handle binary =
     rbind (serialize_module_handle_index (fh_module function_handle) binary) (\<lambda>binary.
     rbind (serialize_identifier_index (fh_name function_handle) binary) (\<lambda>binary.
     rbind (serialize_signature_index (fh_parameters function_handle) binary) (\<lambda>binary.
     rbind (serialize_signature_index (fh_return function_handle) binary)
       (serialize_ability_sets (fh_type_parameters function_handle)))))"

definition serialize_function_instantiation :: "function_instantiation \<Rightarrow> writer" where
  "serialize_function_instantiation func_inst binary =
     rbind (serialize_function_handle_index (fi_handle func_inst) binary)
       (serialize_signature_index (fi_type_parameters func_inst))"

text \<open>The bytes of an identifier, which is ASCII.\<close>

definition string_bytes :: "ident_str \<Rightarrow> u8 list" where
  "string_bytes s = map (\<lambda>ch. of_nat (of_char ch)) s"

definition serialize_identifier :: "ident_str \<Rightarrow> writer" where
  "serialize_identifier string binary =
     (let bytes = string_bytes string in
      rbind (serialize_identifier_size (length bytes) binary) (for_each binary_push bytes))"

definition serialize_address :: "account_address \<Rightarrow> writer" where
  "serialize_address address = for_each binary_push address"

definition serialize_constant :: "pool_constant \<Rightarrow> writer" where
  "serialize_constant constant binary =
     rbind (serialize_signature_token (const_type constant) binary) (\<lambda>binary.
     rbind (serialize_constant_size (length (const_data constant)) binary)
       (for_each binary_push (const_data constant)))"

definition serialize_field_definition :: "field_definition \<Rightarrow> writer" where
  "serialize_field_definition field_definition binary =
     rbind (serialize_identifier_index (fdd_name field_definition) binary)
       (serialize_signature_token (fdd_signature field_definition))"

definition serialize_field_definitions :: "field_definition list \<Rightarrow> writer" where
  "serialize_field_definitions fds binary =
     rbind (serialize_field_count (length fds) binary) (for_each serialize_field_definition fds)"

definition serialize_struct_definition :: "struct_definition \<Rightarrow> writer" where
  "serialize_struct_definition struct_definition binary =
     rbind (serialize_struct_handle_index (sd_struct_handle struct_definition) binary) (\<lambda>binary.
       case sd_field_information struct_definition of
         Native \<Rightarrow> binary_push (native_struct_flag_as_u8 NSF_NATIVE) binary
       | Declared fds \<Rightarrow>
           rbind (binary_push (native_struct_flag_as_u8 NSF_DECLARED) binary)
             (serialize_field_definitions fds))"

definition serialize_struct_def_instantiation :: "struct_def_instantiation \<Rightarrow> writer" where
  "serialize_struct_def_instantiation struct_inst binary =
     rbind (serialize_struct_def_index (sdi_def struct_inst) binary)
       (serialize_signature_index (sdi_type_parameters struct_inst))"

definition serialize_field_handle :: "field_handle \<Rightarrow> writer" where
  "serialize_field_handle field_handle binary =
     rbind (serialize_struct_def_index (fdh_owner field_handle) binary)
       (serialize_field_offset (fdh_field field_handle))"

definition serialize_field_instantiation :: "field_instantiation \<Rightarrow> writer" where
  "serialize_field_instantiation field_inst binary =
     rbind (serialize_field_handle_index (fdi_handle field_inst) binary)
       (serialize_signature_index (fdi_type_parameters field_inst))"

definition serialize_acquires :: "struct_definition_index list \<Rightarrow> writer" where
  "serialize_acquires idxs binary =
     rbind (serialize_acquires_count (length idxs) binary) (for_each serialize_struct_def_index idxs)"

section \<open>Code\<close>

definition serialize_instruction_inner :: "bytecode \<Rightarrow> writer" where
  "serialize_instruction_inner opcode binary =
     (case opcode of
        FreezeRef \<Rightarrow> binary_push (opcode_as_u8 OP_FREEZE_REF) binary
      | Pop \<Rightarrow> binary_push (opcode_as_u8 OP_POP) binary
      | Ret \<Rightarrow> binary_push (opcode_as_u8 OP_RET) binary
      | BrTrue code_offset \<Rightarrow>
          rbind (binary_push (opcode_as_u8 OP_BR_TRUE) binary) (serialize_bytecode_offset code_offset)
      | BrFalse code_offset \<Rightarrow>
          rbind (binary_push (opcode_as_u8 OP_BR_FALSE) binary) (serialize_bytecode_offset code_offset)
      | Branch code_offset \<Rightarrow>
          rbind (binary_push (opcode_as_u8 OP_BRANCH) binary) (serialize_bytecode_offset code_offset)
      | LdU8 val \<Rightarrow>
          rbind (binary_push (opcode_as_u8 OP_LD_U8) binary) (binary_push val)
      | LdU64 val \<Rightarrow>
          rbind (binary_push (opcode_as_u8 OP_LD_U64) binary) (write_u64 val)
      | LdU128 val \<Rightarrow>
          rbind (binary_push (opcode_as_u8 OP_LD_U128) binary) (write_u128 val)
      | CastU8 \<Rightarrow> binary_push (opcode_as_u8 OP_CAST_U8) binary
      | CastU64 \<Rightarrow> binary_push (opcode_as_u8 OP_CAST_U64) binary
      | CastU128 \<Rightarrow> binary_push (opcode_as_u8 OP_CAST_U128) binary
      | LdConst const_idx \<Rightarrow>
          rbind (binary_push (opcode_as_u8 OP_LD_CONST) binary) (serialize_constant_pool_index const_idx)
      | LdTrue \<Rightarrow> binary_push (opcode_as_u8 OP_LD_TRUE) binary
      | LdFalse \<Rightarrow> binary_push (opcode_as_u8 OP_LD_FALSE) binary
      | CopyLoc local_idx \<Rightarrow>
          rbind (binary_push (opcode_as_u8 OP_COPY_LOC) binary) (serialize_local_index local_idx)
      | MoveLoc local_idx \<Rightarrow>
          rbind (binary_push (opcode_as_u8 OP_MOVE_LOC) binary) (serialize_local_index local_idx)
      | StLoc local_idx \<Rightarrow>
          rbind (binary_push (opcode_as_u8 OP_ST_LOC) binary) (serialize_local_index local_idx)
      | MutBorrowLoc local_idx \<Rightarrow>
          rbind (binary_push (opcode_as_u8 OP_MUT_BORROW_LOC) binary) (serialize_local_index local_idx)
      | ImmBorrowLoc local_idx \<Rightarrow>
          rbind (binary_push (opcode_as_u8 OP_IMM_BORROW_LOC) binary) (serialize_local_index local_idx)
      | MutBorrowField field_idx \<Rightarrow>
          rbind (binary_push (opcode_as_u8 OP_MUT_BORROW_FIELD) binary) (serialize_field_handle_index field_idx)
      | MutBorrowFieldGeneric field_idx \<Rightarrow>
          rbind (binary_push (opcode_as_u8 OP_MUT_BORROW_FIELD_GENERIC) binary) (serialize_field_inst_index field_idx)
      | ImmBorrowField field_idx \<Rightarrow>
          rbind (binary_push (opcode_as_u8 OP_IMM_BORROW_FIELD) binary) (serialize_field_handle_index field_idx)
      | ImmBorrowFieldGeneric field_idx \<Rightarrow>
          rbind (binary_push (opcode_as_u8 OP_IMM_BORROW_FIELD_GENERIC) binary) (serialize_field_inst_index field_idx)
      | Call method_idx \<Rightarrow>
          rbind (binary_push (opcode_as_u8 OP_CALL) binary) (serialize_function_handle_index method_idx)
      | Pack class_idx \<Rightarrow>
          rbind (binary_push (opcode_as_u8 OP_PACK) binary) (serialize_struct_def_index class_idx)
      | Unpack class_idx \<Rightarrow>
          rbind (binary_push (opcode_as_u8 OP_UNPACK) binary) (serialize_struct_def_index class_idx)
      | CallGeneric method_idx \<Rightarrow>
          rbind (binary_push (opcode_as_u8 OP_CALL_GENERIC) binary) (serialize_function_inst_index method_idx)
      | PackGeneric class_idx \<Rightarrow>
          rbind (binary_push (opcode_as_u8 OP_PACK_GENERIC) binary) (serialize_struct_def_inst_index class_idx)
      | UnpackGeneric class_idx \<Rightarrow>
          rbind (binary_push (opcode_as_u8 OP_UNPACK_GENERIC) binary) (serialize_struct_def_inst_index class_idx)
      | ReadRef \<Rightarrow> binary_push (opcode_as_u8 OP_READ_REF) binary
      | WriteRef \<Rightarrow> binary_push (opcode_as_u8 OP_WRITE_REF) binary
      | Add \<Rightarrow> binary_push (opcode_as_u8 OP_ADD) binary
      | Sub \<Rightarrow> binary_push (opcode_as_u8 OP_SUB) binary
      | Mul \<Rightarrow> binary_push (opcode_as_u8 OP_MUL) binary
      | Mod \<Rightarrow> binary_push (opcode_as_u8 OP_MOD) binary
      | Div \<Rightarrow> binary_push (opcode_as_u8 OP_DIV) binary
      | BitOr \<Rightarrow> binary_push (opcode_as_u8 OP_BIT_OR) binary
      | BitAnd \<Rightarrow> binary_push (opcode_as_u8 OP_BIT_AND) binary
      | Xor \<Rightarrow> binary_push (opcode_as_u8 OP_XOR) binary
      | Shl \<Rightarrow> binary_push (opcode_as_u8 OP_SHL) binary
      | Shr \<Rightarrow> binary_push (opcode_as_u8 OP_SHR) binary
      | OrOp \<Rightarrow> binary_push (opcode_as_u8 OP_OR) binary
      | AndOp \<Rightarrow> binary_push (opcode_as_u8 OP_AND) binary
      | NotOp \<Rightarrow> binary_push (opcode_as_u8 OP_NOT) binary
      | Eq \<Rightarrow> binary_push (opcode_as_u8 OP_EQ) binary
      | Neq \<Rightarrow> binary_push (opcode_as_u8 OP_NEQ) binary
      | Lt \<Rightarrow> binary_push (opcode_as_u8 OP_LT) binary
      | Gt \<Rightarrow> binary_push (opcode_as_u8 OP_GT) binary
      | Le \<Rightarrow> binary_push (opcode_as_u8 OP_LE) binary
      | Ge \<Rightarrow> binary_push (opcode_as_u8 OP_GE) binary
      | Abort \<Rightarrow> binary_push (opcode_as_u8 OP_ABORT) binary
      | Nop \<Rightarrow> binary_push (opcode_as_u8 OP_NOP) binary
      | Exists class_idx \<Rightarrow>
          rbind (binary_push (opcode_as_u8 OP_EXISTS) binary) (serialize_struct_def_index class_idx)
      | MutBorrowGlobal class_idx \<Rightarrow>
          rbind (binary_push (opcode_as_u8 OP_MUT_BORROW_GLOBAL) binary) (serialize_struct_def_index class_idx)
      | ImmBorrowGlobal class_idx \<Rightarrow>
          rbind (binary_push (opcode_as_u8 OP_IMM_BORROW_GLOBAL) binary) (serialize_struct_def_index class_idx)
      | MoveFrom class_idx \<Rightarrow>
          rbind (binary_push (opcode_as_u8 OP_MOVE_FROM) binary) (serialize_struct_def_index class_idx)
      | MoveTo class_idx \<Rightarrow>
          rbind (binary_push (opcode_as_u8 OP_MOVE_TO) binary) (serialize_struct_def_index class_idx)
      | ExistsGeneric class_idx \<Rightarrow>
          rbind (binary_push (opcode_as_u8 OP_EXISTS_GENERIC) binary) (serialize_struct_def_inst_index class_idx)
      | MutBorrowGlobalGeneric class_idx \<Rightarrow>
          rbind (binary_push (opcode_as_u8 OP_MUT_BORROW_GLOBAL_GENERIC) binary) (serialize_struct_def_inst_index class_idx)
      | ImmBorrowGlobalGeneric class_idx \<Rightarrow>
          rbind (binary_push (opcode_as_u8 OP_IMM_BORROW_GLOBAL_GENERIC) binary) (serialize_struct_def_inst_index class_idx)
      | MoveFromGeneric class_idx \<Rightarrow>
          rbind (binary_push (opcode_as_u8 OP_MOVE_FROM_GENERIC) binary) (serialize_struct_def_inst_index class_idx)
      | MoveToGeneric class_idx \<Rightarrow>
          rbind (binary_push (opcode_as_u8 OP_MOVE_TO_GENERIC) binary) (serialize_struct_def_inst_index class_idx)
      | VecPack sig_idx num \<Rightarrow>
          rbind (binary_push (opcode_as_u8 OP_VEC_PACK) binary) (\<lambda>binary. rbind (serialize_signature_index sig_idx binary) (write_u64 num))
      | VecLen sig_idx \<Rightarrow>
          rbind (binary_push (opcode_as_u8 OP_VEC_LEN) binary) (serialize_signature_index sig_idx)
      | VecImmBorrow sig_idx \<Rightarrow>
          rbind (binary_push (opcode_as_u8 OP_VEC_IMM_BORROW) binary) (serialize_signature_index sig_idx)
      | VecMutBorrow sig_idx \<Rightarrow>
          rbind (binary_push (opcode_as_u8 OP_VEC_MUT_BORROW) binary) (serialize_signature_index sig_idx)
      | VecPushBack sig_idx \<Rightarrow>
          rbind (binary_push (opcode_as_u8 OP_VEC_PUSH_BACK) binary) (serialize_signature_index sig_idx)
      | VecPopBack sig_idx \<Rightarrow>
          rbind (binary_push (opcode_as_u8 OP_VEC_POP_BACK) binary) (serialize_signature_index sig_idx)
      | VecUnpack sig_idx num \<Rightarrow>
          rbind (binary_push (opcode_as_u8 OP_VEC_UNPACK) binary) (\<lambda>binary. rbind (serialize_signature_index sig_idx binary) (write_u64 num))
      | VecSwap sig_idx \<Rightarrow>
          rbind (binary_push (opcode_as_u8 OP_VEC_SWAP) binary) (serialize_signature_index sig_idx))"

definition serialize_code :: "bytecode list \<Rightarrow> writer" where
  "serialize_code code binary =
     rbind (serialize_bytecode_count (length code) binary) (for_each serialize_instruction_inner code)"

definition serialize_code_unit :: "code_unit \<Rightarrow> writer" where
  "serialize_code_unit code binary =
     rbind (serialize_signature_index (cu_locals code) binary) (serialize_code (cu_code code))"

text \<open>\<^verbatim>\<open>FunctionDefinition::NATIVE\<close>, the only flag of a function definition.\<close>

definition function_definition_NATIVE :: u8 where
  "function_definition_NATIVE = 0x2"

definition serialize_function_definition :: "function_definition \<Rightarrow> writer" where
  "serialize_function_definition function_definition binary =
     rbind (serialize_function_handle_index (fd_function function_definition) binary) (\<lambda>binary.
     rbind (binary_push (visibility_as_u8 (fd_visibility function_definition)) binary) (\<lambda>binary.
     rbind (binary_push (if is_native function_definition then function_definition_NATIVE else 0) binary) (\<lambda>binary.
     rbind (serialize_acquires (fd_acquires_global_resources function_definition) binary) (\<lambda>binary.
       case fd_code function_definition of
         Some code \<Rightarrow> serialize_code_unit code binary
       | None \<Rightarrow> Ok binary))))"

section \<open>Tables\<close>

type_synonym table_range = "u32 \<times> u32"

record common_serializer =
  cser_major_version :: u32
  cser_table_count :: u8
  cser_module_handles :: table_range
  cser_struct_handles :: table_range
  cser_function_handles :: table_range
  cser_function_instantiations :: table_range
  cser_signatures :: table_range
  cser_identifiers :: table_range
  cser_address_identifiers :: table_range
  cser_constant_pool :: table_range

record module_serializer =
  mser_common :: common_serializer
  mser_struct_defs :: table_range
  mser_struct_def_instantiations :: table_range
  mser_function_defs :: table_range
  mser_field_handles :: table_range
  mser_field_instantiations :: table_range
  mser_friend_decls :: table_range

definition common_serializer_new :: "u32 \<Rightarrow> common_serializer" where
  "common_serializer_new major_version = \<lparr>
     cser_major_version = major_version, cser_table_count = 0,
     cser_module_handles = (0, 0), cser_struct_handles = (0, 0), cser_function_handles = (0, 0),
     cser_function_instantiations = (0, 0), cser_signatures = (0, 0), cser_identifiers = (0, 0),
     cser_address_identifiers = (0, 0), cser_constant_pool = (0, 0)\<rparr>"

definition module_serializer_new :: "u32 \<Rightarrow> module_serializer" where
  "module_serializer_new major_version = \<lparr>
     mser_common = common_serializer_new major_version, mser_struct_defs = (0, 0),
     mser_struct_def_instantiations = (0, 0), mser_function_defs = (0, 0),
     mser_field_handles = (0, 0), mser_field_instantiations = (0, 0), mser_friend_decls = (0, 0)\<rparr>"

definition check_index_in_binary :: "nat \<Rightarrow> u32 anyhow_result" where
  "check_index_in_binary index = (if index > 0xffffffff then Err () else Ok (of_nat index))"

definition checked_calculate_table_size :: "binary_data \<Rightarrow> u32 \<Rightarrow> u32 anyhow_result" where
  "checked_calculate_table_size binary start =
     rbind (check_index_in_binary (length binary)) (\<lambda>off.
     rbind (assert (start \<le> off)) (\<lambda>_. Ok (off - start)))"

text \<open>
  The body that the functions for the single tables share: where the table starts, its entries,
  and its size. An empty table is not written and not counted.
\<close>

definition serialize_entries ::
  "('a \<Rightarrow> writer) \<Rightarrow> 'a list \<Rightarrow> binary_data \<Rightarrow> (table_range \<times> binary_data) anyhow_result" where
  "serialize_entries serialize_entry entries binary =
     rbind (check_index_in_binary (length binary)) (\<lambda>start.
     rbind (for_each serialize_entry entries binary) (\<lambda>binary.
     rbind (checked_calculate_table_size binary start) (\<lambda>sz. Ok ((start, sz), binary))))"

type_synonym 's table_writer = "'s \<times> binary_data \<Rightarrow> ('s \<times> binary_data) anyhow_result"

definition serialize_module_handles :: "module_handle list \<Rightarrow> common_serializer table_writer" where
  "serialize_module_handles entries = (\<lambda>(ser, binary).
     if entries \<noteq> [] then
       rbind (serialize_entries serialize_module_handle entries binary) (\<lambda>(extent, binary).
         Ok (ser\<lparr>cser_table_count := cser_table_count ser + 1, cser_module_handles := extent\<rparr>, binary))
     else Ok (ser, binary))"

definition serialize_struct_handles :: "struct_handle list \<Rightarrow> common_serializer table_writer" where
  "serialize_struct_handles entries = (\<lambda>(ser, binary).
     if entries \<noteq> [] then
       rbind (serialize_entries serialize_struct_handle entries binary) (\<lambda>(extent, binary).
         Ok (ser\<lparr>cser_table_count := cser_table_count ser + 1, cser_struct_handles := extent\<rparr>, binary))
     else Ok (ser, binary))"

definition serialize_function_handles :: "function_handle list \<Rightarrow> common_serializer table_writer" where
  "serialize_function_handles entries = (\<lambda>(ser, binary).
     if entries \<noteq> [] then
       rbind (serialize_entries serialize_function_handle entries binary) (\<lambda>(extent, binary).
         Ok (ser\<lparr>cser_table_count := cser_table_count ser + 1, cser_function_handles := extent\<rparr>, binary))
     else Ok (ser, binary))"

definition serialize_function_instantiations :: "function_instantiation list \<Rightarrow> common_serializer table_writer" where
  "serialize_function_instantiations entries = (\<lambda>(ser, binary).
     if entries \<noteq> [] then
       rbind (serialize_entries serialize_function_instantiation entries binary) (\<lambda>(extent, binary).
         Ok (ser\<lparr>cser_table_count := cser_table_count ser + 1, cser_function_instantiations := extent\<rparr>, binary))
     else Ok (ser, binary))"

definition serialize_identifiers :: "ident_str list \<Rightarrow> common_serializer table_writer" where
  "serialize_identifiers entries = (\<lambda>(ser, binary).
     if entries \<noteq> [] then
       rbind (serialize_entries serialize_identifier entries binary) (\<lambda>(extent, binary).
         Ok (ser\<lparr>cser_table_count := cser_table_count ser + 1, cser_identifiers := extent\<rparr>, binary))
     else Ok (ser, binary))"

definition serialize_address_identifiers :: "account_address list \<Rightarrow> common_serializer table_writer" where
  "serialize_address_identifiers entries = (\<lambda>(ser, binary).
     if entries \<noteq> [] then
       rbind (serialize_entries serialize_address entries binary) (\<lambda>(extent, binary).
         Ok (ser\<lparr>cser_table_count := cser_table_count ser + 1, cser_address_identifiers := extent\<rparr>, binary))
     else Ok (ser, binary))"

definition serialize_constants :: "pool_constant list \<Rightarrow> common_serializer table_writer" where
  "serialize_constants entries = (\<lambda>(ser, binary).
     if entries \<noteq> [] then
       rbind (serialize_entries serialize_constant entries binary) (\<lambda>(extent, binary).
         Ok (ser\<lparr>cser_table_count := cser_table_count ser + 1, cser_constant_pool := extent\<rparr>, binary))
     else Ok (ser, binary))"

definition serialize_signatures :: "signature list \<Rightarrow> common_serializer table_writer" where
  "serialize_signatures entries = (\<lambda>(ser, binary).
     if entries \<noteq> [] then
       rbind (serialize_entries serialize_signature entries binary) (\<lambda>(extent, binary).
         Ok (ser\<lparr>cser_table_count := cser_table_count ser + 1, cser_signatures := extent\<rparr>, binary))
     else Ok (ser, binary))"

definition count_table :: "module_serializer \<Rightarrow> module_serializer" where
  "count_table ser =
     ser\<lparr>mser_common := (mser_common ser)
       \<lparr>cser_table_count := cser_table_count (mser_common ser) + 1\<rparr>\<rparr>"

definition serialize_struct_definitions :: "struct_definition list \<Rightarrow> module_serializer table_writer" where
  "serialize_struct_definitions entries = (\<lambda>(ser, binary).
     if entries \<noteq> [] then
       rbind (serialize_entries serialize_struct_definition entries binary) (\<lambda>(extent, binary).
         Ok ((count_table ser)\<lparr>mser_struct_defs := extent\<rparr>, binary))
     else Ok (ser, binary))"

definition serialize_struct_def_instantiations :: "struct_def_instantiation list \<Rightarrow> module_serializer table_writer" where
  "serialize_struct_def_instantiations entries = (\<lambda>(ser, binary).
     if entries \<noteq> [] then
       rbind (serialize_entries serialize_struct_def_instantiation entries binary) (\<lambda>(extent, binary).
         Ok ((count_table ser)\<lparr>mser_struct_def_instantiations := extent\<rparr>, binary))
     else Ok (ser, binary))"

definition serialize_field_handles :: "field_handle list \<Rightarrow> module_serializer table_writer" where
  "serialize_field_handles entries = (\<lambda>(ser, binary).
     if entries \<noteq> [] then
       rbind (serialize_entries serialize_field_handle entries binary) (\<lambda>(extent, binary).
         Ok ((count_table ser)\<lparr>mser_field_handles := extent\<rparr>, binary))
     else Ok (ser, binary))"

definition serialize_field_instantiations :: "field_instantiation list \<Rightarrow> module_serializer table_writer" where
  "serialize_field_instantiations entries = (\<lambda>(ser, binary).
     if entries \<noteq> [] then
       rbind (serialize_entries serialize_field_instantiation entries binary) (\<lambda>(extent, binary).
         Ok ((count_table ser)\<lparr>mser_field_instantiations := extent\<rparr>, binary))
     else Ok (ser, binary))"

definition serialize_function_definitions :: "function_definition list \<Rightarrow> module_serializer table_writer" where
  "serialize_function_definitions entries = (\<lambda>(ser, binary).
     if entries \<noteq> [] then
       rbind (serialize_entries serialize_function_definition entries binary) (\<lambda>(extent, binary).
         Ok ((count_table ser)\<lparr>mser_function_defs := extent\<rparr>, binary))
     else Ok (ser, binary))"

definition serialize_friend_declarations :: "module_handle list \<Rightarrow> module_serializer table_writer" where
  "serialize_friend_declarations entries = (\<lambda>(ser, binary).
     if entries \<noteq> [] then
       rbind (serialize_entries serialize_module_handle entries binary) (\<lambda>(extent, binary).
         Ok ((count_table ser)\<lparr>mser_friend_decls := extent\<rparr>, binary))
     else Ok (ser, binary))"

text \<open>
  The trait \<^verbatim>\<open>CommonTables\<close>, through which the tables that modules and scripts share are accessed.
\<close>

record common_tables =
  ct_module_handles :: "module_handle list"
  ct_struct_handles :: "struct_handle list"
  ct_function_handles :: "function_handle list"
  ct_function_instantiations :: "function_instantiation list"
  ct_signatures :: "signature list"
  ct_identifiers :: "ident_str list"
  ct_address_identifiers :: "account_address list"
  ct_constant_pool :: "pool_constant list"

definition script_common_tables :: "compiled_script \<Rightarrow> common_tables" where
  "script_common_tables s = \<lparr>
     ct_module_handles = cs_module_handles s, ct_struct_handles = cs_struct_handles s,
     ct_function_handles = cs_function_handles s,
     ct_function_instantiations = cs_function_instantiations s,
     ct_signatures = cs_signatures s, ct_identifiers = cs_identifiers s,
     ct_address_identifiers = cs_address_identifiers s, ct_constant_pool = cs_constant_pool s\<rparr>"

definition module_common_tables :: "compiled_module \<Rightarrow> common_tables" where
  "module_common_tables m = \<lparr>
     ct_module_handles = cm_module_handles m, ct_struct_handles = cm_struct_handles m,
     ct_function_handles = cm_function_handles m,
     ct_function_instantiations = cm_function_instantiations m,
     ct_signatures = cm_signatures m, ct_identifiers = cm_identifiers m,
     ct_address_identifiers = cm_address_identifiers m, ct_constant_pool = cm_constant_pool m\<rparr>"

definition serialize_common_tables :: "common_tables \<Rightarrow> common_serializer table_writer" where
  "serialize_common_tables tables st =
     rbind (serialize_module_handles (ct_module_handles tables) st) (\<lambda>st.
     rbind (serialize_struct_handles (ct_struct_handles tables) st) (\<lambda>st.
     rbind (serialize_function_handles (ct_function_handles tables) st) (\<lambda>st.
     rbind (serialize_function_instantiations (ct_function_instantiations tables) st) (\<lambda>st.
     rbind (serialize_signatures (ct_signatures tables) st) (\<lambda>st.
     rbind (serialize_identifiers (ct_identifiers tables) st) (\<lambda>st.
     rbind (serialize_address_identifiers (ct_address_identifiers tables) st)
       (serialize_constants (ct_constant_pool tables))))))))"

definition serialize_tables :: "compiled_module \<Rightarrow> module_serializer table_writer" where
  "serialize_tables m = (\<lambda>(ser, binary).
     rbind (serialize_common_tables (module_common_tables m) (mser_common ser, binary)) (\<lambda>(common, binary).
     rbind (serialize_struct_definitions (cm_struct_defs m) (ser\<lparr>mser_common := common\<rparr>, binary)) (\<lambda>st.
     rbind (serialize_struct_def_instantiations (cm_struct_def_instantiations m) st) (\<lambda>st.
     rbind (serialize_function_definitions (cm_function_defs m) st) (\<lambda>st.
     rbind (serialize_field_handles (cm_field_handles m) st) (\<lambda>st.
     rbind (serialize_field_instantiations (cm_field_instantiations m) st)
       (serialize_friend_declarations (cm_friend_decls m))))))))"

section \<open>The header and the binary\<close>

definition serialize_magic :: writer where
  "serialize_magic = for_each binary_push DIEM_MAGIC"

definition serialize_header :: "common_serializer \<Rightarrow> writer" where
  "serialize_header ser binary = rbind (serialize_magic binary) (write_u32 (cser_major_version ser))"

definition serialize_table_index :: "table_type \<Rightarrow> table_range \<Rightarrow> writer" where
  "serialize_table_index kind extent binary =
     (if snd extent \<noteq> 0 then
        rbind (binary_push (table_type_as_u8 kind) binary) (\<lambda>binary.
        rbind (seiralize_table_offset (fst extent) binary)
          (serialize_table_size (snd extent)))
      else Ok binary)"

definition serialize_table_indices :: "common_serializer \<Rightarrow> writer" where
  "serialize_table_indices ser binary =
     rbind (serialize_table_count (cser_table_count ser) binary) (\<lambda>binary.
     rbind (serialize_table_index MODULE_HANDLES (cser_module_handles ser) binary) (\<lambda>binary.
     rbind (serialize_table_index STRUCT_HANDLES (cser_struct_handles ser) binary) (\<lambda>binary.
     rbind (serialize_table_index FUNCTION_HANDLES (cser_function_handles ser) binary) (\<lambda>binary.
     rbind (serialize_table_index FUNCTION_INST (cser_function_instantiations ser) binary) (\<lambda>binary.
     rbind (serialize_table_index SIGNATURES (cser_signatures ser) binary) (\<lambda>binary.
     rbind (serialize_table_index IDENTIFIERS (cser_identifiers ser) binary) (\<lambda>binary.
     rbind (serialize_table_index ADDRESS_IDENTIFIERS (cser_address_identifiers ser) binary)
       (serialize_table_index CONSTANT_POOL (cser_constant_pool ser)))))))))"

definition serialize_module_table_indices :: "module_serializer \<Rightarrow> writer" where
  "serialize_module_table_indices ser binary =
     rbind (serialize_table_indices (mser_common ser) binary) (\<lambda>binary.
     rbind (serialize_table_index STRUCT_DEFS (mser_struct_defs ser) binary) (\<lambda>binary.
     rbind (serialize_table_index STRUCT_DEF_INST (mser_struct_def_instantiations ser) binary) (\<lambda>binary.
     rbind (serialize_table_index FUNCTION_DEFS (mser_function_defs ser) binary) (\<lambda>binary.
     rbind (serialize_table_index FIELD_HANDLE (mser_field_handles ser) binary) (\<lambda>binary.
     rbind (serialize_table_index FIELD_INST (mser_field_instantiations ser) binary)
       (serialize_table_index FRIEND_DECLS (mser_friend_decls ser)))))))"

text \<open>\<^verbatim>\<open>CompiledModule::serialize\<close>; the argument is the binary that is extended.\<close>

definition module_serialize :: "compiled_module \<Rightarrow> writer" where
  "module_serialize m binary =
     rbind (serialize_tables m (module_serializer_new VERSION_MAX, [])) (\<lambda>(ser, temp).
       if length temp > 0xffffffff then Err ()
       else
         rbind (serialize_header (mser_common ser) binary) (\<lambda>binary.
         rbind (serialize_module_table_indices ser binary) (\<lambda>binary.
         rbind (binary_extend temp binary)
           (serialize_module_handle_index (cm_self_module_handle_idx m)))))"

definition serialize_main :: "compiled_script \<Rightarrow> writer" where
  "serialize_main script binary =
     rbind (serialize_ability_sets (cs_type_parameters script) binary) (\<lambda>binary.
     rbind (serialize_signature_index (cs_parameters script) binary)
       (serialize_code_unit (cs_code script)))"

definition script_serialize :: "compiled_script \<Rightarrow> writer" where
  "script_serialize script binary =
     rbind (serialize_common_tables (script_common_tables script) (common_serializer_new VERSION_MAX, []))
       (\<lambda>(ser, temp).
       if length temp > TABLE_CONTENT_SIZE_MAX then Err ()
       else
         rbind (serialize_header ser binary) (\<lambda>binary.
         rbind (serialize_table_indices ser binary) (\<lambda>binary.
         rbind (binary_extend temp binary) (serialize_main script))))"

end
