(* ===== verification/Deserializer.thy ===== *)
theory Deserializer
  imports Serializer
begin

text \<open>
  The deserializer of modules and scripts (\<^verbatim>\<open>move-binary-format/src/deserializer.rs\<close>), with the
  validity of identifiers (\<^verbatim>\<open>move-core/types/src/identifier.rs\<close>). A reader takes the cursor and
  returns a value and the advanced cursor, an error, or a panic. The loops over the bytes of a
  table run with the size of the table as fuel; a run that used it up without reaching the end
  of the table would be a \<open>Panic\<close>, so that the absence of panics includes that they end.
\<close>

section \<open>Numbers of the format\<close>

definition table_type_from_u8 :: "u8 \<Rightarrow> table_type vm_result" where
  "table_type_from_u8 byte =
     (if byte = 0x1 then Ok MODULE_HANDLES
      else if byte = 0x2 then Ok STRUCT_HANDLES
      else if byte = 0x3 then Ok FUNCTION_HANDLES
      else if byte = 0x4 then Ok FUNCTION_INST
      else if byte = 0x5 then Ok SIGNATURES
      else if byte = 0x6 then Ok CONSTANT_POOL
      else if byte = 0x7 then Ok IDENTIFIERS
      else if byte = 0x8 then Ok ADDRESS_IDENTIFIERS
      else if byte = 0xA then Ok STRUCT_DEFS
      else if byte = 0xB then Ok STRUCT_DEF_INST
      else if byte = 0xC then Ok FUNCTION_DEFS
      else if byte = 0xD then Ok FIELD_HANDLE
      else if byte = 0xE then Ok FIELD_INST
      else if byte = 0xF then Ok FRIEND_DECLS
      else Err (new_error UNKNOWN_TABLE_TYPE))"

definition serialized_type_from_u8 :: "u8 \<Rightarrow> serialized_type vm_result" where
  "serialized_type_from_u8 byte =
     (if byte = 0x1 then Ok ST_BOOL
      else if byte = 0x2 then Ok ST_U8
      else if byte = 0x3 then Ok ST_U64
      else if byte = 0x4 then Ok ST_U128
      else if byte = 0x5 then Ok ST_ADDRESS
      else if byte = 0x6 then Ok ST_REFERENCE
      else if byte = 0x7 then Ok ST_MUTABLE_REFERENCE
      else if byte = 0x8 then Ok ST_STRUCT
      else if byte = 0x9 then Ok ST_TYPE_PARAMETER
      else if byte = 0xA then Ok ST_VECTOR
      else if byte = 0xB then Ok ST_STRUCT_INST
      else if byte = 0xC then Ok ST_SIGNER
      else Err (new_error UNKNOWN_SERIALIZED_TYPE))"

datatype deprecated_nominal_resource_flag = NOMINAL_RESOURCE | NORMAL_STRUCT

definition nominal_resource_flag_from_u8 :: "u8 \<Rightarrow> deprecated_nominal_resource_flag vm_result" where
  "nominal_resource_flag_from_u8 byte =
     (if byte = 0x1 then Ok NOMINAL_RESOURCE
      else if byte = 0x2 then Ok NORMAL_STRUCT
      else Err (new_error UNKNOWN_ABILITY))"

datatype deprecated_kind = KIND_ALL | KIND_COPYABLE | KIND_RESOURCE

definition deprecated_kind_from_u8 :: "u8 \<Rightarrow> deprecated_kind vm_result" where
  "deprecated_kind_from_u8 byte =
     (if byte = 0x1 then Ok KIND_ALL
      else if byte = 0x2 then Ok KIND_COPYABLE
      else if byte = 0x3 then Ok KIND_RESOURCE
      else Err (new_error UNKNOWN_ABILITY))"

definition native_struct_flag_from_u8 :: "u8 \<Rightarrow> serialized_native_struct_flag vm_result" where
  "native_struct_flag_from_u8 byte =
     (if byte = 0x1 then Ok NSF_NATIVE
      else if byte = 0x2 then Ok NSF_DECLARED
      else Err (new_error UNKNOWN_NATIVE_STRUCT_FLAG))"

definition opcodes_from_u8 :: "u8 \<Rightarrow> opcodes vm_result" where
  "opcodes_from_u8 byte =
     (if byte = 0x01 then Ok OP_POP
      else if byte = 0x02 then Ok OP_RET
      else if byte = 0x03 then Ok OP_BR_TRUE
      else if byte = 0x04 then Ok OP_BR_FALSE
      else if byte = 0x05 then Ok OP_BRANCH
      else if byte = 0x06 then Ok OP_LD_U64
      else if byte = 0x07 then Ok OP_LD_CONST
      else if byte = 0x08 then Ok OP_LD_TRUE
      else if byte = 0x09 then Ok OP_LD_FALSE
      else if byte = 0x0A then Ok OP_COPY_LOC
      else if byte = 0x0B then Ok OP_MOVE_LOC
      else if byte = 0x0C then Ok OP_ST_LOC
      else if byte = 0x0D then Ok OP_MUT_BORROW_LOC
      else if byte = 0x0E then Ok OP_IMM_BORROW_LOC
      else if byte = 0x0F then Ok OP_MUT_BORROW_FIELD
      else if byte = 0x10 then Ok OP_IMM_BORROW_FIELD
      else if byte = 0x11 then Ok OP_CALL
      else if byte = 0x12 then Ok OP_PACK
      else if byte = 0x13 then Ok OP_UNPACK
      else if byte = 0x14 then Ok OP_READ_REF
      else if byte = 0x15 then Ok OP_WRITE_REF
      else if byte = 0x16 then Ok OP_ADD
      else if byte = 0x17 then Ok OP_SUB
      else if byte = 0x18 then Ok OP_MUL
      else if byte = 0x19 then Ok OP_MOD
      else if byte = 0x1A then Ok OP_DIV
      else if byte = 0x1B then Ok OP_BIT_OR
      else if byte = 0x1C then Ok OP_BIT_AND
      else if byte = 0x1D then Ok OP_XOR
      else if byte = 0x1E then Ok OP_OR
      else if byte = 0x1F then Ok OP_AND
      else if byte = 0x20 then Ok OP_NOT
      else if byte = 0x21 then Ok OP_EQ
      else if byte = 0x22 then Ok OP_NEQ
      else if byte = 0x23 then Ok OP_LT
      else if byte = 0x24 then Ok OP_GT
      else if byte = 0x25 then Ok OP_LE
      else if byte = 0x26 then Ok OP_GE
      else if byte = 0x27 then Ok OP_ABORT
      else if byte = 0x28 then Ok OP_NOP
      else if byte = 0x29 then Ok OP_EXISTS
      else if byte = 0x2A then Ok OP_MUT_BORROW_GLOBAL
      else if byte = 0x2B then Ok OP_IMM_BORROW_GLOBAL
      else if byte = 0x2C then Ok OP_MOVE_FROM
      else if byte = 0x2D then Ok OP_MOVE_TO
      else if byte = 0x2E then Ok OP_FREEZE_REF
      else if byte = 0x2F then Ok OP_SHL
      else if byte = 0x30 then Ok OP_SHR
      else if byte = 0x31 then Ok OP_LD_U8
      else if byte = 0x32 then Ok OP_LD_U128
      else if byte = 0x33 then Ok OP_CAST_U8
      else if byte = 0x34 then Ok OP_CAST_U64
      else if byte = 0x35 then Ok OP_CAST_U128
      else if byte = 0x36 then Ok OP_MUT_BORROW_FIELD_GENERIC
      else if byte = 0x37 then Ok OP_IMM_BORROW_FIELD_GENERIC
      else if byte = 0x38 then Ok OP_CALL_GENERIC
      else if byte = 0x39 then Ok OP_PACK_GENERIC
      else if byte = 0x3A then Ok OP_UNPACK_GENERIC
      else if byte = 0x3B then Ok OP_EXISTS_GENERIC
      else if byte = 0x3C then Ok OP_MUT_BORROW_GLOBAL_GENERIC
      else if byte = 0x3D then Ok OP_IMM_BORROW_GLOBAL_GENERIC
      else if byte = 0x3E then Ok OP_MOVE_FROM_GENERIC
      else if byte = 0x3F then Ok OP_MOVE_TO_GENERIC
      else if byte = 0x40 then Ok OP_VEC_PACK
      else if byte = 0x41 then Ok OP_VEC_LEN
      else if byte = 0x42 then Ok OP_VEC_IMM_BORROW
      else if byte = 0x43 then Ok OP_VEC_MUT_BORROW
      else if byte = 0x44 then Ok OP_VEC_PUSH_BACK
      else if byte = 0x45 then Ok OP_VEC_POP_BACK
      else if byte = 0x46 then Ok OP_VEC_UNPACK
      else if byte = 0x47 then Ok OP_VEC_SWAP
      else Err (new_error UNKNOWN_OPCODE))"

section \<open>Integers\<close>

definition malformed :: partial_vm_error where
  "malformed = new_error MALFORMED"

definition read_u64_internal :: "u64 reader" where
  "read_u64_internal c =
     rbind (map_err (\<lambda>_. new_error BAD_U64) (read_exact 8 c)) (\<lambda>(u64_bytes, c).
       Ok (from_le_bytes u64_bytes, c))"

definition read_u128_internal :: "u128 reader" where
  "read_u128_internal c =
     rbind (map_err (\<lambda>_. new_error BAD_U128) (read_exact 16 c)) (\<lambda>(u128_bytes, c).
       Ok (from_le_bytes u128_bytes, c))"

text \<open>\<^verbatim>\<open>cursor.read_u8()\<close> with the error that every caller in the deserializer maps it to.\<close>

definition load_byte :: "u8 reader" where
  "load_byte c = map_err (\<lambda>_. malformed) (read_u8 c)"

text \<open>
  \<^verbatim>\<open>read_uleb_internal<T>\<close>, with the conversion \<^verbatim>\<open>TryInto<T>\<close> of \<^verbatim>\<open>u64\<close> as an argument; \<^verbatim>\<open>usize\<close> and
  \<^verbatim>\<open>u64\<close> counts are natural numbers.
\<close>

definition read_uleb_internal :: "(u64 \<Rightarrow> 'a option) \<Rightarrow> nat \<Rightarrow> 'a reader" where
  "read_uleb_internal try_into bound c =
     rbind (map_err (\<lambda>_. malformed) (read_uleb128_as_u64 c)) (\<lambda>(x, c).
       if unat x > bound then Err malformed
       else
         rbind (ok_or (new_error UNKNOWN_INVARIANT_VIOLATION_ERROR) (try_into x)) (\<lambda>y. Ok (y, c)))"

definition try_into_word :: "u64 \<Rightarrow> 'a::len word option" where
  "try_into_word x = (if unat x < 2 ^ LENGTH('a) then Some (ucast x) else None)"

definition try_into_nat :: "u64 \<Rightarrow> nat option" where
  "try_into_nat x = Some (unat x)"

text \<open>The functions that load an index into a table all have the same body.\<close>

definition load_table_entry_index :: "u16 reader" where
  "load_table_entry_index = read_uleb_internal try_into_word TABLE_INDEX_MAX"

abbreviation load_signature_index :: "signature_index reader" where
  "load_signature_index \<equiv> load_table_entry_index"

abbreviation load_module_handle_index :: "module_handle_index reader" where
  "load_module_handle_index \<equiv> load_table_entry_index"

abbreviation load_identifier_index :: "identifier_index reader" where
  "load_identifier_index \<equiv> load_table_entry_index"

abbreviation load_struct_handle_index :: "struct_handle_index reader" where
  "load_struct_handle_index \<equiv> load_table_entry_index"

abbreviation load_address_identifier_index :: "address_identifier_index reader" where
  "load_address_identifier_index \<equiv> load_table_entry_index"

abbreviation load_struct_def_index :: "struct_definition_index reader" where
  "load_struct_def_index \<equiv> load_table_entry_index"

abbreviation load_function_handle_index :: "function_handle_index reader" where
  "load_function_handle_index \<equiv> load_table_entry_index"

abbreviation load_field_handle_index :: "field_handle_index reader" where
  "load_field_handle_index \<equiv> load_table_entry_index"

abbreviation load_field_inst_index :: "field_instantiation_index reader" where
  "load_field_inst_index \<equiv> load_table_entry_index"

abbreviation load_function_inst_index :: "function_instantiation_index reader" where
  "load_function_inst_index \<equiv> load_table_entry_index"

abbreviation load_struct_def_inst_index :: "struct_def_instantiation_index reader" where
  "load_struct_def_inst_index \<equiv> load_table_entry_index"

abbreviation load_constant_pool_index :: "constant_pool_index reader" where
  "load_constant_pool_index \<equiv> load_table_entry_index"

abbreviation load_bytecode_count :: "nat reader" where
  "load_bytecode_count \<equiv> read_uleb_internal try_into_nat BYTECODE_COUNT_MAX"

abbreviation load_bytecode_index :: "u16 reader" where
  "load_bytecode_index \<equiv> read_uleb_internal try_into_word BYTECODE_INDEX_MAX"

abbreviation load_acquires_count :: "nat reader" where
  "load_acquires_count \<equiv> read_uleb_internal try_into_nat ACQUIRES_COUNT_MAX"

abbreviation load_field_count :: "nat reader" where
  "load_field_count \<equiv> read_uleb_internal try_into_nat FIELD_COUNT_MAX"

abbreviation load_type_parameter_count :: "nat reader" where
  "load_type_parameter_count \<equiv> read_uleb_internal try_into_nat TYPE_PARAMETER_COUNT_MAX"

abbreviation load_signature_size :: "nat reader" where
  "load_signature_size \<equiv> read_uleb_internal try_into_nat SIGNATURE_SIZE_MAX"

abbreviation load_constant_size :: "nat reader" where
  "load_constant_size \<equiv> read_uleb_internal try_into_nat CONSTANT_SIZE_MAX"

abbreviation load_identifier_size :: "nat reader" where
  "load_identifier_size \<equiv> read_uleb_internal try_into_nat IDENTIFIER_SIZE_MAX"

abbreviation load_type_parameter_index :: "u16 reader" where
  "load_type_parameter_index \<equiv> read_uleb_internal try_into_word TYPE_PARAMETER_INDEX_MAX"

abbreviation load_field_offset :: "u16 reader" where
  "load_field_offset \<equiv> read_uleb_internal try_into_word FIELD_OFFSET_MAX"

abbreviation load_table_count :: "u8 reader" where
  "load_table_count \<equiv> read_uleb_internal try_into_word TABLE_COUNT_MAX"

abbreviation load_table_offset :: "u32 reader" where
  "load_table_offset \<equiv> read_uleb_internal try_into_word TABLE_OFFSET_MAX"

abbreviation load_table_size :: "u32 reader" where
  "load_table_size \<equiv> read_uleb_internal try_into_word TABLE_SIZE_MAX"

abbreviation load_local_index :: "u8 reader" where
  "load_local_index \<equiv> read_uleb_internal try_into_word LOCAL_INDEX_MAX"

text \<open>The loop \<^verbatim>\<open>for _ in 0..len { xs.push(load(cursor)?) }\<close>.\<close>

primrec load_times :: "nat \<Rightarrow> 'a reader \<Rightarrow> 'a list reader" where
  "load_times 0 load c = Ok ([], c)"
| "load_times (Suc n) load c =
     rbind (load c) (\<lambda>(x, c). rbind (load_times n load c) (\<lambda>(xs, c). Ok (x # xs, c)))"

section \<open>Types\<close>

datatype type_builder =
    TB_Saturated signature_token
  | TB_Vector
  | TB_Reference
  | TB_MutableReference
  | TB_StructInst struct_handle_index nat "signature_token list"

definition type_builder_apply :: "type_builder \<Rightarrow> signature_token \<Rightarrow> type_builder vm_result" where
  "type_builder_apply builder tok =
     (case builder of
        TB_Vector \<Rightarrow> Ok (TB_Saturated (Vector tok))
      | TB_Reference \<Rightarrow> Ok (TB_Saturated (Reference tok))
      | TB_MutableReference \<Rightarrow> Ok (TB_Saturated (MutableReference tok))
      | TB_StructInst sh_idx arity ty_args \<Rightarrow>
          (let ty_args = ty_args @ [tok] in
           if length ty_args \<ge> arity then Ok (TB_Saturated (StructInstantiation sh_idx ty_args))
           else Ok (TB_StructInst sh_idx arity ty_args))
      | TB_Saturated _ \<Rightarrow> Panic)"

definition read_next :: "type_builder reader" where
  "read_next c =
     rbind (load_byte c) (\<lambda>(byte, c).
     rbind (serialized_type_from_u8 byte) (\<lambda>s.
       case s of
         ST_BOOL \<Rightarrow> Ok (TB_Saturated Bool, c)
       | ST_U8 \<Rightarrow> Ok (TB_Saturated U8, c)
       | ST_U64 \<Rightarrow> Ok (TB_Saturated U64, c)
       | ST_U128 \<Rightarrow> Ok (TB_Saturated U128, c)
       | ST_ADDRESS \<Rightarrow> Ok (TB_Saturated Address, c)
       | ST_SIGNER \<Rightarrow> Ok (TB_Saturated Signer, c)
       | ST_VECTOR \<Rightarrow> Ok (TB_Vector, c)
       | ST_REFERENCE \<Rightarrow> Ok (TB_Reference, c)
       | ST_MUTABLE_REFERENCE \<Rightarrow> Ok (TB_MutableReference, c)
       | ST_STRUCT \<Rightarrow>
           rbind (load_struct_handle_index c) (\<lambda>(sh_idx, c). Ok (TB_Saturated (Struct sh_idx), c))
       | ST_STRUCT_INST \<Rightarrow>
           rbind (load_struct_handle_index c) (\<lambda>(sh_idx, c).
           rbind (load_type_parameter_count c) (\<lambda>(arity, c). Ok (TB_StructInst sh_idx arity [], c)))
       | ST_TYPE_PARAMETER \<Rightarrow>
           rbind (load_type_parameter_index c) (\<lambda>(idx, c). Ok (TB_Saturated (TypeParameter idx), c))))"

lemma read_uleb_internal_consumes:
  assumes "read_uleb_internal try_into bound c = Ok (x, c')"
  shows "length (vc_rest c') < length (vc_rest c)"
  using assms by (auto simp: read_uleb_internal_def ok_iff read_uleb128_Ok split: if_splits)

lemma load_byte_consumes:
  "load_byte c = Ok (byte, c') \<Longrightarrow> length (vc_rest c') < length (vc_rest c)"
  by (auto simp: load_byte_def ok_iff read_u8_cases split: list.splits)

lemma read_next_consumes:
  assumes "read_next c = Ok (t, c')"
  shows "length (vc_rest c') < length (vc_rest c)"
proof -
  obtain byte c1 s where "load_byte c = Ok (byte, c1)" "serialized_type_from_u8 byte = Ok s"
    using assms by (auto simp: read_next_def ok_iff)
  then show ?thesis
    using assms
    by (cases s) (auto simp: read_next_def ok_iff load_table_entry_index_def
        dest!: load_byte_consumes read_uleb_internal_consumes)
qed

text \<open>
  The loop of \<^verbatim>\<open>load_signature_token\<close>; the head of the list is the top of the stack. It ends
  because a turn consumes a byte or shortens the stack.
\<close>

function token_loop :: "type_builder list \<Rightarrow> signature_token reader" where
  "token_loop stack c =
     (if length stack > SIGNATURE_TOKEN_DEPTH_MAX then Err malformed
      else
        case stack of
          [] \<Rightarrow> Panic
        | TB_Saturated tok # [] \<Rightarrow> Ok (tok, c)
        | TB_Saturated tok # t # stack \<Rightarrow>
            rbind (type_builder_apply t tok) (\<lambda>t. token_loop (t # stack) c)
        | t # stack \<Rightarrow>
            rbind (read_next c) (\<lambda>(t', c). token_loop (t' # t # stack) c))"
  by pat_completeness auto
termination
  by (relation "measure (\<lambda>(stack, c). 2 * length (vc_rest c) + length stack)")
     (auto dest!: read_next_consumes)

declare token_loop.simps [simp del]

definition load_signature_token :: "signature_token reader" where
  "load_signature_token c =
     rbind (read_next c) (\<lambda>(t, c).
       case t of
         TB_Saturated tok \<Rightarrow> Ok (tok, c)
       | t \<Rightarrow> token_loop [t] c)"

definition load_signature_tokens :: "signature_token list reader" where
  "load_signature_tokens c =
     rbind (load_signature_size c) (\<lambda>(len, c). load_times len load_signature_token c)"

section \<open>Abilities and type parameters\<close>

datatype ability_set_position = FunctionTypeParameters | StructTypeParameters | ASP_StructHandle

definition load_ability_set :: "ability_set_position \<Rightarrow> ability_set reader" where
  "load_ability_set pos c =
     (if vc_version c < 2 then
        rbind (load_byte c) (\<lambda>(byte, c).
          case pos of
            ASP_StructHandle \<Rightarrow>
              rbind (nominal_resource_flag_from_u8 byte) (\<lambda>flag.
                Ok (case flag of
                      NOMINAL_RESOURCE \<Rightarrow>
                        ability_set_add (ability_set_add ability_set_EMPTY Store) Key
                    | NORMAL_STRUCT \<Rightarrow>
                        ability_set_add (ability_set_add (ability_set_add ability_set_EMPTY Store) Copy) Drop,
                    c))
          | _ \<Rightarrow>
              rbind (deprecated_kind_from_u8 byte) (\<lambda>kind.
                let abilities =
                  (case kind of
                     KIND_ALL \<Rightarrow> ability_set_EMPTY
                   | KIND_COPYABLE \<Rightarrow> ability_set_add (ability_set_add ability_set_EMPTY Copy) Drop
                   | KIND_RESOURCE \<Rightarrow> ability_set_add ability_set_EMPTY Key)
                in Ok (if pos = FunctionTypeParameters then ability_set_add abilities Store
                       else abilities, c)))
      else
        rbind (read_uleb_internal try_into_word (unat (ability_set_into_u8 ability_set_ALL)) c) (\<lambda>(u, c).
          case ability_set_from_u8 u of
            Some abilities \<Rightarrow> Ok (abilities, c)
          | None \<Rightarrow> Err (new_error UNKNOWN_ABILITY)))"

definition load_ability_sets :: "ability_set_position \<Rightarrow> ability_set list reader" where
  "load_ability_sets pos c =
     rbind (load_type_parameter_count c) (\<lambda>(len, c). load_times len (load_ability_set pos) c)"

definition load_struct_type_parameter :: "struct_type_parameter reader" where
  "load_struct_type_parameter c =
     rbind (load_ability_set StructTypeParameters c) (\<lambda>(constraints, c).
       if vc_version c < VERSION_3
       then Ok (\<lparr>stp_constraints = constraints, stp_is_phantom = False\<rparr>, c)
       else
         rbind (read_uleb_internal try_into_word 1 c) (\<lambda>(byte :: u8, c).
           Ok (\<lparr>stp_constraints = constraints, stp_is_phantom = (byte \<noteq> 0)\<rparr>, c)))"

definition load_struct_type_parameters :: "struct_type_parameter list reader" where
  "load_struct_type_parameters c =
     rbind (load_type_parameter_count c) (\<lambda>(len, c). load_times len load_struct_type_parameter c)"

section \<open>Code\<close>

definition is_vector_opcode :: "opcodes \<Rightarrow> bool" where
  "is_vector_opcode opcode =
     (case opcode of
        OP_VEC_PACK \<Rightarrow> True
      | OP_VEC_LEN \<Rightarrow> True
      | OP_VEC_IMM_BORROW \<Rightarrow> True
      | OP_VEC_MUT_BORROW \<Rightarrow> True
      | OP_VEC_PUSH_BACK \<Rightarrow> True
      | OP_VEC_POP_BACK \<Rightarrow> True
      | OP_VEC_UNPACK \<Rightarrow> True
      | OP_VEC_SWAP \<Rightarrow> True
      | _ \<Rightarrow> False)"

definition load_operands :: "opcodes \<Rightarrow> bytecode reader" where
  "load_operands opcode c =
     (case opcode of
        OP_POP \<Rightarrow> Ok (Pop, c)
      | OP_RET \<Rightarrow> Ok (Ret, c)
      | OP_BR_TRUE \<Rightarrow>
          rbind (load_bytecode_index c) (\<lambda>(idx, c). Ok (BrTrue idx, c))
      | OP_BR_FALSE \<Rightarrow>
          rbind (load_bytecode_index c) (\<lambda>(idx, c). Ok (BrFalse idx, c))
      | OP_BRANCH \<Rightarrow>
          rbind (load_bytecode_index c) (\<lambda>(idx, c). Ok (Branch idx, c))
      | OP_LD_U8 \<Rightarrow> rbind (load_byte c) (\<lambda>(val, c). Ok (LdU8 val, c))
      | OP_LD_U64 \<Rightarrow> rbind (read_u64_internal c) (\<lambda>(val, c). Ok (LdU64 val, c))
      | OP_LD_U128 \<Rightarrow>
          rbind (read_u128_internal c) (\<lambda>(val, c). Ok (LdU128 val, c))
      | OP_CAST_U8 \<Rightarrow> Ok (CastU8, c)
      | OP_CAST_U64 \<Rightarrow> Ok (CastU64, c)
      | OP_CAST_U128 \<Rightarrow> Ok (CastU128, c)
      | OP_LD_CONST \<Rightarrow>
          rbind (load_constant_pool_index c) (\<lambda>(idx, c). Ok (LdConst idx, c))
      | OP_LD_TRUE \<Rightarrow> Ok (LdTrue, c)
      | OP_LD_FALSE \<Rightarrow> Ok (LdFalse, c)
      | OP_COPY_LOC \<Rightarrow>
          rbind (load_local_index c) (\<lambda>(idx, c). Ok (CopyLoc idx, c))
      | OP_MOVE_LOC \<Rightarrow>
          rbind (load_local_index c) (\<lambda>(idx, c). Ok (MoveLoc idx, c))
      | OP_ST_LOC \<Rightarrow> rbind (load_local_index c) (\<lambda>(idx, c). Ok (StLoc idx, c))
      | OP_MUT_BORROW_LOC \<Rightarrow>
          rbind (load_local_index c) (\<lambda>(idx, c). Ok (MutBorrowLoc idx, c))
      | OP_IMM_BORROW_LOC \<Rightarrow>
          rbind (load_local_index c) (\<lambda>(idx, c). Ok (ImmBorrowLoc idx, c))
      | OP_MUT_BORROW_FIELD \<Rightarrow>
          rbind (load_field_handle_index c) (\<lambda>(idx, c). Ok (MutBorrowField idx, c))
      | OP_MUT_BORROW_FIELD_GENERIC \<Rightarrow>
          rbind (load_field_inst_index c) (\<lambda>(idx, c). Ok (MutBorrowFieldGeneric idx, c))
      | OP_IMM_BORROW_FIELD \<Rightarrow>
          rbind (load_field_handle_index c) (\<lambda>(idx, c). Ok (ImmBorrowField idx, c))
      | OP_IMM_BORROW_FIELD_GENERIC \<Rightarrow>
          rbind (load_field_inst_index c) (\<lambda>(idx, c). Ok (ImmBorrowFieldGeneric idx, c))
      | OP_CALL \<Rightarrow>
          rbind (load_function_handle_index c) (\<lambda>(idx, c). Ok (Call idx, c))
      | OP_CALL_GENERIC \<Rightarrow>
          rbind (load_function_inst_index c) (\<lambda>(idx, c). Ok (CallGeneric idx, c))
      | OP_PACK \<Rightarrow>
          rbind (load_struct_def_index c) (\<lambda>(idx, c). Ok (Pack idx, c))
      | OP_PACK_GENERIC \<Rightarrow>
          rbind (load_struct_def_inst_index c) (\<lambda>(idx, c). Ok (PackGeneric idx, c))
      | OP_UNPACK \<Rightarrow>
          rbind (load_struct_def_index c) (\<lambda>(idx, c). Ok (Unpack idx, c))
      | OP_UNPACK_GENERIC \<Rightarrow>
          rbind (load_struct_def_inst_index c) (\<lambda>(idx, c). Ok (UnpackGeneric idx, c))
      | OP_READ_REF \<Rightarrow> Ok (ReadRef, c)
      | OP_WRITE_REF \<Rightarrow> Ok (WriteRef, c)
      | OP_ADD \<Rightarrow> Ok (Add, c)
      | OP_SUB \<Rightarrow> Ok (Sub, c)
      | OP_MUL \<Rightarrow> Ok (Mul, c)
      | OP_MOD \<Rightarrow> Ok (Mod, c)
      | OP_DIV \<Rightarrow> Ok (Div, c)
      | OP_BIT_OR \<Rightarrow> Ok (BitOr, c)
      | OP_BIT_AND \<Rightarrow> Ok (BitAnd, c)
      | OP_XOR \<Rightarrow> Ok (Xor, c)
      | OP_SHL \<Rightarrow> Ok (Shl, c)
      | OP_SHR \<Rightarrow> Ok (Shr, c)
      | OP_OR \<Rightarrow> Ok (OrOp, c)
      | OP_AND \<Rightarrow> Ok (AndOp, c)
      | OP_NOT \<Rightarrow> Ok (NotOp, c)
      | OP_EQ \<Rightarrow> Ok (Eq, c)
      | OP_NEQ \<Rightarrow> Ok (Neq, c)
      | OP_LT \<Rightarrow> Ok (Lt, c)
      | OP_GT \<Rightarrow> Ok (Gt, c)
      | OP_LE \<Rightarrow> Ok (Le, c)
      | OP_GE \<Rightarrow> Ok (Ge, c)
      | OP_ABORT \<Rightarrow> Ok (Abort, c)
      | OP_NOP \<Rightarrow> Ok (Nop, c)
      | OP_EXISTS \<Rightarrow>
          rbind (load_struct_def_index c) (\<lambda>(idx, c). Ok (Exists idx, c))
      | OP_EXISTS_GENERIC \<Rightarrow>
          rbind (load_struct_def_inst_index c) (\<lambda>(idx, c). Ok (ExistsGeneric idx, c))
      | OP_MUT_BORROW_GLOBAL \<Rightarrow>
          rbind (load_struct_def_index c) (\<lambda>(idx, c). Ok (MutBorrowGlobal idx, c))
      | OP_MUT_BORROW_GLOBAL_GENERIC \<Rightarrow>
          rbind (load_struct_def_inst_index c) (\<lambda>(idx, c). Ok (MutBorrowGlobalGeneric idx, c))
      | OP_IMM_BORROW_GLOBAL \<Rightarrow>
          rbind (load_struct_def_index c) (\<lambda>(idx, c). Ok (ImmBorrowGlobal idx, c))
      | OP_IMM_BORROW_GLOBAL_GENERIC \<Rightarrow>
          rbind (load_struct_def_inst_index c) (\<lambda>(idx, c). Ok (ImmBorrowGlobalGeneric idx, c))
      | OP_MOVE_FROM \<Rightarrow>
          rbind (load_struct_def_index c) (\<lambda>(idx, c). Ok (MoveFrom idx, c))
      | OP_MOVE_FROM_GENERIC \<Rightarrow>
          rbind (load_struct_def_inst_index c) (\<lambda>(idx, c). Ok (MoveFromGeneric idx, c))
      | OP_MOVE_TO \<Rightarrow>
          rbind (load_struct_def_index c) (\<lambda>(idx, c). Ok (MoveTo idx, c))
      | OP_MOVE_TO_GENERIC \<Rightarrow>
          rbind (load_struct_def_inst_index c) (\<lambda>(idx, c). Ok (MoveToGeneric idx, c))
      | OP_FREEZE_REF \<Rightarrow> Ok (FreezeRef, c)
      | OP_VEC_PACK \<Rightarrow>
          rbind (load_signature_index c) (\<lambda>(idx, c). rbind (read_u64_internal c) (\<lambda>(num, c). Ok (VecPack idx num, c)))
      | OP_VEC_LEN \<Rightarrow>
          rbind (load_signature_index c) (\<lambda>(idx, c). Ok (VecLen idx, c))
      | OP_VEC_IMM_BORROW \<Rightarrow>
          rbind (load_signature_index c) (\<lambda>(idx, c). Ok (VecImmBorrow idx, c))
      | OP_VEC_MUT_BORROW \<Rightarrow>
          rbind (load_signature_index c) (\<lambda>(idx, c). Ok (VecMutBorrow idx, c))
      | OP_VEC_PUSH_BACK \<Rightarrow>
          rbind (load_signature_index c) (\<lambda>(idx, c). Ok (VecPushBack idx, c))
      | OP_VEC_POP_BACK \<Rightarrow>
          rbind (load_signature_index c) (\<lambda>(idx, c). Ok (VecPopBack idx, c))
      | OP_VEC_UNPACK \<Rightarrow>
          rbind (load_signature_index c) (\<lambda>(idx, c). rbind (read_u64_internal c) (\<lambda>(num, c). Ok (VecUnpack idx num, c)))
      | OP_VEC_SWAP \<Rightarrow>
          rbind (load_signature_index c) (\<lambda>(idx, c). Ok (VecSwap idx, c)))"

definition load_instruction :: "bytecode reader" where
  "load_instruction c =
     rbind (load_byte c) (\<lambda>(byte, c).
     rbind (opcodes_from_u8 byte) (\<lambda>opcode.
     rbind (ensure (\<not> (is_vector_opcode opcode \<and> vc_version c < VERSION_4)) malformed) (\<lambda>_.
       load_operands opcode c)))"

text \<open>The loop \<^verbatim>\<open>while code.len() < bytecode_count\<close> pushes one instruction per turn.\<close>

definition load_code :: "bytecode list reader" where
  "load_code c = rbind (load_bytecode_count c) (\<lambda>(bytecode_count, c). load_times bytecode_count load_instruction c)"

definition load_code_unit :: "code_unit reader" where
  "load_code_unit c =
     rbind (load_signature_index c) (\<lambda>(locals, c).
     rbind (load_code c) (\<lambda>(code, c). Ok (\<lparr>cu_locals = locals, cu_code = code\<rparr>, c)))"

definition load_struct_definition_indices :: "struct_definition_index list reader" where
  "load_struct_definition_indices c =
     rbind (load_acquires_count c) (\<lambda>(len, c). load_times len load_struct_def_index c)"

definition load_visibility :: "u8 \<Rightarrow> (visibility \<times> u8) reader" where
  "load_visibility flags c =
     (if vc_version c = VERSION_1 then
        let is_public_bit = visibility_as_u8 Public in
        Ok (if flags AND is_public_bit \<noteq> 0 then (Public, flags XOR is_public_bit)
            else (Private, flags), c)
      else
        rbind (ok_or malformed (visibility_try_from flags)) (\<lambda>vis.
        rbind (load_byte c) (\<lambda>(extra_flags, c). Ok ((vis, extra_flags), c))))"

definition load_function_def :: "function_definition reader" where
  "load_function_def c =
     rbind (load_function_handle_index c) (\<lambda>(function, c).
     rbind (load_byte c) (\<lambda>(flags, c).
     rbind (load_visibility flags c) (\<lambda>((visibility, extra_flags), c).
     rbind (load_struct_definition_indices c) (\<lambda>(acquires_global_resources, c).
     rbind (if extra_flags AND function_definition_NATIVE \<noteq> 0
            then Ok ((None, extra_flags XOR function_definition_NATIVE), c)
            else rbind (load_code_unit c) (\<lambda>(code, c). Ok ((Some code, extra_flags), c)))
       (\<lambda>((code_unit, extra_flags), c).
         if extra_flags \<noteq> 0 then Err (new_error INVALID_FLAG_BITS)
         else Ok (\<lparr>fd_function = function, fd_visibility = visibility,
                   fd_acquires_global_resources = acquires_global_resources,
                   fd_code = code_unit\<rparr>, c))))))"

section \<open>Entries of the tables\<close>

definition load_module_handle :: "module_handle reader" where
  "load_module_handle c =
     rbind (load_address_identifier_index c) (\<lambda>(address, c).
     rbind (load_identifier_index c) (\<lambda>(name, c). Ok (\<lparr>mh_address = address, mh_name = name\<rparr>, c)))"

definition load_struct_handle :: "struct_handle reader" where
  "load_struct_handle c =
     rbind (load_module_handle_index c) (\<lambda>(m, c).
     rbind (load_identifier_index c) (\<lambda>(name, c).
     rbind (load_ability_set ASP_StructHandle c) (\<lambda>(abilities, c).
     rbind (load_struct_type_parameters c) (\<lambda>(type_parameters, c).
       Ok (\<lparr>sh_module = m, sh_name = name, sh_abilities = abilities,
            sh_type_parameters = type_parameters\<rparr>, c)))))"

definition load_function_handle :: "function_handle reader" where
  "load_function_handle c =
     rbind (load_module_handle_index c) (\<lambda>(m, c).
     rbind (load_identifier_index c) (\<lambda>(name, c).
     rbind (load_signature_index c) (\<lambda>(parameters, c).
     rbind (load_signature_index c) (\<lambda>(return, c).
     rbind (load_ability_sets FunctionTypeParameters c) (\<lambda>(type_parameters, c).
       Ok (\<lparr>fh_module = m, fh_name = name, fh_parameters = parameters, fh_return = return,
            fh_type_parameters = type_parameters\<rparr>, c))))))"

definition load_struct_instantiation :: "struct_def_instantiation reader" where
  "load_struct_instantiation c =
     rbind (load_struct_def_index c) (\<lambda>(sdef, c).
     rbind (load_signature_index c) (\<lambda>(type_parameters, c).
       Ok (\<lparr>sdi_def = sdef, sdi_type_parameters = type_parameters\<rparr>, c)))"

definition load_function_instantiation :: "function_instantiation reader" where
  "load_function_instantiation c =
     rbind (load_function_handle_index c) (\<lambda>(handle, c).
     rbind (load_signature_index c) (\<lambda>(type_parameters, c).
       Ok (\<lparr>fi_handle = handle, fi_type_parameters = type_parameters\<rparr>, c)))"

text \<open>
  \<^verbatim>\<open>Identifier::from_utf8\<close>. Validity is checked on the bytes, and it only holds of ASCII bytes,
  which the preceding UTF-8 decoding turns into the characters with the same numbers; an error of
  the decoding and an error of the validity check are the same error.
\<close>

definition is_valid_identifier_char :: "u8 \<Rightarrow> bool" where
  "is_valid_identifier_char b \<longleftrightarrow>
     b = 95 \<or> 97 \<le> b \<and> b \<le> 122 \<or> 65 \<le> b \<and> b \<le> 90 \<or> 48 \<le> b \<and> b \<le> 57"

definition all_bytes_valid :: "u8 list \<Rightarrow> nat \<Rightarrow> bool" where
  "all_bytes_valid b start_offset = list_all is_valid_identifier_char (drop start_offset b)"

definition identifier_is_valid :: "u8 list \<Rightarrow> bool" where
  "identifier_is_valid b =
     (if b = string_bytes ''<SELF>'' then True
      else
        case b of
          [] \<Rightarrow> False
        | first # _ \<Rightarrow>
            if 97 \<le> first \<and> first \<le> 122 \<or> 65 \<le> first \<and> first \<le> 90 then all_bytes_valid b 1
            else if first = 95 \<and> length b > 1 then all_bytes_valid b 1
            else False)"

definition identifier_from_utf8 :: "u8 list \<Rightarrow> ident_str anyhow_result" where
  "identifier_from_utf8 vec =
     (if identifier_is_valid vec then Ok (map (\<lambda>b. char_of (unat b)) vec) else Err ())"

definition load_identifier :: "ident_str reader" where
  "load_identifier c =
     rbind (load_identifier_size c) (\<lambda>(size, c).
     rbind (map_err (\<lambda>_. malformed) (cursor_read size c)) (\<lambda>(buffer, c).
       if length buffer \<noteq> size then Err malformed
       else
         rbind (map_err (\<lambda>_. malformed) (identifier_from_utf8 buffer)) (\<lambda>s. Ok (s, c))))"

definition load_constant :: "pool_constant reader" where
  "load_constant c =
     rbind (load_signature_token c) (\<lambda>(type, c).
     rbind (load_constant_size c) (\<lambda>(size, c).
     rbind (map_err (\<lambda>_. malformed) (cursor_read size c)) (\<lambda>(data, c).
       if length data \<noteq> size then Err malformed
       else Ok (\<lparr>const_type = type, const_data = data\<rparr>, c))))"

definition load_field_def :: "field_definition reader" where
  "load_field_def c =
     rbind (load_identifier_index c) (\<lambda>(name, c).
     rbind (load_signature_token c) (\<lambda>(sig, c). Ok (\<lparr>fdd_name = name, fdd_signature = sig\<rparr>, c)))"

definition load_field_defs :: "field_definition list reader" where
  "load_field_defs c =
     rbind (load_field_count c) (\<lambda>(field_count, c). load_times field_count load_field_def c)"

definition load_struct_def :: "struct_definition reader" where
  "load_struct_def c =
     rbind (load_struct_handle_index c) (\<lambda>(struct_handle, c).
     rbind (load_byte c) (\<lambda>(byte, c).
     rbind (native_struct_flag_from_u8 byte) (\<lambda>field_information_flag.
     rbind (case field_information_flag of
              NSF_NATIVE \<Rightarrow> Ok (Native, c)
            | NSF_DECLARED \<Rightarrow> rbind (load_field_defs c) (\<lambda>(fds, c). Ok (Declared fds, c)))
       (\<lambda>(field_information, c).
         Ok (\<lparr>sd_struct_handle = struct_handle, sd_field_information = field_information\<rparr>, c)))))"

definition load_field_handle :: "field_handle reader" where
  "load_field_handle c =
     rbind (load_struct_def_index c) (\<lambda>(struct_idx, c).
     rbind (load_field_offset c) (\<lambda>(off, c). Ok (\<lparr>fdh_owner = struct_idx, fdh_field = off\<rparr>, c)))"

definition load_field_instantiation :: "field_instantiation reader" where
  "load_field_instantiation c =
     rbind (load_field_handle_index c) (\<lambda>(handle, c).
     rbind (load_signature_index c) (\<lambda>(type_parameters, c).
       Ok (\<lparr>fdi_handle = handle, fdi_type_parameters = type_parameters\<rparr>, c)))"

section \<open>Tables\<close>

record table =
  tbl_kind :: table_type
  tbl_offset :: u32
  tbl_count :: u32

text \<open>
  The loop over the bytes of a table. The condition \<open>continues\<close> is \<^verbatim>\<open>position < count\<close>, or
  \<^verbatim>\<open>position != count\<close> for field handles and their instantiations.
\<close>

primrec load_while ::
  "nat \<Rightarrow> (nat \<Rightarrow> bool) \<Rightarrow> 'a reader \<Rightarrow> 'a list \<Rightarrow> versioned_cursor \<Rightarrow> 'a list vm_result" where
  "load_while 0 continues load entries c = (if continues (vc_position c) then Panic else Ok entries)"
| "load_while (Suc n) continues load entries c =
     (if continues (vc_position c)
      then rbind (load c) (\<lambda>(x, c). load_while n continues load (entries @ [x]) c)
      else Ok entries)"

definition load_table ::
  "'a reader \<Rightarrow> versioned_binary \<Rightarrow> table \<Rightarrow> 'a list \<Rightarrow> 'a list vm_result" where
  "load_table load binary table entries =
     (let start = unat (tbl_offset table); stop = start + unat (tbl_count table) in
      rbind (new_cursor binary start stop) (\<lambda>c.
        load_while (unat (tbl_count table)) (\<lambda>position. position < unat (tbl_count table)) load entries c))"

definition load_table_until ::
  "'a reader \<Rightarrow> versioned_binary \<Rightarrow> table \<Rightarrow> 'a list \<Rightarrow> 'a list vm_result" where
  "load_table_until load binary table entries =
     (let start = unat (tbl_offset table); stop = start + unat (tbl_count table) in
      rbind (new_cursor binary start stop) (\<lambda>c.
        load_while (unat (tbl_count table)) (\<lambda>position. position \<noteq> unat (tbl_count table)) load entries c))"

definition load_module_handles where
  "load_module_handles = load_table load_module_handle"

definition load_struct_handles where
  "load_struct_handles = load_table load_struct_handle"

definition load_function_handles where
  "load_function_handles = load_table load_function_handle"

definition load_struct_instantiations where
  "load_struct_instantiations = load_table load_struct_instantiation"

definition load_function_instantiations where
  "load_function_instantiations = load_table load_function_instantiation"

definition load_identifiers where
  "load_identifiers = load_table load_identifier"

definition load_constant_pool where
  "load_constant_pool = load_table load_constant"

definition load_signatures where
  "load_signatures = load_table load_signature_tokens"

definition load_struct_defs where
  "load_struct_defs = load_table load_struct_def"

definition load_function_defs where
  "load_function_defs = load_table load_function_def"

definition load_field_handles where
  "load_field_handles = load_table_until load_field_handle"

definition load_field_instantiations where
  "load_field_instantiations = load_table_until load_field_instantiation"

text \<open>Addresses are sliced out of the binary; the conversion of a slice of the right length to an
  address does not fail.\<close>

primrec load_addresses :: "nat \<Rightarrow> versioned_binary \<Rightarrow> nat \<Rightarrow> account_address list vm_result" where
  "load_addresses 0 binary start = Ok []"
| "load_addresses (Suc n) binary start =
     (let end_addr = start + ADDRESS_LENGTH in
      rbind (binary_slice binary start end_addr) (\<lambda>address.
        if length address \<noteq> ADDRESS_LENGTH then Err malformed
        else rbind (load_addresses n binary end_addr) (\<lambda>addresses. Ok (address # addresses))))"

definition load_address_identifiers ::
  "versioned_binary \<Rightarrow> table \<Rightarrow> account_address list \<Rightarrow> account_address list vm_result" where
  "load_address_identifiers binary table addresses =
     (if unat (tbl_count table) mod ADDRESS_LENGTH \<noteq> 0 then Err malformed
      else
        rbind (load_addresses (unat (tbl_count table) div ADDRESS_LENGTH) binary (unat (tbl_offset table)))
          (\<lambda>more. Ok (addresses @ more)))"

definition read_table :: "table reader" where
  "read_table c =
     rbind (load_byte c) (\<lambda>(kind, c).
     rbind (load_table_offset c) (\<lambda>(table_offset, c).
     rbind (load_table_size c) (\<lambda>(count, c).
     rbind (table_type_from_u8 kind) (\<lambda>kind.
       Ok (\<lparr>tbl_kind = kind, tbl_offset = table_offset, tbl_count = count\<rparr>, c)))))"

definition read_tables :: "u8 \<Rightarrow> table list reader" where
  "read_tables table_count = load_times (unat table_count) read_table"

definition check_table :: "nat \<Rightarrow> table \<Rightarrow> u32 \<times> table_type set \<Rightarrow> (u32 \<times> table_type set) vm_result" where
  "check_table binary_len table = (\<lambda>(current_offset, table_types).
     if tbl_offset table \<noteq> current_offset then Err (new_error BAD_HEADER_TABLE)
     else if tbl_count table = 0 then Err (new_error BAD_HEADER_TABLE)
     else if unat current_offset + unat (tbl_count table) \<ge> 2 ^ 32
     then Err (new_error BAD_HEADER_TABLE)
     else
       let current_offset = current_offset + tbl_count table in
       if tbl_kind table \<in> table_types then Err (new_error DUPLICATE_TABLE)
       else if unat current_offset > binary_len then Err (new_error BAD_HEADER_TABLE)
       else Ok (current_offset, insert (tbl_kind table) table_types))"

text \<open>\<^verbatim>\<open>check_tables\<close> sorts the tables by their offset and returns them with the size of the contents.\<close>

definition check_tables :: "table list \<Rightarrow> nat \<Rightarrow> (table list \<times> u32) vm_result" where
  "check_tables tables binary_len =
     (let tables = sort_key (\<lambda>t. unat (tbl_offset t)) tables in
      rbind (for_each (check_table binary_len) tables (0, {})) (\<lambda>(current_offset, _).
        Ok (tables, current_offset)))"

section \<open>Modules and scripts\<close>

definition build_common_table ::
  "versioned_binary \<Rightarrow> table \<Rightarrow> common_tables \<Rightarrow> common_tables vm_result" where
  "build_common_table binary table common =
     (case tbl_kind table of
        MODULE_HANDLES \<Rightarrow>
          rbind (load_module_handles binary table (ct_module_handles common))
            (\<lambda>xs. Ok (common\<lparr>ct_module_handles := xs\<rparr>))
      | STRUCT_HANDLES \<Rightarrow>
          rbind (load_struct_handles binary table (ct_struct_handles common))
            (\<lambda>xs. Ok (common\<lparr>ct_struct_handles := xs\<rparr>))
      | FUNCTION_HANDLES \<Rightarrow>
          rbind (load_function_handles binary table (ct_function_handles common))
            (\<lambda>xs. Ok (common\<lparr>ct_function_handles := xs\<rparr>))
      | FUNCTION_INST \<Rightarrow>
          rbind (load_function_instantiations binary table (ct_function_instantiations common))
            (\<lambda>xs. Ok (common\<lparr>ct_function_instantiations := xs\<rparr>))
      | SIGNATURES \<Rightarrow>
          rbind (load_signatures binary table (ct_signatures common))
            (\<lambda>xs. Ok (common\<lparr>ct_signatures := xs\<rparr>))
      | CONSTANT_POOL \<Rightarrow>
          rbind (load_constant_pool binary table (ct_constant_pool common))
            (\<lambda>xs. Ok (common\<lparr>ct_constant_pool := xs\<rparr>))
      | IDENTIFIERS \<Rightarrow>
          rbind (load_identifiers binary table (ct_identifiers common))
            (\<lambda>xs. Ok (common\<lparr>ct_identifiers := xs\<rparr>))
      | ADDRESS_IDENTIFIERS \<Rightarrow>
          rbind (load_address_identifiers binary table (ct_address_identifiers common))
            (\<lambda>xs. Ok (common\<lparr>ct_address_identifiers := xs\<rparr>))
      | FRIEND_DECLS \<Rightarrow> if vb_version binary < VERSION_2 then Err malformed else Ok common
      | _ \<Rightarrow> Ok common)"

definition build_common_tables ::
  "versioned_binary \<Rightarrow> table list \<Rightarrow> common_tables \<Rightarrow> common_tables vm_result" where
  "build_common_tables binary tables common = for_each (build_common_table binary) tables common"

definition build_module_table ::
  "versioned_binary \<Rightarrow> table \<Rightarrow> compiled_module \<Rightarrow> compiled_module vm_result" where
  "build_module_table binary table m =
     (case tbl_kind table of
        STRUCT_DEFS \<Rightarrow>
          rbind (load_struct_defs binary table (cm_struct_defs m)) (\<lambda>xs. Ok (m\<lparr>cm_struct_defs := xs\<rparr>))
      | STRUCT_DEF_INST \<Rightarrow>
          rbind (load_struct_instantiations binary table (cm_struct_def_instantiations m))
            (\<lambda>xs. Ok (m\<lparr>cm_struct_def_instantiations := xs\<rparr>))
      | FUNCTION_DEFS \<Rightarrow>
          rbind (load_function_defs binary table (cm_function_defs m))
            (\<lambda>xs. Ok (m\<lparr>cm_function_defs := xs\<rparr>))
      | FIELD_HANDLE \<Rightarrow>
          rbind (load_field_handles binary table (cm_field_handles m))
            (\<lambda>xs. Ok (m\<lparr>cm_field_handles := xs\<rparr>))
      | FIELD_INST \<Rightarrow>
          rbind (load_field_instantiations binary table (cm_field_instantiations m))
            (\<lambda>xs. Ok (m\<lparr>cm_field_instantiations := xs\<rparr>))
      | FRIEND_DECLS \<Rightarrow>
          rbind (load_module_handles binary table (cm_friend_decls m))
            (\<lambda>xs. Ok (m\<lparr>cm_friend_decls := xs\<rparr>))
      | _ \<Rightarrow> Ok m)"

definition build_module_tables ::
  "versioned_binary \<Rightarrow> table list \<Rightarrow> compiled_module \<Rightarrow> compiled_module vm_result" where
  "build_module_tables binary tables m = for_each (build_module_table binary) tables m"

definition is_common_table :: "table_type \<Rightarrow> bool" where
  "is_common_table kind =
     (case kind of
        MODULE_HANDLES \<Rightarrow> True
      | STRUCT_HANDLES \<Rightarrow> True
      | FUNCTION_HANDLES \<Rightarrow> True
      | FUNCTION_INST \<Rightarrow> True
      | SIGNATURES \<Rightarrow> True
      | IDENTIFIERS \<Rightarrow> True
      | ADDRESS_IDENTIFIERS \<Rightarrow> True
      | CONSTANT_POOL \<Rightarrow> True
      | _ \<Rightarrow> False)"

definition build_script_tables :: "table list \<Rightarrow> unit vm_result" where
  "build_script_tables tables =
     for_all (\<lambda>table. if is_common_table (tbl_kind table) then Ok () else Err malformed) tables"

text \<open>The mutable access of \<^verbatim>\<open>CommonTables\<close>: storing the tables back.\<close>

definition set_module_common_tables :: "common_tables \<Rightarrow> compiled_module \<Rightarrow> compiled_module" where
  "set_module_common_tables common m = m\<lparr>
     cm_module_handles := ct_module_handles common, cm_struct_handles := ct_struct_handles common,
     cm_function_handles := ct_function_handles common,
     cm_function_instantiations := ct_function_instantiations common,
     cm_signatures := ct_signatures common, cm_identifiers := ct_identifiers common,
     cm_address_identifiers := ct_address_identifiers common,
     cm_constant_pool := ct_constant_pool common\<rparr>"

definition set_script_common_tables :: "common_tables \<Rightarrow> compiled_script \<Rightarrow> compiled_script" where
  "set_script_common_tables common s = s\<lparr>
     cs_module_handles := ct_module_handles common, cs_struct_handles := ct_struct_handles common,
     cs_function_handles := ct_function_handles common,
     cs_function_instantiations := ct_function_instantiations common,
     cs_signatures := ct_signatures common, cs_identifiers := ct_identifiers common,
     cs_address_identifiers := ct_address_identifiers common,
     cs_constant_pool := ct_constant_pool common\<rparr>"

definition build_compiled_module ::
  "versioned_binary \<Rightarrow> table list \<Rightarrow> compiled_module \<Rightarrow> compiled_module vm_result" where
  "build_compiled_module binary tables m =
     rbind (build_common_tables binary tables (module_common_tables m)) (\<lambda>common.
       build_module_tables binary tables (set_module_common_tables common m))"

definition build_compiled_script ::
  "versioned_binary \<Rightarrow> table list \<Rightarrow> compiled_script \<Rightarrow> compiled_script vm_result" where
  "build_compiled_script binary tables s =
     rbind (build_common_tables binary tables (script_common_tables s)) (\<lambda>common.
     rbind (build_script_tables tables) (\<lambda>_. Ok (set_script_common_tables common s)))"

definition empty_module :: "u32 \<Rightarrow> module_handle_index \<Rightarrow> compiled_module" where
  "empty_module version self_module_handle_idx = \<lparr>
     cm_version = version, cm_self_module_handle_idx = self_module_handle_idx,
     cm_module_handles = [], cm_struct_handles = [], cm_function_handles = [],
     cm_field_handles = [], cm_friend_decls = [], cm_struct_def_instantiations = [],
     cm_function_instantiations = [], cm_field_instantiations = [], cm_signatures = [],
     cm_identifiers = [], cm_address_identifiers = [], cm_constant_pool = [],
     cm_struct_defs = [], cm_function_defs = []\<rparr>"

text \<open>What the deserialization of modules and of scripts starts with: the tables and their contents.\<close>

definition read_contents :: "u8 list \<Rightarrow> ((table list \<times> versioned_binary) \<times> versioned_cursor) vm_result" where
  "read_contents binary =
     rbind (versioned_cursor_new binary) (\<lambda>c.
     rbind (load_table_count c) (\<lambda>(table_count, c).
     rbind (read_tables table_count c) (\<lambda>(tables, c).
     rbind (check_tables tables (length binary)) (\<lambda>(tables, content_len).
     rbind (read_new_binary (unat content_len) c) (\<lambda>(table_contents, c).
       Ok ((tables, table_contents), c))))))"

definition deserialize_compiled_module :: "u8 list \<Rightarrow> compiled_module vm_result" where
  "deserialize_compiled_module binary =
     rbind (read_contents binary) (\<lambda>((tables, table_contents), c).
     rbind (load_module_handle_index c) (\<lambda>(self_module_handle_idx, c).
       build_compiled_module table_contents tables (empty_module (vc_version c) self_module_handle_idx)))"

definition deserialize_compiled_script :: "u8 list \<Rightarrow> compiled_script vm_result" where
  "deserialize_compiled_script binary =
     rbind (read_contents binary) (\<lambda>((tables, table_contents), c).
     rbind (load_ability_sets FunctionTypeParameters c) (\<lambda>(type_parameters, c).
     rbind (load_signature_index c) (\<lambda>(parameters, c).
     rbind (load_code_unit c) (\<lambda>(code, c).
       build_compiled_script table_contents tables \<lparr>
         cs_version = vc_version c, cs_module_handles = [], cs_struct_handles = [],
         cs_function_handles = [], cs_function_instantiations = [], cs_signatures = [],
         cs_identifiers = [], cs_address_identifiers = [], cs_constant_pool = [],
         cs_type_parameters = type_parameters, cs_parameters = parameters, cs_code = code\<rparr>))))"

end
