(* ===== verification/Binary_Codec.thy ===== *)
theory Binary_Codec
  imports Deserializer
begin

text \<open>
  The contract between the writers of the serializer and the readers of the deserializer. A reader
  of a kind of value does not panic, moves the cursor forward inside the binary and yields values
  that satisfy an invariant; the writer of a value that satisfies the invariant produces bytes from
  which the reader gets the value back, whatever follows them. The locale \<open>codec\<close> is the contract,
  its lemmas lift it to whole tables, and it is interpreted for every kind of table entry.
\<close>

section \<open>Readers\<close>

definition reader_ok :: "nat \<Rightarrow> ('a \<Rightarrow> bool) \<Rightarrow> 'a reader \<Rightarrow> bool" where
  "reader_ok n P r \<longleftrightarrow>
     (\<forall>c. r c \<noteq> Panic \<and>
        (\<forall>x c'. r c = Ok (x, c') \<longrightarrow>
           P x \<and> (\<exists>k \<ge> n. k \<le> length (vc_rest c) \<and> c' = advance k c)))"

named_theorems reader_intros \<open>rules for readers\<close>

lemma reader_okI:
  assumes "\<And>c. r c \<noteq> Panic"
    and "\<And>c x c'. r c = Ok (x, c') \<Longrightarrow> P x \<and> (\<exists>k \<ge> n. k \<le> length (vc_rest c) \<and> c' = advance k c)"
  shows "reader_ok n P r"
  using assms by (simp add: reader_ok_def)

lemma reader_ok_not_Panic: "reader_ok n P r \<Longrightarrow> r c \<noteq> Panic"
  by (simp add: reader_ok_def)

lemma reader_ok_elim:
  assumes "reader_ok n P r" "r c = Ok (x, c')"
  obtains k where "P x" "n \<le> k" "k \<le> length (vc_rest c)" "c' = advance k c"
  using assms unfolding reader_ok_def by blast

lemma reader_ok_mono:
  assumes "reader_ok n P r" "m \<le> n" "\<And>x. P x \<Longrightarrow> Q x"
  shows "reader_ok m Q r"
  using assms unfolding reader_ok_def by (meson order_trans)

lemma reader_ok_return [reader_intros]: "P x \<Longrightarrow> reader_ok 0 P (\<lambda>c. Ok (x, c))"
  by (rule reader_okI) (auto intro: exI[of _ 0])

lemma reader_ok_Err [reader_intros]: "reader_ok n P (\<lambda>c. Err e)"
  by (rule reader_okI) simp_all

lemma reader_ok_bind:
  assumes "reader_ok n P r" "\<And>x. P x \<Longrightarrow> reader_ok m Q (s x)"
  shows "reader_ok (n + m) Q (\<lambda>c. rbind (r c) (\<lambda>(x, c). s x c))"
proof (rule reader_okI)
  show "rbind (r c) (\<lambda>(x, c). s x c) \<noteq> Panic" for c
    using assms reader_ok_not_Panic by (auto simp: no_panic elim: reader_ok_elim dest: reader_ok_not_Panic)
  fix c y c'
  assume "rbind (r c) (\<lambda>(x, c). s x c) = Ok (y, c')"
  then obtain x c1 where r: "r c = Ok (x, c1)" and s: "s x c1 = Ok (y, c')"
    by (auto simp: ok_iff)
  obtain k where k: "P x" "n \<le> k" "k \<le> length (vc_rest c)" "c1 = advance k c"
    using assms(1) r by (rule reader_ok_elim)
  obtain k' where "Q y" "m \<le> k'" "k' \<le> length (vc_rest c1)" "c' = advance k' c1"
    using assms(2)[OF k(1)] s by (rule reader_ok_elim)
  with k show "Q y \<and> (\<exists>k \<ge> n + m. k \<le> length (vc_rest c) \<and> c' = advance k c)"
    by (intro conjI exI[of _ "k + k'"]) simp_all
qed

lemma reader_ok_bind_first [reader_intros]:
  "reader_ok n P r \<Longrightarrow> (\<And>x. P x \<Longrightarrow> reader_ok 0 Q (s x)) \<Longrightarrow>
     reader_ok n Q (\<lambda>c. rbind (r c) (\<lambda>(x, c). s x c))"
  using reader_ok_bind[of n P r 0 Q s] by simp

lemma reader_ok_bind_pure [reader_intros]:
  assumes "v \<noteq> Panic" "\<And>y. v = Ok y \<Longrightarrow> reader_ok n P (r y)"
  shows "reader_ok n P (\<lambda>c. rbind v (\<lambda>y. r y c))"
  using assms by (cases v) (simp_all add: reader_intros)

lemma reader_ok_if [reader_intros]:
  "reader_ok n P r \<Longrightarrow> reader_ok n P s \<Longrightarrow> reader_ok n P (\<lambda>c. if b c then r c else s c)"
  by (simp add: reader_ok_def)

lemma reader_ok_times:
  "reader_ok n P r \<Longrightarrow> reader_ok 0 (\<lambda>xs. list_all P xs \<and> length xs = m) (load_times m r)"
proof (induction m)
  case 0
  then show ?case by (simp add: reader_intros)
next
  case (Suc m)
  have r: "reader_ok 0 P r" using Suc.prems by (rule reader_ok_mono) simp_all
  have "reader_ok 0 (\<lambda>xs. list_all P xs \<and> length xs = Suc m)
      (\<lambda>c. rbind (r c) (\<lambda>(x, c). rbind (load_times m r c) (\<lambda>(xs, c). Ok (x # xs, c))))"
    by (rule reader_intros r Suc.IH[OF Suc.prems] | simp)+
  moreover have "load_times (Suc m) r
      = (\<lambda>c. rbind (r c) (\<lambda>(x, c). rbind (load_times m r c) (\<lambda>(xs, c). Ok (x # xs, c))))"
    by (rule ext) simp
  ultimately show ?case by simp
qed

lemma reader_ok_load_byte [reader_intros]: "reader_ok 1 (\<lambda>_. True) load_byte"
  by (rule reader_okI)
     (auto simp: load_byte_def read_u8_cases map_err_def split: list.splits intro!: exI[of _ 1])

lemma reader_ok_uleb:
  "reader_ok 1 (\<lambda>x. \<exists>w. unat w \<le> bound \<and> try_into w = Some x) (read_uleb_internal try_into bound)"
proof (rule reader_okI)
  show "read_uleb_internal try_into bound c \<noteq> Panic" for c
    by (auto simp: read_uleb_internal_def no_panic)
  fix c x c'
  assume "read_uleb_internal try_into bound c = Ok (x, c')"
  then obtain w rest where "unat w \<le> bound" "try_into w = Some x" "vc_rest c = uleb128 w @ rest"
      "c' = advance (length (uleb128 w)) c"
    by (auto simp: read_uleb_internal_def ok_iff read_uleb128_Ok not_less split: if_split_asm)
  then show "(\<exists>w. unat w \<le> bound \<and> try_into w = Some x) \<and>
      (\<exists>k \<ge> 1. k \<le> length (vc_rest c) \<and> c' = advance k c)"
    by (auto simp: Suc_le_eq intro!: exI[of _ "length (uleb128 w)"])
qed

lemma reader_ok_uleb_word [reader_intros]:
  "reader_ok 1 (\<lambda>x :: 'n::len word. unat x \<le> bound) (read_uleb_internal try_into_word bound)"
  by (rule reader_ok_mono[OF reader_ok_uleb])
     (auto simp: try_into_word_def unsigned_ucast_eq take_bit_nat_eq_self split: if_splits)

lemma reader_ok_uleb_nat [reader_intros]:
  "reader_ok 1 (\<lambda>x. x \<le> bound) (read_uleb_internal try_into_nat bound)"
  by (rule reader_ok_mono[OF reader_ok_uleb]) (auto simp: try_into_nat_def)

lemma reader_ok_index [reader_intros]: "reader_ok 1 (\<lambda>_. True) load_table_entry_index"
  unfolding load_table_entry_index_def by (rule reader_ok_mono[OF reader_ok_uleb]) simp_all

lemma reader_ok_exact [reader_intros]:
  "reader_ok n (\<lambda>bytes. length bytes = n) (\<lambda>c. map_err (\<lambda>_. e) (read_exact n c))"
  by (rule reader_okI) (auto simp: read_exact_def map_err_def split: if_splits)

lemma reader_ok_u64 [reader_intros]: "reader_ok 1 (\<lambda>_. True) read_u64_internal"
proof -
  have "reader_ok 8 (\<lambda>_. True) read_u64_internal"
    unfolding read_u64_internal_def by (rule reader_intros | simp)+
  then show ?thesis by (rule reader_ok_mono) simp_all
qed

lemma reader_ok_u128 [reader_intros]: "reader_ok 1 (\<lambda>_. True) read_u128_internal"
proof -
  have "reader_ok 16 (\<lambda>_. True) read_u128_internal"
    unfolding read_u128_internal_def by (rule reader_intros | simp)+
  then show ?thesis by (rule reader_ok_mono) simp_all
qed

lemma reader_ok_weaken: "reader_ok n P r \<Longrightarrow> reader_ok 0 P r"
  by (rule reader_ok_mono) simp_all

lemmas integer_readers [reader_intros] =
  reader_ok_load_byte[THEN reader_ok_weaken] reader_ok_uleb_word[THEN reader_ok_weaken]
  reader_ok_uleb_nat[THEN reader_ok_weaken] reader_ok_index[THEN reader_ok_weaken]
  reader_ok_u64[THEN reader_ok_weaken] reader_ok_u128[THEN reader_ok_weaken]

section \<open>Writers and their readers\<close>

definition codes :: "writer \<Rightarrow> 'a reader \<Rightarrow> 'a \<Rightarrow> bool" where
  "codes w r x \<longleftrightarrow>
     (\<forall>b. w b \<noteq> Panic \<and>
        (\<forall>b'. w b = Ok b' \<longrightarrow>
           (\<exists>bs. b' = b @ bs \<and>
              (\<forall>c rest. vc_version c = VERSION_MAX \<longrightarrow> vc_rest c = bs @ rest \<longrightarrow>
                 r c = Ok (x, advance (length bs) c)))))"

named_theorems codes_intros \<open>rules for writers and their readers\<close>

lemma codesI:
  assumes "\<And>b. w b \<noteq> Panic"
    and "\<And>b b'. w b = Ok b' \<Longrightarrow> \<exists>bs. b' = b @ bs \<and>
      (\<forall>c rest. vc_version c = VERSION_MAX \<longrightarrow> vc_rest c = bs @ rest \<longrightarrow>
         r c = Ok (x, advance (length bs) c))"
  shows "codes w r x"
  using assms by (simp add: codes_def)

lemma codes_not_Panic: "codes w r x \<Longrightarrow> w b \<noteq> Panic"
  by (simp add: codes_def)

lemma codes_elim:
  assumes "codes w r x" "w b = Ok b'"
  obtains bs where "b' = b @ bs"
    "\<And>c rest. vc_version c = VERSION_MAX \<Longrightarrow> vc_rest c = bs @ rest \<Longrightarrow>
       r c = Ok (x, advance (length bs) c)"
  using assms unfolding codes_def by blast

lemma codes_return [codes_intros]: "codes Ok (\<lambda>c. Ok (x, c)) x"
  by (rule codesI) (auto intro: exI[of _ "[]"])

lemma codes_bind [codes_intros]:
  assumes first: "codes w r x" and second: "codes v (s x) y"
  shows "codes (\<lambda>b. rbind (w b) v) (\<lambda>c. rbind (r c) (\<lambda>(x, c). s x c)) y"
proof (rule codesI)
  show "rbind (w b) v \<noteq> Panic" for b
    using codes_not_Panic[OF first] codes_not_Panic[OF second] by (auto simp: no_panic)
  fix b b'
  assume "rbind (w b) v = Ok b'"
  then obtain b1 where b1: "w b = Ok b1" "v b1 = Ok b'" by (auto simp: ok_iff)
  obtain bs where bs: "b1 = b @ bs" "\<And>c rest. vc_version c = VERSION_MAX \<Longrightarrow>
      vc_rest c = bs @ rest \<Longrightarrow> r c = Ok (x, advance (length bs) c)"
    using first b1(1) by (rule codes_elim) blast
  obtain bs' where bs': "b' = b1 @ bs'" "\<And>c rest. vc_version c = VERSION_MAX \<Longrightarrow>
      vc_rest c = bs' @ rest \<Longrightarrow> s x c = Ok (y, advance (length bs') c)"
    using second b1(2) by (rule codes_elim) blast
  show "\<exists>bs. b' = b @ bs \<and>
      (\<forall>c rest. vc_version c = VERSION_MAX \<longrightarrow> vc_rest c = bs @ rest \<longrightarrow>
         rbind (r c) (\<lambda>(x, c). s x c) = Ok (y, advance (length bs) c))"
  proof (intro exI[of _ "bs @ bs'"] conjI allI impI)
    show "b' = b @ bs @ bs'" by (simp add: bs(1) bs'(1))
    fix c :: versioned_cursor and rest
    assume c: "vc_version c = VERSION_MAX" "vc_rest c = (bs @ bs') @ rest"
    then show "rbind (r c) (\<lambda>(x, c). s x c) = Ok (y, advance (length (bs @ bs')) c)"
      using bs(2)[of c "bs' @ rest"] bs'(2)[of "advance (length bs) c" rest] by simp
  qed
qed

text \<open>The reader may still build its value after the last bytes are read.\<close>

lemma codes_last:
  assumes "codes w r x" "\<And>c. s x c = Ok (y, c)"
  shows "codes w (\<lambda>c. rbind (r c) (\<lambda>(x, c). s x c)) y"
proof -
  have "codes (\<lambda>b. rbind (w b) Ok) (\<lambda>c. rbind (r c) (\<lambda>(x, c). s x c)) y"
    by (rule codes_bind[OF assms(1)]) (use codes_return assms(2) in \<open>simp add: codes_def\<close>)
  moreover have "rbind (w b) Ok = w b" for b by (cases "w b") simp_all
  ultimately show ?thesis by simp
qed

lemma codes_pure: "v = Ok y \<Longrightarrow> codes w (r y) x \<Longrightarrow> codes w (\<lambda>c. rbind v (\<lambda>y. r y c)) x"
  by simp

lemma codes_push [codes_intros]: "codes (binary_push byte) load_byte byte"
  by (rule codesI)
     (auto simp: binary_push_def load_byte_def read_u8_cases map_err_def split: if_splits)

text \<open>A tag in front of a value, decoded by \<open>decode\<close>.\<close>

lemma codes_tag_more:
  assumes "decode byte = Ok t" "codes w (r t) x"
  shows "codes (\<lambda>b. rbind (binary_push byte b) w)
    (\<lambda>c. rbind (load_byte c) (\<lambda>(byte, c). rbind (decode byte) (\<lambda>t. r t c))) x"
  by (rule codes_bind[OF codes_push]) (simp add: assms)

lemma codes_tag:
  assumes "decode byte = Ok t" "\<And>c. r t c = Ok (x, c)"
  shows "codes (binary_push byte)
    (\<lambda>c. rbind (load_byte c) (\<lambda>(byte, c). rbind (decode byte) (\<lambda>t. r t c))) x"
  by (rule codes_last[OF codes_push]) (simp add: assms)

lemma codes_uleb:
  assumes "bound \<le> bound'" "x < 2 ^ 64" "try_into (of_nat x) = Some y"
  shows "codes (write_as_uleb128 x bound) (read_uleb_internal try_into bound') y"
proof (rule codesI)
  show "write_as_uleb128 x bound b \<noteq> Panic" for b
    by (simp add: write_as_uleb128_def write_uleb128_not_Panic)
  fix b b'
  assume "write_as_uleb128 x bound b = Ok b'"
  then have b': "b' = b @ uleb128 (of_nat x)" "x \<le> bound'"
    using assms(1) by (auto simp: write_as_uleb128_def write_uleb128_Ok split: if_splits)
  have unat: "unat (of_nat x :: u64) = x"
    using assms(2) by (simp add: unat_of_nat)
  show "\<exists>bs. b' = b @ bs \<and> (\<forall>c rest. vc_version c = VERSION_MAX \<longrightarrow> vc_rest c = bs @ rest \<longrightarrow>
      read_uleb_internal try_into bound' c = Ok (y, advance (length bs) c))"
    using b' assms(3) unat
    by (intro exI[of _ "uleb128 (of_nat x)"])
       (auto simp: read_uleb_internal_def read_uleb128_written map_err_def ok_or_def)
qed

lemma codes_uleb_word [codes_intros]:
  assumes "bound \<le> bound'" "LENGTH('n) \<le> 64"
  shows "codes (write_as_uleb128 (unat x) bound) (read_uleb_internal try_into_word bound')
    (x :: 'n::len word)"
proof (rule codes_uleb[OF assms(1)])
  have "unat x < 2 ^ LENGTH('n)" by (rule unsigned_less)
  also have less: "\<dots> \<le> (2 :: nat) ^ 64" using assms(2) by (intro power_increasing) simp_all
  finally show "unat x < 2 ^ 64" .
  then show "try_into_word (of_nat (unat x)) = Some x"
    by (simp add: try_into_word_def unat_of_nat word_unat_eq_iff
        unsigned_ucast_eq take_bit_nat_eq_self take_bit_word_eq_self assms(2))
qed

lemma codes_uleb_nat [codes_intros]:
  assumes "bound < 2 ^ 64"
  shows "codes (write_as_uleb128 n bound) (read_uleb_internal try_into_nat bound) n"
proof (cases "n \<le> bound")
  case True
  then show ?thesis
    using assms by (intro codes_uleb) (simp_all add: try_into_nat_def unat_of_nat)
next
  case False
  then show ?thesis by (intro codesI) (simp_all add: write_as_uleb128_def)
qed

lemma codes_index [codes_intros]:
  "codes (serialize_table_entry_index idx) load_table_entry_index idx"
  unfolding serialize_table_entry_index_def load_table_entry_index_def
  by (rule codes_uleb_word) simp_all

lemma codes_extend:
  assumes "length bytes = n"
  shows "codes (binary_extend bytes) (\<lambda>c. map_err (\<lambda>_. e) (read_exact n c)) bytes"
  using assms
  by (intro codesI) (auto simp: binary_extend_def read_exact_def map_err_def split: if_splits)

lemma codes_u64 [codes_intros]: "codes (write_u64 v) read_u64_internal v"
  unfolding write_u64_def read_u64_internal_def
  by (rule codes_last[OF codes_extend]) (simp_all add: from_to_le_bytes take_bit_word_eq_self)

lemma codes_u128 [codes_intros]: "codes (write_u128 v) read_u128_internal v"
  unfolding write_u128_def read_u128_internal_def
  by (rule codes_last[OF codes_extend]) (simp_all add: from_to_le_bytes take_bit_word_eq_self)

lemma codes_times:
  assumes "\<And>x. x \<in> set xs \<Longrightarrow> codes (w x) r x"
  shows "codes (for_each w xs) (load_times (length xs) r) xs"
  using assms
proof (induction xs)
  case Nil
  then show ?case using codes_return by (simp add: codes_def)
next
  case (Cons x xs)
  have "codes (\<lambda>b. rbind (w x b) (for_each w xs))
      (\<lambda>c. rbind (r c) (\<lambda>(x, c). rbind (load_times (length xs) r c) (\<lambda>(xs, c). Ok (x # xs, c)))) (x # xs)"
  proof (rule codes_bind)
    show "codes (w x) r x" by (simp add: Cons.prems)
    show "codes (for_each w xs)
        (\<lambda>c. rbind (load_times (length xs) r c) (\<lambda>(xs, c). Ok (x # xs, c))) (x # xs)"
      by (rule codes_last[OF Cons.IH]) (simp_all add: Cons.prems)
  qed
  then show ?case by (simp add: codes_def)
qed

lemma for_each_push:
  "for_each binary_push bytes b =
     (if bytes = [] \<or> length b + length bytes \<le> BINARY_SIZE_LIMIT then Ok (b @ bytes) else Err ())"
  by (induction bytes arbitrary: b) (auto simp: binary_push_def)

lemma codes_bytes:
  "codes (for_each binary_push bytes) (\<lambda>c. map_err (\<lambda>_. e) (cursor_read (length bytes) c)) bytes"
  by (rule codesI)
     (auto simp: for_each_push cursor_read_def map_err_def Let_def split: if_splits)

section \<open>Tables\<close>

text \<open>
  The contract for whole tables: loading the bytes of a table does not panic and yields entries
  that satisfy the invariant, and entries that satisfy it are loaded from the bytes they are
  written as.
\<close>

definition table_bytes :: "versioned_binary \<Rightarrow> table \<Rightarrow> u8 list vm_result" where
  "table_bytes binary table =
     binary_slice binary (unat (tbl_offset table)) (unat (tbl_offset table) + unat (tbl_count table))"

lemma table_bytes_length: "table_bytes binary table = Ok bs \<Longrightarrow> length bs = unat (tbl_count table)"
  by (auto simp: table_bytes_def binary_slice_def split: if_splits)

definition table_loads ::
  "(versioned_binary \<Rightarrow> table \<Rightarrow> 'a list \<Rightarrow> 'a list vm_result) \<Rightarrow> u8 list \<Rightarrow> 'a list \<Rightarrow> bool" where
  "table_loads load bs xs \<longleftrightarrow>
     (\<forall>binary table acc. vb_version binary = VERSION_MAX \<longrightarrow> table_bytes binary table = Ok bs \<longrightarrow>
        load binary table acc = Ok (acc @ xs))"

locale table_codec =
  fixes put :: "'a \<Rightarrow> writer"
    and load :: "versioned_binary \<Rightarrow> table \<Rightarrow> 'a list \<Rightarrow> 'a list vm_result"
    and wf :: "'a \<Rightarrow> bool"
  assumes load_not_Panic: "table_bytes binary table \<noteq> Panic \<Longrightarrow> load binary table acc \<noteq> Panic"
    and load_wf: "load binary table acc = Ok ys \<Longrightarrow> \<exists>xs. ys = acc @ xs \<and> list_all wf xs"
    and write_not_Panic: "list_all wf xs \<Longrightarrow> for_each put xs b \<noteq> Panic"
    and load_written: "list_all wf xs \<Longrightarrow> for_each put xs b = Ok b' \<Longrightarrow>
      \<exists>bs. b' = b @ bs \<and> length xs \<le> length bs \<and>
        (\<forall>binary table acc. vb_version binary = VERSION_MAX \<longrightarrow> table_bytes binary table = Ok bs \<longrightarrow>
           load binary table acc = Ok (acc @ xs))"
begin

lemma serialize_entries_not_Panic:
  assumes "list_all wf xs"
  shows "serialize_entries put xs b \<noteq> Panic"
proof -
  have "checked_calculate_table_size b' (of_nat (length b)) \<noteq> Panic"
    if written: "for_each put xs b = Ok b'" and small: "length b \<le> 0xffffffff" for b'
  proof -
    obtain bs where "b' = b @ bs" using load_written[OF assms written] by blast
    then have "length b \<le> length b'" by simp
    then have "length b' \<le> 0xffffffff \<Longrightarrow> (of_nat (length b) :: u32) \<le> of_nat (length b')"
      using small by (simp add: word_le_nat_alt unat_of_nat)
    then show ?thesis
      by (auto simp: checked_calculate_table_size_def check_index_in_binary_def no_panic)
  qed
  then show ?thesis
    using write_not_Panic[OF assms]
    by (auto simp: serialize_entries_def check_index_in_binary_def no_panic)
qed

lemma serialize_entries_written:
  assumes "list_all wf xs" "serialize_entries put xs b = Ok (extent, b')"
  obtains bs where "b' = b @ bs" "length xs \<le> length bs" "length b' < 2 ^ 32"
    "extent = (of_nat (length b), of_nat (length bs))"
    "\<And>binary table acc. vb_version binary = VERSION_MAX \<Longrightarrow> table_bytes binary table = Ok bs \<Longrightarrow>
       load binary table acc = Ok (acc @ xs)"
proof -
  have ser: "for_each put xs b = Ok b'" "length b' \<le> 0xffffffff"
      "extent = (of_nat (length b), of_nat (length b') - of_nat (length b))"
    using assms(2)
    by (auto simp: serialize_entries_def checked_calculate_table_size_def check_index_in_binary_def
        ok_iff split: if_split_asm)
  obtain bs where "b' = b @ bs" "length xs \<le> length bs"
      "\<forall>binary table acc. vb_version binary = VERSION_MAX \<longrightarrow> table_bytes binary table = Ok bs \<longrightarrow>
         load binary table acc = Ok (acc @ xs)"
    using load_written[OF assms(1) ser(1)] by blast
  with ser show ?thesis by (intro that[of bs]) simp_all
qed

text \<open>A table that is written when it is not empty, with what \<open>upd\<close> records of it.\<close>

lemma table_written:
  assumes "list_all wf xs"
    and "(if xs \<noteq> [] then rbind (serialize_entries put xs b) (\<lambda>(extent, b). Ok (upd extent, b))
          else Ok (st, b)) = Ok (st', b')"
  obtains bs where "b' = b @ bs" "bs = [] \<longleftrightarrow> xs = []"
    "st' = (if bs = [] then st else upd (of_nat (length b), of_nat (length bs)))"
    "table_loads load bs xs"
proof (cases "xs = []")
  case True
  then have "table_loads load [] xs" using load_written[of "[]" "[]" "[]"] by (auto simp: table_loads_def)
  with True assms(2) show ?thesis by (intro that[of "[]"]) simp_all
next
  case False
  then obtain extent where "serialize_entries put xs b = Ok (extent, b')" "st' = upd extent"
    using assms(2) by (auto simp: ok_iff)
  then show ?thesis
    using serialize_entries_written[OF assms(1), of b extent b'] False
    by (metis length_greater_0_conv le_zero_eq not_gr_zero table_loads_def that)
qed

lemma table_not_Panic:
  assumes "list_all wf xs"
  shows "(if xs \<noteq> [] then rbind (serialize_entries put xs b) (\<lambda>(extent, b). Ok (upd extent, b))
    else Ok (st, b)) \<noteq> Panic"
  using serialize_entries_not_Panic[OF assms, of b] by (auto simp: no_panic)

end

text \<open>The contract for single entries.\<close>

locale codec =
  fixes put :: "'a \<Rightarrow> writer" and get :: "'a reader" and wf :: "'a \<Rightarrow> bool"
  assumes read_ok: "reader_ok 1 wf get"
    and round_trip: "wf x \<Longrightarrow> codes (put x) get x"
begin

lemma load_while_ok:
  assumes "length (vc_rest c) \<le> n"
    and "\<And>p. p \<le> vc_position c + length (vc_rest c) \<Longrightarrow>
      continues p \<longleftrightarrow> p < vc_position c + length (vc_rest c)"
  shows "load_while n continues get acc c \<noteq> Panic \<and>
    (\<forall>ys. load_while n continues get acc c = Ok ys \<longrightarrow> (\<exists>xs. ys = acc @ xs \<and> list_all wf xs))"
  using assms
proof (induction n arbitrary: acc c)
  case 0
  then show ?case by simp
next
  case (Suc n)
  show ?case
  proof (cases "continues (vc_position c)")
    case False
    then show ?thesis by simp
  next
    case True
    show ?thesis
    proof (cases "get c")
      case (Ok res)
      obtain x c' where res: "get c = Ok (x, c')" using Ok by (cases res) simp
      obtain k where k: "wf x" "1 \<le> k" "k \<le> length (vc_rest c)" "c' = advance k c"
        using read_ok res by (rule reader_ok_elim)
      have pos: "vc_position c' + length (vc_rest c') = vc_position c + length (vc_rest c)"
        using k by (simp add: advance_def)
      have IH: "load_while n continues get (acc @ [x]) c' \<noteq> Panic \<and>
          (\<forall>ys. load_while n continues get (acc @ [x]) c' = Ok ys \<longrightarrow>
             (\<exists>xs. ys = (acc @ [x]) @ xs \<and> list_all wf xs))"
        using Suc.prems k by (intro Suc.IH) (simp_all add: pos[symmetric] pos)
      show ?thesis
      proof (intro conjI allI impI)
        show "load_while (Suc n) continues get acc c \<noteq> Panic" using True res IH by simp
        fix ys
        assume "load_while (Suc n) continues get acc c = Ok ys"
        then obtain xs where "ys = (acc @ [x]) @ xs" "list_all wf xs" using True res IH by auto
        then show "\<exists>xs. ys = acc @ xs \<and> list_all wf xs"
          using k(1) by (intro exI[of _ "x # xs"]) simp
      qed
    next
      case (Err e)
      then show ?thesis using True by simp
    next
      case Panic
      then show ?thesis using reader_ok_not_Panic[OF read_ok] by blast
    qed
  qed
qed

lemma entries_not_Panic: "list_all wf xs \<Longrightarrow> for_each put xs b \<noteq> Panic"
proof (induction xs arbitrary: b)
  case (Cons x xs)
  then show ?case using codes_not_Panic[OF round_trip, of x] by (auto simp: no_panic)
qed simp

lemma entries_written:
  assumes "list_all wf xs" "for_each put xs b = Ok b'"
  shows "\<exists>bs. b' = b @ bs \<and> length xs \<le> length bs \<and>
    (\<forall>c n continues acc.
       vc_version c = VERSION_MAX \<longrightarrow> vc_rest c = bs \<longrightarrow> length bs \<le> n \<longrightarrow>
       (\<forall>p \<le> vc_position c + length bs. continues p \<longleftrightarrow> p < vc_position c + length bs) \<longrightarrow>
       load_while n continues get acc c = Ok (acc @ xs))"
  using assms
proof (induction xs arbitrary: b)
  case Nil
  then have "\<not> continues (vc_position c) \<Longrightarrow> load_while n continues get acc c = Ok acc" for n continues acc c
    by (cases n) simp_all
  then show ?case using Nil by simp
next
  case (Cons x xs)
  obtain b1 where b1: "put x b = Ok b1" "for_each put xs b1 = Ok b'"
    using Cons.prems(2) by (auto simp: ok_iff)
  have wf: "wf x" "list_all wf xs" using Cons.prems(1) by simp_all
  obtain bs1 where bs1: "b1 = b @ bs1" "\<And>c rest. vc_version c = VERSION_MAX \<Longrightarrow>
      vc_rest c = bs1 @ rest \<Longrightarrow> get c = Ok (x, advance (length bs1) c)"
    using round_trip[OF wf(1)] b1(1) by (rule codes_elim) blast
  obtain bs2 where bs2: "b' = b1 @ bs2" "length xs \<le> length bs2"
      "\<And>c n continues acc. vc_version c = VERSION_MAX \<Longrightarrow> vc_rest c = bs2 \<Longrightarrow> length bs2 \<le> n \<Longrightarrow>
         (\<forall>p \<le> vc_position c + length bs2. continues p \<longleftrightarrow> p < vc_position c + length bs2) \<Longrightarrow>
         load_while n continues get acc c = Ok (acc @ xs)"
    using Cons.IH[OF wf(2) b1(2)] by blast
  have "get \<lparr>vc_version = VERSION_MAX, vc_position = 0, vc_rest = bs1\<rparr>
      = Ok (x, advance (length bs1) \<lparr>vc_version = VERSION_MAX, vc_position = 0, vc_rest = bs1\<rparr>)"
    by (rule bs1(2)[where rest = "[]"]) simp_all
  then obtain k where "1 \<le> k" "k \<le> length bs1"
      "advance (length bs1) \<lparr>vc_version = VERSION_MAX, vc_position = 0, vc_rest = bs1\<rparr>
       = advance k \<lparr>vc_version = VERSION_MAX, vc_position = 0, vc_rest = bs1\<rparr>"
    using read_ok by (elim reader_ok_elim) auto
  then have nonempty: "1 \<le> length bs1" by linarith
  show ?case
  proof (intro exI[of _ "bs1 @ bs2"] conjI allI impI)
    show "b' = b @ bs1 @ bs2" by (simp add: bs1(1) bs2(1))
    show "length (x # xs) \<le> length (bs1 @ bs2)" using nonempty bs2(2) by simp
    fix c :: versioned_cursor and n continues acc
    assume c: "vc_version c = VERSION_MAX" "vc_rest c = bs1 @ bs2" "length (bs1 @ bs2) \<le> n"
      "\<forall>p \<le> vc_position c + length (bs1 @ bs2). continues p \<longleftrightarrow> p < vc_position c + length (bs1 @ bs2)"
    obtain m where m: "n = Suc m" using c(3) nonempty by (cases n) simp_all
    have "continues (vc_position c)" using c(4) nonempty by auto
    then have "load_while n continues get acc c
        = load_while m continues get (acc @ [x]) (advance (length bs1) c)"
      using bs1(2)[OF c(1,2)] by (simp add: m)
    also have "\<dots> = Ok ((acc @ [x]) @ xs)"
      using c nonempty m by (intro bs2(3)) (auto simp: advance_def)
    finally show "load_while n continues get acc c = Ok (acc @ x # xs)" by simp
  qed
qed

text \<open>Both forms of the loop over the bytes of a table.\<close>

lemma load_tables_of_slice:
  assumes "table_bytes binary table = Ok bs"
  defines "c \<equiv> \<lparr>vc_version = vb_version binary, vc_position = 0, vc_rest = bs\<rparr>"
  shows "load_table get binary table acc
      = load_while (length bs) (\<lambda>position. position < length bs) get acc c"
    and "load_table_until get binary table acc
      = load_while (length bs) (\<lambda>position. position \<noteq> length bs) get acc c"
  using assms table_bytes_length[OF assms(1)]
  by (simp_all add: load_table_def load_table_until_def new_cursor_def table_bytes_def)

lemma load_tables_no_slice:
  assumes "table_bytes binary table = Panic"
  shows "load_table get binary table acc = Panic" "load_table_until get binary table acc = Panic"
  using assms by (simp_all add: load_table_def load_table_until_def new_cursor_def table_bytes_def)

lemma table_bytes_cases: "table_bytes binary table = Panic \<or> (\<exists>bs. table_bytes binary table = Ok bs)"
  by (simp add: table_bytes_def binary_slice_def)

lemma load_tables_ok:
  assumes "table_bytes binary table = Ok bs"
  shows "load_table get binary table acc \<noteq> Panic" "load_table_until get binary table acc \<noteq> Panic"
    and "load_table get binary table acc = Ok ys \<Longrightarrow> \<exists>xs. ys = acc @ xs \<and> list_all wf xs"
    and "load_table_until get binary table acc = Ok ys \<Longrightarrow> \<exists>xs. ys = acc @ xs \<and> list_all wf xs"
proof -
  define c where "c = \<lparr>vc_version = vb_version binary, vc_position = 0, vc_rest = bs\<rparr>"
  note eqs = load_tables_of_slice[OF assms, folded c_def]
  have "length (vc_rest c) = length bs" "vc_position c = 0" by (simp_all add: c_def)
  then have less: "load_while (length bs) (\<lambda>p. p < length bs) get acc c \<noteq> Panic \<and>
      (\<forall>ys. load_while (length bs) (\<lambda>p. p < length bs) get acc c = Ok ys \<longrightarrow>
        (\<exists>xs. ys = acc @ xs \<and> list_all wf xs))"
    and until: "load_while (length bs) (\<lambda>p. p \<noteq> length bs) get acc c \<noteq> Panic \<and>
      (\<forall>ys. load_while (length bs) (\<lambda>p. p \<noteq> length bs) get acc c = Ok ys \<longrightarrow>
        (\<exists>xs. ys = acc @ xs \<and> list_all wf xs))"
    by (intro load_while_ok; auto)+
  show "load_table get binary table acc \<noteq> Panic" "load_table_until get binary table acc \<noteq> Panic"
    "load_table get binary table acc = Ok ys \<Longrightarrow> \<exists>xs. ys = acc @ xs \<and> list_all wf xs"
    "load_table_until get binary table acc = Ok ys \<Longrightarrow> \<exists>xs. ys = acc @ xs \<and> list_all wf xs"
    using less until by (auto simp: eqs)
qed

lemma load_tables_written:
  assumes "list_all wf xs" "for_each put xs b = Ok b'"
  obtains bs where "b' = b @ bs" "length xs \<le> length bs"
    "\<And>binary table acc. vb_version binary = VERSION_MAX \<Longrightarrow> table_bytes binary table = Ok bs \<Longrightarrow>
       load_table get binary table acc = Ok (acc @ xs)"
    "\<And>binary table acc. vb_version binary = VERSION_MAX \<Longrightarrow> table_bytes binary table = Ok bs \<Longrightarrow>
       load_table_until get binary table acc = Ok (acc @ xs)"
proof -
  obtain bs where bs: "b' = b @ bs" "length xs \<le> length bs"
      "\<And>c n continues acc. vc_version c = VERSION_MAX \<Longrightarrow> vc_rest c = bs \<Longrightarrow> length bs \<le> n \<Longrightarrow>
         (\<forall>p \<le> vc_position c + length bs. continues p \<longleftrightarrow> p < vc_position c + length bs) \<Longrightarrow>
         load_while n continues get acc c = Ok (acc @ xs)"
    using entries_written[OF assms] by blast
  show ?thesis
    by (rule that[OF bs(1,2)]) (auto simp: load_tables_of_slice intro!: bs(3))
qed

end

sublocale codec \<subseteq> less: table_codec put "load_table get" wf
proof
  fix binary table acc ys
  show "table_bytes binary table \<noteq> Panic \<Longrightarrow> load_table get binary table acc \<noteq> Panic"
    using table_bytes_cases[of binary table] load_tables_ok(1) by blast
  show "load_table get binary table acc = Ok ys \<Longrightarrow> \<exists>xs. ys = acc @ xs \<and> list_all wf xs"
    using table_bytes_cases[of binary table] load_tables_ok(3) load_tables_no_slice(1) by fastforce
next
  fix xs b b'
  assume wf: "list_all wf xs"
  show "for_each put xs b \<noteq> Panic" using wf by (rule entries_not_Panic)
  assume "for_each put xs b = Ok b'"
  with wf show "\<exists>bs. b' = b @ bs \<and> length xs \<le> length bs \<and>
      (\<forall>binary table acc. vb_version binary = VERSION_MAX \<longrightarrow> table_bytes binary table = Ok bs \<longrightarrow>
         load_table get binary table acc = Ok (acc @ xs))"
    by (rule load_tables_written) blast
qed

sublocale codec \<subseteq> until: table_codec put "load_table_until get" wf
proof
  fix binary table acc ys
  show "table_bytes binary table \<noteq> Panic \<Longrightarrow> load_table_until get binary table acc \<noteq> Panic"
    using table_bytes_cases[of binary table] load_tables_ok(2) by blast
  show "load_table_until get binary table acc = Ok ys \<Longrightarrow> \<exists>xs. ys = acc @ xs \<and> list_all wf xs"
    using table_bytes_cases[of binary table] load_tables_ok(4) load_tables_no_slice(2) by fastforce
next
  fix xs b b'
  assume wf: "list_all wf xs"
  show "for_each put xs b \<noteq> Panic" using wf by (rule entries_not_Panic)
  assume "for_each put xs b = Ok b'"
  with wf show "\<exists>bs. b' = b @ bs \<and> length xs \<le> length bs \<and>
      (\<forall>binary table acc. vb_version binary = VERSION_MAX \<longrightarrow> table_bytes binary table = Ok bs \<longrightarrow>
         load_table_until get binary table acc = Ok (acc @ xs))"
    by (rule load_tables_written) blast
qed

end
