(* ===== verification/Token_Codec.thy ===== *)
theory Token_Codec
  imports Binary_Codec
begin

text \<open>
  Types are read back. The serializer walks over a type in preorder and the deserializer rebuilds
  it with a stack of partially built types; both bound the depth by 256. The only type that is not
  read back is a generic struct with no type argument: the reader of a generic struct takes at
  least one argument, whatever the number in front of it.
\<close>

section \<open>Types that can be read\<close>

fun token_wf :: "signature_token \<Rightarrow> bool" where
  "token_wf (Vector tok) = token_wf tok"
| "token_wf (Reference tok) = token_wf tok"
| "token_wf (MutableReference tok) = token_wf tok"
| "token_wf (StructInstantiation idx toks) = (toks \<noteq> [] \<and> list_all token_wf toks)"
| "token_wf _ = True"

fun builder_wf :: "type_builder \<Rightarrow> bool" where
  "builder_wf (TB_Saturated tok) = token_wf tok"
| "builder_wf (TB_StructInst idx n toks) = list_all token_wf toks"
| "builder_wf _ = True"

fun saturated :: "type_builder \<Rightarrow> bool" where
  "saturated (TB_Saturated tok) = True"
| "saturated _ = False"

lemma serialized_type_from_u8_not_Panic [simp]: "serialized_type_from_u8 byte \<noteq> Panic"
  by (simp add: serialized_type_from_u8_def)

lemma reader_ok_read_next [reader_intros]: "reader_ok 1 builder_wf read_next"
proof -
  have "reader_ok 0 builder_wf (\<lambda>c.
      case s of
         ST_BOOL \<Rightarrow> Ok (TB_Saturated Bool, c)
       | ST_U8 \<Rightarrow> Ok (TB_Saturated U8, c)
       | ST_U64 \<Rightarrow> Ok (TB_Saturated U64, c)
       | ST_U128 \<Rightarrow> Ok (TB_Saturated U128, c)
       | ST_ADDRESS \<Rightarrow> Ok (TB_Saturated Address, c)
       | ST_SIGNER \<Rightarrow> Ok (TB_Saturated Signer, c)
       | ST_VECTOR \<Rightarrow> Ok (TB_Vector, c)
       | ST_REFERENCE \<Rightarrow> Ok (TB_Reference, c)
       | ST_MUTABLE_REFERENCE \<Rightarrow> Ok (TB_MutableReference, c)
       | ST_STRUCT \<Rightarrow>
           rbind (load_struct_handle_index c) (\<lambda>(sh_idx, c). Ok (TB_Saturated (Struct sh_idx), c))
       | ST_STRUCT_INST \<Rightarrow>
           rbind (load_struct_handle_index c) (\<lambda>(sh_idx, c).
           rbind (load_type_parameter_count c) (\<lambda>(arity, c). Ok (TB_StructInst sh_idx arity [], c)))
       | ST_TYPE_PARAMETER \<Rightarrow>
           rbind (load_type_parameter_index c) (\<lambda>(idx, c). Ok (TB_Saturated (TypeParameter idx), c)))"
    for s
    by (cases s)
       (simp_all, (rule reader_intros | simp)+)
  then show ?thesis
    unfolding read_next_def by (intro reader_ok_bind_first[OF reader_ok_load_byte] reader_ok_bind_pure) simp_all
qed

lemma type_builder_apply_ok:
  assumes "\<not> saturated t" "builder_wf t" "token_wf tok"
  shows "\<exists>t'. type_builder_apply t tok = Ok t' \<and> builder_wf t'"
  using assms by (cases t) (simp_all add: type_builder_apply_def Let_def)

lemma token_loop_simps:
  "length stack > SIGNATURE_TOKEN_DEPTH_MAX \<Longrightarrow> token_loop stack c = Err malformed"
  "token_loop [TB_Saturated tok] c = Ok (tok, c)"
  "length stack + 2 \<le> SIGNATURE_TOKEN_DEPTH_MAX \<Longrightarrow>
     token_loop (TB_Saturated tok # t # stack) c =
       rbind (type_builder_apply t tok) (\<lambda>t. token_loop (t # stack) c)"
  "\<not> saturated t \<Longrightarrow> length stack + 1 \<le> SIGNATURE_TOKEN_DEPTH_MAX \<Longrightarrow>
     token_loop (t # stack) c = rbind (read_next c) (\<lambda>(t', c). token_loop (t' # t # stack) c)"
  by (subst token_loop.simps, simp)+ (subst token_loop.simps, cases t, simp_all)

lemma reader_ok_token_loop:
  assumes "stack \<noteq> []" "list_all builder_wf stack" "list_all (\<lambda>t. \<not> saturated t) (tl stack)"
  shows "token_loop stack c \<noteq> Panic \<and>
    (\<forall>tok c'. token_loop stack c = Ok (tok, c') \<longrightarrow>
       token_wf tok \<and> (\<exists>k \<le> length (vc_rest c). c' = advance k c))"
  using assms
proof (induction "2 * length (vc_rest c) + length stack" arbitrary: stack c rule: less_induct)
  case less
  obtain t rest where stack: "stack = t # rest" using less.prems(1) by (cases stack) simp_all
  consider (deep) "length stack > SIGNATURE_TOKEN_DEPTH_MAX"
    | (final) tok where "t = TB_Saturated tok" "rest = []"
    | (app) tok u rest' where "t = TB_Saturated tok" "rest = u # rest'" "length stack \<le> SIGNATURE_TOKEN_DEPTH_MAX"
    | (push) "\<not> saturated t" "length stack \<le> SIGNATURE_TOKEN_DEPTH_MAX"
    by (cases t; cases rest) (auto simp: not_less intro: leI)
  then show ?case
  proof cases
    case deep
    then show ?thesis by (simp add: token_loop_simps)
  next
    case final
    then show ?thesis using less.prems(2) by (simp add: stack token_loop_simps exI[of _ 0])
  next
    case app
    then obtain u' where u': "type_builder_apply u tok = Ok u'" "builder_wf u'"
      using type_builder_apply_ok[of u tok] less.prems(2,3) by (auto simp: stack)
    then show ?thesis
      using less.hyps[of c "u' # rest'"] less.prems app by (simp add: stack token_loop_simps)
  next
    case push
    have eq: "token_loop stack c = rbind (read_next c) (\<lambda>(u, c). token_loop (u # stack) c)"
      using push by (simp add: stack token_loop_simps)
    show ?thesis
    proof (cases "read_next c")
      case (Ok res)
      obtain u c' where u: "read_next c = Ok (u, c')" using Ok by (cases res) simp
      obtain k where k: "builder_wf u" "1 \<le> k" "k \<le> length (vc_rest c)" "c' = advance k c"
        using reader_ok_read_next u by (rule reader_ok_elim)
      have "token_loop (u # stack) c' \<noteq> Panic \<and>
          (\<forall>tok c2. token_loop (u # stack) c' = Ok (tok, c2) \<longrightarrow>
             token_wf tok \<and> (\<exists>k \<le> length (vc_rest c'). c2 = advance k c'))"
        using less.prems k push(1) by (intro less.hyps) (auto simp: stack)
      moreover have "\<exists>m \<le> length (vc_rest c). advance j c' = advance m c"
        if "j \<le> length (vc_rest c')" for j
        using that k(3,4) by (intro exI[of _ "k + j"]) simp
      ultimately show ?thesis unfolding eq u by fastforce
    next
      case (Err e)
      then show ?thesis by (simp add: eq)
    next
      case Panic
      then show ?thesis using reader_ok_not_Panic[OF reader_ok_read_next] by blast
    qed
  qed
qed

lemma reader_ok_signature_token [reader_intros]: "reader_ok 1 token_wf load_signature_token"
proof -
  have "reader_ok 0 token_wf (\<lambda>c. case t of TB_Saturated tok \<Rightarrow> Ok (tok, c) | t \<Rightarrow> token_loop [t] c)"
    if "builder_wf t" for t
    using that reader_ok_token_loop[of "[t]"]
    by (cases t) (auto simp: reader_ok_def intro: exI[of _ 0])
  then show ?thesis
    unfolding load_signature_token_def by (rule reader_ok_bind_first[OF reader_ok_read_next])
qed

section \<open>Written types are read back\<close>

text \<open>The tokens of a type with their depths, by recursion over the type.\<close>

fun subtokens_depth :: "nat \<Rightarrow> signature_token \<Rightarrow> (signature_token \<times> nat) list" where
  "subtokens_depth d (Reference tok) = (Reference tok, d) # subtokens_depth (d + 1) tok"
| "subtokens_depth d (MutableReference tok) = (MutableReference tok, d) # subtokens_depth (d + 1) tok"
| "subtokens_depth d (Vector tok) = (Vector tok, d) # subtokens_depth (d + 1) tok"
| "subtokens_depth d (StructInstantiation idx toks) =
     (StructInstantiation idx toks, d) # concat (map (subtokens_depth (d + 1)) toks)"
| "subtokens_depth d tok = [(tok, d)]"

lemma subtokens_depth_inner:
  "subtokens_depth d tok = (tok, d) # concat (map (subtokens_depth (d + 1)) (inner_tokens tok))"
  by (cases tok) (simp_all add: inner_tokens_def)

lemma preorder_depth_from_subtokens:
  "preorder_depth_from stack = concat (map (\<lambda>(tok, d). subtokens_depth d tok) stack)"
proof (induction stack rule: preorder_depth_from.induct)
  case 1
  then show ?case by simp
next
  case (2 tok d stack)
  then show ?case by (simp add: subtokens_depth_inner[of d tok] comp_def)
qed

definition write_node :: "signature_token \<times> nat \<Rightarrow> writer" where
  "write_node = (\<lambda>(token, depth) binary.
     if depth > SIGNATURE_TOKEN_DEPTH_MAX then Err ()
     else serialize_signature_token_single_node_impl token binary)"

lemma serialize_signature_token_nodes:
  "serialize_signature_token tok = for_each write_node (subtokens_depth 1 tok)"
  by (simp add: serialize_signature_token_def preorder_traversal_with_depth_def
      preorder_depth_from_subtokens write_node_def)

lemma subtokens_depth_Suc:
  "subtokens_depth (Suc d) tok = map (\<lambda>(t, e). (t, Suc e)) (subtokens_depth d tok)"
proof (induction d tok rule: subtokens_depth.induct)
  case (4 d idx toks)
  then have "concat (map (subtokens_depth (Suc (Suc d))) toks) =
      concat (map (map (\<lambda>(t, e). (t, Suc e)) \<circ> subtokens_depth (Suc d)) toks)"
    by (intro arg_cong[where f = concat] map_cong) simp_all
  then show ?case by (simp add: map_concat)
qed simp_all

text \<open>Below the limit, a type is written in the same way at every depth.\<close>

lemma write_nodes_deeper:
  assumes "list_all (\<lambda>(_, depth). depth < SIGNATURE_TOKEN_DEPTH_MAX) nodes"
  shows "for_each write_node (map (\<lambda>(t, e). (t, Suc e)) nodes) b = for_each write_node nodes b"
  using assms
proof (induction nodes arbitrary: b)
  case (Cons node nodes)
  obtain tok d where node: "node = (tok, d)" by (cases node)
  have "write_node (tok, Suc d) = write_node (tok, d)"
    using Cons.prems by (simp add: node write_node_def fun_eq_iff)
  moreover have "for_each write_node (map (\<lambda>(t, e). (t, Suc e)) nodes) = for_each write_node nodes"
    using Cons by (simp add: fun_eq_iff)
  ultimately show ?case by (simp add: node)
qed simp

text \<open>What the reader makes of the first bytes of a type.\<close>

fun node_builder :: "signature_token \<Rightarrow> type_builder" where
  "node_builder (Vector tok) = TB_Vector"
| "node_builder (Reference tok) = TB_Reference"
| "node_builder (MutableReference tok) = TB_MutableReference"
| "node_builder (StructInstantiation idx toks) = TB_StructInst idx (length toks) []"
| "node_builder tok = TB_Saturated tok"

lemma serialized_type_round_trip [simp]:
  "serialized_type_from_u8 (serialized_type_as_u8 t) = Ok t"
  by (cases t) (simp_all add: serialized_type_from_u8_def serialized_type_as_u8_def)

lemma single_node_simps:
  "serialize_signature_token_single_node_impl (Struct idx) =
     (\<lambda>b. rbind (binary_push (serialized_type_as_u8 ST_STRUCT) b) (serialize_struct_handle_index idx))"
  "serialize_signature_token_single_node_impl (StructInstantiation idx toks) =
     (\<lambda>b. rbind (binary_push (serialized_type_as_u8 ST_STRUCT_INST) b) (\<lambda>b.
        rbind (serialize_struct_handle_index idx b) (serialize_signature_size (length toks))))"
  "serialize_signature_token_single_node_impl (TypeParameter n) =
     (\<lambda>b. rbind (binary_push (serialized_type_as_u8 ST_TYPE_PARAMETER) b)
        (serialize_type_parameter_index n))"
  "serialize_signature_token_single_node_impl Bool = binary_push (serialized_type_as_u8 ST_BOOL)"
  "serialize_signature_token_single_node_impl U8 = binary_push (serialized_type_as_u8 ST_U8)"
  "serialize_signature_token_single_node_impl U64 = binary_push (serialized_type_as_u8 ST_U64)"
  "serialize_signature_token_single_node_impl U128 = binary_push (serialized_type_as_u8 ST_U128)"
  "serialize_signature_token_single_node_impl Address = binary_push (serialized_type_as_u8 ST_ADDRESS)"
  "serialize_signature_token_single_node_impl Signer = binary_push (serialized_type_as_u8 ST_SIGNER)"
  "serialize_signature_token_single_node_impl (Vector t) = binary_push (serialized_type_as_u8 ST_VECTOR)"
  "serialize_signature_token_single_node_impl (Reference t) = binary_push (serialized_type_as_u8 ST_REFERENCE)"
  "serialize_signature_token_single_node_impl (MutableReference t) =
     binary_push (serialized_type_as_u8 ST_MUTABLE_REFERENCE)"
  by (simp_all add: fun_eq_iff serialize_signature_token_single_node_impl_def)

lemmas codes_type_tag = codes_tag[where decode = serialized_type_from_u8, OF serialized_type_round_trip]
  and codes_type_tag_more = codes_tag_more[where decode = serialized_type_from_u8, OF serialized_type_round_trip]

lemma codes_node:
  "codes (serialize_signature_token_single_node_impl tok) read_next (node_builder tok)"
proof (cases tok)
  case (Struct idx)
  then show ?thesis
    unfolding read_next_def
    by (simp only: single_node_simps node_builder.simps,
        intro codes_type_tag_more)
       (simp, rule codes_last[OF codes_index], simp)
next
  case (StructInstantiation idx toks)
  then show ?thesis
    unfolding read_next_def
    by (simp only: single_node_simps node_builder.simps,
        intro codes_type_tag_more)
       (simp, intro codes_bind[OF codes_index] codes_last[OF codes_uleb_nat]; simp)
next
  case (TypeParameter n)
  then show ?thesis
    unfolding read_next_def
    by (simp only: single_node_simps node_builder.simps,
        intro codes_type_tag_more)
       (simp, intro codes_last[OF codes_uleb_word]; simp)
qed (unfold read_next_def,
    (simp only: single_node_simps node_builder.simps, rule codes_type_tag, simp)+)

lemma codes_write_node: "codes (write_node (tok, d)) read_next (node_builder tok)"
  using codes_node[of tok] by (simp add: codes_def write_node_def)

text \<open>
  The bytes \<open>bs\<close> are read as \<open>tok\<close> on top of the stack: the first builder is read, and when it is not
  the whole type, the loop goes on until the type is saturated.
\<close>

definition token_read :: "signature_token \<Rightarrow> type_builder list \<Rightarrow> u8 list \<Rightarrow> bool" where
  "token_read tok stack bs \<longleftrightarrow>
     (\<forall>c rest. vc_version c = VERSION_MAX \<longrightarrow> vc_rest c = bs @ rest \<longrightarrow>
        (\<exists>c1. read_next c = Ok (node_builder tok, c1) \<and>
           (saturated (node_builder tok) \<longrightarrow> c1 = advance (length bs) c) \<and>
           token_loop (node_builder tok # stack) c1 =
             token_loop (TB_Saturated tok # stack) (advance (length bs) c)))"

lemma saturated_node: "saturated (node_builder tok) \<Longrightarrow> node_builder tok = TB_Saturated tok"
  by (cases tok) simp_all

lemma token_read_push:
  assumes "token_read tok (t # stack) bs" "\<not> saturated t" "length stack + 1 \<le> SIGNATURE_TOKEN_DEPTH_MAX"
    and "vc_version c = VERSION_MAX" "vc_rest c = bs @ rest"
  shows "token_loop (t # stack) c = token_loop (TB_Saturated tok # t # stack) (advance (length bs) c)"
  using assms by (fastforce simp: token_read_def token_loop_simps(4))

lemma node_written:
  assumes "write_node (tok, d) b = Ok b'"
  obtains bs where "d \<le> SIGNATURE_TOKEN_DEPTH_MAX" "b' = b @ bs"
    "\<And>c rest. vc_version c = VERSION_MAX \<Longrightarrow> vc_rest c = bs @ rest \<Longrightarrow>
       read_next c = Ok (node_builder tok, advance (length bs) c)"
proof -
  have "d \<le> SIGNATURE_TOKEN_DEPTH_MAX"
    using assms by (simp add: write_node_def split: if_split_asm)
  then show ?thesis using codes_elim[OF codes_write_node assms] that by blast
qed

text \<open>The types that wrap one other type.\<close>

lemma token_read_wrap:
  assumes node: "\<And>c rest. vc_version c = VERSION_MAX \<Longrightarrow> vc_rest c = bs @ rest \<Longrightarrow>
      read_next c = Ok (node_builder tok, advance (length bs) c)"
    and tok: "\<not> saturated (node_builder tok)" "type_builder_apply (node_builder tok) inner = Ok (TB_Saturated tok)"
    and inner: "token_read inner (node_builder tok # stack) bs'"
    and len: "length stack + 2 \<le> SIGNATURE_TOKEN_DEPTH_MAX"
  shows "token_read tok stack (bs @ bs')"
  unfolding token_read_def
proof (intro allI impI exI conjI)
  fix c :: versioned_cursor and rest
  assume c: "vc_version c = VERSION_MAX" "vc_rest c = (bs @ bs') @ rest"
  show "read_next c = Ok (node_builder tok, advance (length bs) c)"
    using c by (intro node[where rest = "bs' @ rest"]) simp_all
  show "saturated (node_builder tok) \<Longrightarrow> advance (length bs) c = advance (length (bs @ bs')) c"
    using tok(1) by simp
  have "token_loop (node_builder tok # stack) (advance (length bs) c)
      = token_loop (TB_Saturated inner # node_builder tok # stack) (advance (length bs') (advance (length bs) c))"
    using c len by (intro token_read_push[OF inner tok(1)]) simp_all
  then show "token_loop (node_builder tok # stack) (advance (length bs) c)
      = token_loop (TB_Saturated tok # stack) (advance (length (bs @ bs')) c)"
    using len by (simp add: token_loop_simps(3) tok(2))
qed

definition token_codes :: "nat \<Rightarrow> signature_token \<Rightarrow> bool" where
  "token_codes d tok \<longleftrightarrow>
     (\<forall>b b'. for_each write_node (subtokens_depth d tok) b = Ok b' \<longrightarrow>
        (\<exists>bs. b' = b @ bs \<and> d \<le> SIGNATURE_TOKEN_DEPTH_MAX \<and>
           (\<forall>stack. length stack + 1 = d \<longrightarrow> token_read tok stack bs)))"

lemma token_codes_elim:
  assumes "token_codes d tok" "for_each write_node (subtokens_depth d tok) b = Ok b'"
  obtains bs where "b' = b @ bs" "d \<le> SIGNATURE_TOKEN_DEPTH_MAX"
    "\<And>stack. length stack + 1 = d \<Longrightarrow> token_read tok stack bs"
  using assms unfolding token_codes_def by blast

lemma token_codes_leaf:
  assumes "subtokens_depth d tok = [(tok, d)]" "node_builder tok = TB_Saturated tok"
  shows "token_codes d tok"
  unfolding token_codes_def
proof (intro allI impI)
  fix b b'
  assume "for_each write_node (subtokens_depth d tok) b = Ok b'"
  then have "write_node (tok, d) b = Ok b'" by (simp add: assms(1) ok_iff)
  then obtain bs where bs: "d \<le> SIGNATURE_TOKEN_DEPTH_MAX" "b' = b @ bs"
      "\<And>c rest. vc_version c = VERSION_MAX \<Longrightarrow> vc_rest c = bs @ rest \<Longrightarrow>
         read_next c = Ok (node_builder tok, advance (length bs) c)"
    by (rule node_written) blast
  then show "\<exists>bs. b' = b @ bs \<and> d \<le> SIGNATURE_TOKEN_DEPTH_MAX \<and>
      (\<forall>stack. length stack + 1 = d \<longrightarrow> token_read tok stack bs)"
    by (intro exI[of _ bs]) (simp add: token_read_def assms(2))
qed

lemma token_codes_wrap:
  assumes inner: "token_codes (d + 1) inner"
    and tok: "subtokens_depth d tok = (tok, d) # subtokens_depth (d + 1) inner"
      "\<not> saturated (node_builder tok)" "type_builder_apply (node_builder tok) inner = Ok (TB_Saturated tok)"
  shows "token_codes d tok"
  unfolding token_codes_def
proof (intro allI impI)
  fix b b'
  assume "for_each write_node (subtokens_depth d tok) b = Ok b'"
  then obtain b1 where b1: "write_node (tok, d) b = Ok b1"
      "for_each write_node (subtokens_depth (d + 1) inner) b1 = Ok b'"
    by (auto simp: tok(1) ok_iff)
  obtain bs where bs: "d \<le> SIGNATURE_TOKEN_DEPTH_MAX" "b1 = b @ bs"
      "\<And>c rest. vc_version c = VERSION_MAX \<Longrightarrow> vc_rest c = bs @ rest \<Longrightarrow>
         read_next c = Ok (node_builder tok, advance (length bs) c)"
    using b1(1) by (rule node_written) blast
  obtain bs' where bs': "b' = b1 @ bs'" "d + 1 \<le> SIGNATURE_TOKEN_DEPTH_MAX"
      "\<And>stack. length stack + 1 = d + 1 \<Longrightarrow> token_read inner stack bs'"
    using inner b1(2) by (rule token_codes_elim) blast
  have "token_read tok stack (bs @ bs')" if "length stack + 1 = d" for stack
    using that bs'(2) by (intro token_read_wrap[OF bs(3) tok(2,3) bs'(3)]) simp_all
  then show "\<exists>bs. b' = b @ bs \<and> d \<le> SIGNATURE_TOKEN_DEPTH_MAX \<and>
      (\<forall>stack. length stack + 1 = d \<longrightarrow> token_read tok stack bs)"
    using bs(1,2) bs'(1) by (intro exI[of _ "bs @ bs'"]) simp
qed

text \<open>The arguments of a generic struct fill its builder one after the other.\<close>

lemma arguments_written:
  assumes "\<And>t. t \<in> set ts \<Longrightarrow> token_codes (d + 1) t"
    and "for_each write_node (concat (map (subtokens_depth (d + 1)) ts)) b = Ok b'"
  shows "\<exists>bs. b' = b @ bs \<and>
    (\<forall>stack acc c rest. length stack + 1 = d \<longrightarrow> vc_version c = VERSION_MAX \<longrightarrow> vc_rest c = bs @ rest \<longrightarrow>
       ts \<noteq> [] \<longrightarrow> length acc + length ts = n \<longrightarrow>
       token_loop (TB_StructInst idx n acc # stack) c =
         token_loop (TB_Saturated (StructInstantiation idx (acc @ ts)) # stack) (advance (length bs) c))"
  using assms
proof (induction ts arbitrary: b)
  case Nil
  then show ?case by simp
next
  case (Cons t ts)
  obtain b1 where b1: "for_each write_node (subtokens_depth (d + 1) t) b = Ok b1"
      "for_each write_node (concat (map (subtokens_depth (d + 1)) ts)) b1 = Ok b'"
    using Cons.prems(2) by (auto simp: for_each_append ok_iff)
  have "token_codes (d + 1) t" by (rule Cons.prems(1)) simp
  then obtain bs where bs: "b1 = b @ bs" "d + 1 \<le> SIGNATURE_TOKEN_DEPTH_MAX"
      "\<And>stack. length stack + 1 = d + 1 \<Longrightarrow> token_read t stack bs"
    using b1(1) by (rule token_codes_elim) blast
  obtain bs' where bs': "b' = b1 @ bs'"
      "\<And>stack acc c rest. length stack + 1 = d \<Longrightarrow> vc_version c = VERSION_MAX \<Longrightarrow>
         vc_rest c = bs' @ rest \<Longrightarrow> ts \<noteq> [] \<Longrightarrow> length acc + length ts = n \<Longrightarrow>
         token_loop (TB_StructInst idx n acc # stack) c =
           token_loop (TB_Saturated (StructInstantiation idx (acc @ ts)) # stack) (advance (length bs') c)"
    using Cons.IH[OF Cons.prems(1) b1(2)] by auto
  show ?case
  proof (intro exI[of _ "bs @ bs'"] conjI allI impI)
    show "b' = b @ bs @ bs'" by (simp add: bs(1) bs'(1))
    fix stack :: "type_builder list" and acc :: "signature_token list" and rest
    fix c :: versioned_cursor
    assume st: "length stack + 1 = d" "vc_version c = VERSION_MAX" "vc_rest c = (bs @ bs') @ rest"
      "t # ts \<noteq> []" "length acc + length (t # ts) = n"
    have len: "length stack + 2 \<le> SIGNATURE_TOKEN_DEPTH_MAX" using st(1) bs(2) by simp
    have "token_loop (TB_StructInst idx n acc # stack) c
        = token_loop (TB_Saturated t # TB_StructInst idx n acc # stack) (advance (length bs) c)"
      using st len by (intro token_read_push[OF bs(3)]) simp_all
    also have "\<dots> = token_loop (TB_Saturated (StructInstantiation idx (acc @ t # ts)) # stack)
        (advance (length (bs @ bs')) c)"
    proof (cases "ts = []")
      case True
      then show ?thesis
        using st len b1(2) bs'(1) by (simp add: token_loop_simps(3) type_builder_apply_def)
    next
      case False
      then have "\<not> n \<le> Suc (length acc)" using st(5) by (cases ts) simp_all
      then show ?thesis
        using False st len bs'(2)[of stack "advance (length bs) c" rest "acc @ [t]"]
        by (simp add: token_loop_simps(3) type_builder_apply_def Let_def)
    qed
    finally show "token_loop (TB_StructInst idx n acc # stack) c
        = token_loop (TB_Saturated (StructInstantiation idx (acc @ t # ts)) # stack)
            (advance (length (bs @ bs')) c)" .
  qed
qed

lemma token_codes_generic:
  assumes "toks \<noteq> []" "\<And>t. t \<in> set toks \<Longrightarrow> token_codes (d + 1) t"
  shows "token_codes d (StructInstantiation idx toks)"
  unfolding token_codes_def
proof (intro allI impI)
  let ?tok = "StructInstantiation idx toks"
  fix b b'
  assume "for_each write_node (subtokens_depth d ?tok) b = Ok b'"
  then obtain b1 where b1: "write_node (?tok, d) b = Ok b1"
      "for_each write_node (concat (map (subtokens_depth (d + 1)) toks)) b1 = Ok b'"
    by (auto simp: ok_iff)
  obtain bs where bs: "d \<le> SIGNATURE_TOKEN_DEPTH_MAX" "b1 = b @ bs"
      "\<And>c rest. vc_version c = VERSION_MAX \<Longrightarrow> vc_rest c = bs @ rest \<Longrightarrow>
         read_next c = Ok (node_builder ?tok, advance (length bs) c)"
    using b1(1) by (rule node_written) blast
  obtain bs' where bs': "b' = b1 @ bs'"
      "\<And>stack c rest. length stack + 1 = d \<Longrightarrow> vc_version c = VERSION_MAX \<Longrightarrow> vc_rest c = bs' @ rest \<Longrightarrow>
         token_loop (TB_StructInst idx (length toks) [] # stack) c =
           token_loop (TB_Saturated ?tok # stack) (advance (length bs') c)"
    using arguments_written[OF assms(2) b1(2), of "length toks" idx] assms(1) by auto
  have "token_read ?tok stack (bs @ bs')" if "length stack + 1 = d" for stack
    unfolding token_read_def
  proof (intro allI impI exI conjI)
    fix c :: versioned_cursor and rest
    assume c: "vc_version c = VERSION_MAX" "vc_rest c = (bs @ bs') @ rest"
    show "read_next c = Ok (node_builder ?tok, advance (length bs) c)"
      using c by (intro bs(3)[where rest = "bs' @ rest"]) simp_all
    show "token_loop (node_builder ?tok # stack) (advance (length bs) c)
        = token_loop (TB_Saturated ?tok # stack) (advance (length (bs @ bs')) c)"
      using c bs'(2)[OF that, of "advance (length bs) c" rest] by simp
  qed simp
  then show "\<exists>bs. b' = b @ bs \<and> d \<le> SIGNATURE_TOKEN_DEPTH_MAX \<and>
      (\<forall>stack. length stack + 1 = d \<longrightarrow> token_read ?tok stack bs)"
    using bs(1,2) bs'(1) by (intro exI[of _ "bs @ bs'"]) simp
qed

lemma token_codes: "token_wf tok \<Longrightarrow> token_codes d tok"
proof (induction tok arbitrary: d)
  case (Vector tok)
  then show ?case by (intro token_codes_wrap[of d tok]) (simp_all add: type_builder_apply_def)
next
  case (Reference tok)
  then show ?case by (intro token_codes_wrap[of d tok]) (simp_all add: type_builder_apply_def)
next
  case (MutableReference tok)
  then show ?case by (intro token_codes_wrap[of d tok]) (simp_all add: type_builder_apply_def)
next
  case (StructInstantiation idx toks)
  then show ?case by (intro token_codes_generic) (simp_all add: list_all_iff)
qed (rule token_codes_leaf; simp)+

lemma write_nodes_not_Panic: "for_each write_node nodes b \<noteq> Panic"
proof (induction nodes arbitrary: b)
  case (Cons node nodes)
  obtain tok d where "node = (tok, d)" by (cases node)
  then show ?case using codes_not_Panic[OF codes_write_node, of tok d] Cons by (auto simp: no_panic)
qed simp

lemma codes_signature_token:
  assumes "token_wf tok"
  shows "codes (serialize_signature_token tok) load_signature_token tok"
proof (rule codesI)
  show "serialize_signature_token tok b \<noteq> Panic" for b
    by (simp add: serialize_signature_token_nodes write_nodes_not_Panic)
  fix b b'
  assume "serialize_signature_token tok b = Ok b'"
  then obtain bs where bs: "b' = b @ bs" "token_read tok [] bs"
    using token_codes_elim[OF token_codes[OF assms, of 1]]
    by (metis One_nat_def Suc_eq_plus1 list.size(3) serialize_signature_token_nodes)
  have "load_signature_token c = Ok (tok, advance (length bs) c)"
    if c: "vc_version c = VERSION_MAX" "vc_rest c = bs @ rest" for c rest
  proof -
    obtain c1 where c1: "read_next c = Ok (node_builder tok, c1)"
        "saturated (node_builder tok) \<longrightarrow> c1 = advance (length bs) c"
        "token_loop [node_builder tok] c1 = token_loop [TB_Saturated tok] (advance (length bs) c)"
      using bs(2) c unfolding token_read_def by blast
    show ?thesis
    proof (cases "saturated (node_builder tok)")
      case True
      then show ?thesis using c1 saturated_node[OF True] by (simp add: load_signature_token_def)
    next
      case False
      then have "load_signature_token c = token_loop [node_builder tok] c1"
        using c1(1) by (cases "node_builder tok") (simp_all add: load_signature_token_def)
      then show ?thesis using c1(3) by (simp add: token_loop_simps(2))
    qed
  qed
  then show "\<exists>bs. b' = b @ bs \<and> (\<forall>c rest. vc_version c = VERSION_MAX \<longrightarrow> vc_rest c = bs @ rest \<longrightarrow>
      load_signature_token c = Ok (tok, advance (length bs) c))"
    using bs(1) by blast
qed

end
