(* ===== verification/Entry_Codecs.thy ===== *)
theory Entry_Codecs
  imports Token_Codec
begin

text \<open>
  Every kind of table entry is read back: the contract \<open>codec\<close> of \<open>Binary_Codec\<close> interpreted on the
  writers of the serializer and the readers of the deserializer. The invariants are what the Rust
  types guarantee: ability sets only have known bits, identifiers are valid and addresses have
  their length; and in addition no generic struct type is without type arguments.
\<close>

lemma codes_version:
  assumes "\<And>c. vc_version c = VERSION_MAX \<Longrightarrow> r c = s c" "codes w s x"
  shows "codes w r x"
  using assms by (simp add: codes_def)

lemma malformed_readers [reader_intros]: "reader_ok n P (\<lambda>c. Err malformed)"
  by (rule reader_ok_Err)

section \<open>Abilities\<close>

definition abilities_wf :: "ability_set \<Rightarrow> bool" where
  "abilities_wf s \<longleftrightarrow> ability_set_from_u8 s = Some s"

lemma ability_set_from_u8_Some: "ability_set_from_u8 u = Some s \<Longrightarrow> s = u \<and> abilities_wf s"
  by (simp add: abilities_wf_def ability_set_from_u8_def split: if_splits)

lemmas ability_bit_defs = ability_set_add_def ability_set_EMPTY_def ability_bits_def
  ability_set_ALL_def is_subset_bits_def ability_set_from_u8_def

lemma deprecated_abilities_wf [simp]:
  "abilities_wf ability_set_EMPTY"
  "abilities_wf s \<Longrightarrow> abilities_wf (ability_set_add s a)"
proof -
  show "abilities_wf ability_set_EMPTY" by (simp add: abilities_wf_def ability_bit_defs)
  have bit_and_or: "(s OR t) AND u = (s AND u) OR (t AND u)" for s t u :: u8
    by (rule bit_word_eqI) (auto simp: bit_and_iff bit_or_iff)
  assume "abilities_wf s"
  then show "abilities_wf (ability_set_add s a)"
    by (cases a) (simp_all add: abilities_wf_def ability_bit_defs bit_and_or split: if_splits)
qed

lemma reader_ok_ability_set [reader_intros]: "reader_ok 1 abilities_wf (load_ability_set pos)"
proof -
  have old: "reader_ok 1 abilities_wf (\<lambda>c. rbind (load_byte c) (\<lambda>(byte, c).
          case pos of
            ASP_StructHandle \<Rightarrow>
              rbind (nominal_resource_flag_from_u8 byte) (\<lambda>flag.
                Ok (case flag of
                      NOMINAL_RESOURCE \<Rightarrow>
                        ability_set_add (ability_set_add ability_set_EMPTY Store) Key
                    | NORMAL_STRUCT \<Rightarrow>
                        ability_set_add (ability_set_add (ability_set_add ability_set_EMPTY Store) Copy) Drop,
                    c))
          | _ \<Rightarrow>
              rbind (deprecated_kind_from_u8 byte) (\<lambda>kind.
                let abilities =
                  (case kind of
                     KIND_ALL \<Rightarrow> ability_set_EMPTY
                   | KIND_COPYABLE \<Rightarrow> ability_set_add (ability_set_add ability_set_EMPTY Copy) Drop
                   | KIND_RESOURCE \<Rightarrow> ability_set_add ability_set_EMPTY Key)
                in Ok (if pos = FunctionTypeParameters then ability_set_add abilities Store
                       else abilities, c))))"
    by (rule reader_ok_bind_first[OF reader_ok_load_byte], cases pos)
       (simp_all add: Let_def, (rule reader_ok_bind_pure reader_ok_return
         | simp add: nominal_resource_flag_from_u8_def deprecated_kind_from_u8_def
             split: deprecated_nominal_resource_flag.split deprecated_kind.split)+)
  have "reader_ok 0 abilities_wf (\<lambda>c. case ability_set_from_u8 u of
      Some abilities \<Rightarrow> Ok (abilities, c) | None \<Rightarrow> Err (new_error UNKNOWN_ABILITY))" for u
    by (cases "ability_set_from_u8 u")
       (simp_all add: reader_intros ability_set_from_u8_Some)
  then have new: "reader_ok 1 abilities_wf (\<lambda>c.
      rbind (read_uleb_internal try_into_word (unat (ability_set_into_u8 ability_set_ALL)) c) (\<lambda>(u, c).
        case ability_set_from_u8 u of
          Some abilities \<Rightarrow> Ok (abilities, c)
        | None \<Rightarrow> Err (new_error UNKNOWN_ABILITY)))"
    by (rule reader_ok_bind_first[OF reader_ok_uleb_word])
  show ?thesis
    unfolding load_ability_set_def by (rule reader_ok_if[OF old new])
qed

lemma codes_ability_set:
  assumes "abilities_wf s"
  shows "codes (serialize_ability_set s) (load_ability_set pos) s"
proof (rule codes_version)
  let ?load = "\<lambda>c.
      rbind (read_uleb_internal try_into_word (unat (ability_set_into_u8 ability_set_ALL)) c) (\<lambda>(u, c).
        case ability_set_from_u8 u of
          Some abilities \<Rightarrow> Ok (abilities, c)
        | None \<Rightarrow> Err (new_error UNKNOWN_ABILITY))"
  show "vc_version c = VERSION_MAX \<Longrightarrow> load_ability_set pos c = ?load c" for c
    by (simp add: load_ability_set_def)
  show "codes (serialize_ability_set s) ?load s"
    unfolding serialize_ability_set_def
    by (rule codes_last[where x = s])
       (use assms in \<open>simp_all add: ability_set_into_u8_def abilities_wf_def codes_uleb_word\<close>)
qed

lemma codes_list:
  assumes "\<And>x. x \<in> set xs \<Longrightarrow> codes (w x) r x" "bound < 2 ^ 64"
  shows "codes (\<lambda>b. rbind (write_as_uleb128 (length xs) bound b) (for_each w xs))
    (\<lambda>c. rbind (read_uleb_internal try_into_nat bound c) (\<lambda>(len, c). load_times len r c)) xs"
  by (rule codes_bind[OF codes_uleb_nat[OF assms(2)]]) (rule codes_times[OF assms(1)])

lemma reader_ok_list:
  assumes "reader_ok n P r"
  shows "reader_ok 1 (list_all P)
    (\<lambda>c. rbind (read_uleb_internal try_into_nat bound c) (\<lambda>(len, c). load_times len r c))"
  by (rule reader_ok_bind_first[OF reader_ok_uleb_nat], rule reader_ok_mono[OF reader_ok_times[OF assms]])
     simp_all

lemma reader_ok_ability_sets [reader_intros]: "reader_ok 1 (list_all abilities_wf) (load_ability_sets pos)"
  unfolding load_ability_sets_def by (rule reader_ok_list[OF reader_ok_ability_set])

lemma codes_ability_sets:
  "list_all abilities_wf sets \<Longrightarrow> codes (serialize_ability_sets sets) (load_ability_sets pos) sets"
  unfolding serialize_ability_sets_def load_ability_sets_def
  by (rule codes_list) (simp_all add: codes_ability_set list_all_iff)

definition type_parameter_wf :: "struct_type_parameter \<Rightarrow> bool" where
  "type_parameter_wf p \<longleftrightarrow> abilities_wf (stp_constraints p)"

lemma reader_ok_type_parameter [reader_intros]:
  "reader_ok 1 type_parameter_wf load_struct_type_parameter"
  unfolding load_struct_type_parameter_def
  by (rule reader_ok_bind_first[OF reader_ok_ability_set],
      rule reader_ok_if[OF reader_ok_return reader_ok_bind_first[OF integer_readers(2)]])
     (simp_all add: type_parameter_wf_def reader_ok_return)

lemma codes_type_parameter:
  assumes "type_parameter_wf p"
  shows "codes (serialize_type_parameter p) load_struct_type_parameter p"
proof (rule codes_version)
  let ?load = "\<lambda>c.
     rbind (load_ability_set StructTypeParameters c) (\<lambda>(constraints, c).
       rbind (read_uleb_internal try_into_word 1 c) (\<lambda>(byte :: u8, c).
         Ok (\<lparr>stp_constraints = constraints, stp_is_phantom = (byte \<noteq> 0)\<rparr>, c)))"
  show "load_struct_type_parameter c = ?load c" if "vc_version c = VERSION_MAX" for c
  proof (cases "load_ability_set StructTypeParameters c")
    case (Ok res)
    then obtain s c' where "load_ability_set StructTypeParameters c = Ok (s, c')" by (cases res) simp
    moreover from this have "vc_version c' = VERSION_MAX"
      using that reader_ok_elim[OF reader_ok_ability_set] by (metis vc_version_advance)
    ultimately show ?thesis by (simp add: load_struct_type_parameter_def)
  qed (simp_all add: load_struct_type_parameter_def)
  define byte :: u8 where "byte = (if stp_is_phantom p then 1 else 0)"
  have byte: "(if stp_is_phantom p then 1 else 0) = unat byte" by (simp add: byte_def)
  show "codes (serialize_type_parameter p) ?load p"
    unfolding serialize_type_parameter_def byte
    using assms
    by (intro codes_bind[OF codes_ability_set] codes_last[OF codes_uleb_word])
       (simp_all add: type_parameter_wf_def byte_def)
qed

lemma reader_ok_type_parameters [reader_intros]:
  "reader_ok 1 (list_all type_parameter_wf) load_struct_type_parameters"
  unfolding load_struct_type_parameters_def by (rule reader_ok_list[OF reader_ok_type_parameter])

lemma codes_type_parameters:
  "list_all type_parameter_wf ps \<Longrightarrow> codes (serialize_type_parameters ps) load_struct_type_parameters ps"
  unfolding serialize_type_parameters_def load_struct_type_parameters_def
  by (rule codes_list) (simp_all add: codes_type_parameter list_all_iff)

lemmas ability_readers [reader_intros] = reader_ok_ability_set[THEN reader_ok_weaken]
  reader_ok_ability_sets[THEN reader_ok_weaken] reader_ok_type_parameters[THEN reader_ok_weaken]
  reader_ok_signature_token[THEN reader_ok_weaken]

end
