(* ===== verification/Code_Codec.thy ===== *)
theory Code_Codec
  imports Entry_Codecs
begin

text \<open>Instructions, code units and function definitions are read back.\<close>

section \<open>Instructions\<close>

lemma opcodes_round_trip: "opcodes_from_u8 (opcode_as_u8 op) = Ok op"
  by (cases op) (simp_all add: opcodes_from_u8_def opcode_as_u8_def)

lemma opcodes_from_u8_not_Panic: "opcodes_from_u8 byte \<noteq> Panic"
  by (simp add: opcodes_from_u8_def)

lemma reader_ok_operands: "reader_ok 0 (\<lambda>_. True) (load_operands op)"
  unfolding load_operands_def
  by (cases op; simp only: opcodes.case; (rule reader_ok_return reader_ok_bind_first[OF integer_readers(1)]
      reader_ok_bind_first[OF integer_readers(2)] reader_ok_bind_first[OF integer_readers(4)]
      reader_ok_bind_first[OF integer_readers(5)] reader_ok_bind_first[OF integer_readers(6)] TrueI)+)

lemma reader_ok_instruction: "reader_ok 1 (\<lambda>_. True) load_instruction"
proof -
  have "reader_ok 0 (\<lambda>_. True)
      (\<lambda>c. rbind (ensure (\<not> (is_vector_opcode op \<and> vc_version c < VERSION_4)) malformed)
         (\<lambda>_. load_operands op c))" for op
    using reader_ok_operands[of op] by (auto simp: reader_ok_def ensure_def)
  then show ?thesis
    unfolding load_instruction_def
    by (intro reader_ok_bind_first[OF reader_ok_load_byte] reader_ok_bind_pure) (simp_all add: opcodes_from_u8_not_Panic)
qed

lemma ensure_version:
  "vc_version c = VERSION_MAX \<Longrightarrow>
     rbind (ensure (\<not> (is_vector_opcode op \<and> vc_version c < VERSION_4)) malformed) (\<lambda>_. load_operands op c)
     = load_operands op c"
  by (simp add: ensure_def)

lemma codes_opcode:
  assumes "\<And>c. load_operands op c = Ok (x, c)"
  shows "codes (binary_push (opcode_as_u8 op)) load_instruction x"
proof -
  have "codes (\<lambda>b. rbind (binary_push (opcode_as_u8 op) b) Ok) load_instruction x"
    unfolding load_instruction_def
    by (rule codes_tag_more[where decode = opcodes_from_u8, OF opcodes_round_trip],
        rule codes_version[OF ensure_version])
       (simp_all add: assms codes_return)
  moreover have "rbind (binary_push (opcode_as_u8 op) b) Ok = binary_push (opcode_as_u8 op) b" for b
    by (simp add: binary_push_def)
  ultimately show ?thesis by simp
qed

lemma codes_opcode_more:
  assumes "codes w (load_operands op) x"
  shows "codes (\<lambda>b. rbind (binary_push (opcode_as_u8 op) b) w) load_instruction x"
  unfolding load_instruction_def
  by (rule codes_tag_more[where decode = opcodes_from_u8, OF opcodes_round_trip],
      rule codes_version[OF ensure_version assms])

lemma codes_instruction: "codes (serialize_instruction_inner op) load_instruction op"
  unfolding serialize_instruction_inner_def
  by (cases op; simp only: bytecode.case)
     ((rule codes_opcode, simp only: load_operands_def opcodes.case)
      | (rule codes_opcode_more, unfold load_operands_def, simp only: opcodes.case,
         rule codes_bind[OF codes_index] codes_last[OF codes_index] codes_last[OF codes_uleb_word]
           codes_last[OF codes_push] codes_last[OF codes_u64] codes_last[OF codes_u128],
         (simp; fail | (rule codes_last[OF codes_u64], simp))+))+

section \<open>Functions\<close>

lemma reader_ok_code_unit: "reader_ok 1 (\<lambda>_. True) load_code_unit"
proof -
  have "reader_ok 1 (\<lambda>_. True) load_code"
    unfolding load_code_def
    by (rule reader_ok_mono[OF reader_ok_list[OF reader_ok_instruction]]) simp_all
  then show ?thesis
    unfolding load_code_unit_def
    by (intro reader_ok_bind_first[OF reader_ok_index] reader_ok_bind_first[OF reader_ok_weaken] reader_ok_return) simp_all
qed

lemma codes_code_unit: "codes (serialize_code_unit code) load_code_unit code"
proof -
  have "codes (serialize_code instrs) load_code instrs" for instrs
    unfolding serialize_code_def load_code_def by (rule codes_list) (simp_all add: codes_instruction)
  then show ?thesis
    unfolding serialize_code_unit_def load_code_unit_def
    by (intro codes_bind[OF codes_index] codes_last[where x = "cu_code code"]) simp_all
qed

lemma reader_ok_visibility: "reader_ok 0 (\<lambda>_. True) (load_visibility flags)"
  unfolding load_visibility_def Let_def
  by (intro reader_ok_if reader_ok_return reader_ok_bind_pure
      reader_ok_bind_first[OF integer_readers(1)]) simp_all

lemma reader_ok_function_def: "reader_ok 1 (\<lambda>_. True) load_function_def"
proof -
  have acquires: "reader_ok 0 (\<lambda>_. True) load_struct_definition_indices"
    unfolding load_struct_definition_indices_def
    by (rule reader_ok_mono[OF reader_ok_list[OF reader_ok_index]]) simp_all
  have code: "reader_ok 0 (\<lambda>_. True) (\<lambda>c.
      if extra AND function_definition_NATIVE \<noteq> 0
      then Ok ((None, extra XOR function_definition_NATIVE), c)
      else rbind (load_code_unit c) (\<lambda>(code, c). Ok ((Some code, extra), c)))" for extra
    by (intro reader_ok_if reader_ok_return reader_ok_bind_first[OF reader_ok_code_unit[THEN reader_ok_weaken]]) simp_all
  show ?thesis
    unfolding load_function_def_def
    by (rule reader_ok_bind_first[OF reader_ok_index] reader_ok_bind_first[OF integer_readers(1)]
        reader_ok_bind_first[OF reader_ok_visibility] reader_ok_bind_first[OF acquires]
        reader_ok_bind_first[OF code] reader_ok_if reader_ok_Err reader_ok_return TrueI
        | (unfold split_paired_all prod.case)[1])+
qed

lemma codes_acquires: "codes (serialize_acquires idxs) load_struct_definition_indices idxs"
  unfolding serialize_acquires_def load_struct_definition_indices_def
  by (rule codes_list) (simp_all add: codes_index)

lemma codes_visibility:
  "codes (binary_push extra) (load_visibility (visibility_as_u8 vis)) (vis, extra)"
proof (rule codes_version)
  show "load_visibility (visibility_as_u8 vis) c
      = rbind (load_byte c) (\<lambda>(extra_flags, c). Ok ((vis, extra_flags), c))"
    if "vc_version c = VERSION_MAX" for c
    using that by (simp add: load_visibility_def visibility_roundtrip ok_or_def)
  show "codes (binary_push extra)
      (\<lambda>c. rbind (load_byte c) (\<lambda>(extra_flags, c). Ok ((vis, extra_flags), c))) (vis, extra)"
    by (rule codes_last[OF codes_push]) simp
qed

lemma codes_function_def: "codes (serialize_function_definition fd) load_function_def fd"
proof -
  define extra where "extra = (if is_native fd then function_definition_NATIVE else 0)"
  have code: "codes (\<lambda>b. case fd_code fd of Some code \<Rightarrow> serialize_code_unit code b | None \<Rightarrow> Ok b)
      (\<lambda>c. rbind (if extra AND function_definition_NATIVE \<noteq> 0
            then Ok ((None, extra XOR function_definition_NATIVE), c)
            else rbind (load_code_unit c) (\<lambda>(code, c). Ok ((Some code, extra), c)))
       (\<lambda>((code_unit, extra_flags), c).
         if extra_flags \<noteq> 0 then Err (new_error INVALID_FLAG_BITS)
         else Ok (\<lparr>fd_function = fd_function fd, fd_visibility = fd_visibility fd,
                   fd_acquires_global_resources = fd_acquires_global_resources fd,
                   fd_code = code_unit\<rparr>, c))) fd"
  proof (cases "fd_code fd")
    case None
    then have "is_native fd" by (simp add: is_native_def)
    then show ?thesis
      using None codes_return[of fd] by (simp add: extra_def function_definition_NATIVE_def codes_def)
  next
    case (Some code)
    then have "extra = 0" by (simp add: extra_def is_native_def)
    moreover have "codes (serialize_code_unit code) (\<lambda>c. rbind (load_code_unit c) (\<lambda>(code, c).
        Ok (\<lparr>fd_function = fd_function fd, fd_visibility = fd_visibility fd,
             fd_acquires_global_resources = fd_acquires_global_resources fd, fd_code = Some code\<rparr>, c))) fd"
      by (rule codes_last[OF codes_code_unit]) (simp add: Some[symmetric])
    ultimately show ?thesis using Some by (simp add: rbind_assoc split_def)
  qed
  show ?thesis
    unfolding serialize_function_definition_def load_function_def_def extra_def[symmetric]
    by (rule codes_bind[OF codes_index], rule codes_bind[OF codes_push],
        rule codes_bind[OF codes_visibility, unfolded split_paired_all prod.case], unfold prod.case, rule codes_bind[OF codes_acquires], rule code)
qed

end
