(* ===== verification/Table_Codecs.thy ===== *)
theory Table_Codecs
  imports Code_Codec
begin

text \<open>
  The entries of every table are read back: one interpretation of \<open>codec\<close> per table, and one of
  \<open>table_codec\<close> for the addresses, which have no entry reader of their own.
\<close>

section \<open>Handles and instantiations\<close>

interpretation mh: codec serialize_module_handle load_module_handle "\<lambda>_. True"
proof
  show "reader_ok 1 (\<lambda>_. True) load_module_handle"
    unfolding load_module_handle_def by (rule reader_intros | simp)+
  show "codes (serialize_module_handle x) load_module_handle x" for x
    unfolding serialize_module_handle_def load_module_handle_def
    by (intro codes_bind[OF codes_index] codes_last[OF codes_index]) simp
qed

definition struct_handle_wf :: "struct_handle \<Rightarrow> bool" where
  "struct_handle_wf sh \<longleftrightarrow>
     abilities_wf (sh_abilities sh) \<and> list_all type_parameter_wf (sh_type_parameters sh)"

interpretation sh: codec serialize_struct_handle load_struct_handle struct_handle_wf
proof
  show "reader_ok 1 struct_handle_wf load_struct_handle"
    unfolding load_struct_handle_def by (rule reader_intros | simp add: struct_handle_wf_def)+
  show "codes (serialize_struct_handle x) load_struct_handle x" if "struct_handle_wf x" for x
    unfolding serialize_struct_handle_def load_struct_handle_def
    using that
    by (intro codes_bind[OF codes_index] codes_bind[OF codes_ability_set]
        codes_last[OF codes_type_parameters]) (simp_all add: struct_handle_wf_def)
qed

definition function_handle_wf :: "function_handle \<Rightarrow> bool" where
  "function_handle_wf fh \<longleftrightarrow> list_all abilities_wf (fh_type_parameters fh)"

interpretation fh: codec serialize_function_handle load_function_handle function_handle_wf
proof
  show "reader_ok 1 function_handle_wf load_function_handle"
    unfolding load_function_handle_def by (rule reader_intros | simp add: function_handle_wf_def)+
  show "codes (serialize_function_handle x) load_function_handle x" if "function_handle_wf x" for x
    unfolding serialize_function_handle_def load_function_handle_def
    using that
    by (intro codes_bind[OF codes_index] codes_last[OF codes_ability_sets])
       (simp_all add: function_handle_wf_def)
qed

interpretation sdi: codec serialize_struct_def_instantiation load_struct_instantiation "\<lambda>_. True"
proof
  show "reader_ok 1 (\<lambda>_. True) load_struct_instantiation"
    unfolding load_struct_instantiation_def by (rule reader_intros | simp)+
  show "codes (serialize_struct_def_instantiation x) load_struct_instantiation x" for x
    unfolding serialize_struct_def_instantiation_def load_struct_instantiation_def
    by (intro codes_bind[OF codes_index] codes_last[OF codes_index]) simp
qed

interpretation fi: codec serialize_function_instantiation load_function_instantiation "\<lambda>_. True"
proof
  show "reader_ok 1 (\<lambda>_. True) load_function_instantiation"
    unfolding load_function_instantiation_def by (rule reader_intros | simp)+
  show "codes (serialize_function_instantiation x) load_function_instantiation x" for x
    unfolding serialize_function_instantiation_def load_function_instantiation_def
    by (intro codes_bind[OF codes_index] codes_last[OF codes_index]) simp
qed

interpretation fdh: codec serialize_field_handle load_field_handle "\<lambda>_. True"
proof
  show "reader_ok 1 (\<lambda>_. True) load_field_handle"
    unfolding load_field_handle_def by (rule reader_intros | simp)+
  show "codes (serialize_field_handle x) load_field_handle x" for x
    unfolding serialize_field_handle_def load_field_handle_def
    by (intro codes_bind[OF codes_index] codes_last[OF codes_uleb_word]) simp_all
qed

interpretation fdi: codec serialize_field_instantiation load_field_instantiation "\<lambda>_. True"
proof
  show "reader_ok 1 (\<lambda>_. True) load_field_instantiation"
    unfolding load_field_instantiation_def by (rule reader_intros | simp)+
  show "codes (serialize_field_instantiation x) load_field_instantiation x" for x
    unfolding serialize_field_instantiation_def load_field_instantiation_def
    by (intro codes_bind[OF codes_index] codes_last[OF codes_index]) simp
qed

section \<open>Signatures, constants and identifiers\<close>

interpretation sig: codec serialize_signature load_signature_tokens "list_all token_wf"
proof
  show "reader_ok 1 (list_all token_wf) load_signature_tokens"
    unfolding load_signature_tokens_def by (rule reader_ok_list[OF reader_ok_signature_token])
  show "codes (serialize_signature x) load_signature_tokens x" if "list_all token_wf x" for x
    unfolding serialize_signature_def serialize_signature_tokens_def load_signature_tokens_def
    using that by (intro codes_list codes_signature_token) (simp_all add: list_all_iff)
qed

lemma cursor_read_ok: 
  "reader_ok 0 (\<lambda>_. True) (\<lambda>c. map_err (\<lambda>_. e) (cursor_read n c))"
  by (rule reader_okI) (auto simp: cursor_read_def map_err_def Let_def intro: min.cobounded2)

definition constant_wf :: "pool_constant \<Rightarrow> bool" where
  "constant_wf k \<longleftrightarrow> token_wf (const_type k)"

interpretation k: codec serialize_constant load_constant constant_wf
proof
  show "reader_ok 1 constant_wf load_constant"
    unfolding load_constant_def
    by (intro reader_ok_bind_first[OF reader_ok_signature_token] reader_ok_bind_first[OF integer_readers(3)]
        reader_ok_bind_first[OF cursor_read_ok] reader_ok_if reader_ok_Err reader_ok_return)
       (simp add: constant_wf_def)
  show "codes (serialize_constant x) load_constant x" if "constant_wf x" for x
    unfolding serialize_constant_def load_constant_def
    using that
    by (intro codes_bind[OF codes_signature_token] codes_bind[OF codes_uleb_nat]
        codes_last[OF codes_bytes]) (simp_all add: constant_wf_def)
qed

definition identifier_wf :: "ident_str \<Rightarrow> bool" where
  "identifier_wf s \<longleftrightarrow> identifier_is_valid (string_bytes s)"

lemma string_bytes_of_bytes: "string_bytes (map (\<lambda>b. char_of (unat b)) bytes) = bytes"
  by (induction bytes) (simp_all add: string_bytes_def take_bit_nat_eq_self)

lemma bytes_of_string: "map (\<lambda>b. char_of (unat b)) (string_bytes s) = s"
  by (induction s) (simp_all add: string_bytes_def unat_of_nat)

interpretation ident: codec serialize_identifier load_identifier identifier_wf
proof
  have utf8: "reader_ok 0 identifier_wf
      (\<lambda>c. rbind (map_err (\<lambda>_. malformed) (identifier_from_utf8 buffer)) (\<lambda>s. Ok (s, c)))" for buffer
    by (rule reader_ok_bind_pure)
       (auto simp: identifier_from_utf8_def map_err_def identifier_wf_def string_bytes_of_bytes
         split: if_splits intro: reader_ok_return)
  show "reader_ok 1 identifier_wf load_identifier"
    unfolding load_identifier_def
    by (intro reader_ok_bind_first[OF reader_ok_uleb_nat] reader_ok_bind_first[OF cursor_read_ok]
        reader_ok_if reader_ok_Err utf8)
  show "codes (serialize_identifier x) load_identifier x" if "identifier_wf x" for x
    unfolding serialize_identifier_def load_identifier_def Let_def
    using that
    by (intro codes_bind[OF codes_uleb_nat] codes_last[OF codes_bytes])
       (simp_all add: identifier_wf_def identifier_from_utf8_def map_err_def bytes_of_string)
qed

section \<open>Definitions\<close>

definition field_wf :: "field_definition \<Rightarrow> bool" where
  "field_wf fd \<longleftrightarrow> token_wf (fdd_signature fd)"

definition struct_definition_wf :: "struct_definition \<Rightarrow> bool" where
  "struct_definition_wf sd \<longleftrightarrow>
     (case sd_field_information sd of Native \<Rightarrow> True | Declared fds \<Rightarrow> list_all field_wf fds)"

lemma reader_ok_field_defs: "reader_ok 1 (list_all field_wf) load_field_defs"
proof -
  have "reader_ok 1 field_wf load_field_def"
    unfolding load_field_def_def by (rule reader_intros | simp add: field_wf_def)+
  then show ?thesis unfolding load_field_defs_def by (rule reader_ok_list)
qed

lemma codes_field_defs:
  assumes "list_all field_wf fds"
  shows "codes (serialize_field_definitions fds) load_field_defs fds"
proof -
  have "codes (serialize_field_definition fd) load_field_def fd" if "field_wf fd" for fd
    unfolding serialize_field_definition_def load_field_def_def
    using that by (intro codes_bind[OF codes_index] codes_last[OF codes_signature_token])
      (simp_all add: field_wf_def)
  then show ?thesis
    unfolding serialize_field_definitions_def load_field_defs_def
    using assms by (intro codes_list) (simp_all add: list_all_iff)
qed

lemma native_struct_flag_round_trip: "native_struct_flag_from_u8 (native_struct_flag_as_u8 f) = Ok f"
  by (cases f) (simp_all add: native_struct_flag_from_u8_def native_struct_flag_as_u8_def)

interpretation sd: codec serialize_struct_definition load_struct_def struct_definition_wf
proof
  have info: "reader_ok 0 (\<lambda>info. case info of Native \<Rightarrow> True | Declared fds \<Rightarrow> list_all field_wf fds)
      (\<lambda>c. case flag of
              NSF_NATIVE \<Rightarrow> Ok (Native, c)
            | NSF_DECLARED \<Rightarrow> rbind (load_field_defs c) (\<lambda>(fds, c). Ok (Declared fds, c)))" for flag
    by (cases flag)
       (simp_all, (rule reader_ok_return reader_ok_bind_first[OF reader_ok_field_defs[THEN reader_ok_weaken]] | simp)+)
  show "reader_ok 1 struct_definition_wf load_struct_def"
    unfolding load_struct_def_def
    by (intro reader_ok_bind_first[OF reader_ok_index] reader_ok_bind_first[OF integer_readers(1)]
        reader_ok_bind_pure reader_ok_bind_first[OF info] reader_ok_return)
       (simp_all add: struct_definition_wf_def native_struct_flag_from_u8_def)
  show "codes (serialize_struct_definition x) load_struct_def x" if "struct_definition_wf x" for x
  proof (cases "sd_field_information x")
    case Native
    have "codes (binary_push (native_struct_flag_as_u8 NSF_NATIVE))
        (\<lambda>c. rbind (load_byte c) (\<lambda>(byte, c).
          rbind (native_struct_flag_from_u8 byte) (\<lambda>flag.
          rbind (case flag of
              NSF_NATIVE \<Rightarrow> Ok (Native, c)
            | NSF_DECLARED \<Rightarrow> rbind (load_field_defs c) (\<lambda>(fds, c). Ok (Declared fds, c)))
           (\<lambda>(info, c).
             Ok (\<lparr>sd_struct_handle = sd_struct_handle x, sd_field_information = info\<rparr>, c))))) x"
      by (rule codes_tag[where decode = native_struct_flag_from_u8, OF native_struct_flag_round_trip])
         (simp add: Native[symmetric])
    then show ?thesis
      unfolding serialize_struct_definition_def load_struct_def_def Native struct_field_information.case
      by (rule codes_bind[OF codes_index])
  next
    case (Declared fds)
    have "codes (\<lambda>b. rbind (binary_push (native_struct_flag_as_u8 NSF_DECLARED) b) (serialize_field_definitions fds))
        (\<lambda>c. rbind (load_byte c) (\<lambda>(byte, c).
          rbind (native_struct_flag_from_u8 byte) (\<lambda>flag.
          rbind (case flag of
              NSF_NATIVE \<Rightarrow> Ok (Native, c)
            | NSF_DECLARED \<Rightarrow> rbind (load_field_defs c) (\<lambda>(fds, c). Ok (Declared fds, c)))
           (\<lambda>(info, c).
             Ok (\<lparr>sd_struct_handle = sd_struct_handle x, sd_field_information = info\<rparr>, c))))) x"
    proof (rule codes_tag_more[where decode = native_struct_flag_from_u8, OF native_struct_flag_round_trip])
      have x: "\<lparr>sd_struct_handle = sd_struct_handle x, sd_field_information = Declared fds\<rparr> = x"
        using Declared by simp
      have "codes (serialize_field_definitions fds)
          (\<lambda>c. rbind (load_field_defs c) (\<lambda>(fds, c).
             Ok (\<lparr>sd_struct_handle = sd_struct_handle x, sd_field_information = Declared fds\<rparr>, c))) x"
        using that by (intro codes_last[OF codes_field_defs]) (simp_all add: struct_definition_wf_def Declared x)
      then show "codes (serialize_field_definitions fds)
          (\<lambda>c. rbind (case NSF_DECLARED of
              NSF_NATIVE \<Rightarrow> Ok (Native, c)
            | NSF_DECLARED \<Rightarrow> rbind (load_field_defs c) (\<lambda>(fds, c). Ok (Declared fds, c)))
           (\<lambda>(info, c).
             Ok (\<lparr>sd_struct_handle = sd_struct_handle x, sd_field_information = info\<rparr>, c))) x"
        by (simp add: rbind_assoc split_def)
    qed
    then show ?thesis
      unfolding serialize_struct_definition_def load_struct_def_def Declared struct_field_information.case
      by (rule codes_bind[OF codes_index])
  qed
qed

interpretation fd: codec serialize_function_definition load_function_def "\<lambda>_. True"
  by unfold_locales (rule reader_ok_function_def codes_function_def)+

section \<open>Addresses\<close>

definition address_wf :: "account_address \<Rightarrow> bool" where
  "address_wf address \<longleftrightarrow> length address = ADDRESS_LENGTH"

lemma load_addresses_ok:
  "start + n * ADDRESS_LENGTH \<le> length (vb_binary binary) \<Longrightarrow>
     \<exists>xs. load_addresses n binary start = Ok xs \<and> list_all address_wf xs"
proof (induction n arbitrary: start)
  case 0
  then show ?case by simp
next
  case (Suc n)
  then have "\<exists>xs. load_addresses n binary (start + ADDRESS_LENGTH) = Ok xs \<and> list_all address_wf xs"
    by (intro Suc.IH) simp
  then show ?case
    using Suc.prems by (auto simp: binary_slice_def Let_def address_wf_def list_all_iff)
qed

lemma load_addresses_wf: "load_addresses n binary start = Ok xs \<Longrightarrow> list_all address_wf xs"
  by (induction n arbitrary: start xs) (auto simp: Let_def ok_iff address_wf_def split: if_split_asm)

lemma load_addresses_written:
  assumes "list_all address_wf xs" "drop start (vb_binary binary) = concat xs @ rest"
  shows "load_addresses (length xs) binary start = Ok xs"
  using assms
proof (induction xs arbitrary: start)
  case Nil
  then show ?case by simp
next
  case (Cons x xs)
  have x: "length x = ADDRESS_LENGTH" "list_all address_wf xs"
    using Cons.prems(1) by (simp_all add: address_wf_def list_all_iff)
  have len: "start + ADDRESS_LENGTH \<le> length (vb_binary binary)"
    using arg_cong[OF Cons.prems(2), of length] x(1) by simp
  have "drop (start + ADDRESS_LENGTH) (vb_binary binary) = concat xs @ rest"
    using arg_cong[OF Cons.prems(2), of "drop ADDRESS_LENGTH"] x(1) by (simp add: add.commute)
  then have "load_addresses (length xs) binary (start + ADDRESS_LENGTH) = Ok xs"
    by (rule Cons.IH[OF x(2)])
  then show ?case using Cons.prems(2) x(1) len by (simp add: Let_def binary_slice_def)
qed

lemma serialize_addresses:
  "for_each serialize_address xs b = Ok b' \<Longrightarrow> b' = b @ concat xs"
proof (induction xs arbitrary: b)
  case (Cons x xs)
  then obtain b1 where "serialize_address x b = Ok b1" "for_each serialize_address xs b1 = Ok b'"
    by (auto simp: ok_iff)
  moreover from this have "for_each binary_push x b = Ok b1" by (simp add: serialize_address_def)
  ultimately show ?case using Cons.IH by (fastforce simp: for_each_push split: if_split_asm)
qed simp

lemma length_addresses: "list_all address_wf xs \<Longrightarrow> length (concat xs) = length xs * ADDRESS_LENGTH"
  by (induction xs) (simp_all add: address_wf_def)

interpretation addr: table_codec serialize_address load_address_identifiers address_wf
proof
  fix binary table acc ys
  show "load_address_identifiers binary table acc \<noteq> Panic" if "table_bytes binary table \<noteq> Panic"
  proof (cases "unat (tbl_count table) mod ADDRESS_LENGTH = 0")
    case True
    have "unat (tbl_offset table) + unat (tbl_count table) div ADDRESS_LENGTH * ADDRESS_LENGTH
        \<le> length (vb_binary binary)"
      using that True by (auto simp: table_bytes_def binary_slice_def split: if_split_asm)
    then obtain xs where "load_addresses (unat (tbl_count table) div ADDRESS_LENGTH) binary
        (unat (tbl_offset table)) = Ok xs"
      using load_addresses_ok by blast
    then show ?thesis by (simp add: load_address_identifiers_def)
  next
    case False
    then show ?thesis by (simp add: load_address_identifiers_def)
  qed
  show "\<exists>xs. ys = acc @ xs \<and> list_all address_wf xs"
    if "load_address_identifiers binary table acc = Ok ys"
    using that by (auto simp: load_address_identifiers_def ok_iff split: if_split_asm dest: load_addresses_wf)
next
  fix xs b b'
  assume wf: "list_all address_wf xs"
  have "for_each serialize_address xs b \<noteq> Panic" for xs b
    by (induction xs arbitrary: b) (auto simp: serialize_address_def for_each_push no_panic)
  then show "for_each serialize_address xs b \<noteq> Panic" .
  assume written: "for_each serialize_address xs b = Ok b'"
  have "load_address_identifiers binary table acc = Ok (acc @ xs)"
    if bytes: "table_bytes binary table = Ok (concat xs)" for binary table acc
  proof -
    have count: "unat (tbl_count table) = length xs * ADDRESS_LENGTH"
      using table_bytes_length[OF bytes] length_addresses[OF wf] by simp
    have "take (unat (tbl_count table)) (drop (unat (tbl_offset table)) (vb_binary binary)) = concat xs"
      using bytes by (auto simp: table_bytes_def binary_slice_def split: if_split_asm)
    then have "drop (unat (tbl_offset table)) (vb_binary binary)
        = concat xs @ drop (unat (tbl_count table)) (drop (unat (tbl_offset table)) (vb_binary binary))"
      by (metis append_take_drop_id)
    then show ?thesis
      using load_addresses_written[OF wf] by (simp add: load_address_identifiers_def count)
  qed
  then show "\<exists>bs. b' = b @ bs \<and> length xs \<le> length bs \<and>
      (\<forall>binary table acc. vb_version binary = VERSION_MAX \<longrightarrow> table_bytes binary table = Ok bs \<longrightarrow>
         load_address_identifiers binary table acc = Ok (acc @ xs))"
    using serialize_addresses[OF written] length_addresses[OF wf]
    by (intro exI[of _ "concat xs"]) simp
qed

end
