(* ===== verification/Binary_Loading.thy ===== *)
theory Binary_Loading
  imports Table_Codecs Check_Bounds
begin

text \<open>
  Deserialization of arbitrary bytes: it returns a module, a script or an error, and what it
  returns satisfies the invariants of the table entries.
\<close>

section \<open>Invariants of modules and scripts\<close>

definition common_wf :: "common_tables \<Rightarrow> bool" where
  "common_wf common \<longleftrightarrow>
     list_all struct_handle_wf (ct_struct_handles common) \<and>
     list_all function_handle_wf (ct_function_handles common) \<and>
     list_all (list_all token_wf) (ct_signatures common) \<and>
     list_all identifier_wf (ct_identifiers common) \<and>
     list_all address_wf (ct_address_identifiers common) \<and>
     list_all constant_wf (ct_constant_pool common)"

definition module_wf :: "compiled_module \<Rightarrow> bool" where
  "module_wf m \<longleftrightarrow>
     common_wf (module_common_tables m) \<and> list_all struct_definition_wf (cm_struct_defs m)"

definition script_wf :: "compiled_script \<Rightarrow> bool" where
  "script_wf s \<longleftrightarrow> common_wf (script_common_tables s) \<and> list_all abilities_wf (cs_type_parameters s)"

section \<open>The tables stay inside their contents\<close>

lemma check_table_Ok:
  assumes "check_table n t (cur, kinds) = Ok (cur', kinds')"
  shows "unat cur' = unat (tbl_offset t) + unat (tbl_count t)" "unat cur \<le> unat cur'"
proof -
  have "tbl_offset t = cur" "unat cur + unat (tbl_count t) < 2 ^ 32" "cur' = cur + tbl_count t"
    using assms by (auto simp: check_table_def Let_def not_le split: if_split_asm)
  then show "unat cur' = unat (tbl_offset t) + unat (tbl_count t)" "unat cur \<le> unat cur'"
    by (simp_all add: unat_add_lem[where 'a = 32, simplified, THEN iffD1])
qed

lemma check_tables_run:
  "for_each (check_table n) ts (cur, kinds) = Ok (len, kinds') \<Longrightarrow>
     unat cur \<le> unat len \<and> (\<forall>t \<in> set ts. unat (tbl_offset t) + unat (tbl_count t) \<le> unat len)"
proof (induction ts arbitrary: cur kinds)
  case Nil
  then show ?case by simp
next
  case (Cons t ts)
  then obtain cur' kinds1 where step: "check_table n t (cur, kinds) = Ok (cur', kinds1)"
      and rest: "for_each (check_table n) ts (cur', kinds1) = Ok (len, kinds')"
    by (auto simp: ok_iff)
  show ?case using Cons.IH[OF rest] check_table_Ok[OF step] by auto
qed

lemma check_tables_Ok:
  assumes "check_tables tables n = Ok (ts, len)" "t \<in> set ts"
  shows "unat (tbl_offset t) + unat (tbl_count t) \<le> unat len"
proof -
  obtain kinds where "for_each (check_table n) ts (0, {}) = Ok (len, kinds)"
    using assms(1) by (auto simp: check_tables_def Let_def ok_iff)
  then show ?thesis using check_tables_run assms(2) by blast
qed

lemma table_checks_not_Panic: "check_tables tables n \<noteq> Panic"
proof -
  have "for_each (check_table n) ts st \<noteq> Panic" for ts st
  proof (induction ts arbitrary: st)
    case (Cons t ts)
    have "check_table n t st \<noteq> Panic" by (simp add: check_table_def Let_def split: prod.split)
    with Cons show ?case by (auto simp: no_panic)
  qed simp
  then show ?thesis by (auto simp: check_tables_def Let_def no_panic)
qed

section \<open>Single tables\<close>

lemmas table_loaders = load_module_handles_def load_struct_handles_def load_function_handles_def
  load_struct_instantiations_def load_function_instantiations_def load_identifiers_def
  load_constant_pool_def load_signatures_def load_struct_defs_def load_function_defs_def
  load_field_handles_def load_field_instantiations_def

lemmas loads_not_Panic = mh.less.load_not_Panic sh.less.load_not_Panic fh.less.load_not_Panic
  sdi.less.load_not_Panic fi.less.load_not_Panic ident.less.load_not_Panic k.less.load_not_Panic
  sig.less.load_not_Panic sd.less.load_not_Panic fd.less.load_not_Panic
  fdh.until.load_not_Panic fdi.until.load_not_Panic addr.load_not_Panic

lemmas loads_wf = sh.less.load_wf fh.less.load_wf ident.less.load_wf k.less.load_wf
  sig.less.load_wf sd.less.load_wf addr.load_wf

lemma build_common_table_not_Panic:
  assumes "table_bytes binary t \<noteq> Panic"
  shows "build_common_table binary t common \<noteq> Panic"
  using loads_not_Panic[OF assms]
  by (cases "tbl_kind t") (simp_all add: build_common_table_def table_loaders no_panic)

lemma build_module_table_not_Panic:
  assumes "table_bytes binary t \<noteq> Panic"
  shows "build_module_table binary t m \<noteq> Panic"
  using loads_not_Panic[OF assms]
  by (cases "tbl_kind t") (simp_all add: build_module_table_def table_loaders no_panic)

lemma build_common_table_wf:
  assumes "common_wf common" "build_common_table binary t common = Ok common'"
  shows "common_wf common'"
  using assms
  by (cases "tbl_kind t")
     (auto simp: build_common_table_def table_loaders ok_iff common_wf_def dest!: loads_wf split: if_split_asm)

lemma build_module_table_common:
  "build_module_table binary t m = Ok m' \<Longrightarrow> module_common_tables m' = module_common_tables m"
  by (cases "tbl_kind t") (auto simp: build_module_table_def ok_iff module_common_tables_def)

lemma build_module_table_wf:
  assumes "module_wf m" "build_module_table binary t m = Ok m'"
  shows "module_wf m'"
proof -
  have "list_all struct_definition_wf (cm_struct_defs m')"
    using assms
    by (cases "tbl_kind t")
       (auto simp: build_module_table_def table_loaders ok_iff module_wf_def dest!: loads_wf)
  then show ?thesis using assms build_module_table_common by (simp add: module_wf_def)
qed

section \<open>Whole binaries\<close>

text \<open>\<^verbatim>\<open>CompiledModule::deserialize\<close> and \<^verbatim>\<open>CompiledScript::deserialize\<close>.\<close>

definition module_deserialize :: "u8 list \<Rightarrow> compiled_module vm_result" where
  "module_deserialize binary =
     rbind (deserialize_compiled_module binary) (\<lambda>m. rbind (bounds_verify_module m) (\<lambda>_. Ok m))"

definition script_deserialize :: "u8 list \<Rightarrow> compiled_script vm_result" where
  "script_deserialize binary =
     rbind (deserialize_compiled_script binary) (\<lambda>s. rbind (bounds_verify_script s) (\<lambda>_. Ok s))"

lemma versioned_cursor_new_not_Panic: "versioned_cursor_new binary \<noteq> Panic"
proof -
  have "read_u32 c \<noteq> Panic" for c by (simp add: read_u32_def read_exact_def no_panic)
  then show ?thesis
    by (auto simp: versioned_cursor_new_def versioned_binary_new_def cursor_read_def Let_def no_panic
        split: result.splits prod.splits)
qed

lemma table_type_from_u8_not_Panic: "table_type_from_u8 byte \<noteq> Panic"
  by (simp add: table_type_from_u8_def)

lemma reader_ok_read_tables: "reader_ok 0 (\<lambda>_. True) (read_tables n)"
proof -
  have "reader_ok 1 (\<lambda>_. True) read_table"
    unfolding read_table_def
    by (intro reader_ok_bind_first[OF reader_ok_load_byte] reader_ok_bind_first[OF integer_readers(2)]
        reader_ok_bind_pure reader_ok_return) (simp_all add: table_type_from_u8_not_Panic)
  then show ?thesis
    unfolding read_tables_def by (rule reader_ok_mono[OF reader_ok_times]) simp_all
qed

lemma read_contents_not_Panic: "read_contents binary \<noteq> Panic"
proof -
  have "read_new_binary n c \<noteq> Panic" for n c
    by (simp add: read_new_binary_def read_exact_def)
  then show ?thesis
    using versioned_cursor_new_not_Panic table_checks_not_Panic
      reader_ok_not_Panic[OF reader_ok_uleb_word[where 'n = 8]]
      reader_ok_not_Panic[OF reader_ok_read_tables]
    by (auto simp: read_contents_def no_panic)
qed

lemma read_contents_Ok:
  assumes "read_contents binary = Ok ((tables, contents), c)" "t \<in> set tables"
  shows "table_bytes contents t \<noteq> Panic"
proof -
  obtain tables' len c1 where "check_tables tables' (length binary) = Ok (tables, len)"
      and "read_new_binary (unat len) c1 = Ok (contents, c)"
    using assms(1) by (auto simp: read_contents_def ok_iff)
  then have "unat (tbl_offset t) + unat (tbl_count t) \<le> unat len" "length (vb_binary contents) = unat len"
    using assms(2) check_tables_Ok
    by (auto simp: read_new_binary_def read_exact_def split: if_split_asm)
  then show ?thesis by (simp add: table_bytes_def binary_slice_def)
qed

lemma build_common_tables_not_Panic:
  "(\<And>t. t \<in> set tables \<Longrightarrow> table_bytes binary t \<noteq> Panic) \<Longrightarrow> build_common_tables binary tables common \<noteq> Panic"
  unfolding build_common_tables_def
  by (rule for_each_not_Panic[where I = "\<lambda>_. True"]) (simp_all add: build_common_table_not_Panic)

lemma deserialize_module_not_Panic: "deserialize_compiled_module binary \<noteq> Panic"
proof -
  have "build_compiled_module contents tables m \<noteq> Panic"
    if "read_contents binary = Ok ((tables, contents), c)" for contents tables c m
  proof -
    note bytes = read_contents_Ok[OF that]
    have "build_module_tables contents tables m \<noteq> Panic" for m
      unfolding build_module_tables_def
      by (rule for_each_not_Panic[where I = "\<lambda>_. True"]) (simp_all add: build_module_table_not_Panic bytes)
    then show ?thesis
      using build_common_tables_not_Panic bytes by (auto simp: build_compiled_module_def no_panic)
  qed
  then show ?thesis
    using read_contents_not_Panic reader_ok_not_Panic[OF reader_ok_index]
    by (auto simp: deserialize_compiled_module_def no_panic)
qed

lemma deserialize_script_not_Panic: "deserialize_compiled_script binary \<noteq> Panic"
proof -
  have "build_compiled_script contents tables s \<noteq> Panic"
    if "read_contents binary = Ok ((tables, contents), c)" for contents tables c s
  proof -
    have "build_script_tables tables \<noteq> Panic"
      unfolding build_script_tables_def by (rule for_all_not_Panic) simp
    then show ?thesis
      using build_common_tables_not_Panic read_contents_Ok[OF that]
      by (auto simp: build_compiled_script_def no_panic)
  qed
  then show ?thesis
    using read_contents_not_Panic reader_ok_not_Panic[OF reader_ok_index]
      reader_ok_not_Panic[OF reader_ok_ability_sets] reader_ok_not_Panic[OF reader_ok_code_unit]
    by (auto simp: deserialize_compiled_script_def no_panic)
qed

lemma build_common_tables_wf:
  "build_common_tables binary tables common = Ok common' \<Longrightarrow> common_wf common \<Longrightarrow> common_wf common'"
  unfolding build_common_tables_def
  by (erule for_each_invariant) (auto intro: build_common_table_wf)

lemma deserialize_module_wf:
  assumes "deserialize_compiled_module binary = Ok m"
  shows "module_wf m"
proof -
  obtain contents tables v idx where "build_compiled_module contents tables (empty_module v idx) = Ok m"
    using assms by (auto simp: deserialize_compiled_module_def ok_iff)
  then obtain common where common: "build_common_tables contents tables (module_common_tables (empty_module v idx)) = Ok common"
      and m: "build_module_tables contents tables (set_module_common_tables common (empty_module v idx)) = Ok m"
    by (auto simp: build_compiled_module_def ok_iff)
  have "common_wf common"
    using common by (rule build_common_tables_wf) (simp add: common_wf_def module_common_tables_def empty_module_def)
  then have "module_wf (set_module_common_tables common (empty_module v idx))"
    by (simp add: module_wf_def common_wf_def module_common_tables_def set_module_common_tables_def
        empty_module_def)
  with m show ?thesis
    unfolding build_module_tables_def by (rule for_each_invariant) (auto intro: build_module_table_wf)
qed

text \<open>
  C4: Deserialization never panics. On every sequence of bytes, loading a module or a script
  returns a value or an error: no index, slice, stack operation or conversion of the deserializer
  fails, and all its loops end.
\<close>

theorem deserialize_never_panics: "module_deserialize bytes \<noteq> Panic \<and> script_deserialize bytes \<noteq> Panic"
  by (auto simp: module_deserialize_def script_deserialize_def no_panic deserialize_module_not_Panic
      deserialize_script_not_Panic bounds_verify_module_not_Panic bounds_verify_script_not_Panic)

end
