(* ===== verification/Binary_Round_Trip.thy ===== *)
theory Binary_Round_Trip
  imports Binary_Loading
begin

text \<open>
  A serialized module or script is read back. The tables are written one after the other, so that
  the table of contents describes consecutive, nonempty and different tables; the deserializer
  accepts it, and loads every table with the reader of its entries.
\<close>

section \<open>The layout of the tables\<close>

text \<open>The extents of consecutive tables, and the entries of the table of contents for them.\<close>

fun layout :: "nat \<Rightarrow> u8 list list \<Rightarrow> table_range list" where
  "layout off [] = []"
| "layout off (bs # bss) =
     (if bs = [] then (0, 0) else (of_nat off, of_nat (length bs))) # layout (off + length bs) bss"

fun tables_of :: "nat \<Rightarrow> (table_type \<times> u8 list) list \<Rightarrow> table list" where
  "tables_of off [] = []"
| "tables_of off ((kind, bs) # tabs) =
     (if bs = [] then [] else [\<lparr>tbl_kind = kind, tbl_offset = of_nat off, tbl_count = of_nat (length bs)\<rparr>])
     @ tables_of (off + length bs) tabs"

definition write_table :: "table \<Rightarrow> writer" where
  "write_table t = serialize_table_index (tbl_kind t) (tbl_offset t, tbl_count t)"

lemma table_type_round_trip: "table_type_from_u8 (table_type_as_u8 kind) = Ok kind"
  by (cases kind) (simp_all add: table_type_from_u8_def table_type_as_u8_def)

lemma codes_table:
  assumes "tbl_count t \<noteq> 0"
  shows "codes (write_table t) read_table t"
proof -
  have "write_table t = (\<lambda>b. rbind (binary_push (table_type_as_u8 (tbl_kind t)) b) (\<lambda>b.
      rbind (seiralize_table_offset (tbl_offset t) b) (serialize_table_size (tbl_count t))))"
    using assms by (simp add: fun_eq_iff write_table_def serialize_table_index_def)
  then show ?thesis
    unfolding read_table_def
    by simp (intro codes_bind[OF codes_push] codes_bind[OF codes_uleb_word] codes_last[OF codes_uleb_word];
        simp add: table_type_round_trip)
qed

lemma length_tables_of: "length (tables_of off tabs) = length (filter (\<lambda>(_, bs). bs \<noteq> []) tabs)"
  by (induction off tabs rule: tables_of.induct) auto

abbreviation contents :: "(table_type \<times> u8 list) list \<Rightarrow> u8 list" where
  "contents tabs \<equiv> concat (map snd tabs)"

lemma unat_of_nat_u32: "n < 2 ^ 32 \<Longrightarrow> unat (of_nat n :: u32) = n"
  by (simp add: unat_of_nat)

lemma of_nat_u32_zero: "n < 2 ^ 32 \<Longrightarrow> (of_nat n :: u32) = 0 \<longleftrightarrow> n = 0"
  using unat_of_nat_u32[of n] by (auto simp: unat_eq_zero[symmetric])

lemma empty_table_index: "serialize_table_index kind (0, 0) b = Ok b"
  by (simp add: serialize_table_index_def)

lemma write_table_record:
  "write_table \<lparr>tbl_kind = kind, tbl_offset = off, tbl_count = n\<rparr> = serialize_table_index kind (off, n)"
  by (simp add: write_table_def)

lemma write_indices:
  assumes "length kinds = length bss" "off + length (concat bss) < 2 ^ 32"
  shows "for_each (\<lambda>(kind, extent). serialize_table_index kind extent) (zip kinds (layout off bss)) b
    = for_each write_table (tables_of off (zip kinds bss)) b"
  using assms
proof (induction kinds bss arbitrary: off b rule: list_induct2)
  case Nil
  then show ?case by simp
next
  case (Cons kind kinds bs bss)
  have "for_each (\<lambda>(kind, extent). serialize_table_index kind extent) (zip kinds (layout (off + length bs) bss))
      = for_each write_table (tables_of (off + length bs) (zip kinds bss))"
    using Cons.prems by (intro ext Cons.IH) (simp add: add.assoc)
  then show ?case by (simp add: empty_table_index write_table_record)
qed

lemma tables_of_counts:
  "off + length (contents tabs) < 2 ^ 32 \<Longrightarrow> t \<in> set (tables_of off tabs) \<Longrightarrow> tbl_count t \<noteq> 0"
proof (induction off tabs rule: tables_of.induct)
  case (2 off kind bs tabs)
  then show ?case
    using of_nat_u32_zero[of "length bs"] by (auto simp: add.assoc split: if_split_asm)
qed simp

lemma tables_of_kinds: "t \<in> set (tables_of off tabs) \<Longrightarrow> \<exists>bs. (tbl_kind t, bs) \<in> set tabs"
  by (induction off tabs rule: tables_of.induct) (auto split: if_split_asm)

lemma codes_tables:
  assumes "off + length (contents tabs) < 2 ^ 32"
  shows "codes (for_each write_table (tables_of off tabs))
    (load_times (length (tables_of off tabs)) read_table) (tables_of off tabs)"
  using assms by (intro codes_times codes_table tables_of_counts)

lemma check_written_tables:
  assumes "off + length (contents tabs) < 2 ^ 32" "off + length (contents tabs) \<le> n"
    and "distinct (map fst tabs)" "kinds \<inter> fst ` set tabs = {}"
  shows "\<exists>kinds'. for_each (check_table n) (tables_of off tabs) (of_nat off, kinds)
    = Ok (of_nat (off + length (contents tabs)), kinds')"
  using assms
proof (induction off tabs arbitrary: kinds rule: tables_of.induct)
  case (1 off)
  then show ?case by simp
next
  case (2 off kind bs tabs)
  have small: "off + length bs < 2 ^ 32" "off + length bs \<le> n" "off < 2 ^ 32" "length bs < 2 ^ 32"
    using 2(2,3) by simp_all
  define kinds1 where "kinds1 = (if bs = [] then kinds else insert kind kinds)"
  have "\<exists>kinds'. for_each (check_table n) (tables_of (off + length bs) tabs) (of_nat (off + length bs), kinds1)
      = Ok (of_nat (off + length bs + length (contents tabs)), kinds')"
    using 2(2-5) by (intro 2(1)) (auto simp: kinds1_def add.assoc)
  moreover have "bs \<noteq> [] \<Longrightarrow>
      check_table n \<lparr>tbl_kind = kind, tbl_offset = of_nat off, tbl_count = of_nat (length bs)\<rparr> (of_nat off, kinds)
      = Ok (of_nat (off + length bs), kinds1)"
    using small 2(5) of_nat_u32_zero[OF small(4)] unat_of_nat_u32[OF small(3)] unat_of_nat_u32[OF small(4)]
      unat_of_nat_u32[OF small(1)]
    by (simp add: check_table_def Let_def kinds1_def)
  ultimately show ?case by (auto simp: kinds1_def add.assoc)
qed

lemma tables_of_sorted:
  assumes "off + length (contents tabs) < 2 ^ 32"
  shows "sorted (map (\<lambda>t. unat (tbl_offset t)) (tables_of off tabs)) \<and>
    (\<forall>t \<in> set (tables_of off tabs). off \<le> unat (tbl_offset t))"
  using assms
proof (induction off tabs rule: tables_of.induct)
  case (1 off)
  then show ?case by simp
next
  case (2 off kind bs tabs)
  have off: "unat (of_nat off :: u32) = off" using 2(2) by (intro unat_of_nat_u32) simp
  have IH: "sorted (map (\<lambda>t. unat (tbl_offset t)) (tables_of (off + length bs) tabs)) \<and>
      (\<forall>t \<in> set (tables_of (off + length bs) tabs). off + length bs \<le> unat (tbl_offset t))"
    using 2(2) by (intro 2(1)) (simp add: add.assoc)
  then show ?case by (auto simp: off)
qed

lemma check_tables_written:
  assumes "length (contents tabs) < 2 ^ 32" "length (contents tabs) \<le> n" "distinct (map fst tabs)"
  shows "check_tables (tables_of 0 tabs) n = Ok (tables_of 0 tabs, of_nat (length (contents tabs)))"
proof -
  have "sort_key (\<lambda>t. unat (tbl_offset t)) (tables_of 0 tabs) = tables_of 0 tabs"
    using tables_of_sorted[of 0 tabs] assms(1) by (simp add: sort_key_id_if_sorted)
  moreover obtain kinds where "for_each (check_table n) (tables_of 0 tabs) (0, {})
      = Ok (of_nat (length (contents tabs)), kinds)"
    using check_written_tables[of 0 tabs n "{}"] assms by auto
  ultimately show ?thesis by (simp add: check_tables_def)
qed

section \<open>Loading the tables\<close>

text \<open>
  A list of tables, each with its bytes and with the update that loading it makes to what is
  built; the update of an empty table changes nothing.
\<close>

lemma build_written_tables:
  assumes "\<And>kind bs upd t s. (kind, bs, upd) \<in> set tabs \<Longrightarrow> tbl_kind t = kind \<Longrightarrow>
      table_bytes binary t = Ok bs \<Longrightarrow> build t s = Ok (upd s)"
    and "\<And>kind upd s. (kind, [], upd) \<in> set tabs \<Longrightarrow> upd s = s"
    and "drop off (vb_binary binary) = concat (map (\<lambda>(_, bs, _). bs) tabs)"
    and "off \<le> length (vb_binary binary)" "length (vb_binary binary) < 2 ^ 32"
  shows "for_each build (tables_of off (map (\<lambda>(kind, bs, _). (kind, bs)) tabs)) s
    = (Ok (fold (\<lambda>(_, _, upd). upd) tabs s) :: 's vm_result)"
  using assms
proof (induction tabs arbitrary: off s)
  case Nil
  then show ?case by simp
next
  case (Cons tab tabs)
  obtain kind bs upd where tab: "tab = (kind, bs, upd)" by (cases tab)
  have bytes: "drop off (vb_binary binary) = bs @ concat (map (\<lambda>(_, bs, _). bs) tabs)"
    using Cons.prems(3) by (simp add: tab)
  have len: "off + length bs \<le> length (vb_binary binary)"
    using arg_cong[OF bytes, of length] Cons.prems(4) by simp
  have IH: "for_each build (tables_of (off + length bs) (map (\<lambda>(kind, bs, _). (kind, bs)) tabs)) s
      = (Ok (fold (\<lambda>(_, _, upd). upd) tabs s) :: 's vm_result)" for s
  proof (rule Cons.IH)
    show "drop (off + length bs) (vb_binary binary) = concat (map (\<lambda>(_, bs, _). bs) tabs)"
      using arg_cong[OF bytes, of "drop (length bs)"] by (simp add: add.commute)
    show "build t s = Ok (upd' s)"
      if "(kind', bs', upd') \<in> set tabs" "tbl_kind t = kind'" "table_bytes binary t = Ok bs'"
      for kind' bs' upd' t s
      by (rule Cons.prems(1)[OF _ that(2,3)]) (simp add: that(1))
    show "upd' s = s" if "(kind', [], upd') \<in> set tabs" for kind' upd' s
      by (rule Cons.prems(2)[of kind']) (use that in simp)
  qed (use Cons.prems(5) len in simp_all)
  show ?case
  proof (cases "bs = []")
    case True
    then show ?thesis using IH[of s] Cons.prems(2)[of kind upd s] by (simp add: tab)
  next
    case False
    define t where "t = \<lparr>tbl_kind = kind, tbl_offset = of_nat off, tbl_count = of_nat (length bs)\<rparr>"
    have "unat (of_nat off :: u32) = off" "unat (of_nat (length bs) :: u32) = length bs"
      using len Cons.prems(5) by (simp_all add: unat_of_nat_u32)
    then have "table_bytes binary t = Ok bs"
      using len bytes by (simp add: t_def table_bytes_def binary_slice_def)
    then have "build t s = Ok (upd s)" by (intro Cons.prems(1)) (simp_all add: tab t_def)
    then show ?thesis using IH[of "upd s"] False by (simp add: tab t_def)
  qed
qed

section \<open>Writing the tables\<close>

text \<open>
  What each table contributes: its bytes, which are loaded as its entries, its extent, and one more
  table when it is not empty.
\<close>

definition extent_of :: "nat \<Rightarrow> u8 list \<Rightarrow> table_range \<Rightarrow> table_range" where
  "extent_of off bs old = (if bs = [] then old else (of_nat off, of_nat (length bs)))"

definition one_more :: "u8 list \<Rightarrow> u8" where
  "one_more bs = (if bs = [] then 0 else 1)"

lemma module_handles_written:
  assumes "serialize_module_handles xs (st, b) = Ok (st', b')"
  obtains bs where "b' = b @ bs" "bs = [] \<longleftrightarrow> xs = []" "table_loads load_module_handles bs xs"
    "st' = st\<lparr>cser_table_count := cser_table_count st + one_more bs,
       cser_module_handles := extent_of (length b) bs (cser_module_handles st)\<rparr>"
  using assms unfolding serialize_module_handles_def prod.case load_module_handles_def
  by (elim mh.less.table_written[rotated, where upd = "\<lambda>extent. st\<lparr>cser_table_count := cser_table_count st + 1, cser_module_handles := extent\<rparr>"])
     (auto simp: extent_of_def one_more_def list.pred_True intro: that)

lemma struct_handles_written:
  assumes "list_all struct_handle_wf xs" "serialize_struct_handles xs (st, b) = Ok (st', b')"
  obtains bs where "b' = b @ bs" "bs = [] \<longleftrightarrow> xs = []" "table_loads load_struct_handles bs xs"
    "st' = st\<lparr>cser_table_count := cser_table_count st + one_more bs,
       cser_struct_handles := extent_of (length b) bs (cser_struct_handles st)\<rparr>"
  using assms unfolding serialize_struct_handles_def prod.case load_struct_handles_def
  by (elim sh.less.table_written[rotated, where upd = "\<lambda>extent. st\<lparr>cser_table_count := cser_table_count st + 1, cser_struct_handles := extent\<rparr>"])
     (auto simp: extent_of_def one_more_def list.pred_True intro: that)

lemma function_handles_written:
  assumes "list_all function_handle_wf xs" "serialize_function_handles xs (st, b) = Ok (st', b')"
  obtains bs where "b' = b @ bs" "bs = [] \<longleftrightarrow> xs = []" "table_loads load_function_handles bs xs"
    "st' = st\<lparr>cser_table_count := cser_table_count st + one_more bs,
       cser_function_handles := extent_of (length b) bs (cser_function_handles st)\<rparr>"
  using assms unfolding serialize_function_handles_def prod.case load_function_handles_def
  by (elim fh.less.table_written[rotated, where upd = "\<lambda>extent. st\<lparr>cser_table_count := cser_table_count st + 1, cser_function_handles := extent\<rparr>"])
     (auto simp: extent_of_def one_more_def list.pred_True intro: that)

lemma function_instantiations_written:
  assumes "serialize_function_instantiations xs (st, b) = Ok (st', b')"
  obtains bs where "b' = b @ bs" "bs = [] \<longleftrightarrow> xs = []" "table_loads load_function_instantiations bs xs"
    "st' = st\<lparr>cser_table_count := cser_table_count st + one_more bs,
       cser_function_instantiations := extent_of (length b) bs (cser_function_instantiations st)\<rparr>"
  using assms unfolding serialize_function_instantiations_def prod.case load_function_instantiations_def
  by (elim fi.less.table_written[rotated, where upd = "\<lambda>extent. st\<lparr>cser_table_count := cser_table_count st + 1, cser_function_instantiations := extent\<rparr>"])
     (auto simp: extent_of_def one_more_def list.pred_True intro: that)

lemma signatures_written:
  assumes "list_all (list_all token_wf) xs" "serialize_signatures xs (st, b) = Ok (st', b')"
  obtains bs where "b' = b @ bs" "bs = [] \<longleftrightarrow> xs = []" "table_loads load_signatures bs xs"
    "st' = st\<lparr>cser_table_count := cser_table_count st + one_more bs,
       cser_signatures := extent_of (length b) bs (cser_signatures st)\<rparr>"
  using assms unfolding serialize_signatures_def prod.case load_signatures_def
  by (elim sig.less.table_written[rotated, where upd = "\<lambda>extent. st\<lparr>cser_table_count := cser_table_count st + 1, cser_signatures := extent\<rparr>"])
     (auto simp: extent_of_def one_more_def list.pred_True intro: that)

lemma identifiers_written:
  assumes "list_all identifier_wf xs" "serialize_identifiers xs (st, b) = Ok (st', b')"
  obtains bs where "b' = b @ bs" "bs = [] \<longleftrightarrow> xs = []" "table_loads load_identifiers bs xs"
    "st' = st\<lparr>cser_table_count := cser_table_count st + one_more bs,
       cser_identifiers := extent_of (length b) bs (cser_identifiers st)\<rparr>"
  using assms unfolding serialize_identifiers_def prod.case load_identifiers_def
  by (elim ident.less.table_written[rotated, where upd = "\<lambda>extent. st\<lparr>cser_table_count := cser_table_count st + 1, cser_identifiers := extent\<rparr>"])
     (auto simp: extent_of_def one_more_def list.pred_True intro: that)

lemma address_identifiers_written:
  assumes "list_all address_wf xs" "serialize_address_identifiers xs (st, b) = Ok (st', b')"
  obtains bs where "b' = b @ bs" "bs = [] \<longleftrightarrow> xs = []" "table_loads load_address_identifiers bs xs"
    "st' = st\<lparr>cser_table_count := cser_table_count st + one_more bs,
       cser_address_identifiers := extent_of (length b) bs (cser_address_identifiers st)\<rparr>"
  using assms unfolding serialize_address_identifiers_def prod.case
  by (elim addr.table_written[rotated, where upd = "\<lambda>extent. st\<lparr>cser_table_count := cser_table_count st + 1, cser_address_identifiers := extent\<rparr>"])
     (auto simp: extent_of_def one_more_def list.pred_True intro: that)

lemma constants_written:
  assumes "list_all constant_wf xs" "serialize_constants xs (st, b) = Ok (st', b')"
  obtains bs where "b' = b @ bs" "bs = [] \<longleftrightarrow> xs = []" "table_loads load_constant_pool bs xs"
    "st' = st\<lparr>cser_table_count := cser_table_count st + one_more bs,
       cser_constant_pool := extent_of (length b) bs (cser_constant_pool st)\<rparr>"
  using assms unfolding serialize_constants_def prod.case load_constant_pool_def
  by (elim k.less.table_written[rotated, where upd = "\<lambda>extent. st\<lparr>cser_table_count := cser_table_count st + 1, cser_constant_pool := extent\<rparr>"])
     (auto simp: extent_of_def one_more_def list.pred_True intro: that)

lemma struct_definitions_written:
  assumes "list_all struct_definition_wf xs" "serialize_struct_definitions xs (st, b) = Ok (st', b')"
  obtains bs where "b' = b @ bs" "bs = [] \<longleftrightarrow> xs = []" "table_loads load_struct_defs bs xs"
    "st' = st\<lparr>mser_common := (mser_common st)\<lparr>cser_table_count := cser_table_count (mser_common st) + one_more bs\<rparr>,
       mser_struct_defs := extent_of (length b) bs (mser_struct_defs st)\<rparr>"
  using assms unfolding serialize_struct_definitions_def prod.case load_struct_defs_def
  by (elim sd.less.table_written[rotated, where upd = "\<lambda>extent. (count_table st)\<lparr>mser_struct_defs := extent\<rparr>"])
     (auto simp: extent_of_def one_more_def count_table_def list.pred_True intro: that)

lemma struct_def_instantiations_written:
  assumes "serialize_struct_def_instantiations xs (st, b) = Ok (st', b')"
  obtains bs where "b' = b @ bs" "bs = [] \<longleftrightarrow> xs = []" "table_loads load_struct_instantiations bs xs"
    "st' = st\<lparr>mser_common := (mser_common st)\<lparr>cser_table_count := cser_table_count (mser_common st) + one_more bs\<rparr>,
       mser_struct_def_instantiations := extent_of (length b) bs (mser_struct_def_instantiations st)\<rparr>"
  using assms unfolding serialize_struct_def_instantiations_def prod.case load_struct_instantiations_def
  by (elim sdi.less.table_written[rotated, where upd = "\<lambda>extent. (count_table st)\<lparr>mser_struct_def_instantiations := extent\<rparr>"])
     (auto simp: extent_of_def one_more_def count_table_def list.pred_True intro: that)

lemma function_definitions_written:
  assumes "serialize_function_definitions xs (st, b) = Ok (st', b')"
  obtains bs where "b' = b @ bs" "bs = [] \<longleftrightarrow> xs = []" "table_loads load_function_defs bs xs"
    "st' = st\<lparr>mser_common := (mser_common st)\<lparr>cser_table_count := cser_table_count (mser_common st) + one_more bs\<rparr>,
       mser_function_defs := extent_of (length b) bs (mser_function_defs st)\<rparr>"
  using assms unfolding serialize_function_definitions_def prod.case load_function_defs_def
  by (elim fd.less.table_written[rotated, where upd = "\<lambda>extent. (count_table st)\<lparr>mser_function_defs := extent\<rparr>"])
     (auto simp: extent_of_def one_more_def count_table_def list.pred_True intro: that)

lemma field_handles_written:
  assumes "serialize_field_handles xs (st, b) = Ok (st', b')"
  obtains bs where "b' = b @ bs" "bs = [] \<longleftrightarrow> xs = []" "table_loads load_field_handles bs xs"
    "st' = st\<lparr>mser_common := (mser_common st)\<lparr>cser_table_count := cser_table_count (mser_common st) + one_more bs\<rparr>,
       mser_field_handles := extent_of (length b) bs (mser_field_handles st)\<rparr>"
  using assms unfolding serialize_field_handles_def prod.case load_field_handles_def
  by (elim fdh.until.table_written[rotated, where upd = "\<lambda>extent. (count_table st)\<lparr>mser_field_handles := extent\<rparr>"])
     (auto simp: extent_of_def one_more_def count_table_def list.pred_True intro: that)

lemma field_instantiations_written:
  assumes "serialize_field_instantiations xs (st, b) = Ok (st', b')"
  obtains bs where "b' = b @ bs" "bs = [] \<longleftrightarrow> xs = []" "table_loads load_field_instantiations bs xs"
    "st' = st\<lparr>mser_common := (mser_common st)\<lparr>cser_table_count := cser_table_count (mser_common st) + one_more bs\<rparr>,
       mser_field_instantiations := extent_of (length b) bs (mser_field_instantiations st)\<rparr>"
  using assms unfolding serialize_field_instantiations_def prod.case load_field_instantiations_def
  by (elim fdi.until.table_written[rotated, where upd = "\<lambda>extent. (count_table st)\<lparr>mser_field_instantiations := extent\<rparr>"])
     (auto simp: extent_of_def one_more_def count_table_def list.pred_True intro: that)

lemma friend_declarations_written:
  assumes "serialize_friend_declarations xs (st, b) = Ok (st', b')"
  obtains bs where "b' = b @ bs" "bs = [] \<longleftrightarrow> xs = []" "table_loads load_module_handles bs xs"
    "st' = st\<lparr>mser_common := (mser_common st)\<lparr>cser_table_count := cser_table_count (mser_common st) + one_more bs\<rparr>,
       mser_friend_decls := extent_of (length b) bs (mser_friend_decls st)\<rparr>"
  using assms unfolding serialize_friend_declarations_def prod.case load_module_handles_def
  by (elim mh.less.table_written[rotated, where upd = "\<lambda>extent. (count_table st)\<lparr>mser_friend_decls := extent\<rparr>"])
     (auto simp: extent_of_def one_more_def count_table_def list.pred_True intro: that)

text \<open>The bytes of a table, and of the tables of a module or script.\<close>

definition table_bytes_of ::
  "(versioned_binary \<Rightarrow> table \<Rightarrow> 'a list \<Rightarrow> 'a list vm_result) \<Rightarrow> u8 list \<Rightarrow> 'a list \<Rightarrow> bool" where
  "table_bytes_of load bs xs \<longleftrightarrow> (bs = [] \<longleftrightarrow> xs = []) \<and> table_loads load bs xs"

definition common_bytes :: "common_tables \<Rightarrow> u8 list list \<Rightarrow> bool" where
  "common_bytes common bss \<longleftrightarrow>
     (\<exists>b1 b2 b3 b4 b5 b6 b7 b8. bss = [b1, b2, b3, b4, b5, b6, b7, b8] \<and>
        table_bytes_of load_module_handles b1 (ct_module_handles common) \<and>
        table_bytes_of load_struct_handles b2 (ct_struct_handles common) \<and>
        table_bytes_of load_function_handles b3 (ct_function_handles common) \<and>
        table_bytes_of load_function_instantiations b4 (ct_function_instantiations common) \<and>
        table_bytes_of load_signatures b5 (ct_signatures common) \<and>
        table_bytes_of load_identifiers b6 (ct_identifiers common) \<and>
        table_bytes_of load_address_identifiers b7 (ct_address_identifiers common) \<and>
        table_bytes_of load_constant_pool b8 (ct_constant_pool common))"

definition module_bytes :: "compiled_module \<Rightarrow> u8 list list \<Rightarrow> bool" where
  "module_bytes m bss \<longleftrightarrow>
     (\<exists>b1 b2 b3 b4 b5 b6. bss = [b1, b2, b3, b4, b5, b6] \<and>
        table_bytes_of load_struct_defs b1 (cm_struct_defs m) \<and>
        table_bytes_of load_struct_instantiations b2 (cm_struct_def_instantiations m) \<and>
        table_bytes_of load_function_defs b3 (cm_function_defs m) \<and>
        table_bytes_of load_field_handles b4 (cm_field_handles m) \<and>
        table_bytes_of load_field_instantiations b5 (cm_field_instantiations m) \<and>
        table_bytes_of load_module_handles b6 (cm_friend_decls m))"

definition common_extents :: "common_serializer \<Rightarrow> table_range list" where
  "common_extents ser =
     [cser_module_handles ser, cser_struct_handles ser, cser_function_handles ser, cser_function_instantiations ser, cser_signatures ser, cser_identifiers ser, cser_address_identifiers ser, cser_constant_pool ser]"

definition module_extents :: "module_serializer \<Rightarrow> table_range list" where
  "module_extents ser =
     [mser_struct_defs ser, mser_struct_def_instantiations ser, mser_function_defs ser, mser_field_handles ser, mser_field_instantiations ser, mser_friend_decls ser]"

lemma layout_append: "layout off (bss @ bss') = layout off bss @ layout (off + length (concat bss)) bss'"
  by (induction off bss rule: layout.induct) (simp_all add: add.assoc)

lemma count_tables:
  "(of_nat (length (filter (\<lambda>bs. bs \<noteq> []) bss)) :: u8) = sum_list (map one_more bss)"
  by (induction bss) (simp_all add: one_more_def)

lemma common_tables_written:
  assumes wf: "common_wf common"
    and ser: "serialize_common_tables common (common_serializer_new v, []) = Ok (ser, b)"
  obtains bss where "common_bytes common bss" "b = concat bss" "common_extents ser = layout 0 bss"
    "cser_table_count ser = of_nat (length (filter (\<lambda>bs. bs \<noteq> []) bss))" "cser_major_version ser = v"
proof -
  obtain st1 st2 st3 st4 st5 st6 st7 where raw:
      "serialize_module_handles (ct_module_handles common) (common_serializer_new v, []) = Ok st1"
      "serialize_struct_handles (ct_struct_handles common) st1 = Ok st2"
      "serialize_function_handles (ct_function_handles common) st2 = Ok st3"
      "serialize_function_instantiations (ct_function_instantiations common) st3 = Ok st4"
      "serialize_signatures (ct_signatures common) st4 = Ok st5"
      "serialize_identifiers (ct_identifiers common) st5 = Ok st6"
      "serialize_address_identifiers (ct_address_identifiers common) st6 = Ok st7"
      "serialize_constants (ct_constant_pool common) st7 = Ok (ser, b)"
    using ser unfolding serialize_common_tables_def rbind_eq_Ok by (elim exE conjE) (rule that)
  obtain s1 c1 s2 c2 s3 c3 s4 c4 s5 c5 s6 c6 s7 c7 where pairs: "st1 = (s1, c1)" "st2 = (s2, c2)" "st3 = (s3, c3)" "st4 = (s4, c4)" "st5 = (s5, c5)" "st6 = (s6, c6)" "st7 = (s7, c7)"
    by (cases st1, cases st2, cases st3, cases st4, cases st5, cases st6, cases st7) (rule that)
  note steps = raw[unfolded pairs]
  note wfs = wf[unfolded common_wf_def]
  obtain b1 where b1: "c1 = [] @ b1" "b1 = [] \<longleftrightarrow> ct_module_handles common = []"
      "table_loads load_module_handles b1 (ct_module_handles common)"
      "s1 = (common_serializer_new v)\<lparr>cser_table_count := cser_table_count (common_serializer_new v) + one_more b1,
        cser_module_handles := extent_of (length ([] :: u8 list)) b1 (cser_module_handles (common_serializer_new v))\<rparr>"
    using module_handles_written[OF steps(1)] by blast
  obtain b2 where b2: "c2 = c1 @ b2" "b2 = [] \<longleftrightarrow> ct_struct_handles common = []"
      "table_loads load_struct_handles b2 (ct_struct_handles common)"
      "s2 = s1\<lparr>cser_table_count := cser_table_count s1 + one_more b2,
        cser_struct_handles := extent_of (length c1) b2 (cser_struct_handles s1)\<rparr>"
    using struct_handles_written[OF _ steps(2)] wfs by blast
  obtain b3 where b3: "c3 = c2 @ b3" "b3 = [] \<longleftrightarrow> ct_function_handles common = []"
      "table_loads load_function_handles b3 (ct_function_handles common)"
      "s3 = s2\<lparr>cser_table_count := cser_table_count s2 + one_more b3,
        cser_function_handles := extent_of (length c2) b3 (cser_function_handles s2)\<rparr>"
    using function_handles_written[OF _ steps(3)] wfs by blast
  obtain b4 where b4: "c4 = c3 @ b4" "b4 = [] \<longleftrightarrow> ct_function_instantiations common = []"
      "table_loads load_function_instantiations b4 (ct_function_instantiations common)"
      "s4 = s3\<lparr>cser_table_count := cser_table_count s3 + one_more b4,
        cser_function_instantiations := extent_of (length c3) b4 (cser_function_instantiations s3)\<rparr>"
    using function_instantiations_written[OF steps(4)] by blast
  obtain b5 where b5: "c5 = c4 @ b5" "b5 = [] \<longleftrightarrow> ct_signatures common = []"
      "table_loads load_signatures b5 (ct_signatures common)"
      "s5 = s4\<lparr>cser_table_count := cser_table_count s4 + one_more b5,
        cser_signatures := extent_of (length c4) b5 (cser_signatures s4)\<rparr>"
    using signatures_written[OF _ steps(5)] wfs by blast
  obtain b6 where b6: "c6 = c5 @ b6" "b6 = [] \<longleftrightarrow> ct_identifiers common = []"
      "table_loads load_identifiers b6 (ct_identifiers common)"
      "s6 = s5\<lparr>cser_table_count := cser_table_count s5 + one_more b6,
        cser_identifiers := extent_of (length c5) b6 (cser_identifiers s5)\<rparr>"
    using identifiers_written[OF _ steps(6)] wfs by blast
  obtain b7 where b7: "c7 = c6 @ b7" "b7 = [] \<longleftrightarrow> ct_address_identifiers common = []"
      "table_loads load_address_identifiers b7 (ct_address_identifiers common)"
      "s7 = s6\<lparr>cser_table_count := cser_table_count s6 + one_more b7,
        cser_address_identifiers := extent_of (length c6) b7 (cser_address_identifiers s6)\<rparr>"
    using address_identifiers_written[OF _ steps(7)] wfs by blast
  obtain b8 where b8: "b = c7 @ b8" "b8 = [] \<longleftrightarrow> ct_constant_pool common = []"
      "table_loads load_constant_pool b8 (ct_constant_pool common)"
      "ser = s7\<lparr>cser_table_count := cser_table_count s7 + one_more b8,
        cser_constant_pool := extent_of (length c7) b8 (cser_constant_pool s7)\<rparr>"
    using constants_written[OF _ steps(8)] wfs by blast
  show ?thesis
  proof (rule that[of "[b1, b2, b3, b4, b5, b6, b7, b8]"])
    show "common_bytes common [b1, b2, b3, b4, b5, b6, b7, b8]"
      unfolding common_bytes_def table_bytes_of_def
      using b1(2,3) b2(2,3) b3(2,3) b4(2,3) b5(2,3) b6(2,3) b7(2,3) b8(2,3) by simp
    show "b = concat [b1, b2, b3, b4, b5, b6, b7, b8]" by (simp add: b1(1) b2(1) b3(1) b4(1) b5(1) b6(1) b7(1) b8(1))
    show "common_extents ser = layout 0 [b1, b2, b3, b4, b5, b6, b7, b8]"
      by (simp add: b1(1,4) b2(1,4) b3(1,4) b4(1,4) b5(1,4) b6(1,4) b7(1,4) b8(1,4) common_extents_def extent_of_def common_serializer_new_def
          add.assoc)
    show "cser_table_count ser = of_nat (length (filter (\<lambda>bs. bs \<noteq> []) [b1, b2, b3, b4, b5, b6, b7, b8]))"
      by (simp add: b1(4) b2(4) b3(4) b4(4) b5(4) b6(4) b7(4) b8(4) common_serializer_new_def count_tables
          add.assoc del: filter.simps)
    show "cser_major_version ser = v"
      by (simp add: b1(4) b2(4) b3(4) b4(4) b5(4) b6(4) b7(4) b8(4) common_serializer_new_def)
  qed
qed


lemma module_tables_written:
  assumes wf: "module_wf m"
    and ser: "serialize_tables m (module_serializer_new v, []) = Ok (ser, b)"
  obtains bss bss' where "common_bytes (module_common_tables m) bss" "module_bytes m bss'"
    "b = concat (bss @ bss')" "common_extents (mser_common ser) @ module_extents ser = layout 0 (bss @ bss')"
    "cser_table_count (mser_common ser) = of_nat (length (filter (\<lambda>bs. bs \<noteq> []) (bss @ bss')))"
    "cser_major_version (mser_common ser) = v"
proof -
  define s0 where "s0 = (\<lambda>common. (module_serializer_new v)\<lparr>mser_common := common\<rparr>)"
  obtain common c0 where common: "serialize_common_tables (module_common_tables m) (common_serializer_new v, []) = Ok (common, c0)"
      and rest: "rbind (serialize_struct_definitions (cm_struct_defs m) (s0 common, c0)) (\<lambda>st.
        rbind (serialize_struct_def_instantiations (cm_struct_def_instantiations m) st) (\<lambda>st.
        rbind (serialize_function_definitions (cm_function_defs m) st) (\<lambda>st.
        rbind (serialize_field_handles (cm_field_handles m) st) (\<lambda>st.
        rbind (serialize_field_instantiations (cm_field_instantiations m) st)
          (serialize_friend_declarations (cm_friend_decls m)))))) = Ok (ser, b)"
  proof (cases "serialize_common_tables (module_common_tables m) (common_serializer_new v, [])")
    case (Ok res)
    then show ?thesis
      using ser by (cases res) (simp add: that serialize_tables_def s0_def module_serializer_new_def)
  qed (use ser in \<open>simp_all add: serialize_tables_def module_serializer_new_def\<close>)
  obtain bss where bss: "common_bytes (module_common_tables m) bss" "c0 = concat bss"
      "common_extents common = layout 0 bss"
      "cser_table_count common = of_nat (length (filter (\<lambda>bs. bs \<noteq> []) bss))" "cser_major_version common = v"
    using wf common by (elim common_tables_written[rotated]) (simp_all add: module_wf_def)
  obtain st1 st2 st3 st4 st5 where raw:
      "serialize_struct_definitions (cm_struct_defs m) (s0 common, c0) = Ok st1"
      "serialize_struct_def_instantiations (cm_struct_def_instantiations m) st1 = Ok st2"
      "serialize_function_definitions (cm_function_defs m) st2 = Ok st3"
      "serialize_field_handles (cm_field_handles m) st3 = Ok st4"
      "serialize_field_instantiations (cm_field_instantiations m) st4 = Ok st5"
      "serialize_friend_declarations (cm_friend_decls m) st5 = Ok (ser, b)"
    using rest unfolding rbind_eq_Ok by (elim exE conjE) (rule that)
  obtain s1 c1 s2 c2 s3 c3 s4 c4 s5 c5 where pairs: "st1 = (s1, c1)" "st2 = (s2, c2)" "st3 = (s3, c3)" "st4 = (s4, c4)" "st5 = (s5, c5)"
    by (cases st1, cases st2, cases st3, cases st4, cases st5) (rule that)
  note steps = raw[unfolded pairs]
  note sd_wf = wf[unfolded module_wf_def, THEN conjunct2]
  obtain b1 where b1: "c1 = c0 @ b1" "b1 = [] \<longleftrightarrow> cm_struct_defs m = []"
      "table_loads load_struct_defs b1 (cm_struct_defs m)"
      "s1 = (s0 common)\<lparr>mser_common := (mser_common (s0 common))
          \<lparr>cser_table_count := cser_table_count (mser_common (s0 common)) + one_more b1\<rparr>,
        mser_struct_defs := extent_of (length c0) b1 (mser_struct_defs (s0 common))\<rparr>"
    using struct_definitions_written[OF sd_wf steps(1)] by blast
  obtain b2 where b2: "c2 = c1 @ b2" "b2 = [] \<longleftrightarrow> cm_struct_def_instantiations m = []"
      "table_loads load_struct_instantiations b2 (cm_struct_def_instantiations m)"
      "s2 = s1\<lparr>mser_common := (mser_common s1)
          \<lparr>cser_table_count := cser_table_count (mser_common s1) + one_more b2\<rparr>,
        mser_struct_def_instantiations := extent_of (length c1) b2 (mser_struct_def_instantiations s1)\<rparr>"
    using struct_def_instantiations_written[OF steps(2)] by blast
  obtain b3 where b3: "c3 = c2 @ b3" "b3 = [] \<longleftrightarrow> cm_function_defs m = []"
      "table_loads load_function_defs b3 (cm_function_defs m)"
      "s3 = s2\<lparr>mser_common := (mser_common s2)
          \<lparr>cser_table_count := cser_table_count (mser_common s2) + one_more b3\<rparr>,
        mser_function_defs := extent_of (length c2) b3 (mser_function_defs s2)\<rparr>"
    using function_definitions_written[OF steps(3)] by blast
  obtain b4 where b4: "c4 = c3 @ b4" "b4 = [] \<longleftrightarrow> cm_field_handles m = []"
      "table_loads load_field_handles b4 (cm_field_handles m)"
      "s4 = s3\<lparr>mser_common := (mser_common s3)
          \<lparr>cser_table_count := cser_table_count (mser_common s3) + one_more b4\<rparr>,
        mser_field_handles := extent_of (length c3) b4 (mser_field_handles s3)\<rparr>"
    using field_handles_written[OF steps(4)] by blast
  obtain b5 where b5: "c5 = c4 @ b5" "b5 = [] \<longleftrightarrow> cm_field_instantiations m = []"
      "table_loads load_field_instantiations b5 (cm_field_instantiations m)"
      "s5 = s4\<lparr>mser_common := (mser_common s4)
          \<lparr>cser_table_count := cser_table_count (mser_common s4) + one_more b5\<rparr>,
        mser_field_instantiations := extent_of (length c4) b5 (mser_field_instantiations s4)\<rparr>"
    using field_instantiations_written[OF steps(5)] by blast
  obtain b6 where b6: "b = c5 @ b6" "b6 = [] \<longleftrightarrow> cm_friend_decls m = []"
      "table_loads load_module_handles b6 (cm_friend_decls m)"
      "ser = s5\<lparr>mser_common := (mser_common s5)
          \<lparr>cser_table_count := cser_table_count (mser_common s5) + one_more b6\<rparr>,
        mser_friend_decls := extent_of (length c5) b6 (mser_friend_decls s5)\<rparr>"
    using friend_declarations_written[OF steps(6)] by blast
  show ?thesis
  proof (rule that[of bss "[b1, b2, b3, b4, b5, b6]"])
    show "common_bytes (module_common_tables m) bss" by (rule bss(1))
    show "module_bytes m [b1, b2, b3, b4, b5, b6]"
      unfolding module_bytes_def table_bytes_of_def using b1(2,3) b2(2,3) b3(2,3) b4(2,3) b5(2,3) b6(2,3) by simp
    show "b = concat (bss @ [b1, b2, b3, b4, b5, b6])" by (simp add: b1(1) b2(1) b3(1) b4(1) b5(1) b6(1) bss(2))
    have common_ser: "mser_common ser = common\<lparr>cser_table_count := cser_table_count common + sum_list (map one_more [b1, b2, b3, b4, b5, b6])\<rparr>"
      by (simp add: b1(4) b2(4) b3(4) b4(4) b5(4) b6(4) s0_def module_serializer_new_def add.assoc)
    have "module_extents ser = layout (length c0) [b1, b2, b3, b4, b5, b6]"
      by (simp add: b1(1,4) b2(1,4) b3(1,4) b4(1,4) b5(1,4) b6(1,4) module_extents_def extent_of_def s0_def module_serializer_new_def add.assoc)
    moreover have "common_extents (mser_common ser) = common_extents common"
      by (simp add: common_ser common_extents_def)
    ultimately show "common_extents (mser_common ser) @ module_extents ser = layout 0 (bss @ [b1, b2, b3, b4, b5, b6])"
      by (simp only: bss(2,3) layout_append) simp
    show "cser_table_count (mser_common ser) = of_nat (length (filter (\<lambda>bs. bs \<noteq> []) (bss @ [b1, b2, b3, b4, b5, b6])))"
      unfolding count_tables common_ser using bss(4)[unfolded count_tables] by simp
    show "cser_major_version (mser_common ser) = v" by (simp add: common_ser bss(5))
  qed
qed

end
