(* ===== verification/Module_Round_Trip.thy ===== *)
theory Module_Round_Trip
  imports Binary_Round_Trip
begin

text \<open>
  The round trips of whole modules and scripts: the header, the table of contents, the tables and
  what follows them.
\<close>

section \<open>The header and the table of contents\<close>

definition common_kinds :: "table_type list" where
  "common_kinds = [MODULE_HANDLES, STRUCT_HANDLES, FUNCTION_HANDLES, FUNCTION_INST, SIGNATURES,
     IDENTIFIERS, ADDRESS_IDENTIFIERS, CONSTANT_POOL]"

definition module_kinds :: "table_type list" where
  "module_kinds = [STRUCT_DEFS, STRUCT_DEF_INST, FUNCTION_DEFS, FIELD_HANDLE, FIELD_INST, FRIEND_DECLS]"

lemma serialize_header_Ok:
  assumes "serialize_header ser [] = Ok b"
  shows "b = DIEM_MAGIC @ to_le_bytes 4 (cser_major_version ser)"
  using assms unfolding serialize_header_def serialize_magic_def for_each_push write_u32_def binary_extend_def
  by (auto simp: ok_iff split: if_split_asm)

lemma serialize_header_not_Panic: "serialize_header ser b \<noteq> Panic"
  by (auto simp: serialize_header_def serialize_magic_def for_each_push write_u32_def binary_extend_def no_panic)

lemma for_each_steps:
  "for_each f (x # xs) = (\<lambda>s. rbind (f x s) (for_each f xs))" "for_each f [] = Ok" "rbind r Ok = r"
  by (simp_all add: fun_eq_iff) (cases r; simp)

lemma serialize_table_indices_each:
  "serialize_table_indices ser b =
     rbind (serialize_table_count (cser_table_count ser) b)
       (for_each (\<lambda>(kind, extent). serialize_table_index kind extent) (zip common_kinds (common_extents ser)))"
  by (simp add: serialize_table_indices_def common_kinds_def common_extents_def for_each_steps
      del: for_each.simps)

lemma serialize_module_table_indices_each:
  "serialize_module_table_indices ser b =
     rbind (serialize_table_count (cser_table_count (mser_common ser)) b)
       (for_each (\<lambda>(kind, extent). serialize_table_index kind extent)
         (zip (common_kinds @ module_kinds) (common_extents (mser_common ser) @ module_extents ser)))"
proof -
  have zip: "zip (common_kinds @ module_kinds) (common_extents (mser_common ser) @ module_extents ser)
      = zip common_kinds (common_extents (mser_common ser)) @ zip module_kinds (module_extents ser)"
    by (rule zip_append) (simp add: common_kinds_def common_extents_def)
  have "serialize_module_table_indices ser b
      = rbind (serialize_table_indices (mser_common ser) b)
          (for_each (\<lambda>(kind, extent). serialize_table_index kind extent) (zip module_kinds (module_extents ser)))"
    by (simp add: serialize_module_table_indices_def module_kinds_def module_extents_def for_each_steps
        del: for_each.simps)
  then show ?thesis
    unfolding zip serialize_table_indices_each by (simp add: rbind_assoc for_each_append[abs_def])
qed

lemma versioned_cursor_new_written:
  "versioned_cursor_new (DIEM_MAGIC @ to_le_bytes 4 VERSION_MAX @ rest)
     = Ok \<lparr>vc_version = VERSION_MAX, vc_position = 8, vc_rest = rest\<rparr>"
proof -
  have "from_le_bytes (to_le_bytes 4 VERSION_MAX) = VERSION_MAX"
    by (simp add: from_to_le_bytes take_bit_word_eq_self)
  then show ?thesis
    by (simp add: versioned_cursor_new_def versioned_binary_new_def cursor_read_def DIEM_MAGIC_def
        read_u32_def read_exact_def advance_def del: to_le_bytes.simps)
qed

lemma codes_contents:
  assumes "length (contents tabs) < 2 ^ 32" "length (tables_of 0 tabs) < 256"
  shows "codes (\<lambda>b. rbind (serialize_table_count (of_nat (length (tables_of 0 tabs))) b)
      (for_each write_table (tables_of 0 tabs)))
    (\<lambda>c. rbind (load_table_count c) (\<lambda>(n, c). read_tables n c)) (tables_of 0 tabs)"
proof (rule codes_bind[OF codes_uleb_word])
  have "unat (of_nat (length (tables_of 0 tabs)) :: u8) = length (tables_of 0 tabs)"
    using assms(2) by (simp add: unat_of_nat)
  then show "codes (for_each write_table (tables_of 0 tabs))
      (read_tables (of_nat (length (tables_of 0 tabs)))) (tables_of 0 tabs)"
    using codes_tables[of 0 tabs] assms(1) by (simp add: read_tables_def)
qed simp_all

lemma read_contents_written:
  assumes small: "length (contents tabs) < 2 ^ 32" "length (tables_of 0 tabs) < 256"
    and kinds: "distinct (map fst tabs)"
    and header: "rbind (serialize_table_count (of_nat (length (tables_of 0 tabs))) b)
      (for_each write_table (tables_of 0 tabs)) = Ok (b @ hs)"
    and bytes: "bytes = DIEM_MAGIC @ to_le_bytes 4 VERSION_MAX @ hs @ contents tabs @ rest"
  obtains c where
    "read_contents bytes =
       Ok ((tables_of 0 tabs, \<lparr>vb_version = VERSION_MAX, vb_binary = contents tabs\<rparr>), c)"
    "vc_version c = VERSION_MAX" "vc_rest c = rest"
proof -
  define c where "c = \<lparr>vc_version = VERSION_MAX, vc_position = 8, vc_rest = hs @ contents tabs @ rest\<rparr>"
  obtain bs where bs: "b @ hs = b @ bs"
      "\<And>c rest. vc_version c = VERSION_MAX \<Longrightarrow> vc_rest c = bs @ rest \<Longrightarrow>
         rbind (load_table_count c) (\<lambda>(n, c). read_tables n c)
           = Ok (tables_of 0 tabs, advance (length bs) c)"
    using codes_elim[OF codes_contents[OF small] header] by blast
  have "rbind (load_table_count c) (\<lambda>(n, c). read_tables n c) = Ok (tables_of 0 tabs, advance (length hs) c)"
    using bs(1) bs(2)[of c "contents tabs @ rest"] by (simp add: c_def)
  then obtain n c1 where n: "load_table_count c = Ok (n, c1)"
      "read_tables n c1 = Ok (tables_of 0 tabs, advance (length hs) c)"
    by (auto simp: ok_iff)
  have check: "check_tables (tables_of 0 tabs) (length bytes)
      = Ok (tables_of 0 tabs, of_nat (length (contents tabs)))"
    using small kinds by (intro check_tables_written) (simp_all add: bytes)
  have new: "read_new_binary (length (contents tabs)) (advance (length hs) c)
      = Ok (\<lparr>vb_version = VERSION_MAX, vb_binary = contents tabs\<rparr>,
          advance (length (contents tabs)) (advance (length hs) c))"
    by (simp add: read_new_binary_def read_exact_def c_def)
  show ?thesis
  proof (rule that)
    show "read_contents bytes =
        Ok ((tables_of 0 tabs, \<lparr>vb_version = VERSION_MAX, vb_binary = contents tabs\<rparr>),
          advance (length (contents tabs)) (advance (length hs) c))"
      using versioned_cursor_new_written[of "hs @ contents tabs @ rest"] n check new small(1)
      by (simp add: read_contents_def bytes c_def[symmetric] unat_of_nat_u32)
  qed (simp_all add: c_def)
qed

section \<open>Building from written tables\<close>

lemma table_bytes_of_load:
  "table_bytes_of load bs xs \<Longrightarrow> table_bytes \<lparr>vb_version = VERSION_MAX, vb_binary = bytes\<rparr> t = Ok bs \<Longrightarrow>
     load \<lparr>vb_version = VERSION_MAX, vb_binary = bytes\<rparr> t acc = Ok (acc @ xs)"
  by (simp add: table_bytes_of_def table_loads_def)

text \<open>The tables that both kinds of binaries share, followed by tables that only modules have.\<close>

lemma build_common_tables_written:
  assumes bytes: "common_bytes common bss"
    and len: "length bss' = length kinds"
    and kinds: "set kinds \<subseteq> set module_kinds"
    and small: "length (concat (bss @ bss')) < 2 ^ 32"
  shows "build_common_tables \<lparr>vb_version = VERSION_MAX, vb_binary = concat (bss @ bss')\<rparr>
      (tables_of 0 (zip (common_kinds @ kinds) (bss @ bss')))
      \<lparr>ct_module_handles = [], ct_struct_handles = [], ct_function_handles = [],
       ct_function_instantiations = [], ct_signatures = [], ct_identifiers = [],
       ct_address_identifiers = [], ct_constant_pool = []\<rparr> = Ok common"
proof -
  obtain b1 b2 b3 b4 b5 b6 b7 b8 where bss: "bss = [b1, b2, b3, b4, b5, b6, b7, b8]"
      and loads: "table_bytes_of load_module_handles b1 (ct_module_handles common)"
        "table_bytes_of load_struct_handles b2 (ct_struct_handles common)"
        "table_bytes_of load_function_handles b3 (ct_function_handles common)"
        "table_bytes_of load_function_instantiations b4 (ct_function_instantiations common)"
        "table_bytes_of load_signatures b5 (ct_signatures common)"
        "table_bytes_of load_identifiers b6 (ct_identifiers common)"
        "table_bytes_of load_address_identifiers b7 (ct_address_identifiers common)"
        "table_bytes_of load_constant_pool b8 (ct_constant_pool common)"
    using bytes unfolding common_bytes_def by blast
  let ?binary = "\<lparr>vb_version = VERSION_MAX, vb_binary = concat (bss @ bss')\<rparr>"
  define tabs where "tabs =
    [(MODULE_HANDLES, b1, \<lambda>s. s\<lparr>ct_module_handles := ct_module_handles s @ ct_module_handles common\<rparr>),
     (STRUCT_HANDLES, b2, \<lambda>s. s\<lparr>ct_struct_handles := ct_struct_handles s @ ct_struct_handles common\<rparr>),
     (FUNCTION_HANDLES, b3, \<lambda>s. s\<lparr>ct_function_handles := ct_function_handles s @ ct_function_handles common\<rparr>),
     (FUNCTION_INST, b4, \<lambda>s. s\<lparr>ct_function_instantiations := ct_function_instantiations s @ ct_function_instantiations common\<rparr>),
     (SIGNATURES, b5, \<lambda>s. s\<lparr>ct_signatures := ct_signatures s @ ct_signatures common\<rparr>),
     (IDENTIFIERS, b6, \<lambda>s. s\<lparr>ct_identifiers := ct_identifiers s @ ct_identifiers common\<rparr>),
     (ADDRESS_IDENTIFIERS, b7, \<lambda>s. s\<lparr>ct_address_identifiers := ct_address_identifiers s @ ct_address_identifiers common\<rparr>),
     (CONSTANT_POOL, b8, \<lambda>s. s\<lparr>ct_constant_pool := ct_constant_pool s @ ct_constant_pool common\<rparr>)]
    @ map (\<lambda>(kind, bs). (kind, bs, \<lambda>s :: common_tables. s)) (zip kinds bss')"
  have zip: "map (\<lambda>(kind, bs, _). (kind, bs)) tabs = zip (common_kinds @ kinds) (bss @ bss')"
    by (simp add: tabs_def bss common_kinds_def comp_def split_def)
  have bytes': "concat (map (\<lambda>(_, bs, _). bs) tabs) = concat (bss @ bss')"
    using len by (simp add: tabs_def bss comp_def split_def map_snd_zip)
  have build: "build_common_table ?binary t s = Ok (upd s)"
    if mem: "(kind, bs, upd) \<in> set tabs" and kind: "tbl_kind t = kind" and slice: "table_bytes ?binary t = Ok bs" for kind bs upd t s
  proof -
    consider (common) "kind \<in> set common_kinds" | (other) "kind \<in> set kinds" "upd = (\<lambda>s. s)"
      using mem by (auto simp: tabs_def common_kinds_def dest: set_zip_leftD)
    then show ?thesis
    proof cases
      case common
      then show ?thesis
        using mem kind slice kinds
        by (auto simp: tabs_def build_common_table_def common_kinds_def module_kinds_def
            loads[THEN table_bytes_of_load] dest: set_zip_leftD)
    next
      case other
      then show ?thesis using kind kinds by (auto simp: module_kinds_def build_common_table_def)
    qed
  qed
  note empties = loads[unfolded table_bytes_of_def, THEN conjunct1]
  have empty: "upd s = s" if "(kind, [], upd) \<in> set tabs" for kind upd s
    using that by (auto simp: tabs_def eq_commute[of "[]"] empties)
  have run: "for_each (build_common_table ?binary) (tables_of 0 (map (\<lambda>(kind, bs, _). (kind, bs)) tabs)) s
      = Ok (fold (\<lambda>(_, _, upd). upd) tabs s)" for s
  proof (rule build_written_tables[where binary = ?binary and off = 0])
    show "build_common_table ?binary t s = Ok (upd s)"
      if "(kind, bs, upd) \<in> set tabs" "tbl_kind t = kind" "table_bytes ?binary t = Ok bs" for kind bs upd t s
      by (rule build[OF that])
  qed (use small bytes' empty in simp_all)
  have ids: "fold (\<lambda>(_, _, upd). upd) (map (\<lambda>(kind, bs). (kind, bs, \<lambda>s :: common_tables. s)) xs) s = s" for xs s
    by (induction xs) auto
  show ?thesis
    unfolding build_common_tables_def zip[symmetric] run by (simp add: tabs_def ids)
qed

text \<open>The tables that only modules have, after the common ones.\<close>

lemma build_module_tables_written:
  assumes bytes: "module_bytes m bss'"
    and len: "length bss = length common_kinds"
    and small: "length (concat (bss @ bss')) < 2 ^ 32"
    and start: "cm_struct_defs m0 = []" "cm_struct_def_instantiations m0 = []" "cm_function_defs m0 = []"
      "cm_field_handles m0 = []" "cm_field_instantiations m0 = []" "cm_friend_decls m0 = []"
  shows "build_module_tables \<lparr>vb_version = VERSION_MAX, vb_binary = concat (bss @ bss')\<rparr>
      (tables_of 0 (zip (common_kinds @ module_kinds) (bss @ bss'))) m0
    = Ok (m0\<lparr>cm_struct_defs := cm_struct_defs m,
        cm_struct_def_instantiations := cm_struct_def_instantiations m,
        cm_function_defs := cm_function_defs m, cm_field_handles := cm_field_handles m,
        cm_field_instantiations := cm_field_instantiations m, cm_friend_decls := cm_friend_decls m\<rparr>)"
proof -
  obtain b1 b2 b3 b4 b5 b6 where bss': "bss' = [b1, b2, b3, b4, b5, b6]"
      and loads: "table_bytes_of load_struct_defs b1 (cm_struct_defs m)"
        "table_bytes_of load_struct_instantiations b2 (cm_struct_def_instantiations m)"
        "table_bytes_of load_function_defs b3 (cm_function_defs m)"
        "table_bytes_of load_field_handles b4 (cm_field_handles m)"
        "table_bytes_of load_field_instantiations b5 (cm_field_instantiations m)"
        "table_bytes_of load_module_handles b6 (cm_friend_decls m)"
    using bytes unfolding module_bytes_def by blast
  let ?binary = "\<lparr>vb_version = VERSION_MAX, vb_binary = concat (bss @ bss')\<rparr>"
  define tabs where "tabs = map (\<lambda>(kind, bs). (kind, bs, \<lambda>s :: compiled_module. s)) (zip common_kinds bss) @
    [(STRUCT_DEFS, b1, \<lambda>s. s\<lparr>cm_struct_defs := cm_struct_defs s @ cm_struct_defs m\<rparr>),
     (STRUCT_DEF_INST, b2, \<lambda>s. s\<lparr>cm_struct_def_instantiations :=
        cm_struct_def_instantiations s @ cm_struct_def_instantiations m\<rparr>),
     (FUNCTION_DEFS, b3, \<lambda>s. s\<lparr>cm_function_defs := cm_function_defs s @ cm_function_defs m\<rparr>),
     (FIELD_HANDLE, b4, \<lambda>s. s\<lparr>cm_field_handles := cm_field_handles s @ cm_field_handles m\<rparr>),
     (FIELD_INST, b5, \<lambda>s. s\<lparr>cm_field_instantiations := cm_field_instantiations s @ cm_field_instantiations m\<rparr>),
     (FRIEND_DECLS, b6, \<lambda>s. s\<lparr>cm_friend_decls := cm_friend_decls s @ cm_friend_decls m\<rparr>)]"
  have zip: "map (\<lambda>(kind, bs, _). (kind, bs)) tabs = zip (common_kinds @ module_kinds) (bss @ bss')"
    using len by (simp add: tabs_def bss' module_kinds_def comp_def split_def)
  have bytes': "concat (map (\<lambda>(_, bs, _). bs) tabs) = concat (bss @ bss')"
    using len by (simp add: tabs_def bss' comp_def split_def map_snd_zip)
  have build: "build_module_table ?binary t s = Ok (upd s)"
    if mem: "(kind, bs, upd) \<in> set tabs" and kind: "tbl_kind t = kind" and slice: "table_bytes ?binary t = Ok bs" for kind bs upd t s
  proof -
    consider (own) "kind \<in> set module_kinds" | (other) "kind \<in> set common_kinds" "upd = (\<lambda>s. s)"
      using mem by (auto simp: tabs_def module_kinds_def dest: set_zip_leftD)
    then show ?thesis
    proof cases
      case own
      then show ?thesis
        using mem kind slice
        by (auto simp: tabs_def build_module_table_def common_kinds_def module_kinds_def
            loads[THEN table_bytes_of_load] dest: set_zip_leftD)
    next
      case other
      then show ?thesis using kind by (auto simp: common_kinds_def build_module_table_def)
    qed
  qed
  note empties = loads[unfolded table_bytes_of_def, THEN conjunct1]
  have empty: "upd s = s" if "(kind, [], upd) \<in> set tabs" for kind upd s
    using that by (auto simp: tabs_def eq_commute[of "[]"] empties)
  have run: "for_each (build_module_table ?binary) (tables_of 0 (map (\<lambda>(kind, bs, _). (kind, bs)) tabs)) s
      = Ok (fold (\<lambda>(_, _, upd). upd) tabs s)" for s
  proof (rule build_written_tables[where binary = ?binary and off = 0])
    show "build_module_table ?binary t s = Ok (upd s)"
      if "(kind, bs, upd) \<in> set tabs" "tbl_kind t = kind" "table_bytes ?binary t = Ok bs" for kind bs upd t s
      by (rule build[OF that])
  qed (use small bytes' empty in simp_all)
  have ids: "fold (\<lambda>(_, _, upd). upd) (map (\<lambda>(kind, bs). (kind, bs, \<lambda>s :: compiled_module. s)) xs) s = s" for xs s
    by (induction xs) auto
  show ?thesis
    unfolding build_module_tables_def zip[symmetric] run by (simp add: tabs_def ids start)
qed

section \<open>The contents of a written binary\<close>

lemma written_contents:
  assumes small: "length (concat bss) < 2 ^ 32"
    and kinds: "length kinds = length bss" "distinct kinds" "length kinds < 256"
    and header: "serialize_header ser [] = Ok h" "cser_major_version ser = VERSION_MAX"
    and index: "rbind (serialize_table_count (of_nat (length (filter (\<lambda>bs. bs \<noteq> []) bss))) h)
      (for_each (\<lambda>(kind, extent). serialize_table_index kind extent) (zip kinds (layout 0 bss))) = Ok h1"
    and extend: "binary_extend (concat bss) h1 = Ok h2"
  obtains c where "read_contents (h2 @ rest) =
      Ok ((tables_of 0 (zip kinds bss), \<lparr>vb_version = VERSION_MAX, vb_binary = concat bss\<rparr>), c)"
    "vc_version c = VERSION_MAX" "vc_rest c = rest"
proof -
  let ?tabs = "zip kinds bss"
  have contents: "contents ?tabs = concat bss" using kinds(1) by (simp add: map_snd_zip)
  have "length (filter (\<lambda>(_, bs). bs \<noteq> []) ?tabs) = length (filter (\<lambda>bs. bs \<noteq> []) bss)"
    using kinds(1) by (induction kinds bss rule: list_induct2) auto
  then have count: "length (tables_of 0 ?tabs) = length (filter (\<lambda>bs. bs \<noteq> []) bss)"
    by (simp add: length_tables_of)
  have few: "length (tables_of 0 ?tabs) < 256"
    unfolding count using kinds le_less_trans[OF length_filter_le] by metis
  have "rbind (serialize_table_count (of_nat (length (tables_of 0 ?tabs))) h) (for_each write_table (tables_of 0 ?tabs)) = Ok h1"
    using index write_indices[OF kinds(1), of 0] small by (simp add: count fun_eq_iff[symmetric] cong: rbind_cong)
  moreover from this obtain hs where hs: "h1 = h @ hs"
    using codes_contents[of ?tabs] small few contents by (auto elim: codes_elim)
  ultimately have index': "rbind (serialize_table_count (of_nat (length (tables_of 0 ?tabs))) h)
      (for_each write_table (tables_of 0 ?tabs)) = Ok (h @ hs)"
    by simp
  have h: "h = DIEM_MAGIC @ to_le_bytes 4 VERSION_MAX"
    using serialize_header_Ok[OF header(1)] header(2) by simp
  have "h2 = h1 @ concat bss"
    using extend by (simp add: binary_extend_def split: if_split_asm)
  then have "h2 @ rest = DIEM_MAGIC @ to_le_bytes 4 VERSION_MAX @ hs @ contents ?tabs @ rest"
    by (simp only: hs h contents append_assoc)
  from read_contents_written[OF _ few _ index' this] show ?thesis
    using small kinds(1,2) that by (simp only: contents map_fst_zip) blast
qed

section \<open>Modules\<close>

text \<open>A serialized module is read back, whatever follows it.\<close>

lemma module_read_back:
  assumes wf: "module_wf m" and ser: "module_serialize m [] = Ok bytes"
  shows "deserialize_compiled_module (bytes @ rest) = Ok (m\<lparr>cm_version := VERSION_MAX\<rparr>)"
proof -
  obtain ser temp where tables: "serialize_tables m (module_serializer_new VERSION_MAX, []) = Ok (ser, temp)"
      and tail: "(if length temp > 0xffffffff then Err () else
         rbind (serialize_header (mser_common ser) []) (\<lambda>binary.
         rbind (serialize_module_table_indices ser binary) (\<lambda>binary.
         rbind (binary_extend temp binary)
           (serialize_module_handle_index (cm_self_module_handle_idx m))))) = Ok bytes"
    using ser unfolding module_serialize_def by (auto simp: rbind_eq_Ok)
  obtain bss bss' where written: "common_bytes (module_common_tables m) bss" "module_bytes m bss'"
      "temp = concat (bss @ bss')" "common_extents (mser_common ser) @ module_extents ser = layout 0 (bss @ bss')"
      "cser_table_count (mser_common ser) = of_nat (length (filter (\<lambda>bs. bs \<noteq> []) (bss @ bss')))"
      "cser_major_version (mser_common ser) = VERSION_MAX"
    by (rule module_tables_written[OF wf tables])
  have lens: "length bss = length common_kinds" "length bss' = length module_kinds"
    using written(1,2) by (auto simp: common_bytes_def module_bytes_def common_kinds_def module_kinds_def)
  have small: "length (concat (bss @ bss')) < 2 ^ 32"
    using tail by (simp add: written(3) not_less split: if_split_asm)
  obtain h h1 h2 where parts: "serialize_header (mser_common ser) [] = Ok h"
      "serialize_module_table_indices ser h = Ok h1" "binary_extend (concat (bss @ bss')) h1 = Ok h2"
      "serialize_module_handle_index (cm_self_module_handle_idx m) h2 = Ok bytes"
    using tail by (auto simp: written(3) rbind_eq_Ok split: if_split_asm)
  obtain bs where bs: "bytes = h2 @ bs"
      "\<And>c rest. vc_version c = VERSION_MAX \<Longrightarrow> vc_rest c = bs @ rest \<Longrightarrow>
         load_module_handle_index c = Ok (cm_self_module_handle_idx m, advance (length bs) c)"
    using codes_index parts(4) unfolding codes_def by blast
  have kinds: "length (common_kinds @ module_kinds) = length (bss @ bss')" "distinct (common_kinds @ module_kinds)"
      "length (common_kinds @ module_kinds) < 256"
    using lens by (simp_all add: common_kinds_def module_kinds_def)
  obtain c where c: "read_contents (h2 @ bs @ rest) =
      Ok ((tables_of 0 (zip (common_kinds @ module_kinds) (bss @ bss')),
        \<lparr>vb_version = VERSION_MAX, vb_binary = concat (bss @ bss')\<rparr>), c)"
      "vc_version c = VERSION_MAX" "vc_rest c = bs @ rest"
    by (rule written_contents[OF small kinds parts(1) written(6)
          parts(2)[unfolded serialize_module_table_indices_each written(4,5)] parts(3)])
  let ?m = "empty_module VERSION_MAX (cm_self_module_handle_idx m)"
  have common: "build_common_tables \<lparr>vb_version = VERSION_MAX, vb_binary = concat (bss @ bss')\<rparr>
      (tables_of 0 (zip (common_kinds @ module_kinds) (bss @ bss'))) (module_common_tables ?m)
      = Ok (module_common_tables m)"
    using build_common_tables_written[OF written(1) lens(2) subset_refl small]
    by (simp add: module_common_tables_def empty_module_def)
  have "build_compiled_module \<lparr>vb_version = VERSION_MAX, vb_binary = concat (bss @ bss')\<rparr>
      (tables_of 0 (zip (common_kinds @ module_kinds) (bss @ bss'))) ?m = Ok (m\<lparr>cm_version := VERSION_MAX\<rparr>)"
    unfolding build_compiled_module_def common
    using build_module_tables_written[OF written(2) lens(1) small, of "set_module_common_tables (module_common_tables m) ?m"]
    by (simp add: set_module_common_tables_def module_common_tables_def empty_module_def)
  then show ?thesis
    unfolding deserialize_compiled_module_def using bs(2)[OF c(2,3)] by (simp add: bs(1) c(1,2))
qed

section \<open>Scripts\<close>

lemma codes_main:
  assumes "list_all abilities_wf (cs_type_parameters s)"
  shows "codes (serialize_main s)
    (\<lambda>c. rbind (load_ability_sets FunctionTypeParameters c) (\<lambda>(type_parameters, c).
      rbind (load_signature_index c) (\<lambda>(parameters, c).
      rbind (load_code_unit c) (\<lambda>(code, c). Ok ((type_parameters, parameters, code), c)))))
    (cs_type_parameters s, cs_parameters s, cs_code s)"
  unfolding serialize_main_def
  by (intro codes_bind[OF codes_ability_sets] codes_bind[OF codes_index] codes_last[OF codes_code_unit])
     (simp_all add: assms)

lemma script_read_back:
  assumes wf: "script_wf s" and ser: "script_serialize s [] = Ok bytes"
  shows "deserialize_compiled_script (bytes @ rest) = Ok (s\<lparr>cs_version := VERSION_MAX\<rparr>)"
proof -
  obtain ser temp where tables:
      "serialize_common_tables (script_common_tables s) (common_serializer_new VERSION_MAX, []) = Ok (ser, temp)"
      and tail: "(if length temp > TABLE_CONTENT_SIZE_MAX then Err () else
         rbind (serialize_header ser []) (\<lambda>binary.
         rbind (serialize_table_indices ser binary) (\<lambda>binary.
         rbind (binary_extend temp binary) (serialize_main s)))) = Ok bytes"
    using ser unfolding script_serialize_def by (auto simp: rbind_eq_Ok)
  obtain bss where written: "common_bytes (script_common_tables s) bss"
      "temp = concat bss" "common_extents ser = layout 0 bss"
      "cser_table_count ser = of_nat (length (filter (\<lambda>bs. bs \<noteq> []) bss))"
      "cser_major_version ser = VERSION_MAX"
    using wf[unfolded script_wf_def, THEN conjunct1] tables by (rule common_tables_written)
  have lens: "length bss = length common_kinds"
    using written(1) by (auto simp: common_bytes_def common_kinds_def)
  have small: "length (concat bss) < 2 ^ 32"
    using tail by (simp add: written(2) not_less split: if_split_asm)
  obtain h h1 h2 where parts: "serialize_header ser [] = Ok h"
      "serialize_table_indices ser h = Ok h1" "binary_extend (concat bss) h1 = Ok h2"
      "serialize_main s h2 = Ok bytes"
    using tail by (auto simp: written(2) rbind_eq_Ok split: if_split_asm)
  note main = codes_main[OF wf[unfolded script_wf_def, THEN conjunct2]]
  obtain bs where bs: "bytes = h2 @ bs"
      "\<And>c rest. vc_version c = VERSION_MAX \<Longrightarrow> vc_rest c = bs @ rest \<Longrightarrow>
         rbind (load_ability_sets FunctionTypeParameters c) (\<lambda>(type_parameters, c).
           rbind (load_signature_index c) (\<lambda>(parameters, c).
           rbind (load_code_unit c) (\<lambda>(code, c). Ok ((type_parameters, parameters, code), c))))
         = Ok ((cs_type_parameters s, cs_parameters s, cs_code s), advance (length bs) c)"
    using main parts(4) unfolding codes_def by blast
  have kinds: "length common_kinds = length bss" "distinct common_kinds" "length common_kinds < 256"
    using lens by (simp_all add: common_kinds_def)
  obtain c where c: "read_contents (h2 @ bs @ rest) =
      Ok ((tables_of 0 (zip common_kinds bss), \<lparr>vb_version = VERSION_MAX, vb_binary = concat bss\<rparr>), c)"
      "vc_version c = VERSION_MAX" "vc_rest c = bs @ rest"
    by (rule written_contents[OF small kinds parts(1) written(5)
          parts(2)[unfolded serialize_table_indices_each written(3,4)] parts(3)])
  have common: "build_common_tables \<lparr>vb_version = VERSION_MAX, vb_binary = concat bss\<rparr>
      (tables_of 0 (zip common_kinds bss))
      \<lparr>ct_module_handles = [], ct_struct_handles = [], ct_function_handles = [],
       ct_function_instantiations = [], ct_signatures = [], ct_identifiers = [],
       ct_address_identifiers = [], ct_constant_pool = []\<rparr> = Ok (script_common_tables s)"
    using build_common_tables_written[OF written(1), of "[]" "[]"] small by simp
  have "is_common_table (tbl_kind t)" if "t \<in> set (tables_of 0 (zip common_kinds bss))" for t
    using tables_of_kinds[OF that] by (auto simp: common_kinds_def is_common_table_def dest!: set_zip_leftD)
  then have kinds_ok: "build_script_tables (tables_of 0 (zip common_kinds bss)) = Ok ()"
    by (simp add: build_script_tables_def ok_iff)
  show ?thesis
    unfolding deserialize_compiled_script_def using bs(2)[OF c(2,3)] common kinds_ok
    by (auto simp add: bs(1) c(1,2) rbind_eq_Ok build_compiled_script_def script_common_tables_def
        set_script_common_tables_def)
qed

end
