(* ===== verification/Serializer_Limits.thy ===== *)
theory Serializer_Limits
  imports Module_Round_Trip
begin

text \<open>
  Serialization succeeds on what is within the limits of the format. \<open>fits n w\<close> says that the
  writer \<open>w\<close> appends at most \<open>n\<close> bytes to any binary that has room for them. The limits of a module
  are those the writers check: the lengths of lists, the depth of types, field offsets, and the
  size of the tables, for which an upper estimate is computed from the entries.
\<close>

section \<open>Writers that succeed\<close>

definition fits :: "nat \<Rightarrow> writer \<Rightarrow> bool" where
  "fits n w \<longleftrightarrow>
     (\<forall>b. length b + n \<le> BINARY_SIZE_LIMIT \<longrightarrow> (\<exists>bs. w b = Ok (b @ bs) \<and> length bs \<le> n))"

lemma fitsE:
  assumes "fits n w" "length b + n \<le> BINARY_SIZE_LIMIT"
  obtains bs where "w b = Ok (b @ bs)" "length bs \<le> n"
  using assms unfolding fits_def by blast

lemma fits_return: "fits 0 Ok"
  by (simp add: fits_def)

lemma fits_mono: "fits m w \<Longrightarrow> m \<le> n \<Longrightarrow> fits n w"
  unfolding fits_def by (meson add_left_mono le_trans)

lemma fits_push: "fits 1 (binary_push byte)"
  by (simp add: fits_def binary_push_def)

lemma fits_extend: "fits (length bytes) (binary_extend bytes)"
  by (simp add: fits_def binary_extend_def)

lemma fits_bind:
  assumes first: "fits m w" and second: "fits n v"
  shows "fits (m + n) (\<lambda>b. rbind (w b) v)"
  unfolding fits_def
proof (intro allI impI)
  fix b :: "u8 list"
  assume room: "length b + (m + n) \<le> BINARY_SIZE_LIMIT"
  then obtain bs where bs: "w b = Ok (b @ bs)" "length bs \<le> m"
    using first[unfolded fits_def, rule_format, of b] by auto
  then obtain cs where "v (b @ bs) = Ok ((b @ bs) @ cs)" "length cs \<le> n"
    using second[unfolded fits_def, rule_format, of "b @ bs"] room by auto
  then show "\<exists>ds. rbind (w b) v = Ok (b @ ds) \<and> length ds \<le> m + n"
    using bs by (intro exI[of _ "bs @ cs"]) simp
qed

lemma fits_each:
  assumes "\<And>x. x \<in> set xs \<Longrightarrow> fits (weight x) (w x)"
  shows "fits (sum_list (map weight xs)) (for_each w xs)"
  using assms
proof (induction xs)
  case Nil
  then show ?case by (simp add: for_each_steps fits_return)
next
  case (Cons x xs)
  then show ?case
    using fits_bind[of "weight x" "w x" "sum_list (map weight xs)" "for_each w xs"]
    by (simp add: for_each_steps)
qed

lemma fits_each_const:
  "(\<And>x. x \<in> set xs \<Longrightarrow> fits n (w x)) \<Longrightarrow> fits (n * length xs) (for_each w xs)"
  using fits_each[of xs "\<lambda>_. n" w] by (simp add: sum_list_triv mult.commute)

lemma fits_bytes: "fits (length bytes) (for_each binary_push bytes)"
  using fits_each_const[OF fits_push, of bytes "\<lambda>x. x"] by simp

text \<open>A number below \<^verbatim>\<open>2^(7 * k)\<close> takes at most \<open>k\<close> bytes; all that is written is below \<^verbatim>\<open>2^35\<close>.\<close>

lemma uleb128_size:
  "unat v < 2 ^ (7 * Suc k) \<Longrightarrow> length (uleb128 v) \<le> Suc k"
proof (induction k arbitrary: v)
  case 0
  then have "v AND 0x7f = v"
    by (intro word_unat_eq_iff[THEN iffD2]) (simp add: and_7f unsigned_take_bit_eq take_bit_nat_eq_self)
  then show ?case by (simp add: uleb128.simps[of v])
next
  case (Suc k)
  have "unat (drop_bit 7 v) = unat v div 2 ^ 7"
    by (subst unat_drop_bit_eq) (rule drop_bit_eq_div)
  also have "\<dots> < 2 ^ (7 * Suc k)"
    using Suc.prems by (simp add: less_mult_imp_div_less power_add mult.commute)
  finally show ?case using Suc.IH[of "drop_bit 7 v"] by (simp add: uleb128.simps[of v])
qed

lemma fits_uleb: "x \<le> bound \<Longrightarrow> bound < 2 ^ 35 \<Longrightarrow> fits 5 (write_as_uleb128 x bound)"
proof -
  assume bound: "x \<le> bound" "bound < 2 ^ 35"
  then have "length (uleb128 (of_nat x)) \<le> 5"
    using uleb128_size[of "of_nat x" 4] by (simp add: unat_of_nat)
  then show ?thesis using bound by (auto simp: fits_def write_as_uleb128_def write_uleb128_Ok)
qed

section \<open>Limits of the entries\<close>

definition token_limits :: "signature_token \<Rightarrow> bool" where
  "token_limits token \<longleftrightarrow>
     list_all (\<lambda>(token, depth). depth \<le> SIGNATURE_TOKEN_DEPTH_MAX \<and>
         (case token of StructInstantiation _ args \<Rightarrow> length args \<le> SIGNATURE_SIZE_MAX | _ \<Rightarrow> True))
       (preorder_traversal_with_depth token)"

definition token_weight :: "signature_token \<Rightarrow> nat" where
  "token_weight token = 11 * length (preorder_traversal_with_depth token)"

definition signature_limits :: "signature \<Rightarrow> bool" where
  "signature_limits sig \<longleftrightarrow> length sig \<le> SIGNATURE_SIZE_MAX \<and> list_all token_limits sig"

definition signature_weight :: "signature \<Rightarrow> nat" where
  "signature_weight sig = 5 + sum_list (map token_weight sig)"

definition constant_limits :: "pool_constant \<Rightarrow> bool" where
  "constant_limits k \<longleftrightarrow> token_limits (const_type k) \<and> length (const_data k) \<le> CONSTANT_SIZE_MAX"

definition constant_weight :: "pool_constant \<Rightarrow> nat" where
  "constant_weight k = token_weight (const_type k) + (5 + length (const_data k))"

definition field_definition_weight :: "field_definition \<Rightarrow> nat" where
  "field_definition_weight f = 5 + token_weight (fdd_signature f)"

definition struct_definition_limits :: "struct_definition \<Rightarrow> bool" where
  "struct_definition_limits sd \<longleftrightarrow>
     (case sd_field_information sd of
        Native \<Rightarrow> True
      | Declared fs \<Rightarrow> length fs \<le> FIELD_COUNT_MAX \<and> list_all (\<lambda>f. token_limits (fdd_signature f)) fs)"

definition struct_definition_weight :: "struct_definition \<Rightarrow> nat" where
  "struct_definition_weight sd = 5 +
     (case sd_field_information sd of
        Native \<Rightarrow> 1
      | Declared fs \<Rightarrow> 1 + (5 + sum_list (map field_definition_weight fs)))"

definition code_limits :: "code_unit \<Rightarrow> bool" where
  "code_limits code \<longleftrightarrow> length (cu_code code) \<le> BYTECODE_COUNT_MAX"

definition code_weight :: "code_unit \<Rightarrow> nat" where
  "code_weight code = 5 + (5 + 17 * length (cu_code code))"

definition function_definition_limits :: "function_definition \<Rightarrow> bool" where
  "function_definition_limits fd \<longleftrightarrow>
     length (fd_acquires_global_resources fd) \<le> ACQUIRES_COUNT_MAX \<and>
     (case fd_code fd of None \<Rightarrow> True | Some code \<Rightarrow> code_limits code)"

definition function_definition_weight :: "function_definition \<Rightarrow> nat" where
  "function_definition_weight fd = 5 + (1 + (1 + (5 + 5 * length (fd_acquires_global_resources fd) +
     (case fd_code fd of None \<Rightarrow> 0 | Some code \<Rightarrow> code_weight code))))"

definition struct_handle_weight :: "struct_handle \<Rightarrow> nat" where
  "struct_handle_weight sh = 5 + (5 + (5 + (5 + 10 * length (sh_type_parameters sh))))"

definition function_handle_weight :: "function_handle \<Rightarrow> nat" where
  "function_handle_weight fh = 5 + (5 + (5 + (5 + (5 + 5 * length (fh_type_parameters fh)))))"

lemma unat_lt_max: "unat (x :: 'a::len word) \<le> 2 ^ LENGTH('a) - 1"
  using unsigned_less[where w = x and 'a = nat] by linarith

lemma word_bounds: "unat (x :: u8) \<le> 255" "unat (y :: u16) \<le> 65535" "unat (z :: u32) \<le> 0xffffffff"
  using unat_lt_max[of x] unat_lt_max[of y] unat_lt_max[of z] by simp_all

lemma fits_index: "fits 5 (serialize_table_entry_index idx)"
  unfolding serialize_table_entry_index_def
  by (rule fits_uleb) (use word_bounds in simp_all)

lemma fits_op: "fits n v \<Longrightarrow> 1 + n \<le> k \<Longrightarrow> fits k (\<lambda>b. rbind (binary_push byte b) v)"
  using fits_bind[OF fits_push] by (rule fits_mono)

lemma fits_operand:
  "fits 5 (serialize_table_entry_index idx)" "fits 5 (serialize_bytecode_offset off)"
  "fits 5 (serialize_local_index loc)" "fits 5 (serialize_type_parameter_index idx)"
  using word_bounds le_trans[OF word_bounds(2), of 65536] by (auto intro!: fits_index fits_uleb)

lemma fits_ability_set:
  assumes "abilities_wf a"
  shows "fits 5 (serialize_ability_set a)"
proof -
  have "a AND ability_set_ALL = a"
    using assms by (simp add: abilities_wf_def ability_set_from_u8_def is_subset_bits_def split: if_split_asm)
  then have "a \<le> ability_set_ALL" by (metis word_and_le1)
  then show ?thesis
    unfolding serialize_ability_set_def
    by (intro fits_uleb)
       (use le_less_trans[OF word_bounds(1)] in \<open>simp_all add: ability_set_into_u8_def word_le_nat_alt\<close>)
qed

lemma fits_ability_sets:
  assumes "length sets \<le> TYPE_PARAMETER_COUNT_MAX" "list_all abilities_wf sets"
  shows "fits (5 + 5 * length sets) (serialize_ability_sets sets)"
  unfolding serialize_ability_sets_def
  using assms by (intro fits_bind fits_uleb fits_each_const fits_ability_set) (auto simp: list_all_iff)

lemma fits_type_parameters:
  assumes "length ps \<le> TYPE_PARAMETER_COUNT_MAX" "list_all type_parameter_wf ps"
  shows "fits (5 + 10 * length ps) (serialize_type_parameters ps)"
proof -
  have "fits (5 + 5) (serialize_type_parameter p)" if "p \<in> set ps" for p
    unfolding serialize_type_parameter_def
    using assms(2) that by (intro fits_bind fits_uleb fits_ability_set) (auto simp: list_all_iff type_parameter_wf_def)
  then show ?thesis
    unfolding serialize_type_parameters_def
    using assms(1) by (intro fits_bind fits_uleb fits_each_const) simp_all
qed

lemma fits_token:
  assumes "token_limits token"
  shows "fits (token_weight token) (serialize_signature_token token)"
  unfolding serialize_signature_token_def token_weight_def
proof (rule fits_each_const)
  fix node
  assume "node \<in> set (preorder_traversal_with_depth token)"
  then have "case node of (token, depth) \<Rightarrow> depth \<le> SIGNATURE_TOKEN_DEPTH_MAX \<and>
      (case token of StructInstantiation _ args \<Rightarrow> length args \<le> SIGNATURE_SIZE_MAX | _ \<Rightarrow> True)"
    using assms unfolding token_limits_def list_all_iff by blast
  then obtain t d where node: "node = (t, d)" and d: "d \<le> SIGNATURE_TOKEN_DEPTH_MAX"
      and args: "\<And>idx args. t = StructInstantiation idx args \<Longrightarrow> length args \<le> SIGNATURE_SIZE_MAX"
    by (cases node) (rule that, auto)
  have "fits 11 (serialize_signature_token_single_node_impl t)"
    unfolding serialize_signature_token_single_node_impl_def
    using args
    by (cases t)
       (auto intro!: fits_op fits_push[THEN fits_mono] fits_operand fits_bind[OF fits_index fits_uleb, THEN fits_mono]
         le_trans[OF word_bounds(2)])
  then show "fits 11 (case node of (token, depth) \<Rightarrow> \<lambda>binary.
      if depth > SIGNATURE_TOKEN_DEPTH_MAX then Err () else serialize_signature_token_single_node_impl token binary)"
    using d by (simp add: node)
qed

lemma fits_signature:
  assumes "signature_limits sig"
  shows "fits (signature_weight sig) (serialize_signature sig)"
  unfolding serialize_signature_def serialize_signature_tokens_def signature_weight_def
  using assms by (intro fits_bind fits_uleb fits_each fits_token) (simp_all add: signature_limits_def list_all_iff)

lemma fits_pair: "fits m w \<Longrightarrow> fits n v \<Longrightarrow> m + n = k \<Longrightarrow> fits k (\<lambda>b. rbind (w b) v)"
  using fits_bind by blast

lemma fits_handles:
  "fits 10 (serialize_module_handle mh)" "fits 10 (serialize_function_instantiation fi)"
  "fits 10 (serialize_struct_def_instantiation si)" "fits 10 (serialize_field_instantiation fli)"
  unfolding serialize_module_handle_def serialize_function_instantiation_def
    serialize_struct_def_instantiation_def serialize_field_instantiation_def
  by (rule fits_pair[OF fits_index fits_index]; simp)+

lemma fits_field_handle: "unat (fdh_field fh) \<le> FIELD_OFFSET_MAX \<Longrightarrow> fits 10 (serialize_field_handle fh)"
  unfolding serialize_field_handle_def by (rule fits_pair[OF fits_index fits_uleb]) simp_all

lemma fits_struct_handle:
  assumes "struct_handle_wf sh" "length (sh_type_parameters sh) \<le> TYPE_PARAMETER_COUNT_MAX"
  shows "fits (struct_handle_weight sh) (serialize_struct_handle sh)"
  unfolding serialize_struct_handle_def struct_handle_weight_def
  using assms by (intro fits_bind fits_index fits_ability_set fits_type_parameters) (simp_all add: struct_handle_wf_def)

lemma fits_function_handle:
  assumes "function_handle_wf fh" "length (fh_type_parameters fh) \<le> TYPE_PARAMETER_COUNT_MAX"
  shows "fits (function_handle_weight fh) (serialize_function_handle fh)"
  unfolding serialize_function_handle_def function_handle_weight_def
  using assms by (intro fits_bind fits_index fits_ability_sets) (simp_all add: function_handle_wf_def)

lemma fits_identifier:
  assumes "length s \<le> IDENTIFIER_SIZE_MAX"
  shows "fits (5 + length s) (serialize_identifier s)"
proof -
  have "fits (5 + length (string_bytes s)) (serialize_identifier s)"
    unfolding serialize_identifier_def Let_def
    using assms by (intro fits_bind fits_uleb fits_bytes) (simp_all add: string_bytes_def)
  then show ?thesis by (simp add: string_bytes_def)
qed

lemma fits_address: "fits (length address) (serialize_address address)"
  unfolding serialize_address_def by (rule fits_bytes)

lemma fits_constant:
  assumes "constant_limits k"
  shows "fits (constant_weight k) (serialize_constant k)"
  unfolding serialize_constant_def constant_weight_def
  using assms by (intro fits_bind fits_uleb fits_bytes fits_token) (simp_all add: constant_limits_def)

lemma fits_struct_definition:
  assumes "struct_definition_limits sd"
  shows "fits (struct_definition_weight sd) (serialize_struct_definition sd)"
proof -
  have each: "fits (field_definition_weight f) (serialize_field_definition f)" if "token_limits (fdd_signature f)" for f
    unfolding serialize_field_definition_def field_definition_weight_def
    using that by (intro fits_bind fits_index fits_token)
  have "fits (case sd_field_information sd of Native \<Rightarrow> 1
        | Declared fs \<Rightarrow> 1 + (5 + sum_list (map field_definition_weight fs)))
      (\<lambda>binary. case sd_field_information sd of
         Native \<Rightarrow> binary_push (native_struct_flag_as_u8 NSF_NATIVE) binary
       | Declared fds \<Rightarrow>
           rbind (binary_push (native_struct_flag_as_u8 NSF_DECLARED) binary) (serialize_field_definitions fds))"
  proof (cases "sd_field_information sd")
    case Native
    then show ?thesis using fits_push by simp
  next
    case (Declared fs)
    have "fits (1 + (5 + sum_list (map field_definition_weight fs))) (\<lambda>binary.
        rbind (binary_push (native_struct_flag_as_u8 NSF_DECLARED) binary) (serialize_field_definitions fs))"
      unfolding serialize_field_definitions_def
      using assms Declared
      by (intro fits_bind fits_push fits_uleb fits_each each) (simp_all add: struct_definition_limits_def list_all_iff)
    then show ?thesis by (simp only: Declared struct_field_information.case)
  qed
  then show ?thesis
    unfolding serialize_struct_definition_def struct_definition_weight_def by (rule fits_bind[OF fits_index])
qed

lemma fits_instruction: "fits 17 (serialize_instruction_inner instr)"
proof -
  have words: "fits 8 (write_u64 n)" "fits 16 (write_u128 k)" for n k
    unfolding write_u64_def write_u128_def
    using fits_extend[of "to_le_bytes 8 n"] fits_extend[of "to_le_bytes 16 k"] by (simp_all del: to_le_bytes.simps)
  show ?thesis
    unfolding serialize_instruction_inner_def
    by (cases instr)
       (auto intro!: fits_op fits_push[THEN fits_mono] fits_push fits_operand words fits_bind[OF fits_index words(1)])
qed

lemma fits_code:
  assumes "code_limits code"
  shows "fits (code_weight code) (serialize_code_unit code)"
  unfolding serialize_code_unit_def serialize_code_def code_weight_def
  using assms
  by (intro fits_bind fits_index fits_uleb fits_each_const fits_instruction) (simp_all add: code_limits_def)

lemma fits_function_definition:
  assumes "function_definition_limits fd"
  shows "fits (function_definition_weight fd) (serialize_function_definition fd)"
proof -
  have "fits (case fd_code fd of None \<Rightarrow> 0 | Some code \<Rightarrow> code_weight code)
      (\<lambda>binary. case fd_code fd of Some code \<Rightarrow> serialize_code_unit code binary | None \<Rightarrow> Ok binary)"
    using assms by (cases "fd_code fd") (simp_all add: function_definition_limits_def fits_code fits_return)
  moreover have "fits (5 + 5 * length (fd_acquires_global_resources fd))
      (serialize_acquires (fd_acquires_global_resources fd))"
    unfolding serialize_acquires_def
    using assms by (intro fits_bind fits_uleb fits_each_const fits_index) (simp_all add: function_definition_limits_def)
  ultimately show ?thesis
    unfolding serialize_function_definition_def function_definition_weight_def
    by (intro fits_bind fits_index fits_push)
qed

section \<open>Tables\<close>

text \<open>A table of at most \<open>n\<close> bytes is written when the offsets of its bytes are below \<^verbatim>\<open>2^32\<close>.\<close>

definition table_fits :: "nat \<Rightarrow> 's table_writer \<Rightarrow> bool" where
  "table_fits n w \<longleftrightarrow>
     (\<forall>ser b. length b + n < 2 ^ 32 \<longrightarrow> (\<exists>ser' bs. w (ser, b) = Ok (ser', b @ bs) \<and> length bs \<le> n))"

lemma table_fitsE:
  assumes "table_fits n w" "length b + n < 2 ^ 32"
  obtains ser' bs where "w (ser, b) = Ok (ser', b @ bs)" "length bs \<le> n"
  using assms unfolding table_fits_def by blast

lemma table_fits_bind:
  assumes first: "table_fits m w" and second: "table_fits n v"
  shows "table_fits (m + n) (\<lambda>st. rbind (w st) v)"
  unfolding table_fits_def
proof (intro allI impI)
  fix ser and b :: "u8 list"
  assume room: "length b + (m + n) < 2 ^ 32"
  then obtain ser' bs where bs: "w (ser, b) = Ok (ser', b @ bs)" "length bs \<le> m"
    using first[unfolded table_fits_def, rule_format, of b ser] by auto
  then obtain ser'' cs where "v (ser', b @ bs) = Ok (ser'', (b @ bs) @ cs)" "length cs \<le> n"
    using second[unfolded table_fits_def, rule_format, of "b @ bs" ser'] room by auto
  then show "\<exists>ser' ds. rbind (w (ser, b)) v = Ok (ser', b @ ds) \<and> length ds \<le> m + n"
    using bs by (intro exI[of _ ser''] exI[of _ "bs @ cs"]) simp
qed

lemma table_fits_entries:
  assumes entries: "\<And>x. x \<in> set xs \<Longrightarrow> fits (weight x) (w x)"
    and writes: "\<And>ser b. f (ser, b) = (if xs \<noteq> [] then
        rbind (serialize_entries w xs b) (\<lambda>(extent, binary). Ok (upd extent ser, binary)) else Ok (ser, b))"
  shows "table_fits (sum_list (map weight xs)) f"
  unfolding table_fits_def
proof (intro allI impI)
  fix ser and b :: "u8 list"
  assume room: "length b + sum_list (map weight xs) < 2 ^ 32"
  obtain bs where bs: "for_each w xs b = Ok (b @ bs)" "length bs \<le> sum_list (map weight xs)"
    using fits_each[of xs weight w, OF entries, unfolded fits_def, rule_format, of b] room by auto
  have "(of_nat (length b) :: u32) \<le> of_nat (length (b @ bs))"
    using room bs(2) by (simp add: word_le_nat_alt unat_of_nat del: of_nat_add)
  then have "serialize_entries w xs b = Ok ((of_nat (length b), of_nat (length (b @ bs)) - of_nat (length b)), b @ bs)"
    using room bs
    by (simp add: serialize_entries_def checked_calculate_table_size_def check_index_in_binary_def assert_def)
  then show "\<exists>ser' bs. f (ser, b) = Ok (ser', b @ bs) \<and> length bs \<le> sum_list (map weight xs)"
    using bs(2) by (auto simp: writes)
qed

text \<open>The limits of the tables that modules and scripts share, and of those of modules.\<close>

definition common_limits :: "common_tables \<Rightarrow> bool" where
  "common_limits common \<longleftrightarrow>
     list_all (\<lambda>sh. length (sh_type_parameters sh) \<le> TYPE_PARAMETER_COUNT_MAX) (ct_struct_handles common) \<and>
     list_all (\<lambda>fh. length (fh_type_parameters fh) \<le> TYPE_PARAMETER_COUNT_MAX) (ct_function_handles common) \<and>
     list_all signature_limits (ct_signatures common) \<and>
     list_all (\<lambda>s. length s \<le> IDENTIFIER_SIZE_MAX) (ct_identifiers common) \<and>
     list_all constant_limits (ct_constant_pool common)"

definition common_weight :: "common_tables \<Rightarrow> nat" where
  "common_weight common =
     sum_list (map (\<lambda>_. 10) (ct_module_handles common)) + (
     sum_list (map struct_handle_weight (ct_struct_handles common)) + (
     sum_list (map function_handle_weight (ct_function_handles common)) + (
     sum_list (map (\<lambda>_. 10) (ct_function_instantiations common)) + (
     sum_list (map signature_weight (ct_signatures common)) + (
     sum_list (map (\<lambda>s. 5 + length s) (ct_identifiers common)) + (
     sum_list (map length (ct_address_identifiers common)) +
     sum_list (map constant_weight (ct_constant_pool common))))))))"

definition module_limits :: "compiled_module \<Rightarrow> bool" where
  "module_limits m \<longleftrightarrow>
     common_limits (module_common_tables m) \<and>
     list_all struct_definition_limits (cm_struct_defs m) \<and>
     list_all function_definition_limits (cm_function_defs m) \<and>
     list_all (\<lambda>fh. unat (fdh_field fh) \<le> FIELD_OFFSET_MAX) (cm_field_handles m)"

definition module_weight :: "compiled_module \<Rightarrow> nat" where
  "module_weight m =
     common_weight (module_common_tables m) + (
     sum_list (map struct_definition_weight (cm_struct_defs m)) + (
     sum_list (map (\<lambda>_. 10) (cm_struct_def_instantiations m)) + (
     sum_list (map function_definition_weight (cm_function_defs m)) + (
     sum_list (map (\<lambda>_. 10) (cm_field_handles m)) + (
     sum_list (map (\<lambda>_. 10) (cm_field_instantiations m)) +
     sum_list (map (\<lambda>_. 10) (cm_friend_decls m)))))))"

definition script_limits :: "compiled_script \<Rightarrow> bool" where
  "script_limits s \<longleftrightarrow> common_limits (script_common_tables s) \<and>
     length (cs_type_parameters s) \<le> TYPE_PARAMETER_COUNT_MAX \<and> code_limits (cs_code s)"

lemma common_tables_fit:
  assumes "common_wf common" "common_limits common"
  shows "table_fits (common_weight common) (serialize_common_tables common)"
  unfolding serialize_common_tables_def common_weight_def
proof (intro table_fits_bind)
  show "table_fits (sum_list (map (\<lambda>_. 10) (ct_module_handles common))) (serialize_module_handles (ct_module_handles common))"
    by (rule table_fits_entries[OF fits_handles(1)]) (simp add: serialize_module_handles_def)
  show "table_fits (sum_list (map struct_handle_weight (ct_struct_handles common)))
      (serialize_struct_handles (ct_struct_handles common))"
    by (rule table_fits_entries[OF fits_struct_handle])
       (use assms in \<open>simp_all add: serialize_struct_handles_def common_wf_def common_limits_def list_all_iff\<close>)
  show "table_fits (sum_list (map function_handle_weight (ct_function_handles common)))
      (serialize_function_handles (ct_function_handles common))"
    by (rule table_fits_entries[OF fits_function_handle])
       (use assms in \<open>simp_all add: serialize_function_handles_def common_wf_def common_limits_def list_all_iff\<close>)
  show "table_fits (sum_list (map (\<lambda>_. 10) (ct_function_instantiations common)))
      (serialize_function_instantiations (ct_function_instantiations common))"
    by (rule table_fits_entries[OF fits_handles(2)]) (simp add: serialize_function_instantiations_def)
  show "table_fits (sum_list (map signature_weight (ct_signatures common)))
      (serialize_signatures (ct_signatures common))"
    by (rule table_fits_entries[OF fits_signature])
       (use assms in \<open>simp_all add: serialize_signatures_def common_limits_def list_all_iff\<close>)
  show "table_fits (sum_list (map (\<lambda>s. 5 + length s) (ct_identifiers common)))
      (serialize_identifiers (ct_identifiers common))"
    by (rule table_fits_entries[OF fits_identifier])
       (use assms in \<open>simp_all add: serialize_identifiers_def common_limits_def list_all_iff\<close>)
  show "table_fits (sum_list (map length (ct_address_identifiers common)))
      (serialize_address_identifiers (ct_address_identifiers common))"
    by (rule table_fits_entries[OF fits_address]) (simp add: serialize_address_identifiers_def)
  show "table_fits (sum_list (map constant_weight (ct_constant_pool common)))
      (serialize_constants (ct_constant_pool common))"
    by (rule table_fits_entries[OF fits_constant])
       (use assms in \<open>simp_all add: serialize_constants_def common_limits_def list_all_iff\<close>)
qed

lemma module_tables_fit:
  assumes "module_wf m" "module_limits m"
  shows "table_fits (module_weight m) (serialize_tables m)"
proof -
  define common where "common = (\<lambda>(ser :: module_serializer, binary).
    rbind (serialize_common_tables (module_common_tables m) (mser_common ser, binary)) (\<lambda>(common, binary).
      Ok (ser\<lparr>mser_common := common\<rparr>, binary)))"
  have "serialize_tables m = (\<lambda>st. rbind (common st) (\<lambda>st.
     rbind (serialize_struct_definitions (cm_struct_defs m) st) (\<lambda>st.
     rbind (serialize_struct_def_instantiations (cm_struct_def_instantiations m) st) (\<lambda>st.
     rbind (serialize_function_definitions (cm_function_defs m) st) (\<lambda>st.
     rbind (serialize_field_handles (cm_field_handles m) st) (\<lambda>st.
     rbind (serialize_field_instantiations (cm_field_instantiations m) st)
       (serialize_friend_declarations (cm_friend_decls m))))))))"
    by (simp add: fun_eq_iff serialize_tables_def common_def rbind_assoc split_def)
  moreover have "table_fits (common_weight (module_common_tables m)) common"
    unfolding table_fits_def
  proof (intro allI impI)
    fix ser :: module_serializer and b :: "u8 list"
    assume "length b + common_weight (module_common_tables m) < 2 ^ 32"
    then obtain c bs where "serialize_common_tables (module_common_tables m) (mser_common ser, b) = Ok (c, b @ bs)"
        "length bs \<le> common_weight (module_common_tables m)"
      using table_fitsE[OF common_tables_fit, of "module_common_tables m" b] assms
      by (auto simp: module_wf_def module_limits_def)
    then show "\<exists>ser' bs. common (ser, b) = Ok (ser', b @ bs) \<and> length bs \<le> common_weight (module_common_tables m)"
      by (simp add: common_def)
  qed
  moreover have "table_fits (sum_list (map struct_definition_weight (cm_struct_defs m)))
      (serialize_struct_definitions (cm_struct_defs m))"
    by (rule table_fits_entries[OF fits_struct_definition])
       (use assms in \<open>simp_all add: serialize_struct_definitions_def module_limits_def list_all_iff\<close>)
  moreover have "table_fits (sum_list (map (\<lambda>_. 10) (cm_struct_def_instantiations m)))
      (serialize_struct_def_instantiations (cm_struct_def_instantiations m))"
    by (rule table_fits_entries[OF fits_handles(3)]) (simp add: serialize_struct_def_instantiations_def)
  moreover have "table_fits (sum_list (map function_definition_weight (cm_function_defs m)))
      (serialize_function_definitions (cm_function_defs m))"
    by (rule table_fits_entries[OF fits_function_definition])
       (use assms in \<open>simp_all add: serialize_function_definitions_def module_limits_def list_all_iff\<close>)
  moreover have "table_fits (sum_list (map (\<lambda>_. 10) (cm_field_handles m)))
      (serialize_field_handles (cm_field_handles m))"
    by (rule table_fits_entries[OF fits_field_handle])
       (use assms in \<open>simp_all add: serialize_field_handles_def module_limits_def list_all_iff\<close>)
  moreover have "table_fits (sum_list (map (\<lambda>_. 10) (cm_field_instantiations m)))
      (serialize_field_instantiations (cm_field_instantiations m))"
    by (rule table_fits_entries[OF fits_handles(4)]) (simp add: serialize_field_instantiations_def)
  moreover have "table_fits (sum_list (map (\<lambda>_. 10) (cm_friend_decls m)))
      (serialize_friend_declarations (cm_friend_decls m))"
    by (rule table_fits_entries[OF fits_handles(1)]) (simp add: serialize_friend_declarations_def)
  ultimately show ?thesis
    unfolding module_weight_def by (simp only:) (intro table_fits_bind)
qed

section \<open>Binaries\<close>

lemma fits_header: "fits 8 (serialize_header ser)"
proof -
  have "fits (length DIEM_MAGIC + length (to_le_bytes 4 (cser_major_version ser)))
      (\<lambda>b. rbind (for_each binary_push DIEM_MAGIC b) (binary_extend (to_le_bytes 4 (cser_major_version ser))))"
    by (intro fits_bind fits_bytes fits_extend)
  moreover have "serialize_header ser = (\<lambda>b. rbind (for_each binary_push DIEM_MAGIC b)
      (binary_extend (to_le_bytes 4 (cser_major_version ser))))"
    by (simp add: fun_eq_iff serialize_header_def serialize_magic_def write_u32_def[abs_def])
  ultimately show ?thesis by (simp add: DIEM_MAGIC_def del: to_le_bytes.simps)
qed

lemma fits_table_index: "fits 11 (serialize_table_index kind extent)"
proof (cases "snd extent = 0")
  case True
  then show ?thesis by (simp add: fits_def serialize_table_index_def)
next
  case False
  have "fits (1 + (5 + 5)) (\<lambda>b. rbind (binary_push (table_type_as_u8 kind) b) (\<lambda>b.
      rbind (seiralize_table_offset (fst extent) b) (serialize_table_size (snd extent))))"
    by (intro fits_bind fits_push fits_uleb) (simp_all add: word_bounds)
  then show ?thesis using False by (simp add: serialize_table_index_def[abs_def])
qed

lemma fits_table_indices:
  "fits 500 (serialize_module_table_indices mser)" "fits 500 (serialize_table_indices cser)"
proof -
  have each: "fits (5 + 11 * length tabs) (\<lambda>b. rbind (serialize_table_count n b)
      (for_each (\<lambda>(kind, extent). serialize_table_index kind extent) tabs))" for n tabs
    by (intro fits_bind fits_uleb fits_each_const) (auto simp: word_bounds intro: fits_table_index)
  show "fits 500 (serialize_module_table_indices mser)"
    unfolding serialize_module_table_indices_each[abs_def]
    by (rule fits_mono[OF each]) (simp add: common_kinds_def module_kinds_def)
  show "fits 500 (serialize_table_indices cser)"
    unfolding serialize_table_indices_each[abs_def]
    by (rule fits_mono[OF each]) (simp add: common_kinds_def)
qed

lemma module_serialize_total:
  assumes "module_wf m" "module_limits m" "module_weight m < 2 ^ 32"
  shows "\<exists>bytes. module_serialize m [] = Ok bytes"
proof -
  obtain ser temp where temp: "serialize_tables m (module_serializer_new VERSION_MAX, []) = Ok (ser, temp)"
      "length temp \<le> module_weight m"
    using table_fitsE[OF module_tables_fit[OF assms(1,2)], of "[]"] assms(3) by auto
  have "fits (8 + (500 + (length temp + 5))) (\<lambda>b. rbind (serialize_header (mser_common ser) b) (\<lambda>b.
      rbind (serialize_module_table_indices ser b) (\<lambda>b.
      rbind (binary_extend temp b) (serialize_module_handle_index (cm_self_module_handle_idx m)))))"
    by (intro fits_bind fits_header fits_table_indices fits_extend fits_index)
  then show ?thesis using temp assms(3) by (elim fitsE[where b = "[]"]) (auto simp: module_serialize_def)
qed

lemma script_serialize_total:
  assumes "script_wf s" "script_limits s" "common_weight (script_common_tables s) < 2 ^ 32"
  shows "\<exists>bytes. script_serialize s [] = Ok bytes"
proof -
  obtain ser temp where temp:
      "serialize_common_tables (script_common_tables s) (common_serializer_new VERSION_MAX, []) = Ok (ser, temp)"
      "length temp \<le> common_weight (script_common_tables s)"
    using table_fitsE[OF common_tables_fit, of "script_common_tables s" "[]"] assms
    by (auto simp: script_wf_def script_limits_def)
  define n where "n = 5 + 5 * length (cs_type_parameters s) + (5 + code_weight (cs_code s))"
  have "n < 2 ^ 32"
    using assms(2) by (simp add: n_def script_limits_def code_limits_def code_weight_def)
  moreover have "fits n (serialize_main s)"
    unfolding serialize_main_def n_def
    using assms(1,2) by (intro fits_bind fits_ability_sets fits_index fits_code) (simp_all add: script_wf_def script_limits_def)
  then have "fits (8 + (500 + (length temp + n))) (\<lambda>b. rbind (serialize_header ser b) (\<lambda>b.
      rbind (serialize_table_indices ser b) (\<lambda>b. rbind (binary_extend temp b) (serialize_main s))))"
    by (intro fits_bind fits_header fits_table_indices fits_extend)
  ultimately show ?thesis using temp assms(3) by (elim fitsE[where b = "[]"]) (auto simp: script_serialize_def)
qed

end
