(* ===== verification/Binary_Properties.thy ===== *)
theory Binary_Properties
  imports Serializer_Limits Example_Module
begin

text \<open>
  What the serializer and the deserializer guarantee of each other, for modules and for scripts.
\<close>

section \<open>The version plays no part in the bounds\<close>

lemma module_view_version:
  fixes m :: compiled_module and v :: u32
  defines "view \<equiv> ViewModule (m\<lparr>cm_version := v\<rparr>)"
  shows "module_handles view = module_handles (ViewModule m)" "struct_handles view = struct_handles (ViewModule m)"
    "function_handles view = function_handles (ViewModule m)" "identifiers view = identifiers (ViewModule m)"
    "address_identifiers view = address_identifiers (ViewModule m)" "constant_pool view = constant_pool (ViewModule m)"
    "signatures view = signatures (ViewModule m)"
    "function_instantiations view = function_instantiations (ViewModule m)"
    "field_handles view = field_handles (ViewModule m)" "friend_decls view = friend_decls (ViewModule m)"
    "struct_instantiations view = struct_instantiations (ViewModule m)"
    "field_instantiations view = field_instantiations (ViewModule m)"
    "struct_defs view = struct_defs (ViewModule m)" "function_defs view = function_defs (ViewModule m)"
    "self_handle_idx view = self_handle_idx (ViewModule m)"
  by (simp_all add: view_def view_tables)

lemma module_in_bounds_version: "module_in_bounds (m\<lparr>cm_version := v\<rparr>) = module_in_bounds m"
proof -
  have "tables_in_bounds (ViewModule (m\<lparr>cm_version := v\<rparr>)) = tables_in_bounds (ViewModule m)"
    unfolding bounds_predicates module_view_version by (rule refl)
  then show ?thesis by (simp add: module_in_bounds_def)
qed

lemma script_view_version:
  fixes s :: compiled_script and v :: u32
  defines "view \<equiv> ViewScript (s\<lparr>cs_version := v\<rparr>)"
  shows "module_handles view = module_handles (ViewScript s)" "struct_handles view = struct_handles (ViewScript s)"
    "function_handles view = function_handles (ViewScript s)" "identifiers view = identifiers (ViewScript s)"
    "address_identifiers view = address_identifiers (ViewScript s)" "constant_pool view = constant_pool (ViewScript s)"
    "signatures view = signatures (ViewScript s)"
    "function_instantiations view = function_instantiations (ViewScript s)"
    "field_handles view = field_handles (ViewScript s)" "friend_decls view = friend_decls (ViewScript s)"
    "struct_instantiations view = struct_instantiations (ViewScript s)"
    "field_instantiations view = field_instantiations (ViewScript s)"
    "struct_defs view = struct_defs (ViewScript s)" "function_defs view = function_defs (ViewScript s)"
    "self_handle_idx view = self_handle_idx (ViewScript s)"
  by (simp_all add: view_def view_tables)

lemma script_in_bounds_version: "script_in_bounds (s\<lparr>cs_version := v\<rparr>) = script_in_bounds s"
proof -
  let ?s = "s\<lparr>cs_version := v\<rparr>"
  have "tables_in_bounds (ViewScript ?s) = tables_in_bounds (ViewScript s)"
    "signature_params_ok (ViewScript ?s) n idx = signature_params_ok (ViewScript s) n idx"
    "body_ok (ViewScript ?s) code n parameters = body_ok (ViewScript s) code n parameters" for n idx code parameters
    unfolding bounds_predicates script_view_version by (rule refl)+
  then show ?thesis by (simp add: script_in_bounds_view)
qed

section \<open>Round trips\<close>

lemma module_deserialize_written:
  assumes "module_wf m" "module_in_bounds m" "module_serialize m [] = Ok bytes"
  shows "module_deserialize (bytes @ rest) = Ok (m\<lparr>cm_version := VERSION_MAX\<rparr>)"
  using assms(2) module_read_back[OF assms(1,3), of rest]
  by (simp add: module_deserialize_def rbind_eq_Ok bounds_verify_module_Ok module_in_bounds_version)

lemma script_deserialize_written:
  assumes "script_wf s" "script_in_bounds s" "script_serialize s [] = Ok bytes"
  shows "script_deserialize (bytes @ rest) = Ok (s\<lparr>cs_version := VERSION_MAX\<rparr>)"
  using assms(2) script_read_back[OF assms(1,3), of rest]
  by (simp add: script_deserialize_def rbind_eq_Ok bounds_verify_script_Ok script_in_bounds_version)

lemma module_deserialize_Ok:
  "module_deserialize bytes = Ok m \<Longrightarrow> module_wf m \<and> module_in_bounds m"
  by (auto simp: module_deserialize_def rbind_eq_Ok bounds_verify_module_Ok intro: deserialize_module_wf)

lemma script_deserialize_Ok:
  assumes "script_deserialize bytes = Ok s"
  shows "script_wf s \<and> script_in_bounds s"
proof -
  have "deserialize_compiled_script bytes = Ok s" and bounds: "script_in_bounds s"
    using assms by (auto simp: script_deserialize_def rbind_eq_Ok bounds_verify_script_Ok)
  then obtain contents tables s0 c tps c' where
      build: "build_compiled_script contents tables s0 = Ok s"
      and s0: "common_wf (script_common_tables s0)" "cs_type_parameters s0 = tps"
      and tps: "load_ability_sets FunctionTypeParameters c = Ok (tps, c')"
    by (auto simp: deserialize_compiled_script_def ok_iff common_wf_def script_common_tables_def)
  from build obtain common where common: "build_common_tables contents tables (script_common_tables s0) = Ok common"
      and s: "s = set_script_common_tables common s0"
    by (auto simp: build_compiled_script_def ok_iff)
  have "common_wf common" by (rule build_common_tables_wf[OF common s0(1)])
  moreover have "list_all abilities_wf tps"
    using reader_ok_elim[OF reader_ok_ability_sets tps] by blast
  ultimately show ?thesis
    using bounds s0(2)
    by (simp add: s script_wf_def common_wf_def script_common_tables_def set_script_common_tables_def)
qed

lemma example_wf: "module_wf example_module"
  by (simp add: module_wf_def common_wf_def module_common_tables_def example_module_def struct_handle_wf_def
      function_handle_wf_def identifier_wf_def address_wf_def struct_definition_wf_def field_wf_def
      abilities_wf_def type_parameter_wf_def ability_bit_defs identifier_is_valid_def all_bytes_valid_def
      is_valid_identifier_char_def string_bytes_def)

lemmas limits_defs = inner_tokens_def module_limits_def common_limits_def module_common_tables_def signature_limits_def
  token_limits_def preorder_traversal_with_depth_def struct_definition_limits_def
  function_definition_limits_def code_limits_def constant_limits_def

lemmas weight_defs = inner_tokens_def module_weight_def common_weight_def module_common_tables_def struct_handle_weight_def
  function_handle_weight_def signature_weight_def token_weight_def preorder_traversal_with_depth_def
  constant_weight_def struct_definition_weight_def field_definition_weight_def function_definition_weight_def
  code_weight_def

lemma example_limits: "module_limits example_module" "module_weight example_module < 2 ^ 32"
  by (simp_all add: limits_defs weight_defs example_module_def)

text \<open>\<^verbatim>\<open>main() { M::f(7) }\<close>\<close>

definition example_script :: compiled_script where
  "example_script = \<lparr>
     cs_version = 5,
     cs_module_handles = [\<lparr>mh_address = 0, mh_name = 0\<rparr>],
     cs_struct_handles = [],
     cs_function_handles =
       [\<lparr>fh_module = 0, fh_name = 1, fh_parameters = 1, fh_return = 0, fh_type_parameters = []\<rparr>],
     cs_function_instantiations = [],
     cs_signatures = [[], [U64]],
     cs_identifiers = [''M'', ''f''],
     cs_address_identifiers = [replicate 15 0 @ [1]],
     cs_constant_pool = [],
     cs_type_parameters = [], cs_parameters = 0,
     cs_code = \<lparr>cu_locals = 0, cu_code = [LdU64 7, Call 0, Ret]\<rparr>\<rparr>"

lemma example_script_wf: "script_wf example_script"
  by (simp add: script_wf_def common_wf_def script_common_tables_def example_script_def
      function_handle_wf_def identifier_wf_def address_wf_def identifier_is_valid_def all_bytes_valid_def
      is_valid_identifier_char_def string_bytes_def)

lemma example_script_limits:
  "script_limits example_script" "common_weight (script_common_tables example_script) < 2 ^ 32"
  by (simp_all add: script_limits_def script_common_tables_def limits_defs weight_defs example_script_def)

lemma example_script_in_bounds: "script_in_bounds example_script"
  by (simp add: script_in_bounds_view example_script_def bounds_predicates view_tables)

lemma example_module_in_bounds: "module_in_bounds example_module"
  using example_in_bounds by (simp add: module_in_bounds_def example_module_def)

lemma example_written:
  obtains bytes where "module_serialize example_module [] = Ok bytes"
  using module_serialize_total[OF example_wf example_limits] by blast

lemma example_script_written:
  obtains bytes where "script_serialize example_script [] = Ok bytes"
  using script_serialize_total[OF example_script_wf example_script_limits] by blast

section \<open>What the binary format guarantees\<close>

text \<open>
  C3: Modules survive serialization. If a module has valid names, addresses, ability sets and types,
  is within bounds, and is serialized, then deserializing the bytes, whatever follows them, gives
  the same module with the current version: every table, in the same order, the code and the index
  of the module itself.
\<close>

theorem module_round_trip:
  assumes "module_wf m" "module_in_bounds m" "module_serialize m [] = Ok bytes"
  shows "module_deserialize (bytes @ rest) = Ok (m\<lparr>cm_version := VERSION_MAX\<rparr>)"
  by (rule module_deserialize_written[OF assms])

theorem module_round_trip_witness:
  "\<exists>bytes. module_serialize example_module [] = Ok bytes \<and>
     module_deserialize bytes = Ok (example_module\<lparr>cm_version := VERSION_MAX\<rparr>)"
  using module_round_trip[OF example_wf example_module_in_bounds, where rest = "[]"] example_written
  by (metis append_Nil2)

text \<open>
  C7: Scripts survive serialization, under the same conditions: the tables, the type parameters, the
  parameters and the code of the script are read back.
\<close>

theorem script_round_trip:
  assumes "script_wf s" "script_in_bounds s" "script_serialize s [] = Ok bytes"
  shows "script_deserialize (bytes @ rest) = Ok (s\<lparr>cs_version := VERSION_MAX\<rparr>)"
  by (rule script_deserialize_written[OF assms])

theorem script_round_trip_witness:
  "\<exists>bytes. script_serialize example_script [] = Ok bytes \<and>
     script_deserialize bytes = Ok (example_script\<lparr>cs_version := VERSION_MAX\<rparr>)"
  using script_round_trip[OF example_script_wf example_script_in_bounds, where rest = "[]"] example_script_written
  by (metis append_Nil2)

text \<open>
  C8: Serialization succeeds within the limits of the format. A module whose lists, types and field
  offsets are within the limits, and whose tables take less than \<^verbatim>\<open>2^32\<close> bytes by an estimate from
  its entries, is serialized without an error or a panic.
\<close>

theorem module_serialize_within_limits:
  assumes "module_wf m" "module_limits m" "module_weight m < 2 ^ 32"
  shows "\<exists>bytes. module_serialize m [] = Ok bytes"
  by (rule module_serialize_total[OF assms])

theorem module_serialize_within_limits_witness: "\<exists>bytes. module_serialize example_module [] = Ok bytes"
  by (rule module_serialize_within_limits[OF example_wf example_limits])

text \<open>
  C6: What the deserializer accepts has the shape that the rest of the system relies on: valid
  identifiers, addresses of 16 bytes, ability sets without unknown bits, generic types with at
  least one argument, and every index within its table. So a module that was loaded and is
  serialized again is loaded as the same module, with the current version.
\<close>

theorem deserialized_module_stable:
  assumes "module_deserialize bytes = Ok m"
  shows "module_wf m \<and> module_in_bounds m \<and>
    (module_serialize m [] = Ok bytes' \<longrightarrow> module_deserialize bytes' = Ok (m\<lparr>cm_version := VERSION_MAX\<rparr>))"
  using module_deserialize_Ok[OF assms] module_deserialize_written[of m bytes' "[]"] by simp

theorem deserialized_module_stable_witness:
  "\<exists>bytes m. module_deserialize bytes = Ok m \<and> module_wf m \<and> module_in_bounds m \<and>
     cm_struct_defs m = cm_struct_defs example_module"
proof -
  obtain bytes where "module_serialize example_module [] = Ok bytes" by (rule example_written)
  then have bytes: "module_deserialize bytes = Ok (example_module\<lparr>cm_version := VERSION_MAX\<rparr>)"
    using module_deserialize_written[OF example_wf example_module_in_bounds, of bytes "[]"] by simp
  then show ?thesis
    using deserialized_module_stable[OF bytes]
    by (intro exI[of _ bytes] exI[of _ "example_module\<lparr>cm_version := VERSION_MAX\<rparr>"]) simp
qed

text \<open>
  C34: What the deserializer accepts as a script has entries within the bounds of their encodings, and its
  indices into the tables that a script has are in bounds (operands that name struct definitions or fields, for
  which a script has no tables, are not looked at); it is loaded as the same script, with the current
  version, once it is serialized again.
\<close>

theorem deserialized_script_stable:
  assumes "script_deserialize bytes = Ok s"
  shows "script_wf s \<and> script_in_bounds s \<and>
    (script_serialize s [] = Ok bytes' \<longrightarrow> script_deserialize bytes' = Ok (s\<lparr>cs_version := VERSION_MAX\<rparr>))"
  using script_deserialize_Ok[OF assms] script_deserialize_written[of s bytes' "[]"] by simp

theorem deserialized_script_stable_witness:
  "\<exists>bytes s. script_deserialize bytes = Ok s \<and> script_wf s \<and> script_in_bounds s \<and>
     cs_code s = cs_code example_script"
proof -
  obtain bytes where "script_serialize example_script [] = Ok bytes" by (rule example_script_written)
  then have bytes: "script_deserialize bytes = Ok (example_script\<lparr>cs_version := VERSION_MAX\<rparr>)"
    using script_deserialize_written[OF example_script_wf example_script_in_bounds, of bytes "[]"] by simp
  then show ?thesis
    using deserialized_script_stable[OF bytes]
    by (intro exI[of _ bytes] exI[of _ "example_script\<lparr>cs_version := VERSION_MAX\<rparr>"]) simp
qed

lemma empty_instantiation_written:
  obtains bs where "serialize_signature_token (StructInstantiation idx []) [] = Ok bs"
    "\<And>c rest. vc_version c = VERSION_MAX \<Longrightarrow> vc_rest c = bs @ rest \<Longrightarrow>
       read_next c = Ok (TB_StructInst idx 0 [], advance (length bs) c)"
proof -
  let ?tok = "StructInstantiation idx []"
  have "token_limits ?tok"
    by (simp add: token_limits_def preorder_traversal_with_depth_def preorder_depth_from_subtokens)
  then have "fits (token_weight ?tok) (serialize_signature_token ?tok)" by (rule fits_token)
  moreover have "token_weight ?tok = 11"
    by (simp add: token_weight_def preorder_traversal_with_depth_def preorder_depth_from_subtokens)
  ultimately have "\<exists>bs. serialize_signature_token ?tok [] = Ok ([] @ bs) \<and> length bs \<le> 11"
    unfolding fits_def by (auto dest: spec[of _ "[]"])
  then obtain bs where bs: "serialize_signature_token ?tok [] = Ok bs" by auto
  then have "write_node (?tok, 1) [] = Ok bs"
    by (simp add: serialize_signature_token_nodes ok_iff)
  then show ?thesis by (rule node_written) (rule that[OF bs], simp)
qed

text \<open>
  C37: The condition on generic types is needed. The serializer writes the instantiation of any struct with
  no type arguments. Whatever type \<open>tok\<close> is written after it, if it is one that is read back by
  itself and nested less deep than the limit of 256, the deserializer takes it as the type argument: it
  reads back another type than the one that was written, and the following type is consumed.
\<close>

theorem empty_instantiation_misread:
  assumes "token_wf tok" "serialize_signature_token tok [] = Ok ts"
    and "list_all (\<lambda>(_, depth). depth < SIGNATURE_TOKEN_DEPTH_MAX) (preorder_traversal_with_depth tok)"
  shows "\<exists>bs. serialize_signature_token (StructInstantiation idx []) [] = Ok bs \<and>
    (\<forall>c rest. vc_version c = VERSION_MAX \<longrightarrow> vc_rest c = bs @ ts @ rest \<longrightarrow>
       load_signature_token c = Ok (StructInstantiation idx [tok], advance (length (bs @ ts)) c))"
proof -
  obtain bs where bs: "serialize_signature_token (StructInstantiation idx []) [] = Ok bs"
      "\<And>c rest. vc_version c = VERSION_MAX \<Longrightarrow> vc_rest c = bs @ rest \<Longrightarrow>
         read_next c = Ok (TB_StructInst idx 0 [], advance (length bs) c)"
    by (rule empty_instantiation_written[of idx]) blast
  have "for_each write_node (subtokens_depth (Suc 1) tok) [] = Ok ts"
    using assms(2,3) unfolding subtokens_depth_Suc
    by (subst write_nodes_deeper)
       (simp_all add: serialize_signature_token_nodes preorder_traversal_with_depth_def preorder_depth_from_subtokens)
  then have ts: "token_read tok [TB_StructInst idx 0 []] ts"
    by (rule token_codes_elim[OF token_codes[OF assms(1)]]) simp
  have "load_signature_token c = Ok (StructInstantiation idx [tok], advance (length (bs @ ts)) c)"
    if c: "vc_version c = VERSION_MAX" "vc_rest c = bs @ ts @ rest" for c rest
  proof -
    have "token_loop [TB_StructInst idx 0 []] (advance (length bs) c) =
        token_loop [TB_Saturated tok, TB_StructInst idx 0 []] (advance (length ts) (advance (length bs) c))"
      using c by (intro token_read_push[OF ts]) simp_all
    also have "\<dots> = Ok (StructInstantiation idx [tok], advance (length (bs @ ts)) c)"
      by (simp add: token_loop_simps(2,3) type_builder_apply_def)
    finally show ?thesis using bs(2)[OF c] by (simp add: load_signature_token_def)
  qed
  with bs(1) show ?thesis by blast
qed

text \<open>The type \<^verbatim>\<open>vector<bool>\<close> after an instantiation of the struct with handle 3.\<close>

theorem empty_instantiation_misread_witness:
  "load_signature_token \<lparr>vc_version = VERSION_MAX, vc_position = 0, vc_rest = [0xB, 3, 0, 0xA, 1]\<rparr>
     = Ok (StructInstantiation 3 [Vector Bool], \<lparr>vc_version = VERSION_MAX, vc_position = 5, vc_rest = []\<rparr>)"
proof -
  note defs = serialize_signature_token_nodes write_node_def serialize_signature_token_single_node_impl_def
    serialize_table_entry_index_def write_as_uleb128_def write_u64_as_uleb128.simps binary_push_def
    serialized_type_as_u8_def Let_def
  have "serialize_signature_token (StructInstantiation 3 []) [] = Ok [0xB, 3, 0]" by (simp add: defs)
  moreover have "serialize_signature_token (Vector Bool) [] = Ok [0xA, 1]" by (simp add: defs)
  moreover have "list_all (\<lambda>(_, depth). depth < SIGNATURE_TOKEN_DEPTH_MAX) (preorder_traversal_with_depth (Vector Bool))"
    by (simp add: preorder_traversal_with_depth_def preorder_depth_from_subtokens)
  ultimately show ?thesis
    using empty_instantiation_misread[of "Vector Bool" "[0xA, 1]" 3] by (simp add: advance_def)
qed

section \<open>Keys of instructions\<close>

definition appends :: "writer \<Rightarrow> bool" where
  "appends w \<longleftrightarrow> (\<forall>b b'. w b = Ok b' \<longrightarrow> (\<exists>bs. b' = b @ bs))"

lemma appends_extend: "appends (binary_extend bytes)"
  by (auto simp: appends_def binary_extend_def split: if_split_asm)

lemma appends_uleb: "appends (write_as_uleb128 n bound)"
  by (auto simp: appends_def write_as_uleb128_def write_uleb128_Ok split: if_split_asm)

lemma appends_push: "appends (binary_push byte)"
  by (auto simp: appends_def binary_push_def split: if_split_asm)

lemma appends_bind: "appends w \<Longrightarrow> appends v \<Longrightarrow> appends (\<lambda>b. rbind (w b) v)"
  unfolding appends_def rbind_eq_Ok by fastforce

lemma push_key: "binary_push key b = Ok b' \<Longrightarrow> \<exists>operands. b' = b @ key # operands"
  by (auto simp: binary_push_def split: if_split_asm)

lemma push_key_then:
  assumes "appends w" "rbind (binary_push key b) w = Ok b'"
  shows "\<exists>operands. b' = b @ key # operands"
  using assms unfolding appends_def rbind_eq_Ok by (fastforce simp: binary_push_def split: if_split_asm)

text \<open>
  C36: The key of an instruction is its serialized form without its operands: whatever instruction is
  written, the first byte that is appended is its key.
\<close>

theorem instruction_key_first_byte:
  assumes "serialize_instruction_inner instr binary = Ok binary'"
  shows "\<exists>operands. binary' = binary @ instruction_key instr # operands"
proof -
  have operands: "appends (serialize_table_entry_index idx)" "appends (write_u64 n)" "appends (write_u128 k)" for idx n k
    unfolding serialize_table_entry_index_def write_u64_def write_u128_def
    by (rule appends_uleb appends_extend)+
  show ?thesis
    using assms unfolding serialize_instruction_inner_def instruction_key_def
    by (cases instr)
       (auto elim!: push_key push_key_then[rotated] intro!: operands appends_uleb appends_push appends_bind)
qed

theorem instruction_key_first_byte_witness:
  "serialize_instruction_inner (StLoc 3) [] = Ok [0xC, 3] \<and>
   (\<exists>operands. [0xC, 3] = [] @ instruction_key (StLoc 3) # operands)"
proof -
  have written: "serialize_instruction_inner (StLoc 3) [] = Ok [0xC, 3]"
    by (simp add: serialize_instruction_inner_def write_as_uleb128_def write_u64_as_uleb128.simps
        binary_push_def opcode_as_u8_def Let_def)
  show ?thesis using written instruction_key_first_byte[OF written] by simp
qed

end
