(* ===== verification/Cyclic_Dependencies.thy ===== *)
theory Cyclic_Dependencies
  imports Module_Access Example_Module
begin

text \<open>
  The check for cycles among modules (\<^verbatim>\<open>move-bytecode-verifier/src/cyclic_dependencies.rs\<close>). The
  immediate dependencies and friends of other modules come from closures of the caller, which may
  fail. The search need not end on an infinite graph, so that its value is optional; on a finite
  one it ends and the check is exact.
\<close>

section \<open>The search\<close>

text \<open>
  The loop over the modules to explore with the body of
  \<^verbatim>\<open>collect_all_with_cycle_detection_recursive\<close>, which runs the same loop on the neighbours of a
  module. The result is whether the target was found, and the modules visited.
\<close>

partial_function (option) collect_all_with_cycle_detection_recursive ::
  "module_id \<Rightarrow> (module_id \<Rightarrow> module_id list vm_result) \<Rightarrow> module_id list \<Rightarrow> module_id set \<Rightarrow>
     (bool \<times> module_id set) vm_result option" where
  "collect_all_with_cycle_detection_recursive target nexts items visited =
     (case items of
        [] \<Rightarrow> Some (Ok (False, visited))
      | cursor # rest \<Rightarrow>
          if cursor = target then Some (Ok (True, visited))
          else if cursor \<in> visited
          then collect_all_with_cycle_detection_recursive target nexts rest visited
          else
            (case nexts cursor of
               Ok ns \<Rightarrow>
                 Option.bind (collect_all_with_cycle_detection_recursive target nexts ns (insert cursor visited)) (\<lambda>r.
                   case r of
                     Ok (found, visited) \<Rightarrow>
                       if found then Some (Ok (True, visited))
                       else collect_all_with_cycle_detection_recursive target nexts rest visited
                   | Err e \<Rightarrow> Some (Err e)
                   | Panic \<Rightarrow> Some Panic)
             | Err e \<Rightarrow> Some (Err e)
             | Panic \<Rightarrow> Some Panic))"

lemmas explore_simps = collect_all_with_cycle_detection_recursive.simps

definition collect_all_with_cycle_detection ::
  "module_id \<Rightarrow> module_id list \<Rightarrow> (module_id \<Rightarrow> module_id list vm_result) \<Rightarrow> status_code \<Rightarrow>
     module_id set vm_result option" where
  "collect_all_with_cycle_detection target items nexts error_on_cycle =
     map_option (\<lambda>r. rbind r (\<lambda>(found, visited).
         if found then Err (new_error error_on_cycle) else Ok visited))
       (collect_all_with_cycle_detection_recursive target nexts items {})"

definition cyclic_verify_module_impl ::
  "compiled_module \<Rightarrow> (module_id \<Rightarrow> module_id list vm_result) \<Rightarrow> (module_id \<Rightarrow> module_id list vm_result) \<Rightarrow>
     unit vm_result option" where
  "cyclic_verify_module_impl m imm_deps imm_friends =
     (case rbind (self_id m) (\<lambda>self. rbind (immediate_dependencies m) (\<lambda>deps. Ok (self, deps))) of
        Err e \<Rightarrow> Some (Err e)
      | Panic \<Rightarrow> Some Panic
      | Ok (self, deps) \<Rightarrow>
          Option.bind (collect_all_with_cycle_detection self deps imm_deps CYCLIC_MODULE_DEPENDENCY) (\<lambda>r.
            case rbind r (\<lambda>all_deps. rbind (immediate_friends m) (\<lambda>friends. Ok (all_deps, friends))) of
              Err e \<Rightarrow> Some (Err e)
            | Panic \<Rightarrow> Some Panic
            | Ok (all_deps, friends) \<Rightarrow>
                map_option (\<lambda>r. rbind r (\<lambda>all_friends.
                    if all_deps \<inter> all_friends \<noteq> {}
                    then Err (new_error INVALID_FRIEND_DECL_WITH_MODULES_IN_DEPENDENCIES)
                    else Ok ()))
                  (collect_all_with_cycle_detection self friends imm_friends CYCLIC_MODULE_FRIENDSHIP)))"

definition cyclic_verify_module ::
  "compiled_module \<Rightarrow> (module_id \<Rightarrow> module_id list vm_result) \<Rightarrow> (module_id \<Rightarrow> module_id list vm_result) \<Rightarrow>
     (unit, vm_error) result option" where
  "cyclic_verify_module m imm_deps imm_friends =
     map_option (finish_in_module m) (cyclic_verify_module_impl m imm_deps imm_friends)"

section \<open>Reachable modules\<close>

definition module_edges :: "(module_id \<Rightarrow> module_id list vm_result) \<Rightarrow> (module_id \<times> module_id) set" where
  "module_edges nexts = {(x, y). \<exists>ns. nexts x = Ok ns \<and> y \<in> set ns}"

definition reachable_modules ::
  "(module_id \<Rightarrow> module_id list vm_result) \<Rightarrow> module_id list \<Rightarrow> module_id set" where
  "reachable_modules nexts items = (module_edges nexts)\<^sup>* `` set items"

text \<open>What the closures provide: the modules that can be reached are finitely many and all known.\<close>

definition explorable :: "(module_id \<Rightarrow> module_id list vm_result) \<Rightarrow> module_id list \<Rightarrow> bool" where
  "explorable nexts items \<longleftrightarrow> finite (reachable_modules nexts items) \<and>
     (\<forall>x \<in> reachable_modules nexts items. \<exists>ns. nexts x = Ok ns)"

text \<open>
  The result of the search from \<open>V\<close>: what was added is reachable, and if the target was not found,
  it is not among what was added, which is closed under the edges up to \<open>V\<close>.
\<close>

definition explored ::
  "module_id \<Rightarrow> (module_id \<Rightarrow> module_id list vm_result) \<Rightarrow> module_id list \<Rightarrow> module_id set \<Rightarrow> bool \<Rightarrow>
     module_id set \<Rightarrow> bool" where
  "explored target nexts items V found V' \<longleftrightarrow>
     V \<subseteq> V' \<and> V' - V \<subseteq> reachable_modules nexts items \<and>
     (if found then target \<in> reachable_modules nexts items
      else set items \<subseteq> V' \<and> target \<notin> set items \<and> target \<notin> V' - V \<and> module_edges nexts `` (V' - V) \<subseteq> V')"

lemma reachable_item: "x \<in> set items \<Longrightarrow> x \<in> reachable_modules nexts items"
  by (auto simp: reachable_modules_def)

lemma reachable_step:
  assumes "nexts x = Ok ns"
  shows "reachable_modules nexts ns \<subseteq> reachable_modules nexts (x # rest)"
proof -
  have "(x, y) \<in> module_edges nexts" if "y \<in> set ns" for y using assms that by (simp add: module_edges_def)
  then show ?thesis
    unfolding reachable_modules_def by (auto simp: Image_iff intro: converse_rtrancl_into_rtrancl)
qed

lemma reachable_rest: "reachable_modules nexts rest \<subseteq> reachable_modules nexts (x # rest)"
  by (auto simp: reachable_modules_def)

lemma reachable_closed: "x \<in> reachable_modules nexts items \<Longrightarrow> nexts x = Ok ns \<Longrightarrow> set ns \<subseteq> reachable_modules nexts items"
  by (auto simp: reachable_modules_def module_edges_def intro: rtrancl_into_rtrancl)

lemma explored_rest:
  assumes "explored target nexts rest V found V'" "cursor \<in> V" "cursor \<noteq> target"
  shows "explored target nexts (cursor # rest) V found V'"
  using assms subsetD[OF reachable_rest, of _ nexts rest cursor] unfolding explored_def
  by (cases found) auto

lemma explored_found:
  assumes "explored target nexts ns (insert cursor V) True V'" "nexts cursor = Ok ns"
  shows "explored target nexts (cursor # rest) V True V'"
  using assms subsetD[OF reachable_step[of nexts cursor ns, OF assms(2)], of _ rest] reachable_item[of cursor "cursor # rest" nexts]
  unfolding explored_def by auto

lemma explored_next:
  assumes inner: "explored target nexts ns (insert cursor V) False V1" and ns: "nexts cursor = Ok ns"
    and rest: "explored target nexts rest V1 found V'" and cursor: "cursor \<noteq> target"
  shows "explored target nexts (cursor # rest) V found V'"
proof -
  note new = inner[unfolded explored_def, simplified] and later = rest[unfolded explored_def]
  have "V' - V1 \<subseteq> reachable_modules nexts (cursor # rest)"
    using later reachable_rest[of nexts rest cursor] by blast
  moreover have "V1 - insert cursor V \<subseteq> reachable_modules nexts (cursor # rest)"
    using new reachable_step[of nexts cursor ns rest, OF ns] by blast
  ultimately have "V' - V \<subseteq> reachable_modules nexts (cursor # rest)"
    using reachable_item[of cursor "cursor # rest" nexts] by auto
  moreover have "module_edges nexts `` (V' - V) \<subseteq> V'" if "\<not> found"
  proof -
    have "module_edges nexts `` {cursor} \<subseteq> V1"
      using new ns by (auto simp: module_edges_def)
    moreover have "module_edges nexts `` (V1 - insert cursor V) \<subseteq> V1" using new by blast
    moreover have "module_edges nexts `` (V' - V1) \<subseteq> V'" "V1 \<subseteq> V'" using later that by auto
    ultimately show ?thesis by blast
  qed
  ultimately show ?thesis
    using new later cursor reachable_rest[of nexts rest cursor] unfolding explored_def by (cases found) auto
qed

text \<open>On a finite set of modules that is closed under the edges, the search returns.\<close>

lemma explore_run:
  assumes fin: "finite R" and closed: "\<And>x. x \<in> R \<Longrightarrow> \<exists>ns. nexts x = Ok ns \<and> set ns \<subseteq> R"
    and "set items \<subseteq> R" "V \<subseteq> R"
  shows "\<exists>found V'. collect_all_with_cycle_detection_recursive target nexts items V = Some (Ok (found, V')) \<and>
    explored target nexts items V found V' \<and> V' \<subseteq> R"
  using assms(3,4)
proof (induction "card (R - V)" arbitrary: items V rule: less_induct)
  case less
  from less.prems show ?case
  proof (induction items)
    case Nil
    then show ?case by (intro exI[of _ False]) (simp add: explore_simps explored_def)
  next
    case (Cons cursor rest)
    consider (target) "cursor = target" | (seen) "cursor \<noteq> target" "cursor \<in> V"
      | (new) "cursor \<noteq> target" "cursor \<notin> V" by blast
    then show ?case
    proof cases
      case target
      then show ?thesis
        using Cons.prems by (intro exI[of _ True] exI[of _ V]) (simp add: explore_simps explored_def reachable_item)
    next
      case seen
      then show ?thesis using Cons by (subst explore_simps) (auto intro: explored_rest)
    next
      case new
      obtain ns where ns: "nexts cursor = Ok ns" "set ns \<subseteq> R" using closed[of cursor] Cons.prems by auto
      have smaller: "card (R - W) < card (R - V)" if "insert cursor V \<subseteq> W" for W
        using that new Cons.prems fin by (intro psubset_card_mono) auto
      obtain found V1 where inner:
          "collect_all_with_cycle_detection_recursive target nexts ns (insert cursor V) = Some (Ok (found, V1))"
          "explored target nexts ns (insert cursor V) found V1" "V1 \<subseteq> R"
        using less.hyps[OF smaller, of "insert cursor V" ns] ns Cons.prems by auto
      show ?thesis
      proof (cases found)
        case True
        then show ?thesis
          using inner new ns by (subst explore_simps) (auto intro: explored_found)
      next
        case False
        have "insert cursor V \<subseteq> V1" using inner(2) by (simp add: explored_def)
        then obtain found' V' where
            "collect_all_with_cycle_detection_recursive target nexts rest V1 = Some (Ok (found', V'))"
            "explored target nexts rest V1 found' V'" "V' \<subseteq> R"
          using less.hyps[OF smaller, of V1 rest] inner(3) Cons.prems by auto
        then show ?thesis
          using False inner new ns by (subst explore_simps) (auto intro: explored_next)
      qed
    qed
  qed
qed

text \<open>A search from scratch collects exactly what can be reached, unless it finds the target.\<close>

lemma collect_all_spec:
  assumes "explorable nexts items"
  shows "collect_all_with_cycle_detection target items nexts code =
    Some (if target \<in> reachable_modules nexts items then Err (new_error code)
          else Ok (reachable_modules nexts items))"
proof -
  let ?R = "reachable_modules nexts items"
  have "\<exists>ns. nexts x = Ok ns \<and> set ns \<subseteq> ?R" if "x \<in> ?R" for x
    using assms that reachable_closed[of x nexts items] by (auto simp: explorable_def)
  then obtain found V where run: "collect_all_with_cycle_detection_recursive target nexts items {} = Some (Ok (found, V))"
      and V: "explored target nexts items {} found V" "V \<subseteq> ?R"
    using explore_run[of ?R nexts items "{}" target] assms reachable_item[of _ items nexts]
    by (auto simp: explorable_def subset_iff)
  have "?R \<subseteq> V" if "\<not> found"
  proof -
    have "set items \<subseteq> V" "module_edges nexts `` V \<subseteq> V" using V(1) that by (auto simp: explored_def)
    then show ?thesis
      unfolding reachable_modules_def using Image_closed_trancl Image_mono by blast
  qed
  then show ?thesis
    using run V by (auto simp: collect_all_with_cycle_detection_def explored_def)
qed

section \<open>What the pass guarantees\<close>

definition importing_module :: compiled_module where
  "importing_module = example_module\<lparr>
     cm_module_handles := [\<lparr>mh_address = 0, mh_name = 0\<rparr>, \<lparr>mh_address = 0, mh_name = 1\<rparr>],
     cm_friend_decls := [\<lparr>mh_address = 0, mh_name = 2\<rparr>]\<rparr>"

lemma importing_module_in_bounds: "tables_in_bounds (ViewModule importing_module)"
  by (simp add: importing_module_def example_module_def bounds_predicates view_tables)

text \<open>
  C11: The check for cyclic dependencies is exact. On a module within bounds, and when finitely many
  modules can be reached and all of them are known, the search ends without a panic, and the module
  is accepted exactly when it can reach itself neither through dependencies nor through friends,
  and no direct or transitive dependency is a direct or transitive friend.
\<close>

theorem cyclic_verify_module_spec:
  assumes "tables_in_bounds (ViewModule m)"
    and "immediate_dependencies m = (Ok deps :: module_id list vm_result)"
    and "immediate_friends m = (Ok friends :: module_id list vm_result)"
    and "explorable imm_deps deps" "explorable imm_friends friends"
  shows "\<exists>r. cyclic_verify_module m imm_deps imm_friends = Some r \<and> r \<noteq> Panic \<and>
    (r = Ok () \<longleftrightarrow> self_module_id m \<notin> reachable_modules imm_deps deps \<and>
       self_module_id m \<notin> reachable_modules imm_friends friends \<and>
       reachable_modules imm_deps deps \<inter> reachable_modules imm_friends friends = {})"
  unfolding cyclic_verify_module_def cyclic_verify_module_impl_def
  using assms
  by (simp add: self_id_resolves collect_all_spec finish_in_module_not_Panic)

theorem cyclic_verify_module_spec_witness:
  "cyclic_verify_module importing_module (\<lambda>_. Ok []) (\<lambda>_. Ok []) = Some (Ok ())"
proof -
  let ?id = "\<lambda>name. \<lparr>mid_address = replicate 15 0 @ [1], mid_name = name\<rparr>"
  have ids: "immediate_dependencies importing_module = Ok [?id ''Coin'']"
    "immediate_friends importing_module = Ok [?id ''Box'']" "self_module_id importing_module = ?id ''M''"
    by (simp_all add: immediate_dependencies_def immediate_friends_def self_handle_def module_access_defs
        module_id_for_handle_def self_module_id_def importing_module_def example_module_def vec_index_def)
  have reach: "reachable_modules (\<lambda>_. Ok []) items = set items" for items
    by (auto simp: reachable_modules_def module_edges_def)
  show ?thesis
    using cyclic_verify_module_spec[OF importing_module_in_bounds ids(1,2), of "\<lambda>_. Ok []" "\<lambda>_. Ok []"]
    by (auto simp: explorable_def reach ids)
qed

end
