(* ===== verification/Integer_Values.thy ===== *)
theory Integer_Values
  imports Errors
begin

unbundle bit_operations_syntax

text \<open>
  The integers of the virtual machine (\<^verbatim>\<open>IntegerValue\<close> in
  \<^verbatim>\<open>move-vm/types/src/values/values_impl.rs\<close>) and their checked operations. The specification is on
  unbounded numbers: an arithmetic operation on two integers of the same width gives the exact result when
  it is in the range of that width, and an arithmetic error otherwise; a shift to the left is the only
  operation that drops bits.
\<close>

section \<open>The checked operations of the machine integers\<close>

definition checked_add :: "'a::len word \<Rightarrow> 'a word \<Rightarrow> 'a word option" where
  "checked_add l r = (if unat l + unat r < 2 ^ LENGTH('a) then Some (l + r) else None)"

definition checked_sub :: "'a::len word \<Rightarrow> 'a word \<Rightarrow> 'a word option" where
  "checked_sub l r = (if r \<le> l then Some (l - r) else None)"

definition checked_mul :: "'a::len word \<Rightarrow> 'a word \<Rightarrow> 'a word option" where
  "checked_mul l r = (if unat l * unat r < 2 ^ LENGTH('a) then Some (l * r) else None)"

definition checked_div :: "'a::len word \<Rightarrow> 'a word \<Rightarrow> 'a word option" where
  "checked_div l r = (if r = 0 then None else Some (l div r))"

definition checked_rem :: "'a::len word \<Rightarrow> 'a word \<Rightarrow> 'a word option" where
  "checked_rem l r = (if r = 0 then None else Some (l mod r))"

section \<open>Integer values\<close>

datatype integer_value = IntU8 u8 | IntU64 u64 | IntU128 u128

definition add_checked :: "integer_value \<Rightarrow> integer_value \<Rightarrow> integer_value vm_result" where
  "add_checked self other =
     (case (self, other) of
        (IntU8 l, IntU8 r) \<Rightarrow> ok_or (new_error ARITHMETIC_ERROR) (map_option IntU8 (checked_add l r))
      | (IntU64 l, IntU64 r) \<Rightarrow> ok_or (new_error ARITHMETIC_ERROR) (map_option IntU64 (checked_add l r))
      | (IntU128 l, IntU128 r) \<Rightarrow> ok_or (new_error ARITHMETIC_ERROR) (map_option IntU128 (checked_add l r))
      | _ \<Rightarrow> Err (new_error INTERNAL_TYPE_ERROR))"

definition sub_checked :: "integer_value \<Rightarrow> integer_value \<Rightarrow> integer_value vm_result" where
  "sub_checked self other =
     (case (self, other) of
        (IntU8 l, IntU8 r) \<Rightarrow> ok_or (new_error ARITHMETIC_ERROR) (map_option IntU8 (checked_sub l r))
      | (IntU64 l, IntU64 r) \<Rightarrow> ok_or (new_error ARITHMETIC_ERROR) (map_option IntU64 (checked_sub l r))
      | (IntU128 l, IntU128 r) \<Rightarrow> ok_or (new_error ARITHMETIC_ERROR) (map_option IntU128 (checked_sub l r))
      | _ \<Rightarrow> Err (new_error INTERNAL_TYPE_ERROR))"

definition mul_checked :: "integer_value \<Rightarrow> integer_value \<Rightarrow> integer_value vm_result" where
  "mul_checked self other =
     (case (self, other) of
        (IntU8 l, IntU8 r) \<Rightarrow> ok_or (new_error ARITHMETIC_ERROR) (map_option IntU8 (checked_mul l r))
      | (IntU64 l, IntU64 r) \<Rightarrow> ok_or (new_error ARITHMETIC_ERROR) (map_option IntU64 (checked_mul l r))
      | (IntU128 l, IntU128 r) \<Rightarrow> ok_or (new_error ARITHMETIC_ERROR) (map_option IntU128 (checked_mul l r))
      | _ \<Rightarrow> Err (new_error INTERNAL_TYPE_ERROR))"

definition div_checked :: "integer_value \<Rightarrow> integer_value \<Rightarrow> integer_value vm_result" where
  "div_checked self other =
     (case (self, other) of
        (IntU8 l, IntU8 r) \<Rightarrow> ok_or (new_error ARITHMETIC_ERROR) (map_option IntU8 (checked_div l r))
      | (IntU64 l, IntU64 r) \<Rightarrow> ok_or (new_error ARITHMETIC_ERROR) (map_option IntU64 (checked_div l r))
      | (IntU128 l, IntU128 r) \<Rightarrow> ok_or (new_error ARITHMETIC_ERROR) (map_option IntU128 (checked_div l r))
      | _ \<Rightarrow> Err (new_error INTERNAL_TYPE_ERROR))"

definition rem_checked :: "integer_value \<Rightarrow> integer_value \<Rightarrow> integer_value vm_result" where
  "rem_checked self other =
     (case (self, other) of
        (IntU8 l, IntU8 r) \<Rightarrow> ok_or (new_error ARITHMETIC_ERROR) (map_option IntU8 (checked_rem l r))
      | (IntU64 l, IntU64 r) \<Rightarrow> ok_or (new_error ARITHMETIC_ERROR) (map_option IntU64 (checked_rem l r))
      | (IntU128 l, IntU128 r) \<Rightarrow> ok_or (new_error ARITHMETIC_ERROR) (map_option IntU128 (checked_rem l r))
      | _ \<Rightarrow> Err (new_error INTERNAL_TYPE_ERROR))"

definition bit_or :: "integer_value \<Rightarrow> integer_value \<Rightarrow> integer_value vm_result" where
  "bit_or self other =
     (case (self, other) of
        (IntU8 l, IntU8 r) \<Rightarrow> Ok (IntU8 (l OR r))
      | (IntU64 l, IntU64 r) \<Rightarrow> Ok (IntU64 (l OR r))
      | (IntU128 l, IntU128 r) \<Rightarrow> Ok (IntU128 (l OR r))
      | _ \<Rightarrow> Err (new_error INTERNAL_TYPE_ERROR))"

definition bit_and :: "integer_value \<Rightarrow> integer_value \<Rightarrow> integer_value vm_result" where
  "bit_and self other =
     (case (self, other) of
        (IntU8 l, IntU8 r) \<Rightarrow> Ok (IntU8 (l AND r))
      | (IntU64 l, IntU64 r) \<Rightarrow> Ok (IntU64 (l AND r))
      | (IntU128 l, IntU128 r) \<Rightarrow> Ok (IntU128 (l AND r))
      | _ \<Rightarrow> Err (new_error INTERNAL_TYPE_ERROR))"

definition bit_xor :: "integer_value \<Rightarrow> integer_value \<Rightarrow> integer_value vm_result" where
  "bit_xor self other =
     (case (self, other) of
        (IntU8 l, IntU8 r) \<Rightarrow> Ok (IntU8 (l XOR r))
      | (IntU64 l, IntU64 r) \<Rightarrow> Ok (IntU64 (l XOR r))
      | (IntU128 l, IntU128 r) \<Rightarrow> Ok (IntU128 (l XOR r))
      | _ \<Rightarrow> Err (new_error INTERNAL_TYPE_ERROR))"

definition shl_checked :: "integer_value \<Rightarrow> u8 \<Rightarrow> integer_value vm_result" where
  "shl_checked self n_bits =
     (case self of
        IntU8 x \<Rightarrow>
          if n_bits \<ge> 8 then Err (new_error ARITHMETIC_ERROR) else Ok (IntU8 (push_bit (unat n_bits) x))
      | IntU64 x \<Rightarrow>
          if n_bits \<ge> 64 then Err (new_error ARITHMETIC_ERROR) else Ok (IntU64 (push_bit (unat n_bits) x))
      | IntU128 x \<Rightarrow>
          if n_bits \<ge> 128 then Err (new_error ARITHMETIC_ERROR) else Ok (IntU128 (push_bit (unat n_bits) x)))"

definition shr_checked :: "integer_value \<Rightarrow> u8 \<Rightarrow> integer_value vm_result" where
  "shr_checked self n_bits =
     (case self of
        IntU8 x \<Rightarrow>
          if n_bits \<ge> 8 then Err (new_error ARITHMETIC_ERROR) else Ok (IntU8 (drop_bit (unat n_bits) x))
      | IntU64 x \<Rightarrow>
          if n_bits \<ge> 64 then Err (new_error ARITHMETIC_ERROR) else Ok (IntU64 (drop_bit (unat n_bits) x))
      | IntU128 x \<Rightarrow>
          if n_bits \<ge> 128 then Err (new_error ARITHMETIC_ERROR) else Ok (IntU128 (drop_bit (unat n_bits) x)))"

definition integer_lt :: "integer_value \<Rightarrow> integer_value \<Rightarrow> bool vm_result" where
  "integer_lt self other =
     (case (self, other) of
        (IntU8 l, IntU8 r) \<Rightarrow> Ok (l < r)
      | (IntU64 l, IntU64 r) \<Rightarrow> Ok (l < r)
      | (IntU128 l, IntU128 r) \<Rightarrow> Ok (l < r)
      | _ \<Rightarrow> Err (new_error INTERNAL_TYPE_ERROR))"

definition integer_le :: "integer_value \<Rightarrow> integer_value \<Rightarrow> bool vm_result" where
  "integer_le self other =
     (case (self, other) of
        (IntU8 l, IntU8 r) \<Rightarrow> Ok (l \<le> r)
      | (IntU64 l, IntU64 r) \<Rightarrow> Ok (l \<le> r)
      | (IntU128 l, IntU128 r) \<Rightarrow> Ok (l \<le> r)
      | _ \<Rightarrow> Err (new_error INTERNAL_TYPE_ERROR))"

definition integer_gt :: "integer_value \<Rightarrow> integer_value \<Rightarrow> bool vm_result" where
  "integer_gt self other =
     (case (self, other) of
        (IntU8 l, IntU8 r) \<Rightarrow> Ok (l > r)
      | (IntU64 l, IntU64 r) \<Rightarrow> Ok (l > r)
      | (IntU128 l, IntU128 r) \<Rightarrow> Ok (l > r)
      | _ \<Rightarrow> Err (new_error INTERNAL_TYPE_ERROR))"

definition integer_ge :: "integer_value \<Rightarrow> integer_value \<Rightarrow> bool vm_result" where
  "integer_ge self other =
     (case (self, other) of
        (IntU8 l, IntU8 r) \<Rightarrow> Ok (l \<ge> r)
      | (IntU64 l, IntU64 r) \<Rightarrow> Ok (l \<ge> r)
      | (IntU128 l, IntU128 r) \<Rightarrow> Ok (l \<ge> r)
      | _ \<Rightarrow> Err (new_error INTERNAL_TYPE_ERROR))"

definition cast_u8 :: "integer_value \<Rightarrow> u8 vm_result" where
  "cast_u8 self =
     (case self of
        IntU8 x \<Rightarrow> Ok x
      | IntU64 x \<Rightarrow> if x > 0xff then Err (new_error ARITHMETIC_ERROR) else Ok (ucast x)
      | IntU128 x \<Rightarrow> if x > 0xff then Err (new_error ARITHMETIC_ERROR) else Ok (ucast x))"

definition cast_u64 :: "integer_value \<Rightarrow> u64 vm_result" where
  "cast_u64 self =
     (case self of
        IntU8 x \<Rightarrow> Ok (ucast x)
      | IntU64 x \<Rightarrow> Ok x
      | IntU128 x \<Rightarrow> if x > 0xffffffffffffffff then Err (new_error ARITHMETIC_ERROR) else Ok (ucast x))"

definition cast_u128 :: "integer_value \<Rightarrow> u128 vm_result" where
  "cast_u128 self =
     (case self of IntU8 x \<Rightarrow> Ok (ucast x) | IntU64 x \<Rightarrow> Ok (ucast x) | IntU128 x \<Rightarrow> Ok x)"

section \<open>The specification\<close>

text \<open>An integer as its width and its number, and the exact result of an operation.\<close>

fun abs_integer :: "integer_value \<Rightarrow> nat \<times> int" where
  "abs_integer (IntU8 x) = (8, uint x)"
| "abs_integer (IntU64 x) = (64, uint x)"
| "abs_integer (IntU128 x) = (128, uint x)"

definition abs_result :: "('a \<Rightarrow> 'b) \<Rightarrow> 'a vm_result \<Rightarrow> 'b vm_result" where
  "abs_result f r = rbind r (\<lambda>x. Ok (f x))"

definition in_range :: "nat \<Rightarrow> int option \<Rightarrow> (nat \<times> int) vm_result" where
  "in_range w result =
     (case result of
        Some n \<Rightarrow> if 0 \<le> n \<and> n < 2 ^ w then Ok (w, n) else Err (new_error ARITHMETIC_ERROR)
      | None \<Rightarrow> Err (new_error ARITHMETIC_ERROR))"

definition exact :: "(int \<Rightarrow> int \<Rightarrow> int option) \<Rightarrow> nat \<times> int \<Rightarrow> nat \<times> int \<Rightarrow> (nat \<times> int) vm_result" where
  "exact f x y =
     (if fst x = fst y then in_range (fst x) (f (snd x) (snd y)) else Err (new_error INTERNAL_TYPE_ERROR))"

text \<open>The operations on words of one width.\<close>

lemma uint_range: "0 \<le> uint (x :: 'a::len word)" "uint (x :: 'a::len word) < 2 ^ LENGTH('a)"
  by simp_all

definition word_result :: "'a::len word option \<Rightarrow> (nat \<times> int) vm_result" where
  "word_result res =
     (case res of Some x \<Rightarrow> Ok (LENGTH('a), uint x) | None \<Rightarrow> Err (new_error ARITHMETIC_ERROR))"

lemma word_arithmetic:
  fixes l r :: "'a::len word"
  shows "in_range LENGTH('a) (Some (uint l + uint r)) = word_result (checked_add l r)"
    and "in_range LENGTH('a) (Some (uint l - uint r)) = word_result (checked_sub l r)"
    and "in_range LENGTH('a) (Some (uint l * uint r)) = word_result (checked_mul l r)"
    and "in_range LENGTH('a) (if uint r = 0 then None else Some (uint l div uint r)) = word_result (checked_div l r)"
    and "in_range LENGTH('a) (if uint r = 0 then None else Some (uint l mod uint r)) = word_result (checked_rem l r)"
proof -
  have numbers: "uint l + uint r = int (unat l + unat r)" "uint l * uint r = int (unat l * unat r)" by simp_all
  have nat_less: "unat l + unat r < 2 ^ LENGTH('a) \<longleftrightarrow> uint l + uint r < 2 ^ LENGTH('a)"
    "unat l * unat r < 2 ^ LENGTH('a) \<longleftrightarrow> uint l * uint r < 2 ^ LENGTH('a)"
    by (simp_all only: numbers of_nat_less_numeral_power_cancel_iff)
  show "in_range LENGTH('a) (Some (uint l + uint r)) = word_result (checked_add l r)"
    by (simp add: in_range_def word_result_def checked_add_def nat_less uint_word_ariths)
  show "in_range LENGTH('a) (Some (uint l - uint r)) = word_result (checked_sub l r)"
    using uint_range[of l] uint_range(1)[of r]
    by (auto simp: in_range_def word_result_def checked_sub_def word_le_def uint_word_ariths)
  show "in_range LENGTH('a) (Some (uint l * uint r)) = word_result (checked_mul l r)"
    by (simp add: in_range_def word_result_def checked_mul_def nat_less uint_word_ariths)
  have "uint l div uint r < 2 ^ LENGTH('a)" "0 \<le> uint l div uint r"
    using uint_range[of "l div r"] by (simp_all add: uint_div)
  then show "in_range LENGTH('a) (if uint r = 0 then None else Some (uint l div uint r)) = word_result (checked_div l r)"
    by (simp add: in_range_def word_result_def checked_div_def uint_div unsigned_eq_0_iff)
  have "uint l mod uint r < 2 ^ LENGTH('a)" "0 \<le> uint l mod uint r"
    using uint_range[of "l mod r"] by (simp_all add: uint_mod)
  then show "in_range LENGTH('a) (if uint r = 0 then None else Some (uint l mod uint r)) = word_result (checked_rem l r)"
    by (simp add: in_range_def word_result_def checked_rem_def uint_mod unsigned_eq_0_iff)
qed

lemma abs_word_result:
  "abs_result abs_integer (ok_or (new_error ARITHMETIC_ERROR) (map_option IntU8 x)) = word_result x"
  "abs_result abs_integer (ok_or (new_error ARITHMETIC_ERROR) (map_option IntU64 y)) = word_result y"
  "abs_result abs_integer (ok_or (new_error ARITHMETIC_ERROR) (map_option IntU128 z)) = word_result z"
  by (cases x; cases y; cases z; simp add: abs_result_def ok_or_def word_result_def)+

lemma abs_result_simps [simp]: "abs_result f (Ok x) = Ok (f x)" "abs_result f (Err e) = Err e"
  by (simp_all add: abs_result_def)

lemma word_shift:
  fixes x :: "'a::len word"
  shows "uint (push_bit n x) = uint x * 2 ^ n mod 2 ^ LENGTH('a)" "uint (drop_bit n x) = uint x div 2 ^ n"
  by (subst unsigned_push_bit_eq, simp add: push_bit_eq_mult take_bit_eq_mod)
     (subst unsigned_drop_bit_eq, simp add: drop_bit_eq_div take_bit_int_eq_self)

lemma widths: "LENGTH(8) = 8" "LENGTH(64) = 64" "LENGTH(128) = 128"
  by simp_all

lemmas arithmetic_widths = word_arithmetic[where 'a = 8, unfolded widths]
  word_arithmetic[where 'a = 64, unfolded widths] word_arithmetic[where 'a = 128, unfolded widths]

lemma word_bits:
  fixes l r :: "'a::len word"
  shows "in_range LENGTH('a) (Some (uint l OR uint r)) = Ok (LENGTH('a), uint (l OR r))"
    "in_range LENGTH('a) (Some (uint l AND uint r)) = Ok (LENGTH('a), uint (l AND r))"
    "in_range LENGTH('a) (Some (uint l XOR uint r)) = Ok (LENGTH('a), uint (l XOR r))"
  using uint_range(2)[of "l OR r"] uint_range(2)[of "l AND r"] uint_range(2)[of "l XOR r"]
  by (simp_all add: in_range_def unsigned_or_eq unsigned_and_eq unsigned_xor_eq)

lemmas bits_widths = word_bits[where 'a = 8, unfolded widths] word_bits[where 'a = 64, unfolded widths]
  word_bits[where 'a = 128, unfolded widths]

lemma bits_exact:
  "abs_result abs_integer (bit_or l r) = exact (\<lambda>x y. Some (x OR y)) (abs_integer l) (abs_integer r)"
  "abs_result abs_integer (bit_and l r) = exact (\<lambda>x y. Some (x AND y)) (abs_integer l) (abs_integer r)"
  "abs_result abs_integer (bit_xor l r) = exact (\<lambda>x y. Some (x XOR y)) (abs_integer l) (abs_integer r)"
  by (cases l; cases r; simp add: bit_or_def bit_and_def bit_xor_def exact_def bits_widths)+

lemma shifts_exact:
  "abs_result abs_integer (shl_checked x n) =
     (case abs_integer x of (w, a) \<Rightarrow>
        if unat n < w then Ok (w, a * 2 ^ unat n mod 2 ^ w) else Err (new_error ARITHMETIC_ERROR))"
  "abs_result abs_integer (shr_checked x n) =
     (case abs_integer x of (w, a) \<Rightarrow>
        if unat n < w then Ok (w, a div 2 ^ unat n) else Err (new_error ARITHMETIC_ERROR))"
  by (cases x; simp add: shl_checked_def shr_checked_def word_shift word_le_nat_alt)+

lemma comparisons_exact:
  assumes "fst (abs_integer x) = fst (abs_integer y)"
  shows "integer_lt x y = Ok (snd (abs_integer x) < snd (abs_integer y))"
    "integer_le x y = Ok (snd (abs_integer x) \<le> snd (abs_integer y))"
    "integer_gt x y = Ok (snd (abs_integer x) > snd (abs_integer y))"
    "integer_ge x y = Ok (snd (abs_integer x) \<ge> snd (abs_integer y))"
  using assms
  by (cases x; cases y; simp add: integer_lt_def integer_le_def integer_gt_def integer_ge_def word_less_def word_le_def)+

lemma comparisons_mixed:
  assumes "fst (abs_integer x) \<noteq> fst (abs_integer y)"
  shows "integer_lt x y = Err (new_error INTERNAL_TYPE_ERROR)" "integer_le x y = Err (new_error INTERNAL_TYPE_ERROR)"
    "integer_gt x y = Err (new_error INTERNAL_TYPE_ERROR)" "integer_ge x y = Err (new_error INTERNAL_TYPE_ERROR)"
  using assms
  by (cases x; cases y; simp add: integer_lt_def integer_le_def integer_gt_def integer_ge_def)+

lemma uint_ucast: "uint x < 2 ^ LENGTH('b) \<Longrightarrow> uint (ucast (x :: 'a::len word) :: 'b::len word) = uint x"
  by (simp add: unsigned_ucast_eq take_bit_int_eq_self)

lemma uint_below: "uint (x :: u8) < 256" "uint (y :: u64) < 18446744073709551616"
    "uint (z :: u128) < 340282366920938463463374607431768211456"
  using uint_range(2)[of x] uint_range(2)[of y] uint_range(2)[of z] by simp_all

lemma casts_exact:
  "abs_result (\<lambda>z. (8, uint z)) (cast_u8 x) = in_range 8 (Some (snd (abs_integer x)))"
  "abs_result (\<lambda>z. (64, uint z)) (cast_u64 x) = in_range 64 (Some (snd (abs_integer x)))"
  "abs_result (\<lambda>z. (128, uint z)) (cast_u128 x) = in_range 128 (Some (snd (abs_integer x)))"
  using uint_below
  by (cases x; auto simp: cast_u8_def cast_u64_def cast_u128_def in_range_def word_less_def uint_ucast
      intro: less_trans)+

text \<open>
  C10: The arithmetic of the virtual machine is exact. Adding, subtracting, multiplying, dividing and
  taking remainders of integers of the same type gives the result on unbounded numbers if the type
  can hold it, and an arithmetic error if it cannot or the divisor is zero; integers of different
  types are an internal type error.
\<close>

theorem integer_arithmetic_exact:
  "abs_result abs_integer (add_checked l r) = exact (\<lambda>x y. Some (x + y)) (abs_integer l) (abs_integer r) \<and>
   abs_result abs_integer (sub_checked l r) = exact (\<lambda>x y. Some (x - y)) (abs_integer l) (abs_integer r) \<and>
   abs_result abs_integer (mul_checked l r) = exact (\<lambda>x y. Some (x * y)) (abs_integer l) (abs_integer r) \<and>
   abs_result abs_integer (div_checked l r) =
     exact (\<lambda>x y. if y = 0 then None else Some (x div y)) (abs_integer l) (abs_integer r) \<and>
   abs_result abs_integer (rem_checked l r) =
     exact (\<lambda>x y. if y = 0 then None else Some (x mod y)) (abs_integer l) (abs_integer r)"
  unfolding add_checked_def sub_checked_def mul_checked_def div_checked_def rem_checked_def
  by (intro conjI; cases l; cases r;
      simp add: exact_def abs_word_result arithmetic_widths split del: if_split cong del: if_weak_cong)

text \<open>
  C35: Bitwise operations, shifts, comparisons and conversions of integers compute what they should on the
  numbers. A bitwise operation on integers of the same type is that on their numbers. A shift by at least
  the width is an arithmetic error; by fewer bits, a shift to the right is the division by a power of
  two, and a shift to the left is the multiplication by one modulo the width: the bits that are
  shifted out are lost without an error. A comparison of integers of the same type compares their
  numbers. Bitwise operations and comparisons on different types are type errors. A conversion keeps the
  number, or is an arithmetic error if the target cannot hold it.
\<close>

theorem integer_conversions_exact:
  "abs_result abs_integer (bit_or x y) = exact (\<lambda>a b. Some (a OR b)) (abs_integer x) (abs_integer y) \<and>
   abs_result abs_integer (bit_and x y) = exact (\<lambda>a b. Some (a AND b)) (abs_integer x) (abs_integer y) \<and>
   abs_result abs_integer (bit_xor x y) = exact (\<lambda>a b. Some (a XOR b)) (abs_integer x) (abs_integer y) \<and>
   abs_result abs_integer (shl_checked x n) =
     (case abs_integer x of (w, a) \<Rightarrow>
        if unat n < w then Ok (w, a * 2 ^ unat n mod 2 ^ w) else Err (new_error ARITHMETIC_ERROR)) \<and>
   abs_result abs_integer (shr_checked x n) =
     (case abs_integer x of (w, a) \<Rightarrow>
        if unat n < w then Ok (w, a div 2 ^ unat n) else Err (new_error ARITHMETIC_ERROR)) \<and>
   integer_lt x y = (if fst (abs_integer x) = fst (abs_integer y)
     then Ok (snd (abs_integer x) < snd (abs_integer y)) else Err (new_error INTERNAL_TYPE_ERROR)) \<and>
   integer_le x y = (if fst (abs_integer x) = fst (abs_integer y)
     then Ok (snd (abs_integer x) \<le> snd (abs_integer y)) else Err (new_error INTERNAL_TYPE_ERROR)) \<and>
   integer_gt x y = (if fst (abs_integer x) = fst (abs_integer y)
     then Ok (snd (abs_integer x) > snd (abs_integer y)) else Err (new_error INTERNAL_TYPE_ERROR)) \<and>
   integer_ge x y = (if fst (abs_integer x) = fst (abs_integer y)
     then Ok (snd (abs_integer x) \<ge> snd (abs_integer y)) else Err (new_error INTERNAL_TYPE_ERROR)) \<and>
   abs_result (\<lambda>z. (8, uint z)) (cast_u8 x) = in_range 8 (Some (snd (abs_integer x))) \<and>
   abs_result (\<lambda>z. (64, uint z)) (cast_u64 x) = in_range 64 (Some (snd (abs_integer x))) \<and>
   abs_result (\<lambda>z. (128, uint z)) (cast_u128 x) = in_range 128 (Some (snd (abs_integer x)))"
  by (simp add: bits_exact shifts_exact casts_exact comparisons_exact comparisons_mixed)

end
