(* ===== verification/Spec2Isabelle.thy ===== *)
theory Spec2Isabelle
  imports Locals_Safety Stack_Usage Instruction_Consistency Signature_Checker Acquires Check_Duplication
    Type_Safety Field_Abilities Module_Rules Struct_Defs Instantiation_Loops Binary_Properties
    Cyclic_Dependencies Integer_Values
begin

text \<open>
  A verification development for the bytecode format and the bytecode verifier of the Move language.

  \<^bold>\<open>The program.\<close> A Move module or script reaches the virtual machine as a sequence of bytes. It is
  deserialized (\<^verbatim>\<open>move-binary-format/src/deserializer.rs\<close>), checked for indices out of range
  (\<^verbatim>\<open>check_bounds.rs\<close>), and then verified by the passes of \<^verbatim>\<open>move-bytecode-verifier/src\<close>: passes over the
  tables of a module, and passes over every function body, which first builds the control flow
  graph of the body, and of which the flow-sensitive ones run in a shared abstract interpreter. A
  module that is accepted is executed by the virtual machine (\<^verbatim>\<open>move-vm\<close>). The serializer
  (\<^verbatim>\<open>serializer.rs\<close>) is the way back to bytes. All paths are relative to \<^verbatim>\<open>src/language\<close>.

  \<^bold>\<open>How the code is modelled.\<close> A function that returns \<^verbatim>\<open>Result<T, E>\<close> has a value of type
  \<open>('a, 'e) result\<close>, which is \<open>Ok\<close>, \<open>Err\<close> or \<open>Panic\<close>: a failing index, \<^verbatim>\<open>unwrap\<close>, assertion or
  \<^verbatim>\<open>unreachable!\<close> is a value that theorems speak about. Structs are records, enums are datatypes,
  machine integers are words of their width, \<^verbatim>\<open>usize\<close> is a natural number with the checks that the
  code makes, mutable arguments are passed and returned, \<^verbatim>\<open>BTreeMap\<close> and \<^verbatim>\<open>BTreeSet\<close> are sorted lists.
  Of an error the status, sub-status, indices and offsets are kept; messages are left out. Code
  that is not in the repository is an argument with a law: the topological sort and the strongly
  connected components of the crate \<^verbatim>\<open>petgraph\<close> (\<open>toposort_law\<close>, \<open>tarjan_law\<close>).

  \<^bold>\<open>The shared layer.\<close>
  \<^item> \<open>Prelude\<close>: outcomes, sequencing, loops over vectors, and the collections of rules about them.
  \<^item> \<open>Errors\<close>, \<open>Bytecode\<close>, \<open>Abilities\<close>, \<open>File_Format\<close>: \<^verbatim>\<open>errors.rs\<close>, \<^verbatim>\<open>file_format.rs\<close> and the status codes.
  \<^item> \<open>Binary_Views\<close>, \<open>Module_Access\<close>, \<open>Function_View\<close>: \<^verbatim>\<open>binary_views.rs\<close> and \<^verbatim>\<open>access.rs\<close>.
  \<^item> \<open>BTree\<close>: ordered maps and sets, with the interface \<open>ordered_map\<close> and its interpretation.
  \<^item> \<open>Example_Module\<close>: a module on which theorems with hypotheses are instantiated.

  \<^bold>\<open>The binary format.\<close>
  \<^item> \<open>Binary_Format\<close> models \<^verbatim>\<open>file_format_common.rs\<close>, \<open>Serializer\<close> models \<^verbatim>\<open>serializer.rs\<close>, \<open>Deserializer\<close>
    models \<^verbatim>\<open>deserializer.rs\<close> and the validity of identifiers.
  \<^item> \<open>Uleb128\<close>: variable length integers; the reader accepts exactly what the writer produces.
  \<^item> \<open>Binary_Codec\<close> holds the contract between a writer and a reader, the locales \<open>codec\<close> and
    \<open>table_codec\<close>; \<open>Token_Codec\<close>, \<open>Entry_Codecs\<close>, \<open>Code_Codec\<close> and \<open>Table_Codecs\<close> interpret it on the
    entries of every table, down to types and instructions.
  \<^item> \<open>Binary_Loading\<close>: on arbitrary bytes the deserializer does not panic, and what it returns
    satisfies the invariants of the entries.
  \<^item> \<open>Binary_Round_Trip\<close> and \<open>Module_Round_Trip\<close>: the table of contents and the tables that the
    serializer lays out are accepted and loaded; \<open>Serializer_Limits\<close>: serialization succeeds within
    the limits of the format; \<open>Binary_Properties\<close>: the round trips of modules and scripts, the
    stability of what was loaded, and the type for which the round trip fails.

  \<^bold>\<open>Control flow and the abstract interpreter.\<close>
  \<^item> \<open>Control_Flow\<close>: \<^verbatim>\<open>control_flow.rs\<close>; accepted code is structured, and the pass does not panic.
  \<^item> \<open>Control_Flow_Graph\<close>, \<open>Cfg_Traversal\<close>: \<^verbatim>\<open>control_flow_graph.rs\<close>; the blocks, their successors, the
    reachable blocks, and the traversal order as a reverse post-order (the locale \<open>flow_graph\<close>).
  \<^item> \<open>Absint\<close>: \<^verbatim>\<open>absint.rs\<close>; the iteration reaches a fixed point that covers every execution, proved
    once for any domain in a locale.

  \<^bold>\<open>The passes.\<close>
  \<^item> \<open>Check_Bounds\<close> and \<open>In_Bounds\<close>: the bounds checker accepts exactly the modules and scripts whose
    indices are in range, and what later passes take from that. In a script the operands that name
    struct definitions, fields or their instantiations are not checked, as scripts have no tables of them.
  \<^item> \<open>Locals_Safety\<close>, \<open>Stack_Usage\<close>, \<open>Type_Safety\<close>: soundness over executions of a body; no panics. The
    balance of the operand stack, and with it the soundness of the types along paths, has the hypothesis
    \<open>pushes_bounded\<close>: each instruction pushes fewer than \<open>2 ^ 48\<close> values. No pass checks it, and by
    \<open>stack_usage_counter_wraps\<close> a bound is needed. That nothing is popped below the stack of the caller and
    that the type checker does not panic hold without it.
  \<^item> \<open>Signature_Checker\<close>, \<open>Instruction_Consistency\<close>, \<open>Check_Duplication\<close>: exact descriptions of what is
    accepted.
  \<^item> \<open>Acquires\<close>, \<open>Field_Abilities\<close>, \<open>Struct_Defs\<close>, \<open>Instantiation_Loops\<close>, \<open>Cyclic_Dependencies\<close>: what an
    accepted module guarantees across calls, types, instances and modules.
  \<^item> \<open>Module_Rules\<close>: constants, friends, and signatures of entry points.

  \<^bold>\<open>The virtual machine.\<close> \<open>Integer_Values\<close>: the arithmetic of the integers of \<^verbatim>\<open>values_impl.rs\<close> refines
  that on unbounded numbers, with errors in place of overflows; bitwise operations, shifts (those to the left
  drop the bits that are shifted out), comparisons and conversions are described on the numbers.

  \<^bold>\<open>Loops and bounds.\<close> Loops are structural recursions or have termination proofs. The loops of the
  deserializer that read entries until the end of a table (\<open>load_while\<close>) are bounded by the size of
  the table, since every entry takes at least one byte; running out of the bound is \<open>Panic\<close>, so that
  \<open>deserialize_never_panics\<close> also shows that the bound is enough. The iteration of the abstract
  interpreter and the search for cyclic dependencies may run forever in general and have optional
  values; that they return is part of the theorems \<open>locals_safety_returns\<close> and
  \<open>cyclic_verify_module_spec\<close>. Counters and offsets keep their width, so that the height counter of
  the stack usage pass wraps around.

  \<^bold>\<open>Deviations found.\<close> Theorems that show where the code does not do what it means to do:
  \<open>vec_pack_unchecked\<close>, \<open>stack_usage_counter_wraps\<close>, \<open>nested_constraints_unchecked\<close>,
  \<open>native_functions_hide_loops\<close> and \<open>empty_instantiation_misread\<close>.

  \<^bold>\<open>Not modelled.\<close> Reference safety with its borrow graph, and therefore the driver that runs all
  passes (\<^verbatim>\<open>verifier.rs\<close>, \<^verbatim>\<open>code_unit_verifier.rs\<close>); the comparison of a module with the modules it
  imports (\<^verbatim>\<open>dependencies.rs\<close>) and with its earlier versions (\<^verbatim>\<open>normalized.rs\<close>, \<^verbatim>\<open>compatibility.rs\<close>); the
  interpreter, loader, sessions and storage of the virtual machine, and its values other than
  integers, which share mutable containers; the compiler, the model and the prover, whose output
  the verifier checks or which call external solvers; the standard library with its native
  functions; the command line tools, the language server, the translation to Yul and the
  extensions. Arguments of \<^verbatim>\<open>usize\<close> that exceed the address space, allocation failures and the
  depth of the Rust stack are outside the model.
\<close>

end
